(* ===== verification/Prelude.thy ===== *)
theory Prelude
  imports Complex_Main "HOL-Library.Word" "HOL-Library.Multiset"
begin

text \<open>
  What every component shares.

  \<^item> The representation of the Rust types the sources use: identifiers, time stamps,
    unsigned integers, strings, JSON values and \<open>Result\<close>.
  \<^item> \<open>std::collections::HashMap\<close> as an association list with distinct keys. The order of
    the list stands for the iteration order of the table, which Rust leaves unspecified:
    every statement about an iterating operation holds for every list, so for every order.
    The interface the components use is the locale \<open>hash_map\<close>.
  \<^item> Two contracts that several components have in common: a table of legal state changes
    (\<open>state_machine\<close>) and an object that keeps a log of the changes it made
    (\<open>logged_machine\<close>).
\<close>

section \<open>Rust types\<close>

text \<open>
  A \<open>Uuid\<close> is only compared for equality, and a new one is an argument of the operation
  that draws it. A time stamp (\<open>DateTime<Utc>\<close>, \<open>Instant\<close>) counts nanoseconds. A string is
  the list of its Unicode scalar values, of which \<^typ>\<open>char\<close> shows the first 256.
\<close>

type_synonym uuid = nat
type_synonym time = int
type_synonym u32 = "32 word"
type_synonym u64 = "64 word"

text \<open>A value of \<open>serde_json::Value\<close>; numbers are opaque to the code that is modelled.\<close>

datatype json =
    JNull
  | JBool bool
  | JNumber int
  | JString string
  | JArray "json list"
  | JObject "(string \<times> json) list"

definition json_get :: "string \<Rightarrow> json \<Rightarrow> json option" where
  "json_get k j = (case j of JObject kvs \<Rightarrow> map_of kvs k | _ \<Rightarrow> None)"

definition json_as_str :: "json \<Rightarrow> string option" where
  "json_as_str j = (case j of JString s \<Rightarrow> Some s | _ \<Rightarrow> None)"

text \<open>\<open>str::replace\<close> of one character by another.\<close>

definition replace_char :: "char \<Rightarrow> char \<Rightarrow> string \<Rightarrow> string" where
  "replace_char c d s = map (\<lambda>x. if x = c then d else x) s"

text \<open>
  Decimal numerals, as \<open>format!\<close> prints them. Messages show identifiers in the same form,
  in the place of the hyphenated form of a \<open>Uuid\<close>.
\<close>

fun show_nat :: "nat \<Rightarrow> string" where
  "show_nat n =
     (if n < 10 then [char_of (48 + n)] else show_nat (n div 10) @ [char_of (48 + n mod 10)])"

declare show_nat.simps [simp del]

definition show_int :: "int \<Rightarrow> string" where
  "show_int i = (if i < 0 then CHR ''-'' # show_nat (nat (- i)) else show_nat (nat i))"

text \<open>
  Byte lengths and slices. A Rust string is indexed by bytes of its UTF-8 form, in which a
  scalar value below 128 takes one byte and one from 128 to 255 two; slicing at an offset
  that is not a character boundary panics.
\<close>

definition utf8_len :: "char \<Rightarrow> nat" where
  "utf8_len c = (if (of_char c :: nat) < 128 then 1 else 2)"

primrec byte_len :: "string \<Rightarrow> nat" where
  "byte_len [] = 0"
| "byte_len (c # cs) = utf8_len c + byte_len cs"

fun is_char_boundary :: "string \<Rightarrow> nat \<Rightarrow> bool" where
  "is_char_boundary [] n = (n = 0)"
| "is_char_boundary (c # cs) n = (n = 0 \<or> utf8_len c \<le> n \<and> is_char_boundary cs (n - utf8_len c))"

text \<open>\<open>&s[..n]\<close>, for a character boundary \<open>n\<close>.\<close>

fun take_bytes :: "nat \<Rightarrow> string \<Rightarrow> string" where
  "take_bytes n [] = []"
| "take_bytes n (c # cs) = (if n = 0 then [] else c # take_bytes (n - utf8_len c) cs)"

text \<open>The loop that moves an offset down to a character boundary.\<close>

fun floor_char_boundary :: "string \<Rightarrow> nat \<Rightarrow> nat" where
  "floor_char_boundary s 0 = 0"
| "floor_char_boundary s (Suc n) =
     (if is_char_boundary s (Suc n) then Suc n else floor_char_boundary s n)"

text \<open>\<open>Duration\<close> in its debug format; a duration is a number of nanoseconds.\<close>

definition strip_zeros :: "string \<Rightarrow> string" where
  "strip_zeros s = rev (dropWhile (\<lambda>c. c = CHR ''0'') (rev s))"

definition show_decimal :: "nat \<Rightarrow> nat \<Rightarrow> nat \<Rightarrow> string" where
  "show_decimal whole part width =
     (let digits = show_nat part;
          padded = replicate (width - length digits) (CHR ''0'') @ digits
      in show_nat whole @ (if part = 0 then [] else CHR ''.'' # strip_zeros padded))"

definition debug_duration :: "nat \<Rightarrow> string" where
  "debug_duration d =
     (if d \<ge> 1000000000 then show_decimal (d div 1000000000) (d mod 1000000000) 9 @ ''s''
      else if d \<ge> 1000000 then show_decimal (d div 1000000) (d mod 1000000) 6 @ ''ms''
      else if d \<ge> 1000 then show_decimal (d div 1000) (d mod 1000) 3 @ [CHR 0xB5, CHR ''s'']
      else show_nat d @ ''ns'')"

named_theorems hm_simps \<open>lookups in hash maps after each operation\<close>
named_theorems lease_simps \<open>the fields of a lease after each operation\<close>
named_theorems thread_simps \<open>the fields of a thread after each operation\<close>
named_theorems invariant_intros \<open>the operations that keep a component's invariant\<close>

section \<open>Hash maps\<close>

type_synonym ('k, 'v) hmap = "('k \<times> 'v) list"

abbreviation hm_get :: "('k, 'v) hmap \<Rightarrow> 'k \<Rightarrow> 'v option" where
  "hm_get m k \<equiv> map_of m k"

abbreviation hm_wf :: "('k, 'v) hmap \<Rightarrow> bool" where
  "hm_wf m \<equiv> distinct (map fst m)"

abbreviation hm_values :: "('k, 'v) hmap \<Rightarrow> 'v list" where
  "hm_values m \<equiv> map snd m"

fun hm_insert :: "'k \<Rightarrow> 'v \<Rightarrow> ('k, 'v) hmap \<Rightarrow> ('k, 'v) hmap" where
  "hm_insert k v [] = [(k, v)]"
| "hm_insert k v ((k', v') # m) =
     (if k' = k then (k, v) # m else (k', v') # hm_insert k v m)"

definition hm_remove :: "'k \<Rightarrow> ('k, 'v) hmap \<Rightarrow> ('k, 'v) hmap" where
  "hm_remove k m = filter (\<lambda>p. fst p \<noteq> k) m"

text \<open>\<open>get_mut\<close> followed by an update of the value in place.\<close>

definition hm_modify :: "'k \<Rightarrow> ('v \<Rightarrow> 'v) \<Rightarrow> ('k, 'v) hmap \<Rightarrow> ('k, 'v) hmap" where
  "hm_modify k f m = map (\<lambda>p. if fst p = k then (k, f (snd p)) else p) m"

definition hm_retain :: "('v \<Rightarrow> bool) \<Rightarrow> ('k, 'v) hmap \<Rightarrow> ('k, 'v) hmap" where
  "hm_retain P m = filter (\<lambda>p. P (snd p)) m"

text \<open>Lookups stay lookups: the library would turn them into membership.\<close>

declare map_of_eq_Some_iff [simp del] Some_eq_map_of_iff [simp del]

lemma hm_get_insert [simp, hm_simps]:
  "hm_get (hm_insert k v m) k' = (if k' = k then Some v else hm_get m k')"
  by (induction k v m rule: hm_insert.induct) auto

lemma hm_get_remove [simp, hm_simps]:
  "hm_get (hm_remove k m) k' = (if k' = k then None else hm_get m k')"
  by (induction m) (auto simp: hm_remove_def)

lemma hm_get_modify [simp, hm_simps]:
  "hm_get (hm_modify k f m) k' = (if k' = k then map_option f (hm_get m k) else hm_get m k')"
  by (induction m) (auto simp: hm_modify_def)

lemma hm_keys_insert [simp]: "set (map fst (hm_insert k v m)) = insert k (set (map fst m))"
  by (induction k v m rule: hm_insert.induct) auto

lemma hm_keys_modify [simp]: "map fst (hm_modify k f m) = map fst m"
  by (induction m) (auto simp: hm_modify_def)

lemma hm_wf_insert [simp, intro]: "hm_wf m \<Longrightarrow> hm_wf (hm_insert k v m)"
proof (induction k v m rule: hm_insert.induct)
  case (2 k v k' v' m)
  moreover have "k' \<notin> set (map fst m) \<Longrightarrow> k' \<noteq> k \<Longrightarrow> k' \<notin> set (map fst (hm_insert k v m))"
    by (simp only: hm_keys_insert) simp
  ultimately show ?case by auto
qed simp

lemma hm_wf_filter [simp, intro]: "hm_wf m \<Longrightarrow> hm_wf (filter P m)"
  by (induction m) auto

lemma hm_wf_remove [simp, intro]: "hm_wf m \<Longrightarrow> hm_wf (hm_remove k m)"
  by (simp add: hm_remove_def)

lemma hm_wf_modify [simp]: "hm_wf (hm_modify k f m) = hm_wf m"
  by simp

lemma hm_wf_retain [simp, intro]: "hm_wf m \<Longrightarrow> hm_wf (hm_retain P m)"
  by (simp add: hm_retain_def)

lemma hm_get_filter:
  "hm_wf m \<Longrightarrow>
   hm_get (filter (\<lambda>p. P (snd p)) m) k =
     (case hm_get m k of None \<Rightarrow> None | Some v \<Rightarrow> if P v then Some v else None)"
proof (induction m)
  case (Cons p m)
  then have "fst p \<notin> set (map fst m)" by simp
  then have "hm_get m (fst p) = None"
    by (simp add: map_of_eq_None_iff)
  with Cons show ?case by (cases p) (auto split: option.splits)
qed simp

lemma hm_get_retain [hm_simps]:
  "hm_wf m \<Longrightarrow>
   hm_get (hm_retain P m) k =
     (case hm_get m k of None \<Rightarrow> None | Some v \<Rightarrow> if P v then Some v else None)"
  by (simp add: hm_retain_def hm_get_filter)

lemma hm_modify_absent: "hm_get m k = None \<Longrightarrow> hm_modify k f m = m"
  by (induction m) (auto simp: hm_modify_def split: if_splits)

text \<open>A table keyed by a field of its values, and a table contained in another.\<close>

definition hm_keyed :: "('v \<Rightarrow> 'k) \<Rightarrow> ('k, 'v) hmap \<Rightarrow> bool" where
  "hm_keyed key m \<longleftrightarrow> hm_wf m \<and> (\<forall>k v. hm_get m k = Some v \<longrightarrow> key v = k)"

definition hm_le :: "('k, 'v) hmap \<Rightarrow> ('k, 'v) hmap \<Rightarrow> bool" where
  "hm_le m m' \<longleftrightarrow> (\<forall>k v. hm_get m k = Some v \<longrightarrow> hm_get m' k = Some v)"

lemma hm_keyed_wf: "hm_keyed key m \<Longrightarrow> hm_wf m"
  by (simp add: hm_keyed_def)

lemma hm_keyed_get: "hm_keyed key m \<Longrightarrow> hm_get m k = Some v \<Longrightarrow> key v = k"
  by (simp add: hm_keyed_def)

lemma hm_keyed_Nil [simp]: "hm_keyed key []"
  by (simp add: hm_keyed_def)

lemma hm_keyed_insert [intro]: "hm_keyed key m \<Longrightarrow> key v = k \<Longrightarrow> hm_keyed key (hm_insert k v m)"
  by (simp add: hm_keyed_def)

lemma hm_keyed_remove [intro]: "hm_keyed key m \<Longrightarrow> hm_keyed key (hm_remove k m)"
  by (simp add: hm_keyed_def)

lemma hm_keyed_modify [intro]:
  "hm_keyed key m \<Longrightarrow> (\<And>v. key (f v) = key v) \<Longrightarrow> hm_keyed key (hm_modify k f m)"
  by (auto simp: hm_keyed_def)

lemma hm_keyed_mem: "hm_keyed key m \<Longrightarrow> v \<in> set (hm_values m) \<longleftrightarrow> hm_get m (key v) = Some v"
  by (force simp: hm_keyed_def map_of_eq_Some_iff)

lemma keyed_values_distinct: "hm_keyed key m \<Longrightarrow> distinct (map key (hm_values m))"
proof -
  assume k: "hm_keyed key m"
  then have "map key (hm_values m) = map fst m"
    by (auto simp: hm_keyed_def map_of_eq_Some_iff)
  with hm_keyed_wf [OF k] show ?thesis by (simp only:)
qed

text \<open>Sorting a list of images is sorting by the composed key.\<close>

lemma insort_key_map: "insort_key f (h x) (map h ys) = map h (insort_key (f \<circ> h) x ys)"
  by (induction ys) simp_all

lemma sort_key_map: "sort_key f (map h xs) = map h (sort_key (f \<circ> h) xs)"
  by (induction xs) (simp_all add: insort_key_map comp_def)

lemma hm_le_get: "hm_le m m' \<Longrightarrow> hm_get m k = Some v \<Longrightarrow> hm_get m' k = Some v"
  by (simp add: hm_le_def)

lemma hm_le_Nil [simp]: "hm_le [] m"
  by (simp add: hm_le_def)

lemma hm_le_insert [intro]: "hm_le m m' \<Longrightarrow> hm_le (hm_insert k v m) (hm_insert k v m')"
  by (simp add: hm_le_def)

lemma hm_le_insert_known: "hm_le m m' \<Longrightarrow> hm_get m' k = Some v \<Longrightarrow> hm_le (hm_insert k v m) m'"
  by (simp add: hm_le_def)

lemma hm_le_remove [intro]: "hm_le m m' \<Longrightarrow> hm_le (hm_remove k m) m'"
  by (simp add: hm_le_def)

lemma hm_values_iff: "hm_wf m \<Longrightarrow> v \<in> set (hm_values m) \<longleftrightarrow> (\<exists>k. hm_get m k = Some v)"
  by (force simp: map_of_eq_Some_iff)

lemma hm_insert_new: "hm_get m k = None \<Longrightarrow> hm_insert k v m = m @ [(k, v)]"
  by (induction k v m rule: hm_insert.induct) (auto split: if_splits)

lemma length_hm_insert:
  "length (hm_insert k v m) = (if hm_get m k = None then Suc (length m) else length m)"
  by (induction k v m rule: hm_insert.induct) auto

text \<open>
  The interface of a hash map. The laws are what \<open>std::collections::HashMap\<close> documents of
  \<open>new\<close>, \<open>get\<close>, \<open>insert\<close>, \<open>remove\<close> and \<open>get_mut\<close>; the lemmas are those the components
  need of repeated insertion.
\<close>

locale hash_map =
  fixes empty :: 'm
    and get :: "'m \<Rightarrow> 'k \<Rightarrow> 'v option"
    and ins :: "'k \<Rightarrow> 'v \<Rightarrow> 'm \<Rightarrow> 'm"
    and rem :: "'k \<Rightarrow> 'm \<Rightarrow> 'm"
    and modify :: "'k \<Rightarrow> ('v \<Rightarrow> 'v) \<Rightarrow> 'm \<Rightarrow> 'm"
  assumes get_empty: "get empty k = None"
    and get_ins: "get (ins k v m) k' = (if k' = k then Some v else get m k')"
    and get_rem: "get (rem k m) k' = (if k' = k then None else get m k')"
    and get_modify: "get (modify k f m) k' = (if k' = k then map_option f (get m k) else get m k')"
begin

lemma get_ins_fold_other:
  "k \<notin> key ` set xs \<Longrightarrow> get (fold (\<lambda>x. ins (key x) (val x)) xs m) k = get m k"
  by (induction xs arbitrary: m) (auto simp: get_ins)

lemma get_ins_fold:
  assumes "distinct (map key xs)" "x \<in> set xs"
  shows "get (fold (\<lambda>x. ins (key x) (val x)) xs m) (key x) = Some (val x)"
  using assms
proof (induction xs arbitrary: m)
  case (Cons y ys)
  show ?case
  proof (cases "x \<in> set ys")
    case True
    with Cons show ?thesis by simp
  next
    case False
    with Cons.prems have "x = y" by simp
    with Cons.prems show ?thesis by (simp add: get_ins_fold_other get_ins)
  qed
qed simp

lemma get_rem_fold:
  "get (fold rem ks m) k = (if k \<in> set ks then None else get m k)"
  by (induction ks arbitrary: m) (auto simp: get_rem)

lemma get_ins_fold_mono:
  "get m k \<noteq> None \<Longrightarrow> get (fold (\<lambda>x. ins (key x) (val x)) xs m) k \<noteq> None"
  by (induction xs arbitrary: m) (auto simp: get_ins)

end

interpretation hm: hash_map "[]" map_of hm_insert hm_remove hm_modify
  by unfold_locales (simp_all add: hm_simps)

section \<open>State machines that log their transitions\<close>

text \<open>A log is a chain when every entry starts in the state where the one before it ended.\<close>

fun chain :: "('s \<times> 's) list \<Rightarrow> bool" where
  "chain [] = True"
| "chain [e] = True"
| "chain (e # f # es) = (snd e = fst f \<and> chain (f # es))"

lemma chain_snoc: "chain (es @ [e]) \<longleftrightarrow> chain es \<and> (es = [] \<or> snd (last es) = fst e)"
  by (induction es rule: chain.induct) auto

lemma chain_drop: "chain es \<Longrightarrow> chain (drop n es)"
proof (induction n arbitrary: es)
  case (Suc n)
  then have "chain (tl es)" by (cases es rule: chain.cases) auto
  with Suc.IH [of "tl es"] show ?case by (simp add: drop_Suc)
qed simp

locale state_machine =
  fixes can :: "'s \<Rightarrow> 's \<Rightarrow> bool"
    and terminal :: "'s \<Rightarrow> bool"
  assumes terminal_stuck: "terminal s \<Longrightarrow> \<not> can s t"

locale logged_machine = state_machine +
  fixes cur :: "'o \<Rightarrow> 's"
    and log :: "'o \<Rightarrow> ('s \<times> 's) list"
    and attempt :: "'a \<Rightarrow> 's \<Rightarrow> 'o \<Rightarrow> 'o option"
  assumes attempt_progress: "attempt a t x = None \<longleftrightarrow> \<not> can (cur x) t"
    and attempt_cur: "attempt a t x = Some y \<Longrightarrow> cur y = t"
    and attempt_log: "attempt a t x = Some y \<Longrightarrow>
          (t = cur x \<and> log y = log x) \<or>
          (\<exists>n \<le> length (log x). log y = drop n (log x @ [(cur x, t)]))"
begin

definition log_ok :: "'o \<Rightarrow> bool" where
  "log_ok x \<longleftrightarrow>
     chain (log x) \<and> (\<forall>e \<in> set (log x). can (fst e) (snd e)) \<and>
     (log x \<noteq> [] \<longrightarrow> snd (last (log x)) = cur x)"

lemma log_okI_empty: "log x = [] \<Longrightarrow> log_ok x"
  by (simp add: log_ok_def)

lemma log_ok_frame: "log_ok x \<Longrightarrow> cur y = cur x \<Longrightarrow> log y = log x \<Longrightarrow> log_ok y"
  by (simp add: log_ok_def)

lemma attempt_can: "attempt a t x = Some y \<Longrightarrow> can (cur x) t"
  using attempt_progress [of a t x] by auto

lemma attempt_log_ok:
  assumes ok: "log_ok x" and at: "attempt a t x = Some y"
  shows "log_ok y"
proof -
  let ?l = "log x @ [(cur x, t)]"
  have l: "chain ?l" "\<forall>e \<in> set ?l. can (fst e) (snd e)" "snd (last ?l) = t"
    using ok attempt_can [OF at] by (auto simp: log_ok_def chain_snoc)
  consider "t = cur x" "log y = log x"
    | n where "n \<le> length (log x)" "log y = drop n ?l"
    using attempt_log [OF at] by blast
  then show ?thesis
  proof cases
    case 1
    with ok attempt_cur [OF at] show ?thesis by (simp add: log_ok_def)
  next
    case 2
    then have "last (log y) = last ?l" by simp
    with l 2(2) chain_drop [OF l(1), of n] attempt_cur [OF at] show ?thesis
      unfolding log_ok_def by (metis in_set_dropD)
  qed
qed

lemma attempt_terminal: "terminal (cur x) \<Longrightarrow> attempt a t x = None"
  by (simp add: attempt_progress terminal_stuck)

end

section \<open>Small facts about lists, options and machine words\<close>

lemma find_Some_iff2: "find P xs = Some x \<Longrightarrow> x \<in> set xs \<and> P x"
  by (induction xs) (auto split: if_splits)

lemma find_None_iff2: "find P xs = None \<longleftrightarrow> (\<forall>x \<in> set xs. \<not> P x)"
  by (induction xs) auto

lemma find_exists: "x \<in> set xs \<Longrightarrow> P x \<Longrightarrow> \<exists>y. find P xs = Some y"
  using find_None_iff2 [of P xs] by (cases "find P xs") auto

lemma find_cong_pred: "(\<And>x. x \<in> set xs \<Longrightarrow> P x = Q x) \<Longrightarrow> find P xs = find Q xs"
  by (induction xs) auto

lemma unat_minus_one_u32: "(w :: u32) \<noteq> 0 \<Longrightarrow> unat (w - 1) = unat w - 1"
  by (rule unat_minus_one)

lemma unat_plus_one_u32: "(w :: u32) < m \<Longrightarrow> unat (w + 1) = unat w + 1"
  by unat_arith

lemma floor_char_boundary_le: "floor_char_boundary s n \<le> n"
  by (induction s n rule: floor_char_boundary.induct) auto

lemma floor_char_boundary_ok: "is_char_boundary s (floor_char_boundary s n)"
proof (induction s n rule: floor_char_boundary.induct)
  case (1 s)
  show ?case by (cases s) simp_all
qed simp

lemma take_bytes_boundary:
  "is_char_boundary s n \<Longrightarrow>
     byte_len (take_bytes n s) = n \<and> (\<exists>r. s = take_bytes n s @ r)"
  by (induction s n rule: is_char_boundary.induct) (auto simp: utf8_len_def)

lemma byte_len_append [simp]: "byte_len (s @ t) = byte_len s + byte_len t"
  by (induction s) simp_all

end
