(* ===== verification/Engine_Types.thy ===== *)
theory Engine_Types
  imports Prelude
begin

text \<open>
  The data types of the engine crate (\<open>ic/crates/lunarwing_engine/src/types\<close>): owners and
  tenants, provenance, capabilities and leases, messages, events, errors and gate
  resolutions, with the operations that are defined on them there. Records carry every
  field of the Rust struct; a prefix keeps field names of different structs apart.
\<close>

section \<open>Owners (types/mod.rs)\<close>

definition LEGACY_SHARED_OWNER_ID :: string where
  "LEGACY_SHARED_OWNER_ID = ''system''"

definition SHARED_OWNER_ID :: string where
  "SHARED_OWNER_ID = ''__shared__''"

datatype owner_id = OwnerShared | OwnerUser string

definition is_shared_owner :: "string \<Rightarrow> bool" where
  "is_shared_owner user_id \<longleftrightarrow> user_id = SHARED_OWNER_ID \<or> user_id = LEGACY_SHARED_OWNER_ID"

definition owner_from_user_id :: "string \<Rightarrow> owner_id" where
  "owner_from_user_id user_id =
     (if is_shared_owner user_id then OwnerShared else OwnerUser user_id)"

fun owner_matches_user :: "owner_id \<Rightarrow> string \<Rightarrow> bool" where
  "owner_matches_user OwnerShared user_id = False"
| "owner_matches_user (OwnerUser owner) user_id = (owner = user_id)"

fun owner_as_user_id :: "owner_id \<Rightarrow> string" where
  "owner_as_user_id OwnerShared = SHARED_OWNER_ID"
| "owner_as_user_id (OwnerUser u) = u"

lemma owner_matches_iff:
  "owner_matches_user (owner_from_user_id a) b \<longleftrightarrow> a = b \<and> \<not> is_shared_owner b"
  by (auto simp: owner_from_user_id_def)

section \<open>Identifiers and small enumerations\<close>

type_synonym thread_id = uuid
type_synonym project_id = uuid
type_synonym lease_id = uuid
type_synonym step_id = uuid
type_synonym event_id = uuid
type_synonym doc_id = uuid

datatype thread_state =
    ThCreated | ThRunning | ThWaiting | ThSuspended | ThCompleted | ThDone | ThFailed

datatype thread_type = Foreground | Research | MissionThread

datatype provenance =
    ProvUser
  | ProvSystem
  | ProvToolOutput string
  | ProvLlmGenerated
  | ProvMemoryRetrieval doc_id

section \<open>Capabilities (types/capability.rs)\<close>

datatype granted_actions = GrantAll | GrantSpecific "string list"

definition covers :: "granted_actions \<Rightarrow> string \<Rightarrow> bool" where
  "covers g action_name =
     (let hyphenated = replace_char (CHR ''_'') (CHR ''-'') action_name;
          underscored = replace_char (CHR ''-'') (CHR ''_'') action_name
      in case g of
           GrantAll \<Rightarrow> True
         | GrantSpecific actions \<Rightarrow>
             list_ex (\<lambda>a. a = action_name \<or> a = hyphenated \<or> a = underscored) actions)"

fun is_all :: "granted_actions \<Rightarrow> bool" where
  "is_all GrantAll = True"
| "is_all (GrantSpecific _) = False"

fun granted_names :: "granted_actions \<Rightarrow> string list" where
  "granted_names GrantAll = []"
| "granted_names (GrantSpecific actions) = actions"

text \<open>The serialized form of a grant is a JSON array of names.\<close>

fun serialize_grant :: "granted_actions \<Rightarrow> string list" where
  "serialize_grant GrantAll = []"
| "serialize_grant (GrantSpecific v) = v"

definition deserialize_grant :: "string list \<Rightarrow> granted_actions" where
  "deserialize_grant v = (if v = [] then GrantAll else GrantSpecific v)"

datatype effect_type =
    ReadLocal | ReadExternal | WriteLocal | WriteExternal | CredentialedNetwork
  | Compute | Financial

record action_def =
  ad_name :: string
  ad_description :: string
  ad_parameters_schema :: json
  ad_effects :: "effect_type list"
  ad_requires_approval :: bool

datatype policy_condition =
    Always
  | ActionMatches string
  | EffectTypeIs effect_type

datatype policy_effect = PolAllow | PolDeny | PolRequireApproval

record policy_rule =
  pr_name :: string
  pr_condition :: policy_condition
  pr_effect :: policy_effect

record capability =
  cap_name :: string
  cap_description :: string
  cap_actions :: "action_def list"
  cap_knowledge :: "string list"
  cap_policies :: "policy_rule list"

record capability_lease =
  ls_id :: lease_id
  ls_thread_id :: thread_id
  ls_capability_name :: string
  ls_granted_actions :: granted_actions
  ls_granted_at :: time
  ls_expires_at :: "time option"
  ls_max_uses :: "u32 option"
  ls_uses_remaining :: "u32 option"
  ls_revoked :: bool
  ls_revoked_reason :: "string option"

text \<open>\<open>now\<close> is the reading of \<open>Utc::now()\<close>.\<close>

definition is_valid :: "time \<Rightarrow> capability_lease \<Rightarrow> bool" where
  "is_valid now l =
     (if ls_revoked l then False
      else case ls_expires_at l of
             Some e \<Rightarrow>
               if now \<ge> e then False
               else (case ls_uses_remaining l of Some r \<Rightarrow> r \<noteq> 0 | None \<Rightarrow> True)
           | None \<Rightarrow> (case ls_uses_remaining l of Some r \<Rightarrow> r \<noteq> 0 | None \<Rightarrow> True))"

definition covers_action :: "capability_lease \<Rightarrow> string \<Rightarrow> bool" where
  "covers_action l action_name = covers (ls_granted_actions l) action_name"

text \<open>\<open>consume_use\<close> updates the lease and returns whether a use was left.\<close>

definition consume_use :: "capability_lease \<Rightarrow> bool \<times> capability_lease" where
  "consume_use l =
     (case ls_uses_remaining l of
        Some r \<Rightarrow> if r = 0 then (False, l) else (True, l\<lparr>ls_uses_remaining := Some (r - 1)\<rparr>)
      | None \<Rightarrow> (True, l))"

definition refund_use :: "capability_lease \<Rightarrow> capability_lease" where
  "refund_use l =
     (case (ls_max_uses l, ls_uses_remaining l) of
        (Some m, Some r) \<Rightarrow> if r < m then l\<lparr>ls_uses_remaining := Some (r + 1)\<rparr> else l
      | _ \<Rightarrow> l)"

section \<open>Calls, results and messages (types/step.rs, types/message.rs)\<close>

record action_call =
  ac_id :: string
  ac_action_name :: string
  ac_parameters :: json

record action_result =
  ar_call_id :: string
  ar_action_name :: string
  ar_output :: json
  ar_is_error :: bool
  ar_duration :: nat

record token_usage =
  tu_input_tokens :: u64
  tu_output_tokens :: u64
  tu_cache_read_tokens :: u64
  tu_cache_write_tokens :: u64
  tu_cost_usd :: real

datatype message_role = RoleSystem | RoleUser | RoleAssistant | RoleActionResult

record thread_message =
  tm_role :: message_role
  tm_content :: string
  tm_provenance :: provenance
  tm_action_call_id :: "string option"
  tm_action_name :: "string option"
  tm_action_calls :: "action_call list option"
  tm_timestamp :: time

definition msg_system :: "time \<Rightarrow> string \<Rightarrow> thread_message" where
  "msg_system now content =
     \<lparr>tm_role = RoleSystem, tm_content = content, tm_provenance = ProvSystem,
      tm_action_call_id = None, tm_action_name = None, tm_action_calls = None,
      tm_timestamp = now\<rparr>"

definition msg_user :: "time \<Rightarrow> string \<Rightarrow> thread_message" where
  "msg_user now content =
     \<lparr>tm_role = RoleUser, tm_content = content, tm_provenance = ProvUser,
      tm_action_call_id = None, tm_action_name = None, tm_action_calls = None,
      tm_timestamp = now\<rparr>"

definition msg_assistant :: "time \<Rightarrow> string \<Rightarrow> thread_message" where
  "msg_assistant now content =
     \<lparr>tm_role = RoleAssistant, tm_content = content, tm_provenance = ProvLlmGenerated,
      tm_action_call_id = None, tm_action_name = None, tm_action_calls = None,
      tm_timestamp = now\<rparr>"

definition msg_assistant_with_actions ::
    "time \<Rightarrow> string option \<Rightarrow> action_call list \<Rightarrow> thread_message" where
  "msg_assistant_with_actions now content calls =
     \<lparr>tm_role = RoleAssistant, tm_content = case_option [] (\<lambda>c. c) content,
      tm_provenance = ProvLlmGenerated, tm_action_call_id = None, tm_action_name = None,
      tm_action_calls = Some calls, tm_timestamp = now\<rparr>"

definition msg_action_result :: "time \<Rightarrow> string \<Rightarrow> string \<Rightarrow> string \<Rightarrow> thread_message" where
  "msg_action_result now call_id name content =
     \<lparr>tm_role = RoleActionResult, tm_content = content, tm_provenance = ProvToolOutput name,
      tm_action_call_id = Some call_id, tm_action_name = Some name, tm_action_calls = None,
      tm_timestamp = now\<rparr>"

section \<open>Gate resolutions (gate/mod.rs)\<close>

datatype resume_kind =
    Approval bool
  | Authentication string string "string option"
  | External string

datatype gate_decision =
    GateAllow
  | GatePause string resume_kind
  | GateDeny string

section \<open>Events (types/event.rs)\<close>

datatype event_kind =
    StateChanged thread_state thread_state "string option"
  | StepStarted step_id
  | StepCompleted step_id token_usage
  | StepFailed step_id string
  | ActionExecuted step_id string string u64 "string option"
  | ActionFailed step_id string string string "string option"
  | LeaseGrantedEvent lease_id string
  | LeaseRevokedEvent lease_id string
  | LeaseExpiredEvent lease_id
  | MessageAdded string string
  | ChildSpawned thread_id string
  | ChildCompletedEvent thread_id
  | ApprovalRequested string string "json option" "string option" "bool option"
      "string option" "string option"
  | ApprovalReceived string bool
  | SelfImprovementStarted
  | SelfImprovementComplete bool nat
  | SelfImprovementFailed string
  | SkillActivated "string list"
  | OrchestratorRollback u64 u64 string

record thread_event =
  ev_id :: event_id
  ev_thread_id :: thread_id
  ev_timestamp :: time
  ev_kind :: event_kind

definition new_event :: "event_id \<Rightarrow> time \<Rightarrow> thread_id \<Rightarrow> event_kind \<Rightarrow> thread_event" where
  "new_event eid now tid kind =
     \<lparr>ev_id = eid, ev_thread_id = tid, ev_timestamp = now, ev_kind = kind\<rparr>"

section \<open>Errors (types/error.rs)\<close>

datatype thread_error =
    AlreadyRunning thread_id
  | TerminalState thread_state
  | ParentNotRunning thread_id

datatype step_error = StepTimeout nat | ActionDenied string

datatype capability_error = CapabilityNotFound string | EffectDenied effect_type

datatype engine_error =
    ThreadErr thread_error
  | StepErr step_error
  | CapabilityErr capability_error
  | StoreErr string
  | LlmErr string
  | EffectErr string
  | InvalidTransition thread_state thread_state
  | ThreadNotFound thread_id
  | ProjectNotFound project_id
  | LeaseNotFound string
  | LeaseExpired string
  | LeaseDenied string
  | MaxIterationsErr nat
  | TokenLimitExceeded u64 u64
  | ConsecutiveErrors u32 u32
  | TimeoutErr nat nat
  | SkillErr string
  | AccessDenied string string
  | GatePausedErr string string string json resume_kind "json option"

fun thread_state_debug :: "thread_state \<Rightarrow> string" where
  "thread_state_debug ThCreated = ''Created''"
| "thread_state_debug ThRunning = ''Running''"
| "thread_state_debug ThWaiting = ''Waiting''"
| "thread_state_debug ThSuspended = ''Suspended''"
| "thread_state_debug ThCompleted = ''Completed''"
| "thread_state_debug ThDone = ''Done''"
| "thread_state_debug ThFailed = ''Failed''"

fun effect_debug :: "effect_type \<Rightarrow> string" where
  "effect_debug ReadLocal = ''ReadLocal''"
| "effect_debug ReadExternal = ''ReadExternal''"
| "effect_debug WriteLocal = ''WriteLocal''"
| "effect_debug WriteExternal = ''WriteExternal''"
| "effect_debug CredentialedNetwork = ''CredentialedNetwork''"
| "effect_debug Compute = ''Compute''"
| "effect_debug Financial = ''Financial''"

fun thread_error_display :: "thread_error \<Rightarrow> string" where
  "thread_error_display (AlreadyRunning t) = ''thread already running: '' @ show_nat t"
| "thread_error_display (TerminalState s) =
     ''thread is in terminal state: '' @ thread_state_debug s"
| "thread_error_display (ParentNotRunning t) =
     ''cannot spawn child: parent thread '' @ show_nat t @ '' is not running''"

fun step_error_display :: "step_error \<Rightarrow> string" where
  "step_error_display (StepTimeout d) = ''step timed out after '' @ debug_duration d"
| "step_error_display (ActionDenied a) =
     ''action not permitted by capability lease: '' @ a"

fun capability_error_display :: "capability_error \<Rightarrow> string" where
  "capability_error_display (CapabilityNotFound n) = ''capability not found: '' @ n"
| "capability_error_display (EffectDenied e) =
     ''effect type '' @ effect_debug e @ '' not permitted by policy''"

fun engine_error_display :: "engine_error \<Rightarrow> string" where
  "engine_error_display (ThreadErr e) = ''thread error: '' @ thread_error_display e"
| "engine_error_display (StepErr e) = ''step error: '' @ step_error_display e"
| "engine_error_display (CapabilityErr e) = ''capability error: '' @ capability_error_display e"
| "engine_error_display (StoreErr r) = ''store error: '' @ r"
| "engine_error_display (LlmErr r) = ''LLM error: '' @ r"
| "engine_error_display (EffectErr r) = ''effect execution error: '' @ r"
| "engine_error_display (InvalidTransition f t) =
     ''invalid state transition: '' @ thread_state_debug f @ '' -> '' @ thread_state_debug t"
| "engine_error_display (ThreadNotFound t) = ''thread not found: '' @ show_nat t"
| "engine_error_display (ProjectNotFound p) = ''project not found: '' @ show_nat p"
| "engine_error_display (LeaseNotFound l) = ''lease not found: '' @ l"
| "engine_error_display (LeaseExpired c) = ''lease expired for capability: '' @ c"
| "engine_error_display (LeaseDenied r) = ''lease denied: '' @ r"
| "engine_error_display (MaxIterationsErr n) = ''max iterations reached: '' @ show_nat n"
| "engine_error_display (TokenLimitExceeded u l) =
     ''token limit exceeded: '' @ show_nat (unat u) @ '' of '' @ show_nat (unat l)"
| "engine_error_display (ConsecutiveErrors c t) =
     ''consecutive error threshold exceeded: '' @ show_nat (unat c) @ '' errors (limit: ''
     @ show_nat (unat t) @ '')''"
| "engine_error_display (TimeoutErr e l) =
     ''thread timeout: '' @ debug_duration e @ '' of '' @ debug_duration l"
| "engine_error_display (SkillErr r) = ''skill error: '' @ r"
| "engine_error_display (AccessDenied u e) =
     ''access denied: user '' @ [CHR 0x27] @ u @ [CHR 0x27] @ '' cannot access '' @ e"
| "engine_error_display (GatePausedErr g a c p k r) =
     ''gate paused: '' @ g @ '' requires '' @ a"

section \<open>Signals and outcomes (runtime/messaging.rs)\<close>

datatype thread_outcome =
    OutCompleted "string option"
  | OutStopped
  | OutMaxIterations
  | OutFailed string
  | OutGatePaused string string string json resume_kind "json option"

datatype thread_signal =
    SigStop
  | SigSuspend
  | SigResume
  | SigInjectMessage thread_message
  | SigChildCompleted thread_id thread_outcome

section \<open>Summaries of parameters (types/event.rs)\<close>

definition truncate :: "string \<Rightarrow> nat \<Rightarrow> string" where
  "truncate s max_len =
     (if byte_len s \<le> max_len then s
      else take_bytes (floor_char_boundary s (min max_len (byte_len s))) s @ ''...'')"

definition string_param :: "string \<Rightarrow> json \<Rightarrow> string option" where
  "string_param k params = Option.bind (json_get k params) json_as_str"

definition summarize_params :: "string \<Rightarrow> json \<Rightarrow> string option" where
  "summarize_params action_name params =
     (let summary =
        (if action_name = ''http'' \<or> action_name = ''web_fetch''
         then map_option (\<lambda>u. truncate u 80) (string_param ''url'' params)
         else if action_name = ''web_search'' \<or> action_name = ''llm_context''
         then map_option (\<lambda>q. truncate q 60) (string_param ''query'' params)
         else if action_name = ''memory_search''
         then map_option (\<lambda>q. truncate q 60) (string_param ''query'' params)
         else if action_name = ''memory_write'' then string_param ''target'' params
         else if action_name = ''memory_read'' then string_param ''path'' params
         else if action_name = ''shell''
         then map_option (\<lambda>c. truncate c 60) (string_param ''command'' params)
         else if action_name = ''message''
         then map_option (\<lambda>c. truncate c 40) (string_param ''content'' params)
         else case params of
                JObject obj \<Rightarrow>
                  (case List.map_filter (json_as_str \<circ> snd) obj of
                     [] \<Rightarrow> None | s # _ \<Rightarrow> Some (truncate s 50))
              | _ \<Rightarrow> None)
      in case summary of Some s \<Rightarrow> if s = [] then None else Some s | None \<Rightarrow> None)"

lemma truncate_bounds: "byte_len (truncate s n) \<le> n + 3"
  using take_bytes_boundary [OF floor_char_boundary_ok, of s "min n (byte_len s)"]
    floor_char_boundary_le [of s "min n (byte_len s)"]
  by (auto simp: truncate_def utf8_len_def)

section \<open>Facts about grants and leases\<close>

lemma replace_char_idem [simp]:
  "replace_char c d (replace_char c d s) = replace_char c d s"
  by (simp add: replace_char_def)

lemma replace_hyphen_underscore [simp]:
  "replace_char (CHR ''-'') (CHR ''_'') (replace_char (CHR ''_'') (CHR ''-'') s) =
     replace_char (CHR ''-'') (CHR ''_'') s"
  "replace_char (CHR ''_'') (CHR ''-'') (replace_char (CHR ''-'') (CHR ''_'') s) =
     replace_char (CHR ''_'') (CHR ''-'') s"
  by (simp_all add: replace_char_def)

lemma covers_specific:
  "covers (GrantSpecific xs) a \<longleftrightarrow>
     a \<in> set xs \<or> replace_char (CHR ''_'') (CHR ''-'') a \<in> set xs
     \<or> replace_char (CHR ''-'') (CHR ''_'') a \<in> set xs"
  by (auto simp: covers_def list_ex_iff)

lemma covers_all [simp]: "covers GrantAll a"
  by (simp add: covers_def)

lemma covers_normalised:
  "covers g (replace_char (CHR ''_'') (CHR ''-'') a) \<Longrightarrow> covers g a"
  "covers g (replace_char (CHR ''-'') (CHR ''_'') a) \<Longrightarrow> covers g a"
  by (cases g; auto simp: covers_specific)+

lemma covers_mono: "set xs \<subseteq> set ys \<Longrightarrow> covers (GrantSpecific xs) a \<Longrightarrow> covers (GrantSpecific ys) a"
  by (auto simp: covers_specific)

lemma is_valid_iff:
  "is_valid now l \<longleftrightarrow>
     \<not> ls_revoked l \<and> (\<forall>e. ls_expires_at l = Some e \<longrightarrow> now < e) \<and> ls_uses_remaining l \<noteq> Some 0"
  by (auto simp: is_valid_def split: option.splits)

lemma is_valid_earlier: "is_valid t' l \<Longrightarrow> t \<le> t' \<Longrightarrow> is_valid t l"
  by (auto simp: is_valid_iff)

lemma consume_use_valid [lease_simps]: "is_valid now l \<Longrightarrow> fst (consume_use l)"
  by (auto simp: is_valid_iff consume_use_def split: option.splits)

lemma consume_use_frame [simp, lease_simps]:
  "ls_id (snd (consume_use l)) = ls_id l"
  "ls_thread_id (snd (consume_use l)) = ls_thread_id l"
  "ls_capability_name (snd (consume_use l)) = ls_capability_name l"
  "ls_granted_actions (snd (consume_use l)) = ls_granted_actions l"
  "ls_expires_at (snd (consume_use l)) = ls_expires_at l"
  "ls_max_uses (snd (consume_use l)) = ls_max_uses l"
  "ls_revoked (snd (consume_use l)) = ls_revoked l"
  by (auto simp: consume_use_def split: option.splits)

lemma refund_use_frame [simp, lease_simps]:
  "ls_id (refund_use l) = ls_id l"
  "ls_thread_id (refund_use l) = ls_thread_id l"
  "ls_capability_name (refund_use l) = ls_capability_name l"
  "ls_granted_actions (refund_use l) = ls_granted_actions l"
  "ls_expires_at (refund_use l) = ls_expires_at l"
  "ls_max_uses (refund_use l) = ls_max_uses l"
  "ls_revoked (refund_use l) = ls_revoked l"
  by (auto simp: refund_use_def split: option.splits)

text \<open>The budget invariant: the uses left never exceed the uses granted.\<close>

definition lease_budget_ok :: "capability_lease \<Rightarrow> bool" where
  "lease_budget_ok l \<longleftrightarrow>
     (case (ls_max_uses l, ls_uses_remaining l) of
        (Some m, Some r) \<Rightarrow> r \<le> m
      | (None, None) \<Rightarrow> True
      | _ \<Rightarrow> False)"

lemma consume_use_budget [invariant_intros]:
  "lease_budget_ok l \<Longrightarrow> lease_budget_ok (snd (consume_use l))"
proof -
  have "(r :: u32) \<noteq> 0 \<Longrightarrow> r \<le> m \<Longrightarrow> r - 1 \<le> m" for r m
    by unat_arith
  then show "lease_budget_ok l \<Longrightarrow> lease_budget_ok (snd (consume_use l))"
    by (auto simp: lease_budget_ok_def consume_use_def split: option.splits)
qed

lemma refund_use_budget [invariant_intros]:
  "lease_budget_ok l \<Longrightarrow> lease_budget_ok (refund_use l)"
proof -
  have "(r :: u32) < m \<Longrightarrow> r + 1 \<le> m" for r m
    by unat_arith
  then show "lease_budget_ok l \<Longrightarrow> lease_budget_ok (refund_use l)"
    by (auto simp: lease_budget_ok_def refund_use_def split: option.splits)
qed

lemma refund_consume:
  assumes "lease_budget_ok l" "fst (consume_use l)"
  shows "refund_use (snd (consume_use l)) = l"
proof -
  have "(r :: u32) \<noteq> 0 \<Longrightarrow> r \<le> m \<Longrightarrow> r - 1 < m" for r m
    by unat_arith
  then show ?thesis
    using assms
    by (auto simp: lease_budget_ok_def consume_use_def refund_use_def split: option.splits if_splits)
qed

end
