(* ===== verification/Thread_Model.thy ===== *)
theory Thread_Model
  imports Engine_Types
begin

text \<open>
  Threads, the engine's unit of work (\<open>types/thread.rs\<close>): the lifecycle table, the
  configuration and the \<open>Thread\<close> struct with the methods that change it. The event log of a
  thread holds one \<open>StateChanged\<close> entry for each transition; the locale
  \<open>logged_machine\<close> is interpreted on that projection of the log.
\<close>

section \<open>The lifecycle table\<close>

definition can_transition_to :: "thread_state \<Rightarrow> thread_state \<Rightarrow> bool" where
  "can_transition_to self target =
     (case (self, target) of
        (ThCreated, ThRunning) \<Rightarrow> True
      | (ThCreated, ThFailed) \<Rightarrow> True
      | (ThRunning, ThWaiting) \<Rightarrow> True
      | (ThRunning, ThSuspended) \<Rightarrow> True
      | (ThRunning, ThCompleted) \<Rightarrow> True
      | (ThRunning, ThFailed) \<Rightarrow> True
      | (ThWaiting, ThRunning) \<Rightarrow> True
      | (ThWaiting, ThFailed) \<Rightarrow> True
      | (ThSuspended, ThRunning) \<Rightarrow> True
      | (ThSuspended, ThFailed) \<Rightarrow> True
      | (ThCompleted, ThDone) \<Rightarrow> True
      | _ \<Rightarrow> False)"

fun is_terminal :: "thread_state \<Rightarrow> bool" where
  "is_terminal ThDone = True"
| "is_terminal ThFailed = True"
| "is_terminal _ = False"

fun is_active :: "thread_state \<Rightarrow> bool" where
  "is_active ThRunning = True"
| "is_active ThWaiting = True"
| "is_active _ = False"

section \<open>Configuration\<close>

record thread_config =
  tc_max_iterations :: nat
  tc_max_duration :: "nat option"
  tc_enable_tool_intent_nudge :: bool
  tc_max_tool_intent_nudges :: u32
  tc_require_action_attempt :: bool
  tc_max_action_requirement_nudges :: u32
  tc_supervised_mode :: bool
  tc_supervised_timeout_secs :: u64
  tc_max_tokens_total :: "u64 option"
  tc_max_consecutive_errors :: "u32 option"
  tc_model_context_limit :: nat
  tc_enable_compaction :: bool
  tc_compaction_threshold :: real
  tc_max_budget_usd :: "real option"
  tc_depth :: u32
  tc_max_depth :: u32

definition default_thread_config :: thread_config where
  "default_thread_config =
     \<lparr>tc_max_iterations = 50, tc_max_duration = None, tc_enable_tool_intent_nudge = True,
      tc_max_tool_intent_nudges = 2, tc_require_action_attempt = False,
      tc_max_action_requirement_nudges = 2, tc_supervised_mode = False,
      tc_supervised_timeout_secs = 300, tc_max_tokens_total = None,
      tc_max_consecutive_errors = None, tc_model_context_limit = 128000,
      tc_enable_compaction = False, tc_compaction_threshold = 85 / 100,
      tc_max_budget_usd = None, tc_depth = 0, tc_max_depth = 1\<rparr>"

section \<open>The thread and its methods\<close>

record thread =
  th_id :: thread_id
  th_goal :: string
  th_type :: thread_type
  th_state :: thread_state
  th_project_id :: project_id
  th_user_id :: string
  th_parent_id :: "thread_id option"
  th_config :: thread_config
  th_messages :: "thread_message list"
  th_internal_messages :: "thread_message list"
  th_events :: "thread_event list"
  th_capability_leases :: "lease_id list"
  th_metadata :: json
  th_created_at :: time
  th_updated_at :: time
  th_completed_at :: "time option"
  th_step_count :: nat
  th_total_tokens_used :: u64
  th_total_cost_usd :: real

definition new_thread ::
    "thread_id \<Rightarrow> time \<Rightarrow> string \<Rightarrow> thread_type \<Rightarrow> project_id \<Rightarrow> string \<Rightarrow> thread_config \<Rightarrow> thread"
    where
  "new_thread tid now goal tt pid uid cfg =
     \<lparr>th_id = tid, th_goal = goal, th_type = tt, th_state = ThCreated, th_project_id = pid,
      th_user_id = uid, th_parent_id = None, th_config = cfg, th_messages = [],
      th_internal_messages = [], th_events = [], th_capability_leases = [],
      th_metadata = JObject [], th_created_at = now, th_updated_at = now,
      th_completed_at = None, th_step_count = 0, th_total_tokens_used = 0,
      th_total_cost_usd = 0\<rparr>"

definition with_parent :: "thread_id \<Rightarrow> thread \<Rightarrow> thread" where
  "with_parent pid th = th\<lparr>th_parent_id := Some pid\<rparr>"

definition thread_is_owned_by :: "thread \<Rightarrow> string \<Rightarrow> bool" where
  "thread_is_owned_by th user_id =
     owner_matches_user (owner_from_user_id (th_user_id th)) user_id"

text \<open>
  \<open>transition_to\<close>: the new event takes the identifier \<open>eid\<close>, and \<open>now\<close> is the clock.
\<close>

definition transition_to ::
    "event_id \<Rightarrow> time \<Rightarrow> thread_state \<Rightarrow> string option \<Rightarrow> thread \<Rightarrow> engine_error + thread" where
  "transition_to eid now new_state reason th =
     (if \<not> can_transition_to (th_state th) new_state
      then Inl (InvalidTransition (th_state th) new_state)
      else
        let event = new_event eid now (th_id th) (StateChanged (th_state th) new_state reason);
            th1 = th\<lparr>th_events := th_events th @ [event]\<rparr>;
            th2 = th1\<lparr>th_state := new_state, th_updated_at := now\<rparr>
        in Inr (if new_state = ThCompleted \<or> new_state = ThDone
                then th2\<lparr>th_completed_at := Some now\<rparr> else th2))"

definition add_event :: "event_id \<Rightarrow> time \<Rightarrow> event_kind \<Rightarrow> thread \<Rightarrow> thread" where
  "add_event eid now kind th =
     th\<lparr>th_events := th_events th @ [new_event eid now (th_id th) kind], th_updated_at := now\<rparr>"

fun role_debug :: "message_role \<Rightarrow> string" where
  "role_debug RoleSystem = ''System''"
| "role_debug RoleUser = ''User''"
| "role_debug RoleAssistant = ''Assistant''"
| "role_debug RoleActionResult = ''ActionResult''"

definition add_message :: "event_id \<Rightarrow> time \<Rightarrow> thread_message \<Rightarrow> thread \<Rightarrow> thread" where
  "add_message eid now message th =
     (let preview = (if length (tm_content message) > 80
                     then take 80 (tm_content message) @ ''...'' else tm_content message);
          th1 = add_event eid now (MessageAdded (role_debug (tm_role message)) preview) th
      in th1\<lparr>th_messages := th_messages th1 @ [message]\<rparr>)"

definition add_internal_message :: "time \<Rightarrow> thread_message \<Rightarrow> thread \<Rightarrow> thread" where
  "add_internal_message now message th =
     th\<lparr>th_internal_messages := th_internal_messages th @ [message], th_updated_at := now\<rparr>"

section \<open>The transition log\<close>

fun state_change :: "event_kind \<Rightarrow> (thread_state \<times> thread_state) list" where
  "state_change (StateChanged f t r) = [(f, t)]"
| "state_change _ = []"

definition state_log :: "thread \<Rightarrow> (thread_state \<times> thread_state) list" where
  "state_log th = concat (map (state_change \<circ> ev_kind) (th_events th))"

definition thread_attempt ::
    "event_id \<times> time \<times> string option \<Rightarrow> thread_state \<Rightarrow> thread \<Rightarrow> thread option" where
  "thread_attempt a t th =
     (case transition_to (fst a) (fst (snd a)) t (snd (snd a)) th of
        Inl _ \<Rightarrow> None | Inr th' \<Rightarrow> Some th')"

lemma transition_to_Inr:
  "transition_to eid now t reason th = Inr th' \<longleftrightarrow>
     can_transition_to (th_state th) t \<and>
     th' = th\<lparr>th_events := th_events th @
                [new_event eid now (th_id th) (StateChanged (th_state th) t reason)],
              th_state := t, th_updated_at := now,
              th_completed_at := if t = ThCompleted \<or> t = ThDone then Some now
                                 else th_completed_at th\<rparr>"
  by (auto simp: transition_to_def Let_def)

lemma transition_to_frame [thread_simps]:
  assumes "transition_to eid now t reason th = Inr th'"
  shows "th_id th' = th_id th" "th_user_id th' = th_user_id th" "th_state th' = t"
    "th_messages th' = th_messages th" "th_metadata th' = th_metadata th"
    "th_type th' = th_type th" "th_project_id th' = th_project_id th"
    "th_capability_leases th' = th_capability_leases th" "th_parent_id th' = th_parent_id th"
  using assms by (simp_all add: transition_to_Inr)

lemma state_log_transition:
  "transition_to eid now t reason th = Inr th' \<Longrightarrow>
     state_log th' = state_log th @ [(th_state th, t)]"
  by (simp add: transition_to_Inr state_log_def new_event_def)

lemma state_log_add_event [thread_simps]:
  "state_log (add_event eid now kind th) = state_log th @ state_change kind"
  by (simp add: add_event_def state_log_def new_event_def)

lemma add_message_frame [simp, thread_simps]:
  "th_id (add_message eid now m th) = th_id th"
  "th_state (add_message eid now m th) = th_state th"
  "th_user_id (add_message eid now m th) = th_user_id th"
  "th_metadata (add_message eid now m th) = th_metadata th"
  "th_type (add_message eid now m th) = th_type th"
  "th_project_id (add_message eid now m th) = th_project_id th"
  "th_goal (add_message eid now m th) = th_goal th"
  "th_messages (add_message eid now m th) = th_messages th @ [m]"
  "th_capability_leases (add_message eid now m th) = th_capability_leases th"
  "state_log (add_message eid now m th) = state_log th"
  by (simp_all add: add_message_def add_event_def Let_def state_log_def new_event_def)

lemma state_log_frame [simp, thread_simps]:
  "state_log (new_thread tid now goal tt pid uid cfg) = []"
  "state_log (with_parent pid th) = state_log th"
  "state_log (add_internal_message now m th) = state_log th"
  by (simp_all add: state_log_def new_thread_def with_parent_def add_internal_message_def)

lemma th_state_frame [simp, thread_simps]:
  "th_state (new_thread tid now goal tt pid uid cfg) = ThCreated"
  "th_state (with_parent pid th) = th_state th"
  "th_state (add_internal_message now m th) = th_state th"
  "th_state (add_event eid now kind th) = th_state th"
  by (simp_all add: new_thread_def with_parent_def add_internal_message_def add_event_def)

interpretation th_machine: state_machine can_transition_to is_terminal
proof
  fix s t
  assume "is_terminal s"
  then show "\<not> can_transition_to s t"
    by (cases s; cases t) (simp_all add: can_transition_to_def)
qed

interpretation th_log: logged_machine can_transition_to is_terminal th_state state_log thread_attempt
proof
  fix a t x
  show "thread_attempt a t x = None \<longleftrightarrow> \<not> can_transition_to (th_state x) t"
    by (auto simp: thread_attempt_def transition_to_def Let_def)
next
  fix a t x y
  assume "thread_attempt a t x = Some y"
  then have y: "transition_to (fst a) (fst (snd a)) t (snd (snd a)) x = Inr y"
    by (simp add: thread_attempt_def split: sum.splits)
  from y show "th_state y = t" by (simp add: transition_to_frame)
  from y have "state_log y = drop 0 (state_log x @ [(th_state x, t)])"
    by (simp add: state_log_transition)
  then show "t = th_state x \<and> state_log y = state_log x \<or>
      (\<exists>n\<le>length (state_log x). state_log y = drop n (state_log x @ [(th_state x, t)]))"
    by blast
qed

text \<open>
  What a thread can become through its methods. \<open>add_event\<close> is called with every kind of
  event except \<open>StateChanged\<close>, which only \<open>transition_to\<close> records.
\<close>

inductive thread_reach :: "thread \<Rightarrow> bool" where
  tr_new: "thread_reach (new_thread tid now goal tt pid uid cfg)"
| tr_parent: "thread_reach th \<Longrightarrow> thread_reach (with_parent pid th)"
| tr_transition: "thread_reach th \<Longrightarrow> transition_to eid now t reason th = Inr th' \<Longrightarrow>
    thread_reach th'"
| tr_event: "thread_reach th \<Longrightarrow> state_change kind = [] \<Longrightarrow>
    thread_reach (add_event eid now kind th)"
| tr_message: "thread_reach th \<Longrightarrow> thread_reach (add_message eid now m th)"
| tr_internal: "thread_reach th \<Longrightarrow> thread_reach (add_internal_message now m th)"

lemma th_log_ok_transition:
  assumes "th_log.log_ok th" "transition_to eid now t reason th = Inr th'"
  shows "th_log.log_ok th'"
  by (rule th_log.attempt_log_ok [OF assms(1), where a = "(eid, now, reason)" and t = t])
    (simp add: thread_attempt_def assms(2))

lemma thread_reach_log_ok: "thread_reach th \<Longrightarrow> th_log.log_ok th"
proof (induction rule: thread_reach.induct)
  case (tr_transition th eid now t reason th')
  then show ?case by (blast intro: th_log_ok_transition)
next
  case (tr_event th kind eid now)
  then show ?case
    by (elim th_log.log_ok_frame) (simp_all add: state_log_add_event)
qed (auto intro: th_log.log_okI_empty elim: th_log.log_ok_frame)

lemma thread_reach_start:
  "thread_reach th \<Longrightarrow>
     (state_log th = [] \<longrightarrow> th_state th = ThCreated) \<and>
     (state_log th \<noteq> [] \<longrightarrow> fst (hd (state_log th)) = ThCreated)"
proof (induction rule: thread_reach.induct)
  case (tr_transition th eid now t reason th')
  then show ?case by (cases "state_log th") (auto simp: state_log_transition)
qed (auto simp: state_log_add_event)

section \<open>Properties\<close>

text \<open>
  C37. However a thread is built, given messages and events and moved through its states, its log
  of state changes starts in the created state, each change starts where the previous one ended
  and is a legal change, and the last one ends in the thread's state; a thread in a terminal state
  cannot change it any more.
\<close>

theorem thread_log_sound:
  assumes "thread_reach th"
  shows "chain (state_log th) \<and> (\<forall>e \<in> set (state_log th). can_transition_to (fst e) (snd e)) \<and>
    (state_log th \<noteq> [] \<longrightarrow>
       fst (hd (state_log th)) = ThCreated \<and> snd (last (state_log th)) = th_state th) \<and>
    (state_log th = [] \<longrightarrow> th_state th = ThCreated) \<and>
    (is_terminal (th_state th) \<longrightarrow> (\<exists>e. transition_to eid now t reason th = Inl e))"
  using thread_reach_log_ok [OF assms] thread_reach_start [OF assms]
    th_log.attempt_terminal [of th "(eid, now, reason)" t]
  by (auto simp: th_log.log_ok_def thread_attempt_def split: sum.splits)

theorem thread_log_sound_witness:
  "\<exists>th. transition_to 1 5 ThRunning None (new_thread 1 0 ''g'' Foreground 2 ''u'' default_thread_config) = Inr th \<and>
     chain (state_log th) \<and> state_log th = [(ThCreated, ThRunning)]"
proof -
  let ?n = "new_thread 1 0 ''g'' Foreground 2 ''u'' default_thread_config"
  obtain th where th: "transition_to 1 5 ThRunning None ?n = Inr th"
    by (cases "transition_to 1 5 ThRunning None ?n")
      (simp_all add: transition_to_def new_thread_def can_transition_to_def)
  have "thread_reach th" using th by (blast intro: thread_reach.intros)
  from thread_log_sound [OF this] have "chain (state_log th)" by blast
  moreover have "state_log th = [(ThCreated, ThRunning)]"
    using th by (auto simp: state_log_def transition_to_def new_thread_def can_transition_to_def add_event_def new_event_def
        Let_def split: if_splits)
  ultimately show ?thesis using th by blast
qed

end
