(* ===== verification/Lease_Manager.thy ===== *)
theory Lease_Manager
  imports Thread_Model
begin

text \<open>
  The lease manager (\<open>capability/lease.rs\<close>). \<open>LeaseManager\<close> has one field, the table of
  leases behind a lock; every method takes the lock once (\<open>derive_child_leases\<close> twice), so a
  method is one atomic step and the manager is its table. \<open>now\<close> is the clock during the step
  and a drawn \<open>LeaseId\<close> is an argument.
\<close>

type_synonym lease_manager = "(lease_id, capability_lease) hmap"

definition debug_lease_id :: "lease_id \<Rightarrow> string" where
  "debug_lease_id i = ''LeaseId('' @ show_nat i @ '')''"

text \<open>\<open>chrono::Duration::num_seconds\<close> truncates towards zero.\<close>

definition num_seconds :: "int \<Rightarrow> int" where
  "num_seconds d = (if d < 0 then - (- d div 1000000000) else d div 1000000000)"

section \<open>Operations\<close>

definition grant ::
    "lease_id \<Rightarrow> time \<Rightarrow> thread_id \<Rightarrow> string \<Rightarrow> granted_actions \<Rightarrow> int option \<Rightarrow> u32 option \<Rightarrow>
     lease_manager \<Rightarrow> engine_error + capability_lease \<times> lease_manager" where
  "grant lid now tid cap actions duration max_uses m =
     (case duration of
        Some d \<Rightarrow>
          if d \<le> 0
          then Inl (EffectErr (''lease duration must be positive, got '' @ show_int (num_seconds d) @ ''s''))
          else if max_uses = Some 0 then Inl (EffectErr ''lease max_uses must be > 0'')
          else let lease = \<lparr>ls_id = lid, ls_thread_id = tid, ls_capability_name = cap,
                    ls_granted_actions = actions, ls_granted_at = now,
                    ls_expires_at = Some (now + d), ls_max_uses = max_uses,
                    ls_uses_remaining = max_uses, ls_revoked = False, ls_revoked_reason = None\<rparr>
               in Inr (lease, hm_insert lid lease m)
      | None \<Rightarrow>
          if max_uses = Some 0 then Inl (EffectErr ''lease max_uses must be > 0'')
          else let lease = \<lparr>ls_id = lid, ls_thread_id = tid, ls_capability_name = cap,
                    ls_granted_actions = actions, ls_granted_at = now,
                    ls_expires_at = None, ls_max_uses = max_uses,
                    ls_uses_remaining = max_uses, ls_revoked = False, ls_revoked_reason = None\<rparr>
               in Inr (lease, hm_insert lid lease m))"

definition check :: "time \<Rightarrow> lease_id \<Rightarrow> lease_manager \<Rightarrow> engine_error + capability_lease" where
  "check now lid m =
     (case hm_get m lid of
        None \<Rightarrow> Inl (LeaseNotFound (debug_lease_id lid))
      | Some lease \<Rightarrow>
          if \<not> is_valid now lease then Inl (LeaseExpired (ls_capability_name lease))
          else Inr lease)"

definition lm_consume_use :: "time \<Rightarrow> lease_id \<Rightarrow> lease_manager \<Rightarrow> engine_error + lease_manager" where
  "lm_consume_use now lid m =
     (case hm_get m lid of
        None \<Rightarrow> Inl (LeaseExpired (''lease '' @ debug_lease_id lid @ '' not found''))
      | Some lease \<Rightarrow>
          if \<not> is_valid now lease then Inl (LeaseExpired (ls_capability_name lease))
          else if \<not> fst (consume_use lease) then Inl (LeaseExpired (ls_capability_name lease))
          else Inr (hm_modify lid (\<lambda>l. snd (consume_use l)) m))"

definition lm_refund_use :: "lease_id \<Rightarrow> lease_manager \<Rightarrow> engine_error + lease_manager" where
  "lm_refund_use lid m =
     (case hm_get m lid of
        None \<Rightarrow> Inl (LeaseExpired (''lease '' @ debug_lease_id lid @ '' not found''))
      | Some lease \<Rightarrow> Inr (hm_modify lid refund_use m))"

definition revoke :: "lease_id \<Rightarrow> string \<Rightarrow> lease_manager \<Rightarrow> lease_manager" where
  "revoke lid reason m =
     hm_modify lid (\<lambda>l. l\<lparr>ls_revoked := True, ls_revoked_reason := Some reason\<rparr>) m"

definition expire_stale :: "time \<Rightarrow> lease_manager \<Rightarrow> nat \<times> lease_manager" where
  "expire_stale now m =
     (let before = length m; m' = hm_retain (is_valid now) m in (before - length m', m'))"

definition active_for_thread :: "time \<Rightarrow> thread_id \<Rightarrow> lease_manager \<Rightarrow> capability_lease list" where
  "active_for_thread now tid m =
     filter (\<lambda>l. ls_thread_id l = tid \<and> is_valid now l) (hm_values m)"

definition find_lease_for_action ::
    "time \<Rightarrow> thread_id \<Rightarrow> string \<Rightarrow> lease_manager \<Rightarrow> capability_lease option" where
  "find_lease_for_action now tid action_name m =
     (let hyphenated = replace_char (CHR ''_'') (CHR ''-'') action_name;
          underscored = replace_char (CHR ''-'') (CHR ''_'') action_name
      in find (\<lambda>l. ls_thread_id l = tid \<and> is_valid now l \<and>
                   (covers_action l action_name \<or> covers_action l hyphenated
                    \<or> covers_action l underscored)) (hm_values m))"

text \<open>
  The grants of a child lease. A \<open>HashSet\<close> of requested names is the list of its elements
  in iteration order.
\<close>

fun child_grants :: "string list option \<Rightarrow> granted_actions \<Rightarrow> granted_actions" where
  "child_grants (Some req) GrantAll = GrantSpecific req"
| "child_grants (Some req) (GrantSpecific parent_actions) =
     GrantSpecific (filter (\<lambda>a. a \<in> set req) parent_actions)"
| "child_grants None g = g"

definition child_skipped :: "string list option \<Rightarrow> granted_actions \<Rightarrow> bool" where
  "child_skipped requested g \<longleftrightarrow> g = GrantSpecific [] \<and> requested \<noteq> None"

definition child_lease ::
    "lease_id \<Rightarrow> time \<Rightarrow> thread_id \<Rightarrow> granted_actions \<Rightarrow> capability_lease \<Rightarrow> capability_lease" where
  "child_lease lid now child grants parent =
     \<lparr>ls_id = lid, ls_thread_id = child, ls_capability_name = ls_capability_name parent,
      ls_granted_actions = grants, ls_granted_at = now,
      ls_expires_at = ls_expires_at parent, ls_max_uses = ls_uses_remaining parent,
      ls_uses_remaining = ls_uses_remaining parent, ls_revoked = False,
      ls_revoked_reason = None\<rparr>"

text \<open>
  The loop over the parent's leases. \<open>fresh n\<close> is the \<open>n\<close>-th identifier it draws and
  \<open>clock i\<close> the reading of the clock in its \<open>i\<close>-th iteration.
\<close>

fun derive_loop ::
    "(nat \<Rightarrow> time) \<Rightarrow> thread_id \<Rightarrow> string list option \<Rightarrow> (nat \<Rightarrow> lease_id) \<Rightarrow> nat \<Rightarrow> nat \<Rightarrow>
     capability_lease list \<Rightarrow> capability_lease list" where
  "derive_loop clock child requested fresh i n [] = []"
| "derive_loop clock child requested fresh i n (parent # ps) =
     (if \<not> is_valid (clock i) parent then derive_loop clock child requested fresh (Suc i) n ps
      else let g = child_grants requested (ls_granted_actions parent)
           in if child_skipped requested g then derive_loop clock child requested fresh (Suc i) n ps
              else child_lease (fresh n) (clock i) child g parent
                   # derive_loop clock child requested fresh (Suc i) (Suc n) ps)"

text \<open>
  The first half reads the table, the second writes it under a lock of its own: \<open>m\<close> is the
  table at the read and \<open>m'\<close> the table at the write.
\<close>

definition insert_children :: "capability_lease list \<Rightarrow> lease_manager \<Rightarrow> lease_manager" where
  "insert_children cs m' = fold (\<lambda>c. hm_insert (ls_id c) c) cs m'"

definition derive_child_leases ::
    "(nat \<Rightarrow> lease_id) \<Rightarrow> time \<Rightarrow> (nat \<Rightarrow> time) \<Rightarrow> thread_id \<Rightarrow> thread_id \<Rightarrow> string list option \<Rightarrow>
     lease_manager \<Rightarrow> lease_manager \<Rightarrow> capability_lease list \<times> lease_manager" where
  "derive_child_leases fresh now clock parent child requested m m' =
     (let cs = derive_loop clock child requested fresh 0 0 (active_for_thread now parent m)
      in (cs, insert_children cs m'))"

definition find_and_consume ::
    "time \<Rightarrow> thread_id \<Rightarrow> string \<Rightarrow> lease_manager \<Rightarrow>
     engine_error + capability_lease \<times> lease_manager" where
  "find_and_consume now tid action_name m =
     (case find (\<lambda>p. ls_thread_id (snd p) = tid \<and> is_valid now (snd p)
                     \<and> covers_action (snd p) action_name) m of
        None \<Rightarrow> Inl (LeaseNotFound (''no valid lease for action '' @ [CHR 0x27] @ action_name @ [CHR 0x27]))
      | Some p \<Rightarrow>
          if \<not> fst (consume_use (snd p)) then Inl (LeaseExpired (ls_capability_name (snd p)))
          else Inr (snd (consume_use (snd p)),
                    hm_modify (fst p) (\<lambda>l. snd (consume_use l)) m))"

section \<open>The invariant\<close>

definition lm_inv :: "lease_manager \<Rightarrow> bool" where
  "lm_inv m \<longleftrightarrow> hm_wf m \<and> (\<forall>lid l. hm_get m lid = Some l \<longrightarrow> ls_id l = lid \<and> lease_budget_ok l)"

lemma lm_invI:
  "hm_wf m \<Longrightarrow> (\<And>lid l. hm_get m lid = Some l \<Longrightarrow> ls_id l = lid \<and> lease_budget_ok l) \<Longrightarrow> lm_inv m"
  by (simp add: lm_inv_def)

lemma lm_inv_wf: "lm_inv m \<Longrightarrow> hm_wf m"
  by (simp add: lm_inv_def)

lemma lm_inv_get: "lm_inv m \<Longrightarrow> hm_get m lid = Some l \<Longrightarrow> ls_id l = lid \<and> lease_budget_ok l"
  by (simp add: lm_inv_def)

lemma lm_inv_empty [invariant_intros]: "lm_inv []"
  by (simp add: lm_inv_def)

lemma lm_inv_insert [invariant_intros]:
  "lm_inv m \<Longrightarrow> ls_id l = lid \<Longrightarrow> lease_budget_ok l \<Longrightarrow> lm_inv (hm_insert lid l m)"
  by (auto simp: lm_inv_def)

lemma lm_inv_modify [invariant_intros]:
  assumes "lm_inv m" "\<And>l. ls_id (f l) = ls_id l" "\<And>l. lease_budget_ok l \<Longrightarrow> lease_budget_ok (f l)"
  shows "lm_inv (hm_modify lid f m)"
  using assms by (auto simp: lm_inv_def split: if_splits)

lemma grant_Inr:
  "grant lid now tid cap actions duration mu m = Inr (l, m') \<longleftrightarrow>
     (\<forall>d. duration = Some d \<longrightarrow> 0 < d) \<and> mu \<noteq> Some 0 \<and> m' = hm_insert lid l m \<and>
     l = \<lparr>ls_id = lid, ls_thread_id = tid, ls_capability_name = cap,
          ls_granted_actions = actions, ls_granted_at = now,
          ls_expires_at = map_option (\<lambda>d. now + d) duration, ls_max_uses = mu,
          ls_uses_remaining = mu, ls_revoked = False, ls_revoked_reason = None\<rparr>"
  by (auto simp: grant_def Let_def split: option.splits)

lemma grant_inv [invariant_intros]:
  "lm_inv m \<Longrightarrow> grant lid now tid cap actions duration mu m = Inr (l, m') \<Longrightarrow> lm_inv m'"
  by (auto simp: grant_Inr lease_budget_ok_def split: option.splits intro!: lm_inv_insert)

lemma lm_inv_consume [invariant_intros]:
  "lm_inv m \<Longrightarrow> lm_inv (hm_modify lid (\<lambda>l. snd (consume_use l)) m)"
  by (rule lm_inv_modify) (simp_all add: consume_use_budget)

lemma lm_inv_refund [invariant_intros]: "lm_inv m \<Longrightarrow> lm_inv (hm_modify lid refund_use m)"
  by (rule lm_inv_modify) (simp_all add: refund_use_budget)

lemma lm_consume_use_eq:
  "lm_consume_use now lid m =
     (case hm_get m lid of
        None \<Rightarrow> Inl (LeaseExpired (''lease '' @ debug_lease_id lid @ '' not found''))
      | Some lease \<Rightarrow>
          if is_valid now lease then Inr (hm_modify lid (\<lambda>l. snd (consume_use l)) m)
          else Inl (LeaseExpired (ls_capability_name lease)))"
  using consume_use_valid by (fastforce simp: lm_consume_use_def split: option.splits)

lemma lm_consume_use_Inr:
  "lm_consume_use now lid m = Inr m' \<longleftrightarrow>
     (\<exists>l. hm_get m lid = Some l \<and> is_valid now l) \<and> m' = hm_modify lid (\<lambda>l. snd (consume_use l)) m"
  by (auto simp: lm_consume_use_eq split: option.splits)

lemma lm_consume_use_inv [invariant_intros]:
  "lm_inv m \<Longrightarrow> lm_consume_use now lid m = Inr m' \<Longrightarrow> lm_inv m'"
  by (auto simp: lm_consume_use_Inr lm_inv_consume)

lemma lm_refund_use_inv [invariant_intros]:
  "lm_inv m \<Longrightarrow> lm_refund_use lid m = Inr m' \<Longrightarrow> lm_inv m'"
  by (auto simp: lm_refund_use_def lm_inv_refund split: option.splits)

lemma revoke_inv [invariant_intros]: "lm_inv m \<Longrightarrow> lm_inv (revoke lid reason m)"
  unfolding revoke_def by (rule lm_inv_modify) (auto simp: lease_budget_ok_def)

lemma hm_retain_inv: "lm_inv m \<Longrightarrow> lm_inv (hm_retain P m)"
  by (auto simp: lm_inv_def hm_get_retain split: option.splits if_splits)

lemma expire_stale_inv [invariant_intros]: "lm_inv m \<Longrightarrow> lm_inv (snd (expire_stale now m))"
  by (simp add: expire_stale_def Let_def hm_retain_inv)

lemma find_and_consume_Inr:
  assumes "lm_inv m" "find_and_consume now tid a m = Inr (l', m')"
  obtains l where "hm_get m (ls_id l) = Some l" "is_valid now l" "ls_thread_id l = tid"
    "covers_action l a" "l' = snd (consume_use l)"
    "m' = hm_modify (ls_id l) (\<lambda>l. snd (consume_use l)) m"
proof -
  from assms(2) obtain p where p: "find (\<lambda>p. ls_thread_id (snd p) = tid \<and> is_valid now (snd p)
      \<and> covers_action (snd p) a) m = Some p"
    "l' = snd (consume_use (snd p))" "m' = hm_modify (fst p) (\<lambda>l. snd (consume_use l)) m"
    by (auto simp: find_and_consume_def split: option.splits if_splits)
  from find_Some_iff2 [OF p(1)] assms(1) have get: "hm_get m (fst p) = Some (snd p)"
    by (auto simp: lm_inv_def map_of_eq_Some_iff)
  with assms(1) have "ls_id (snd p) = fst p" by (simp add: lm_inv_def)
  with that [of "snd p"] find_Some_iff2 [OF p(1)] p get show thesis by simp
qed

lemma insert_children_inv [invariant_intros]:
  "lm_inv m \<Longrightarrow> \<forall>c \<in> set cs. lease_budget_ok c \<Longrightarrow> lm_inv (insert_children cs m)"
  unfolding insert_children_def by (induction cs arbitrary: m) (auto intro: lm_inv_insert)

lemma find_and_consume_find:
  assumes inv: "lm_inv m"
  shows "find_and_consume now tid a m =
    (case find_lease_for_action now tid a m of
       None \<Rightarrow> Inl (LeaseNotFound (''no valid lease for action '' @ [CHR 0x27] @ a @ [CHR 0x27]))
     | Some l \<Rightarrow> Inr (snd (consume_use l), hm_modify (ls_id l) (\<lambda>l. snd (consume_use l)) m))"
proof -
  let ?Q = "\<lambda>l. ls_thread_id l = tid \<and> is_valid now l \<and> covers_action l a"
  have "find_lease_for_action now tid a m = find ?Q (hm_values m)"
    unfolding find_lease_for_action_def Let_def
    by (rule find_cong_pred) (auto simp: covers_action_def dest: covers_normalised)
  also have "\<dots> = map_option snd (find (?Q \<circ> snd) m)"
    by (induction m) auto
  finally have F: "find_lease_for_action now tid a m = map_option snd (find (?Q \<circ> snd) m)" .
  show ?thesis
  proof (cases "find (?Q \<circ> snd) m")
    case None
    with F show ?thesis by (simp add: find_and_consume_def comp_def)
  next
    case (Some p)
    with find_Some_iff2 [OF Some] inv have "ls_id (snd p) = fst p"
      by (cases p) (auto simp: lm_inv_def map_of_eq_Some_iff)
    moreover have "fst (consume_use (snd p))"
      using find_Some_iff2 [OF Some] consume_use_valid by auto
    ultimately show ?thesis
      using F Some by (simp add: find_and_consume_def comp_def)
  qed
qed

lemma find_and_consume_inv [invariant_intros]:
  "lm_inv m \<Longrightarrow> find_and_consume now tid a m = Inr (l', m') \<Longrightarrow> lm_inv m'"
  by (auto simp: find_and_consume_find lm_inv_consume split: option.splits)

lemma find_lease_covers:
  "find_lease_for_action now tid a m = Some l \<Longrightarrow>
     ls_thread_id l = tid \<and> is_valid now l \<and> covers_action l a"
  by (auto simp: find_lease_for_action_def Let_def covers_action_def
      dest!: find_Some_iff2 dest: covers_normalised)

lemma find_lease_stored:
  "lm_inv m \<Longrightarrow> find_lease_for_action now tid a m = Some l \<Longrightarrow> hm_get m (ls_id l) = Some l"
  by (auto simp: find_lease_for_action_def Let_def lm_inv_def map_of_eq_Some_iff dest!: find_Some_iff2)

section \<open>Derived leases\<close>

lemma child_grants_covers:
  assumes "covers (child_grants requested g) a"
  shows "covers g a" "requested = Some req \<Longrightarrow> covers (GrantSpecific req) a"
  using assms by (cases requested; cases g; auto simp: covers_specific)+

lemma derive_loop_mem:
  assumes "c \<in> set (derive_loop clock child requested fresh i n ps)"
  obtains p j k where "p \<in> set ps" "is_valid (clock j) p"
    "c = child_lease (fresh k) (clock j) child (child_grants requested (ls_granted_actions p)) p"
  using assms
  by (induction clock child requested fresh i n ps rule: derive_loop.induct)
    (auto simp: Let_def split: if_splits)

lemma derive_loop_ids:
  "map ls_id (derive_loop clock child requested fresh i n ps) =
     map fresh [n ..< n + length (derive_loop clock child requested fresh i n ps)]"
proof (induction clock child requested fresh i n ps rule: derive_loop.induct)
  case (2 clock child requested fresh i n parent ps)
  then show ?case
    by (auto simp: Let_def child_lease_def simp del: upt_Suc simp: upt_conv_Cons)
qed simp

lemma child_lease_budget: "lease_budget_ok (child_lease lid now child g p)"
  by (auto simp: lease_budget_ok_def child_lease_def split: option.splits)

lemma derive_child_leases_inv [invariant_intros]:
  assumes "lm_inv m'"
  shows "lm_inv (snd (derive_child_leases fresh now clock parent child requested m m'))"
  using assms unfolding derive_child_leases_def Let_def snd_conv
  by (rule insert_children_inv) (auto elim: derive_loop_mem simp: child_lease_budget)

lemma derive_child_leases_stored:
  assumes "inj fresh" "c \<in> set (fst (derive_child_leases fresh now clock parent child req m m'))"
  shows "hm_get (snd (derive_child_leases fresh now clock parent child req m m')) (ls_id c) = Some c"
proof -
  let ?cs = "derive_loop clock child req fresh 0 0 (active_for_thread now parent m)"
  have "distinct (map ls_id ?cs)"
    using assms(1) by (simp add: derive_loop_ids distinct_map) (rule inj_on_subset [of fresh UNIV], simp_all)
  with assms(2) show ?thesis
    by (simp add: derive_child_leases_def Let_def insert_children_def
        hm.get_ins_fold [where val = "\<lambda>c. c"])
qed

section \<open>Histories of the manager\<close>

text \<open>
  The calls that change the table, in the order in which they take the lock. A call that
  returns an error leaves the table as it was.
\<close>

datatype lease_op =
    OpGrant lease_id time thread_id string granted_actions "int option" "u32 option"
  | OpConsume time lease_id
  | OpRefund lease_id
  | OpRevoke lease_id string
  | OpExpire time
  | OpInsertChildren "capability_lease list"
  | OpFindConsume time thread_id string

fun lease_exec :: "lease_op \<Rightarrow> lease_manager \<Rightarrow> lease_manager" where
  "lease_exec (OpGrant lid now tid cap g d mu) m =
     (case grant lid now tid cap g d mu m of Inl _ \<Rightarrow> m | Inr (_, m') \<Rightarrow> m')"
| "lease_exec (OpConsume now lid) m =
     (case lm_consume_use now lid m of Inl _ \<Rightarrow> m | Inr m' \<Rightarrow> m')"
| "lease_exec (OpRefund lid) m = (case lm_refund_use lid m of Inl _ \<Rightarrow> m | Inr m' \<Rightarrow> m')"
| "lease_exec (OpRevoke lid reason) m = revoke lid reason m"
| "lease_exec (OpExpire now) m = snd (expire_stale now m)"
| "lease_exec (OpInsertChildren cs) m = insert_children cs m"
| "lease_exec (OpFindConsume now tid a) m =
     (case find_and_consume now tid a m of Inl _ \<Rightarrow> m | Inr (_, m') \<Rightarrow> m')"

text \<open>Whether a call hands out one use of the lease, or gives one back.\<close>

fun uses_lease :: "lease_id \<Rightarrow> lease_op \<Rightarrow> lease_manager \<Rightarrow> bool" where
  "uses_lease lid (OpConsume now lid') m = (lid' = lid \<and> (\<exists>m'. lm_consume_use now lid' m = Inr m'))"
| "uses_lease lid (OpFindConsume now tid a) m =
     (case find_and_consume now tid a m of Inl _ \<Rightarrow> False | Inr (l, _) \<Rightarrow> ls_id l = lid)"
| "uses_lease lid _ m = False"

fun refunds_lease :: "lease_id \<Rightarrow> lease_op \<Rightarrow> bool" where
  "refunds_lease lid (OpRefund lid') = (lid' = lid)"
| "refunds_lease lid _ = False"

text \<open>A call that draws a new identifier does not draw one that is in use.\<close>

fun draws :: "lease_op \<Rightarrow> lease_id set" where
  "draws (OpGrant lid now tid cap g d mu) = {lid}"
| "draws (OpInsertChildren cs) = ls_id ` set cs"
| "draws _ = {}"

fun op_budget_ok :: "lease_op \<Rightarrow> bool" where
  "op_budget_ok (OpInsertChildren cs) = (\<forall>c \<in> set cs. lease_budget_ok c)"
| "op_budget_ok _ = True"

primrec lease_run :: "lease_op list \<Rightarrow> lease_manager \<Rightarrow> lease_manager" where
  "lease_run [] m = m"
| "lease_run (x # xs) m = lease_run xs (lease_exec x m)"

primrec uses_count :: "lease_id \<Rightarrow> lease_op list \<Rightarrow> lease_manager \<Rightarrow> nat" where
  "uses_count lid [] m = 0"
| "uses_count lid (x # xs) m = of_bool (uses_lease lid x m) + uses_count lid xs (lease_exec x m)"

lemma lease_exec_inv [invariant_intros]:
  assumes "lm_inv m" "op_budget_ok x"
  shows "lm_inv (lease_exec x m)"
  using assms
  by (cases x)
    (auto split: sum.splits intro: grant_inv lm_consume_use_inv lm_refund_use_inv revoke_inv
       expire_stale_inv insert_children_inv find_and_consume_inv)

lemma uses_lease_get:
  assumes "lm_inv m" "uses_lease lid x m"
  shows "\<exists>l now. hm_get m lid = Some l \<and> is_valid now l \<and>
           lease_exec x m = hm_modify lid (\<lambda>l. snd (consume_use l)) m"
proof (cases x)
  case (OpFindConsume now tid a)
  with assms(2) obtain l' m' where r: "find_and_consume now tid a m = Inr (l', m')" "ls_id l' = lid"
    by (auto split: sum.splits)
  from find_and_consume_Inr [OF assms(1) r(1)] r OpFindConsume show ?thesis by fastforce
next
  case (OpConsume now lid')
  with assms(2) have "lid' = lid" "\<exists>m'. lm_consume_use now lid m = Inr m'" by auto
  with OpConsume show ?thesis
    by (auto simp: lm_consume_use_eq split: option.splits if_splits)
qed (use assms in simp_all)

text \<open>What one call does to a lease whose identifier it does not draw.\<close>

lemma lease_exec_get:
  assumes "lm_inv m" "lid \<notin> draws x"
  shows "hm_get (lease_exec x m) lid \<in>
    (case hm_get m lid of
       None \<Rightarrow> {None}
     | Some l \<Rightarrow>
         if uses_lease lid x m then {Some (snd (consume_use l))}
         else if refunds_lease lid x then {Some (refund_use l)}
         else {None, Some l} \<union> {Some (l\<lparr>ls_revoked := True, ls_revoked_reason := Some r\<rparr>) |r. True})"
proof (cases x)
  case (OpFindConsume now tid a)
  show ?thesis
  proof (cases "find_and_consume now tid a m")
    case (Inr p)
    obtain l' m' where p: "p = (l', m')" by fastforce
    show ?thesis
      by (rule find_and_consume_Inr [OF assms(1) Inr [unfolded p]])
        (auto simp: OpFindConsume Inr p split: option.splits)
  qed (auto simp: OpFindConsume split: option.splits)
next
  case (OpInsertChildren cs)
  with assms(2) show ?thesis
    using hm.get_ins_fold_other [of lid ls_id cs "\<lambda>c. c" m]
    by (auto simp: insert_children_def split: option.splits)
next
  case (OpGrant lid' now tid cap g d mu)
  with assms(2) show ?thesis
    by (auto simp: grant_Inr split: sum.splits option.splits)
next
  case (OpConsume now lid')
  show ?thesis
    by (cases "hm_get m lid") (auto simp: OpConsume lm_consume_use_eq split: option.splits)
qed (use assms in \<open>auto simp: lm_refund_use_def revoke_def expire_stale_def Let_def
       hm_get_retain lm_inv_wf split: sum.splits option.splits\<close>)

definition uses_left :: "capability_lease \<Rightarrow> nat option" where
  "uses_left l = map_option unat (ls_uses_remaining l)"

lemma uses_left_consume:
  "is_valid now l \<Longrightarrow> uses_left l = Some n \<Longrightarrow>
     0 < n \<and> uses_left (snd (consume_use l)) = Some (n - 1)"
  by (auto simp: uses_left_def is_valid_iff consume_use_def unat_minus_one unat_gt_0
      split: option.splits)

lemma uses_left_refund:
  "uses_left l = Some k \<Longrightarrow> k \<le> n \<Longrightarrow> \<exists>k' \<le> Suc n. uses_left (refund_use l) = Some k'"
  by (auto simp: uses_left_def refund_use_def unat_plus_one_u32 split: option.splits)

lemma uses_left_revoke [simp]:
  "uses_left (l\<lparr>ls_revoked := b, ls_revoked_reason := r\<rparr>) = uses_left l"
  by (simp add: uses_left_def)

text \<open>A lease that is not in the table, or is revoked, is never used again.\<close>

definition lease_dead :: "lease_id \<Rightarrow> lease_manager \<Rightarrow> bool" where
  "lease_dead lid m \<longleftrightarrow> (\<forall>l. hm_get m lid = Some l \<longrightarrow> ls_revoked l)"

lemma lease_dead_not_used: "lm_inv m \<Longrightarrow> lease_dead lid m \<Longrightarrow> \<not> uses_lease lid x m"
  using uses_lease_get [of m lid x] by (auto simp: lease_dead_def is_valid_iff)

lemma lease_dead_exec:
  assumes "lm_inv m" "lid \<notin> draws x" "lease_dead lid m"
  shows "lease_dead lid (lease_exec x m)"
  using lease_exec_get [OF assms(1,2)] assms(3)
  by (auto simp: lease_dead_def split: option.splits if_splits)

lemma lease_run_induct [consumes 2, case_names Nil Cons]:
  assumes "lm_inv m" "\<forall>x \<in> set xs. op_budget_ok x \<and> lid \<notin> draws x"
    and "\<And>m. lm_inv m \<Longrightarrow> P [] m"
    and "\<And>x xs m. lm_inv m \<Longrightarrow> lid \<notin> draws x \<Longrightarrow> P xs (lease_exec x m) \<Longrightarrow> P (x # xs) m"
  shows "P xs m"
  using assms(1,2) by (induction xs arbitrary: m) (auto intro: assms(3,4) lease_exec_inv)

lemma lease_run_inv: "lm_inv m \<Longrightarrow> \<forall>x \<in> set xs. op_budget_ok x \<Longrightarrow> lm_inv (lease_run xs m)"
  by (induction xs arbitrary: m) (auto intro: lease_exec_inv)

lemma lease_dead_run:
  assumes "lm_inv m" "\<forall>x \<in> set xs. op_budget_ok x \<and> lid \<notin> draws x" "lease_dead lid m"
  shows "uses_count lid xs m = 0 \<and> lease_dead lid (lease_run xs m)"
proof -
  from assms(1,2) have "lease_dead lid m \<longrightarrow> uses_count lid xs m = 0 \<and> lease_dead lid (lease_run xs m)"
    by (induction rule: lease_run_induct) (auto simp: lease_dead_not_used intro: lease_dead_exec)
  with assms(3) show ?thesis by blast
qed

text \<open>At most \<open>n\<close> uses of the lease are left.\<close>

definition left_at_most :: "lease_id \<Rightarrow> nat \<Rightarrow> lease_manager \<Rightarrow> bool" where
  "left_at_most lid n m \<longleftrightarrow> (\<forall>l. hm_get m lid = Some l \<longrightarrow> (\<exists>k \<le> n. uses_left l = Some k))"

lemma left_at_most_exec:
  assumes "lm_inv m" "lid \<notin> draws x" "left_at_most lid n m"
  shows "left_at_most lid (n + of_bool (refunds_lease lid x) - of_bool (uses_lease lid x m))
           (lease_exec x m) \<and> of_bool (uses_lease lid x m) \<le> n"
proof (cases "uses_lease lid x m")
  case True
  then obtain l now where l: "hm_get m lid = Some l" "is_valid now l"
    "lease_exec x m = hm_modify lid (\<lambda>l. snd (consume_use l)) m"
    using uses_lease_get [OF assms(1)] by blast
  moreover from l assms(3) obtain k where "k \<le> n" "uses_left l = Some k"
    by (auto simp: left_at_most_def)
  ultimately show ?thesis
    using True uses_left_consume [of now l k] by (fastforce simp: left_at_most_def)
next
  case False
  show ?thesis
  proof (cases "hm_get m lid")
    case None
    with False lease_exec_get [OF assms(1,2)] show ?thesis by (simp add: left_at_most_def)
  next
    case (Some l)
    with assms(3) obtain k where k: "uses_left l = Some k" "k \<le> n"
      by (auto simp: left_at_most_def)
    with False Some lease_exec_get [OF assms(1,2)] uses_left_refund [OF k] show ?thesis
      by (auto simp: left_at_most_def split: if_splits)
  qed
qed

lemma uses_count_at_most:
  assumes "lm_inv m" "\<forall>x \<in> set xs. op_budget_ok x \<and> lid \<notin> draws x" "left_at_most lid n m"
  shows "uses_count lid xs m \<le> n + length (filter (refunds_lease lid) xs)"
proof -
  from assms(1,2) have "\<forall>n. left_at_most lid n m \<longrightarrow>
      uses_count lid xs m \<le> n + length (filter (refunds_lease lid) xs)"
  proof (induction rule: lease_run_induct)
    case (Cons x xs m)
    show ?case
    proof (intro allI impI)
      fix n
      assume "left_at_most lid n m"
      with Cons.IH left_at_most_exec [OF Cons.hyps this] show
        "uses_count lid (x # xs) m \<le> n + length (filter (refunds_lease lid) (x # xs))"
        by fastforce
    qed
  qed simp
  with assms(3) show ?thesis by blast
qed

text \<open>A table with one lease of three uses, on which the properties are instantiated.\<close>

definition sample_lease :: capability_lease where
  "sample_lease = \<lparr>ls_id = 1, ls_thread_id = 7, ls_capability_name = ''github'',
     ls_granted_actions = GrantSpecific [''list-issues'', ''shell''], ls_granted_at = 0,
     ls_expires_at = Some 100, ls_max_uses = Some 3, ls_uses_remaining = Some 2,
     ls_revoked = False, ls_revoked_reason = None\<rparr>"

lemma sample_lease_inv: "lm_inv [(1, sample_lease)]"
  by (simp add: lm_inv_def sample_lease_def lease_budget_ok_def)

lemmas sample_lease_simps = sample_lease_def is_valid_def covers_action_def covers_def
  replace_char_def active_for_thread_def

section \<open>Properties\<close>

text \<open>
  C2. A derived lease never exceeds the parent's: every lease that \<open>derive_child_leases\<close>
  returns is stored under its own identifier for the child thread and comes from one valid
  lease of the parent thread, with the same capability and expiry and with the parent's
  remaining uses as its whole budget; every action it covers is covered by the parent's
  lease and, when a set of actions was requested, by that set.
\<close>

theorem derived_lease_bounded:
  assumes "lm_inv m" "inj fresh"
    and "derive_child_leases fresh now clock parent child requested m m' = (cs, m'')" "c \<in> set cs"
  shows "hm_get m'' (ls_id c) = Some c \<and> ls_thread_id c = child \<and>
    (\<exists>p. hm_get m (ls_id p) = Some p \<and> ls_thread_id p = parent \<and> is_valid now p \<and>
       ls_capability_name c = ls_capability_name p \<and> ls_expires_at c = ls_expires_at p \<and>
       ls_max_uses c = ls_uses_remaining p \<and> ls_uses_remaining c = ls_uses_remaining p \<and>
       (\<forall>a. covers_action c a \<longrightarrow> covers_action p a) \<and>
       (\<forall>req a. requested = Some req \<longrightarrow> covers_action c a \<longrightarrow> covers (GrantSpecific req) a))"
proof -
  have "c \<in> set (derive_loop clock child requested fresh 0 0 (active_for_thread now parent m))"
    using assms(3,4) by (auto simp: derive_child_leases_def Let_def)
  then obtain p j k where p: "p \<in> set (active_for_thread now parent m)"
    and c: "c = child_lease (fresh k) (clock j) child (child_grants requested (ls_granted_actions p)) p"
    by (rule derive_loop_mem)
  from p assms(1) have q: "hm_get m (ls_id p) = Some p" "ls_thread_id p = parent" "is_valid now p"
    by (auto simp: active_for_thread_def lm_inv_def map_of_eq_Some_iff)
  have "hm_get m'' (ls_id c) = Some c"
    using derive_child_leases_stored [OF assms(2), of c now clock parent child requested m m']
      assms(3,4) by simp
  with q c show ?thesis
    by (auto simp: child_lease_def covers_action_def intro: child_grants_covers)
qed

theorem derived_lease_bounded_witness:
  "\<exists>c m''. derive_child_leases (\<lambda>n. 10 + n) 5 (\<lambda>_. 5) 7 8 (Some [''shell'']) [(1, sample_lease)]
       [(1, sample_lease)] = ([c], m'') \<and> hm_get m'' 10 = Some c \<and> ls_thread_id c = 8 \<and>
     ls_max_uses c = Some 2 \<and> covers_action c ''shell'' \<and> \<not> covers_action c ''list-issues''"
proof -
  define c where "c = child_lease 10 5 8 (GrantSpecific [''shell'']) sample_lease"
  have d: "derive_child_leases (\<lambda>n. 10 + n) 5 (\<lambda>_. 5) 7 8 (Some [''shell'']) [(1, sample_lease)]
      [(1, sample_lease)] = ([c], [(1, sample_lease), (10, c)])"
    by (simp add: derive_child_leases_def sample_lease_simps child_lease_def child_skipped_def
        insert_children_def c_def)
  from derived_lease_bounded [OF sample_lease_inv _ d, of c] d show ?thesis
    by (auto simp: c_def child_lease_def sample_lease_simps inj_def)
qed

text \<open>
  C4. The budget of a lease: in any history of the manager, whatever other threads do, the
  uses handed out of a lease that had \<open>n\<close> uses left are at most \<open>n\<close> plus the number of
  refunds of that lease.
\<close>

theorem lease_use_budget:
  assumes "lm_inv m" "\<forall>x \<in> set xs. op_budget_ok x \<and> lid \<notin> draws x"
    and "hm_get m lid = Some l" "uses_left l = Some n"
  shows "uses_count lid xs m \<le> n + length (filter (refunds_lease lid) xs)"
  by (rule uses_count_at_most) (use assms in \<open>auto simp: left_at_most_def\<close>)

theorem lease_use_budget_witness:
  "uses_count 1 [OpConsume 5 1, OpRefund 1, OpFindConsume 6 7 ''list_issues'', OpConsume 7 1,
       OpConsume 8 1] [(1, sample_lease)] \<le> 2 + 1"
  using lease_use_budget [OF sample_lease_inv, of "[OpConsume 5 1, OpRefund 1,
    OpFindConsume 6 7 ''list_issues'', OpConsume 7 1, OpConsume 8 1]" 1 sample_lease 2]
  by (simp add: uses_left_def sample_lease_def)

text \<open>
  C38. Finding a lease and consuming one agree, although only the first tries the hyphenated
  and the underscored form of the name: \<open>find_and_consume\<close> succeeds exactly when
  \<open>find_lease_for_action\<close> finds a lease at the same time, takes one use of that lease, and
  its other error branch is dead.
\<close>

theorem find_and_consume_agrees:
  assumes "lm_inv m"
  shows "find_and_consume now tid a m =
    (case find_lease_for_action now tid a m of
       None \<Rightarrow> Inl (LeaseNotFound (''no valid lease for action '' @ [CHR 0x27] @ a @ [CHR 0x27]))
     | Some l \<Rightarrow> Inr (snd (consume_use l), hm_modify (ls_id l) (\<lambda>l. snd (consume_use l)) m))"
  using assms by (rule find_and_consume_find)

theorem find_and_consume_agrees_witness:
  "find_and_consume 5 7 ''list_issues'' [(1, sample_lease)] =
     Inr (sample_lease\<lparr>ls_uses_remaining := Some 1\<rparr>,
          [(1, sample_lease\<lparr>ls_uses_remaining := Some 1\<rparr>)])"
  using find_and_consume_agrees [OF sample_lease_inv, of 5 7 "''list_issues''"]
  by (simp add: find_lease_for_action_def sample_lease_simps consume_use_def hm_modify_def)

text \<open>
  Revocation is final: after \<open>revoke\<close>, in every history that does not draw the same
  identifier again, no call hands out a use of the lease and \<open>check\<close> fails at any time.
\<close>

lemma revoked_lease_is_dead:
  assumes "lm_inv m" "\<forall>x \<in> set xs. op_budget_ok x \<and> lid \<notin> draws x"
  shows "uses_count lid xs (revoke lid reason m) = 0 \<and>
    (\<forall>now l. check now lid (lease_run xs (revoke lid reason m)) \<noteq> Inr l)"
proof -
  have "lease_dead lid (revoke lid reason m)"
    by (auto simp: lease_dead_def revoke_def)
  from lease_dead_run [OF revoke_inv [OF assms(1)] assms(2) this] show ?thesis
    by (auto simp: lease_dead_def check_def is_valid_iff split: option.splits if_splits)
qed

lemma revoked_lease_is_dead_witness:
  "uses_count 1 [OpConsume 5 1, OpRefund 1] (revoke 1 ''compromised'' [(1, sample_lease)]) = 0"
  using revoked_lease_is_dead [OF sample_lease_inv, of "[OpConsume 5 1, OpRefund 1]" 1 "''compromised''"]
  by simp

text \<open>
  The serialized form of a grant: writing a grant and reading it back gives the same
  grant except for the empty list of names, which covers no action and comes back as the
  grant that covers all.
\<close>

lemma grant_roundtrip:
  "deserialize_grant (serialize_grant g) = (if g = GrantSpecific [] then GrantAll else g) \<and>
   \<not> covers (GrantSpecific []) a \<and> covers (deserialize_grant (serialize_grant (GrantSpecific []))) a"
  by (cases g) (auto simp: deserialize_grant_def covers_specific)

end
