(* ===== verification/Policy_Gates.thy ===== *)
theory Policy_Gates
  imports Lease_Manager
begin

text \<open>
  Who may run what: the capability registry (\<open>capability/registry.rs\<close>), the tiers of tools
  (\<open>gate/tool_tier.rs\<close>), the lease planner (\<open>capability/planner.rs\<close>), the policy engine
  (\<open>capability/policy.rs\<close>) and the execution gates with their pipeline (\<open>gate/mod.rs\<close>,
  \<open>gate/pipeline.rs\<close>, \<open>gate/lease.rs\<close>).
\<close>

section \<open>The capability registry\<close>

type_synonym capability_registry = "(string, capability) hmap"

definition register :: "capability \<Rightarrow> capability_registry \<Rightarrow> capability_registry" where
  "register c reg = hm_insert (cap_name c) c reg"

definition reg_list :: "capability_registry \<Rightarrow> capability list" where
  "reg_list reg = hm_values reg"

fun find_action_in :: "string \<Rightarrow> capability list \<Rightarrow> (string \<times> action_def) option" where
  "find_action_in a [] = None"
| "find_action_in a (c # cs) =
     (case find (\<lambda>x. ad_name x = a) (cap_actions c) of
        Some x \<Rightarrow> Some (cap_name c, x)
      | None \<Rightarrow> find_action_in a cs)"

definition find_action :: "string \<Rightarrow> capability_registry \<Rightarrow> (string \<times> action_def) option" where
  "find_action a reg = find_action_in a (hm_values reg)"

definition get_action :: "string \<Rightarrow> string \<Rightarrow> capability_registry \<Rightarrow> action_def option" where
  "get_action cap a reg =
     (case hm_get reg cap of
        None \<Rightarrow> None
      | Some c \<Rightarrow> find (\<lambda>x. ad_name x = a) (cap_actions c))"

definition all_actions :: "capability_registry \<Rightarrow> action_def list" where
  "all_actions reg = concat (map cap_actions (hm_values reg))"

section \<open>Tool tiers\<close>

definition AUTONOMOUS_TOOL_DENYLIST :: "string list" where
  "AUTONOMOUS_TOOL_DENYLIST =
     [''routine_create'', ''routine_update'', ''routine_delete'', ''routine_fire'',
      ''event_emit'', ''create_job'', ''job_prompt'', ''restart'', ''tool_install'',
      ''tool_auth'', ''tool_activate'', ''tool_remove'', ''tool_upgrade'',
      ''skill_install'', ''skill_remove'', ''secret_list'', ''secret_delete'']"

definition is_autonomous_denylisted :: "string \<Rightarrow> bool" where
  "is_autonomous_denylisted action_name \<longleftrightarrow> List.member AUTONOMOUS_TOOL_DENYLIST action_name"

datatype tool_tier = TierReadOnly | TierStateful | TierPrivileged | TierAdministrative

text \<open>The derived \<open>Ord\<close> compares the position of the variants.\<close>

primrec tier_index :: "tool_tier \<Rightarrow> nat" where
  "tier_index TierReadOnly = 0"
| "tier_index TierStateful = 1"
| "tier_index TierPrivileged = 2"
| "tier_index TierAdministrative = 3"

lemma tier_index_inj: "tier_index a = tier_index b \<longleftrightarrow> a = b"
  by (cases a; cases b) simp_all

instantiation tool_tier :: linorder
begin

definition less_eq_tool_tier :: "tool_tier \<Rightarrow> tool_tier \<Rightarrow> bool" where
  "less_eq_tool_tier a b \<longleftrightarrow> tier_index a \<le> tier_index b"

definition less_tool_tier :: "tool_tier \<Rightarrow> tool_tier \<Rightarrow> bool" where
  "less_tool_tier a b \<longleftrightarrow> tier_index a < tier_index b"

instance
  by standard (auto simp: less_eq_tool_tier_def less_tool_tier_def tier_index_inj)

end

definition classify_tool_tier :: "action_def \<Rightarrow> tool_tier" where
  "classify_tool_tier a =
     (if is_autonomous_denylisted (ad_name a) then TierAdministrative
      else if ad_requires_approval a then TierPrivileged
      else let only_read_compute =
                 (ad_effects a \<noteq> [] \<and>
                  list_all (\<lambda>e. e = ReadLocal \<or> e = Compute) (ad_effects a))
           in if only_read_compute then TierReadOnly else TierStateful)"

section \<open>The lease planner\<close>

record capability_grant_plan =
  cgp_capability_name :: string
  cgp_granted_actions :: granted_actions

fun tier_allowed :: "thread_type \<Rightarrow> string \<Rightarrow> tool_tier \<Rightarrow> bool" where
  "tier_allowed Foreground action_name tier = True"
| "tier_allowed Research action_name tier = (tier \<le> TierStateful)"
| "tier_allowed MissionThread action_name tier =
     (case tier of
        TierReadOnly \<Rightarrow> True
      | TierStateful \<Rightarrow> True
      | TierPrivileged \<Rightarrow> \<not> is_autonomous_denylisted action_name
      | TierAdministrative \<Rightarrow> False)"

definition plan_for_thread ::
    "thread_type \<Rightarrow> capability_registry \<Rightarrow> capability_grant_plan list" where
  "plan_for_thread tt reg =
     List.map_filter (\<lambda>c.
       let granted = map ad_name (filter (\<lambda>a. tier_allowed tt (ad_name a) (classify_tool_tier a))
                                    (cap_actions c))
       in if granted = [] then None
          else Some \<lparr>cgp_capability_name = cap_name c,
                     cgp_granted_actions = GrantSpecific granted\<rparr>) (reg_list reg)"

section \<open>The policy engine\<close>

datatype policy_decision =
    DecAllow
  | DecDeny string
  | DecRequireApproval string

record policy_engine =
  pe_global_policies :: "policy_rule list"
  pe_denied_effects :: "effect_type list"

definition new_policy_engine :: policy_engine where
  "new_policy_engine = \<lparr>pe_global_policies = [], pe_denied_effects = []\<rparr>"

definition add_global_policy :: "policy_rule \<Rightarrow> policy_engine \<Rightarrow> policy_engine" where
  "add_global_policy rule pe = pe\<lparr>pe_global_policies := pe_global_policies pe @ [rule]\<rparr>"

definition deny_effect :: "effect_type \<Rightarrow> policy_engine \<Rightarrow> policy_engine" where
  "deny_effect e pe = pe\<lparr>pe_denied_effects := pe_denied_effects pe @ [e]\<rparr>"

definition rule_matches :: "policy_rule \<Rightarrow> action_def \<Rightarrow> bool" where
  "rule_matches r a =
     (case pr_condition r of
        Always \<Rightarrow> True
      | ActionMatches pattern \<Rightarrow> ad_name a = pattern
      | EffectTypeIs e \<Rightarrow> List.member (ad_effects a) e)"

fun merge_decision :: "policy_decision \<Rightarrow> policy_effect \<Rightarrow> string \<Rightarrow> policy_decision" where
  "merge_decision current PolDeny source = DecDeny source"
| "merge_decision current PolRequireApproval source =
     (case current of DecDeny r \<Rightarrow> current | _ \<Rightarrow> DecRequireApproval source)"
| "merge_decision current PolAllow source = current"

text \<open>One of the two loops over rules.\<close>

fun merge_rules :: "policy_rule list \<Rightarrow> action_def \<Rightarrow> policy_decision \<Rightarrow> policy_decision" where
  "merge_rules [] a d = d"
| "merge_rules (r # rs) a d =
     merge_rules rs a (if rule_matches r a then merge_decision d (pr_effect r) (pr_name r) else d)"

definition policy_evaluate ::
    "policy_engine \<Rightarrow> time \<Rightarrow> action_def \<Rightarrow> capability_lease \<Rightarrow> policy_rule list \<Rightarrow> policy_decision"
    where
  "policy_evaluate pe now action lease capability_policies =
     (if \<not> is_valid now lease
      then DecDeny (''lease for '' @ ls_capability_name lease @ '' is expired/revoked'')
      else if \<not> covers_action lease (ad_name action)
      then DecDeny (''lease for '' @ ls_capability_name lease @ '' does not cover action ''
                    @ ad_name action)
      else case find (List.member (pe_denied_effects pe)) (ad_effects action) of
        Some e \<Rightarrow> DecDeny (''effect type '' @ effect_debug e @ '' is denied by global policy'')
      | None \<Rightarrow>
          let d1 = merge_rules (pe_global_policies pe) action DecAllow;
              d2 = merge_rules capability_policies action d1
          in if ad_requires_approval action
             then merge_decision d2 PolRequireApproval ''action requires approval'' else d2)"

definition evaluate_with_provenance ::
    "policy_engine \<Rightarrow> time \<Rightarrow> action_def \<Rightarrow> capability_lease \<Rightarrow> policy_rule list \<Rightarrow> provenance \<Rightarrow>
     policy_decision" where
  "evaluate_with_provenance pe now action lease capability_policies prov =
     (let d = policy_evaluate pe now action lease capability_policies in
      case prov of
        ProvLlmGenerated \<Rightarrow>
          let d1 = (if List.member (ad_effects action) Financial
                    then merge_decision d PolRequireApproval
                      ''LLM-generated data cannot trigger financial effects without approval''
                    else d)
          in if List.member (ad_effects action) WriteExternal
             then merge_decision d1 PolRequireApproval
                    ''LLM-generated data requires approval for external writes''
             else d1
      | ProvToolOutput _ \<Rightarrow>
          if List.member (ad_effects action) Financial
          then merge_decision d PolRequireApproval
                 ''tool output data requires approval for financial effects''
          else d
      | ProvUser \<Rightarrow> d
      | ProvSystem \<Rightarrow> d
      | ProvMemoryRetrieval _ \<Rightarrow> d)"

section \<open>Gates\<close>

fun kind_name :: "resume_kind \<Rightarrow> string" where
  "kind_name (Approval _) = ''approval''"
| "kind_name (Authentication _ _ _) = ''authentication''"
| "kind_name (External _) = ''external confirmation''"

datatype gate_resolution =
    GrApproved bool
  | GrDenied "string option"
  | GrCredentialProvided string
  | GrCancelled
  | GrExternalCallback json

datatype execution_mode = Interactive | InteractiveAutoApprove | Autonomous | Container

record gate_context =
  gc_user_id :: string
  gc_thread_id :: thread_id
  gc_source_channel :: string
  gc_action_name :: string
  gc_call_id :: string
  gc_parameters :: json
  gc_action_def :: action_def
  gc_execution_mode :: execution_mode
  gc_auto_approved :: "string list"
  gc_supervised_mode :: bool
  gc_supervised_timeout_secs :: u64

text \<open>
  The trait \<open>ExecutionGate\<close>: its three methods. Gates are deterministic during one run of
  the pipeline, as the trait documents.
\<close>

record execution_gate =
  eg_name :: string
  eg_priority :: u32
  eg_evaluate :: "gate_context \<Rightarrow> gate_decision"

definition new_gate_pipeline :: "execution_gate list \<Rightarrow> execution_gate list" where
  "new_gate_pipeline gates = sort_key eg_priority gates"

fun pipeline_evaluate :: "execution_gate list \<Rightarrow> gate_context \<Rightarrow> gate_decision" where
  "pipeline_evaluate [] ctx = GateAllow"
| "pipeline_evaluate (g # gs) ctx =
     (case eg_evaluate g ctx of
        GateAllow \<Rightarrow> pipeline_evaluate gs ctx
      | GatePause r k \<Rightarrow> GatePause r k
      | GateDeny r \<Rightarrow> GateDeny r)"

text \<open>
  \<open>LeaseGate\<close>; \<open>now\<close> is the clock when the lease is looked up and \<open>now'\<close> when the returned
  copy is checked.
\<close>

definition lease_gate_evaluate ::
    "bool \<Rightarrow> lease_manager \<Rightarrow> time \<Rightarrow> time \<Rightarrow> gate_context \<Rightarrow> gate_decision" where
  "lease_gate_evaluate permissive m now now' ctx =
     (if permissive then GateAllow
      else case find_lease_for_action now (gc_thread_id ctx) (gc_action_name ctx) m of
        Some lease \<Rightarrow>
          if is_valid now' lease then GateAllow
          else GateDeny (''No valid lease for action '' @ [CHR 0x27] @ gc_action_name ctx
                 @ [CHR 0x27] @ '' on thread '' @ show_nat (gc_thread_id ctx))
      | None \<Rightarrow> GateDeny (''No valid lease for action '' @ [CHR 0x27] @ gc_action_name ctx
                 @ [CHR 0x27] @ '' on thread '' @ show_nat (gc_thread_id ctx)))"

definition lease_gate :: "bool \<Rightarrow> lease_manager \<Rightarrow> time \<Rightarrow> time \<Rightarrow> execution_gate" where
  "lease_gate permissive m now now' =
     \<lparr>eg_name = ''lease'', eg_priority = 10,
      eg_evaluate = lease_gate_evaluate permissive m now now'\<rparr>"

section \<open>The registry and the planner\<close>

definition reg_inv :: "capability_registry \<Rightarrow> bool" where
  "reg_inv reg \<longleftrightarrow> hm_wf reg \<and> (\<forall>k c. hm_get reg k = Some c \<longrightarrow> cap_name c = k)"

lemma register_inv [invariant_intros]: "reg_inv reg \<Longrightarrow> reg_inv (register c reg)"
  by (auto simp: reg_inv_def register_def)

lemma find_action_in_Some:
  "find_action_in a cs = Some (n, x) \<Longrightarrow>
     \<exists>c \<in> set cs. cap_name c = n \<and> x \<in> set (cap_actions c) \<and> ad_name x = a"
  by (induction cs) (auto split: option.splits dest: find_Some_iff2)

lemma find_action_in_None:
  "find_action_in a cs = None \<longleftrightarrow> (\<forall>c \<in> set cs. \<forall>x \<in> set (cap_actions c). ad_name x \<noteq> a)"
  by (induction cs) (auto simp: find_None_iff2 split: option.splits dest: find_Some_iff2)

lemma plan_for_thread_mem:
  assumes "p \<in> set (plan_for_thread tt reg)"
  shows "\<exists>c \<in> set (hm_values reg). cgp_capability_name p = cap_name c \<and>
    granted_names (cgp_granted_actions p) \<noteq> [] \<and>
    cgp_granted_actions p =
      GrantSpecific (map ad_name (filter (\<lambda>a. tier_allowed tt (ad_name a) (classify_tool_tier a))
                       (cap_actions c)))"
  using assms
  by (force simp: plan_for_thread_def map_filter_def Let_def reg_list_def split: if_splits)

lemma tier_allowed_not_denylisted:
  "tt \<noteq> Foreground \<Longrightarrow> tier_allowed tt (ad_name a) (classify_tool_tier a) \<Longrightarrow>
     \<not> is_autonomous_denylisted (ad_name a)"
  by (cases tt) (auto simp: classify_tool_tier_def less_eq_tool_tier_def)

lemma denylist_underscored: "is_autonomous_denylisted a \<Longrightarrow> CHR ''-'' \<notin> set a"
  by (auto simp: is_autonomous_denylisted_def AUTONOMOUS_TOOL_DENYLIST_def)

lemma replace_char_absent: "c \<notin> set s \<Longrightarrow> replace_char c d s = s"
  by (induction s) (auto simp: replace_char_def)

lemma plan_not_denylisted:
  assumes "tt \<noteq> Foreground" "p \<in> set (plan_for_thread tt reg)" "is_autonomous_denylisted a"
  shows "a \<notin> set (granted_names (cgp_granted_actions p)) \<and>
    (covers (cgp_granted_actions p) a \<longrightarrow>
       (\<exists>x \<in> set (all_actions reg). ad_name x = replace_char (CHR ''_'') (CHR ''-'') a \<and> ad_name x \<noteq> a))"
proof -
  from plan_for_thread_mem [OF assms(2)] obtain c where c: "c \<in> set (hm_values reg)"
    "cgp_granted_actions p = GrantSpecific (map ad_name (filter
       (\<lambda>a. tier_allowed tt (ad_name a) (classify_tool_tier a)) (cap_actions c)))" by blast
  have na: "a \<notin> set (granted_names (cgp_granted_actions p))"
    using c(2) assms(3) tier_allowed_not_denylisted [OF assms(1)] by auto
  moreover have "replace_char (CHR ''-'') (CHR ''_'') a = a"
    using denylist_underscored [OF assms(3)] by (rule replace_char_absent)
  ultimately show ?thesis
    using c by (fastforce simp: covers_specific all_actions_def)
qed

section \<open>The order of decisions\<close>

text \<open>\<open>Deny > RequireApproval > Allow\<close>, as the policy engine documents it.\<close>

primrec effect_index :: "policy_effect \<Rightarrow> nat" where
  "effect_index PolAllow = 0"
| "effect_index PolRequireApproval = 1"
| "effect_index PolDeny = 2"

lemma effect_index_inj: "effect_index a = effect_index b \<longleftrightarrow> a = b"
  by (cases a; cases b) simp_all

instantiation policy_effect :: linorder
begin

definition less_eq_policy_effect :: "policy_effect \<Rightarrow> policy_effect \<Rightarrow> bool" where
  "less_eq_policy_effect a b \<longleftrightarrow> effect_index a \<le> effect_index b"

definition less_policy_effect :: "policy_effect \<Rightarrow> policy_effect \<Rightarrow> bool" where
  "less_policy_effect a b \<longleftrightarrow> effect_index a < effect_index b"

instance
  by standard (auto simp: less_eq_policy_effect_def less_policy_effect_def effect_index_inj)

end

fun decision_effect :: "policy_decision \<Rightarrow> policy_effect" where
  "decision_effect DecAllow = PolAllow"
| "decision_effect (DecDeny _) = PolDeny"
| "decision_effect (DecRequireApproval _) = PolRequireApproval"

lemma merge_decision_max: "decision_effect (merge_decision d e s) = max (decision_effect d) e"
  by (cases e; cases d) (auto simp: max_def less_eq_policy_effect_def)

lemma merge_approval: "merge_decision d PolRequireApproval s \<noteq> DecAllow"
  by (cases d) simp_all

declare merge_decision.simps [simp del]

definition matching_effects :: "policy_rule list \<Rightarrow> action_def \<Rightarrow> policy_effect set" where
  "matching_effects rs a = pr_effect ` {r \<in> set rs. rule_matches r a}"

lemma matching_effects_Cons [simp]:
  "matching_effects [] a = {}"
  "matching_effects (r # rs) a =
     (if rule_matches r a then insert (pr_effect r) (matching_effects rs a)
      else matching_effects rs a)"
  by (auto simp: matching_effects_def)

lemma finite_matching_effects [simp]: "finite (matching_effects rs a)"
  by (simp add: matching_effects_def)

lemma merge_rules_Max:
  "decision_effect (merge_rules rs a d) = Max (insert (decision_effect d) (matching_effects rs a))"
proof (induction rs a d rule: merge_rules.induct)
  case (2 r rs a d)
  show ?case
  proof (cases "matching_effects rs a = {}")
    case True
    with 2 show ?thesis by (auto simp: merge_decision_max)
  next
    case False
    with 2 show ?thesis by (auto simp: merge_decision_max max.assoc)
  qed
qed simp

lemma merge_rules_append: "merge_rules (rs @ rs') a d = merge_rules rs' a (merge_rules rs a d)"
  by (induction rs a d rule: merge_rules.induct) simp_all

lemma matching_effects_append [simp]:
  "matching_effects (rs @ rs') a = matching_effects rs a \<union> matching_effects rs' a"
  by (auto simp: matching_effects_def)

lemma PolAllow_least [simp]: "max PolAllow e = e" "max e PolAllow = e"
  by (cases e; simp add: max_def less_eq_policy_effect_def)+

lemma Max_insert_floor:
  "finite M \<Longrightarrow> max (Max (insert PolAllow M)) e = Max (insert e M)"
  by (cases "M = {}") (simp_all add: max.commute)

lemma provenance_ge:
  "decision_effect (policy_evaluate pe now a l rs) \<le>
     decision_effect (evaluate_with_provenance pe now a l rs prov)"
  by (cases prov) (auto simp: evaluate_with_provenance_def Let_def merge_decision_max
      intro: max.coboundedI1)

section \<open>The pipeline\<close>

lemma pipeline_allow_iff:
  "pipeline_evaluate gs ctx = GateAllow \<longleftrightarrow> (\<forall>g \<in> set gs. eg_evaluate g ctx = GateAllow)"
  by (induction gs) (auto split: gate_decision.splits)

lemma pipeline_first:
  "pipeline_evaluate gs ctx = d \<Longrightarrow> d \<noteq> GateAllow \<Longrightarrow>
     \<exists>as g bs. gs = as @ g # bs \<and> eg_evaluate g ctx = d \<and> (\<forall>h \<in> set as. eg_evaluate h ctx = GateAllow)"
proof (induction gs)
  case (Cons g gs)
  show ?case
  proof (cases "eg_evaluate g ctx = GateAllow")
    case True
    with Cons obtain as h bs where "gs = as @ h # bs" "eg_evaluate h ctx = d"
      "\<forall>h \<in> set as. eg_evaluate h ctx = GateAllow" by auto
    with True show ?thesis by (intro exI [of _ "g # as"]) auto
  next
    case False
    with Cons.prems show ?thesis
      by (intro exI [of _ "[]"]) (auto split: gate_decision.splits)
  qed
qed simp

lemma lease_gate_allow_iff:
  "lease_gate_evaluate False m now now' ctx = GateAllow \<longleftrightarrow>
     (\<exists>l. find_lease_for_action now (gc_thread_id ctx) (gc_action_name ctx) m = Some l \<and> is_valid now' l)"
  by (auto simp: lease_gate_evaluate_def split: option.splits)

text \<open>Sample inputs for the properties.\<close>

definition sample_action :: "string \<Rightarrow> effect_type list \<Rightarrow> bool \<Rightarrow> action_def" where
  "sample_action n es ra = \<lparr>ad_name = n, ad_description = [], ad_parameters_schema = JObject [],
     ad_effects = es, ad_requires_approval = ra\<rparr>"

definition sample_registry :: capability_registry where
  "sample_registry = [(''ops'', \<lparr>cap_name = ''ops'', cap_description = [],
     cap_actions = [sample_action ''routine-create'' [WriteLocal] False,
                    sample_action ''restart'' [WriteLocal] False],
     cap_knowledge = [], cap_policies = []\<rparr>)]"

definition sample_gate_context :: gate_context where
  "sample_gate_context = \<lparr>gc_user_id = ''u'', gc_thread_id = 7, gc_source_channel = ''web'',
     gc_action_name = ''shell'', gc_call_id = ''c'', gc_parameters = JNull,
     gc_action_def = sample_action ''shell'' [WriteLocal] True, gc_execution_mode = Interactive,
     gc_auto_approved = [], gc_supervised_mode = False, gc_supervised_timeout_secs = 300\<rparr>"

definition sample_deny_gate :: execution_gate where
  "sample_deny_gate = \<lparr>eg_name = ''rate'', eg_priority = 5, eg_evaluate = \<lambda>_. GateDeny ''limit''\<rparr>"

section \<open>Properties\<close>

text \<open>
  The planner keeps the tools of the denylist from threads that run without a user: in
  the plan of a research or mission thread no grant names one, and a grant covers a
  denylisted name only when the registry has an action whose name is its hyphenated form.
\<close>

lemma plan_excludes_denylisted:
  assumes "tt \<noteq> Foreground" "p \<in> set (plan_for_thread tt reg)" "is_autonomous_denylisted a"
  shows "a \<notin> set (granted_names (cgp_granted_actions p)) \<and>
    (covers (cgp_granted_actions p) a \<longrightarrow>
       (\<exists>x \<in> set (all_actions reg). ad_name x = replace_char (CHR ''_'') (CHR ''-'') a \<and> ad_name x \<noteq> a))"
  using assms by (rule plan_not_denylisted)

lemma plan_excludes_denylisted_witness:
  "\<exists>p. plan_for_thread MissionThread sample_registry = [p] \<and>
     ''routine_create'' \<notin> set (granted_names (cgp_granted_actions p)) \<and>
     ''restart'' \<notin> set (granted_names (cgp_granted_actions p)) \<and>
     covers (cgp_granted_actions p) ''routine_create''"
proof -
  let ?p = "\<lparr>cgp_capability_name = ''ops'', cgp_granted_actions = GrantSpecific [''routine-create'']\<rparr>"
  have "plan_for_thread MissionThread sample_registry = [?p]" by code_simp
  with plan_excludes_denylisted [of MissionThread ?p sample_registry "''routine_create''"]
    plan_excludes_denylisted [of MissionThread ?p sample_registry "''restart''"]
  show ?thesis
    by (auto simp: is_autonomous_denylisted_def AUTONOMOUS_TOOL_DENYLIST_def covers_specific
        replace_char_def)
qed

text \<open>
  C8. What the policy engine decides, as a specification: \<open>Deny\<close> when the lease is invalid
  or does not cover the action or an effect of the action is denied globally; otherwise the
  strictest effect among all matching rules, global and of the capability, with
  \<open>RequireApproval\<close> as a floor for an action that asks for it. The order of the rules does
  not matter.
\<close>

theorem policy_evaluate_refines:
  "decision_effect (policy_evaluate pe now a l rs) =
     (if is_valid now l \<and> covers_action l (ad_name a)
          \<and> set (ad_effects a) \<inter> set (pe_denied_effects pe) = {}
      then Max (insert (if ad_requires_approval a then PolRequireApproval else PolAllow)
                  (matching_effects (pe_global_policies pe) a \<union> matching_effects rs a))
      else PolDeny)"
proof -
  let ?M = "matching_effects (pe_global_policies pe) a \<union> matching_effects rs a"
  have d: "decision_effect (merge_rules rs a (merge_rules (pe_global_policies pe) a DecAllow)) =
      Max (insert PolAllow ?M)"
    using merge_rules_Max [of "pe_global_policies pe @ rs" a DecAllow]
    by (simp add: merge_rules_append)
  show ?thesis
  proof (cases "find (List.member (pe_denied_effects pe)) (ad_effects a)")
    case None
    then have "set (ad_effects a) \<inter> set (pe_denied_effects pe) = {}"
      by (auto simp: find_None_iff2)
    with None d show ?thesis
      by (simp add: policy_evaluate_def merge_decision_max Max_insert_floor)
  next
    case (Some e)
    then have "set (ad_effects a) \<inter> set (pe_denied_effects pe) \<noteq> {}"
      by (auto dest!: find_Some_iff2)
    with Some show ?thesis by (simp add: policy_evaluate_def)
  qed
qed

text \<open>
  Taint: the provenance of the data never relaxes a decision, and data written by the
  model never triggers a financial or an external write effect, nor tool output a financial
  one, without approval.
\<close>

lemma provenance_taint:
  "decision_effect (policy_evaluate pe now a l rs)
     \<le> decision_effect (evaluate_with_provenance pe now a l rs prov) \<and>
   (prov = ProvLlmGenerated \<and> (Financial \<in> set (ad_effects a) \<or> WriteExternal \<in> set (ad_effects a))
     \<or> (\<exists>t. prov = ProvToolOutput t) \<and> Financial \<in> set (ad_effects a) \<longrightarrow>
      evaluate_with_provenance pe now a l rs prov \<noteq> DecAllow)"
  using provenance_ge [of pe now a l rs prov]
  by (auto simp: evaluate_with_provenance_def Let_def merge_approval)

lemma provenance_taint_witness:
  "evaluate_with_provenance new_policy_engine 5 (sample_action ''shell'' [Financial] False) sample_lease []
     ProvLlmGenerated \<noteq> DecAllow \<and>
   policy_evaluate new_policy_engine 5 (sample_action ''shell'' [Financial] False) sample_lease [] = DecAllow"
  using provenance_taint [of new_policy_engine 5 "sample_action ''shell'' [Financial] False" sample_lease
      "[]" ProvLlmGenerated]
  by (simp add: sample_action_def policy_evaluate_def new_policy_engine_def sample_lease_simps)

text \<open>
  The pipeline: it allows a call exactly when every gate does; otherwise its decision is
  that of a gate all of whose predecessors in priority allow the call.
\<close>

lemma pipeline_first_blocker:
  "(pipeline_evaluate (new_gate_pipeline gates) ctx = GateAllow
      \<longleftrightarrow> (\<forall>g \<in> set gates. eg_evaluate g ctx = GateAllow)) \<and>
   (pipeline_evaluate (new_gate_pipeline gates) ctx \<noteq> GateAllow \<longrightarrow>
      (\<exists>g \<in> set gates. eg_evaluate g ctx = pipeline_evaluate (new_gate_pipeline gates) ctx \<and>
         (\<forall>h \<in> set gates. eg_priority h < eg_priority g \<longrightarrow> eg_evaluate h ctx = GateAllow)))"
proof (intro conjI impI)
  show "pipeline_evaluate (new_gate_pipeline gates) ctx = GateAllow \<longleftrightarrow>
      (\<forall>g \<in> set gates. eg_evaluate g ctx = GateAllow)"
    by (simp add: pipeline_allow_iff new_gate_pipeline_def)
next
  assume "pipeline_evaluate (new_gate_pipeline gates) ctx \<noteq> GateAllow"
  from pipeline_first [OF refl this] obtain as g bs where
    s: "new_gate_pipeline gates = as @ g # bs"
      "eg_evaluate g ctx = pipeline_evaluate (new_gate_pipeline gates) ctx"
      "\<forall>h \<in> set as. eg_evaluate h ctx = GateAllow" by blast
  have "sorted (map eg_priority (as @ g # bs))"
    using s(1) by (metis new_gate_pipeline_def sorted_sort_key)
  then have "h \<in> set bs \<Longrightarrow> eg_priority g \<le> eg_priority h" for h
    by (auto simp: sorted_append)
  moreover have "set gates = set as \<union> {g} \<union> set bs"
    using s(1) by (metis new_gate_pipeline_def set_sort Un_insert_right list.simps(15) set_append
        Un_insert_left sup_bot.right_neutral)
  ultimately show "\<exists>g \<in> set gates. eg_evaluate g ctx = pipeline_evaluate (new_gate_pipeline gates) ctx \<and>
      (\<forall>h \<in> set gates. eg_priority h < eg_priority g \<longrightarrow> eg_evaluate h ctx = GateAllow)"
    using s(2,3) by (intro bexI [of _ g]) fastforce+
qed

lemma pipeline_first_blocker_witness:
  "pipeline_evaluate (new_gate_pipeline [lease_gate False [] 0 0, sample_deny_gate]) sample_gate_context
     = GateDeny ''limit''"
proof -
  let ?gs = "[lease_gate False [] 0 0, sample_deny_gate]"
  have "\<exists>g \<in> set ?gs. eg_evaluate g sample_gate_context =
        pipeline_evaluate (new_gate_pipeline ?gs) sample_gate_context \<and>
      (\<forall>h \<in> set ?gs. eg_priority h < eg_priority g \<longrightarrow> eg_evaluate h sample_gate_context = GateAllow)"
    using pipeline_first_blocker [of ?gs sample_gate_context] by (auto simp: sample_deny_gate_def)
  then show ?thesis
    by (auto simp: sample_deny_gate_def lease_gate_def)
qed

text \<open>
  The lease gate fails closed: a pipeline that holds the enforcing lease gate allows a
  call only if the thread has a lease that is valid and covers the action, and then
  consuming a use of a lease for that call at the time of the check succeeds.
\<close>

lemma pipeline_lease_gate:
  assumes "lm_inv m" "lease_gate False m now now' \<in> set gates"
    and "pipeline_evaluate (new_gate_pipeline gates) ctx = GateAllow"
  shows "\<exists>l m'. find_and_consume now (gc_thread_id ctx) (gc_action_name ctx) m = Inr (l, m') \<and>
    ls_thread_id l = gc_thread_id ctx \<and> covers_action l (gc_action_name ctx)"
proof -
  have "lease_gate_evaluate False m now now' ctx = GateAllow"
    using assms(2,3) by (auto simp: pipeline_allow_iff new_gate_pipeline_def lease_gate_def)
  then obtain l where l: "find_lease_for_action now (gc_thread_id ctx) (gc_action_name ctx) m = Some l"
    by (auto simp: lease_gate_allow_iff)
  then have "ls_thread_id l = gc_thread_id ctx \<and> covers_action l (gc_action_name ctx)"
    by (auto simp: find_lease_for_action_def Let_def covers_action_def
        dest!: find_Some_iff2 dest: covers_normalised)
  with l find_and_consume_find [OF assms(1)] show ?thesis
    by (auto simp: covers_action_def)
qed

lemma pipeline_lease_gate_witness:
  "\<exists>l m'. find_and_consume 5 7 ''shell'' [(1, sample_lease)] = Inr (l, m') \<and> covers_action l ''shell''"
proof -
  have "pipeline_evaluate (new_gate_pipeline [lease_gate False [(1, sample_lease)] 5 6])
      sample_gate_context = GateAllow"
    by (simp add: new_gate_pipeline_def lease_gate_def lease_gate_evaluate_def sample_gate_context_def
        find_lease_for_action_def sample_lease_simps)
  from pipeline_lease_gate [OF sample_lease_inv _ this] show ?thesis
    by (fastforce simp: sample_gate_context_def)
qed

end
