(* ===== verification/Structured_Executor.thy ===== *)
theory Structured_Executor
  imports Policy_Gates
begin

text \<open>
  The executor of structured tool calls (\<open>executor/structured.rs\<close>): \<open>execute_action_calls\<close>
  with its three phases, preflight, execution and merge.

  The source takes the executor of effects as a trait object. Here its two methods are
  arguments: \<open>available\<close> lists the actions of a lease and \<open>exec i\<close> is the outcome of running
  call number \<open>i\<close>, with \<open>None\<close> for a task that panics. \<open>clk\<close> gives the readings of the clock,
  \<open>env\<close> what other threads did to the lease table before each access of the preflight, and
  \<open>sched\<close> the order in which parallel tasks finish.
\<close>

section \<open>Types\<close>

record exec_context =
  xc_thread_id :: thread_id
  xc_thread_type :: thread_type
  xc_project_id :: project_id
  xc_user_id :: string
  xc_step_id :: step_id
  xc_current_call_id :: "string option"
  xc_source_channel :: "string option"
  xc_supervised_mode :: bool
  xc_supervised_timeout_secs :: u64

record action_batch_result =
  abr_results :: "action_result list"
  abr_events :: "event_kind list"
  abr_need_approval :: "thread_outcome option"

datatype preflight_outcome =
    PfRunnable nat capability_lease
  | PfError nat action_result event_kind

type_synonym exec_fun =
  "nat \<Rightarrow> string \<Rightarrow> json \<Rightarrow> capability_lease \<Rightarrow> exec_context \<Rightarrow> (engine_error + action_result) option"

type_synonym slots = "(action_result \<times> event_kind) option list"

section \<open>Resume kinds as JSON\<close>

text \<open>
  The derived serialization of \<open>ResumeKind\<close>: an object with one key, the variant, whose
  value is the object of its fields. A \<open>serde_json\<close> object lists its keys in order.
\<close>

fun resume_kind_to_json :: "resume_kind \<Rightarrow> json" where
  "resume_kind_to_json (Approval b) = JObject [(''Approval'', JObject [(''allow_always'', JBool b)])]"
| "resume_kind_to_json (Authentication c i u) =
     JObject [(''Authentication'', JObject
       [(''auth_url'', case u of Some s \<Rightarrow> JString s | None \<Rightarrow> JNull),
        (''credential_name'', JString c), (''instructions'', JString i)])]"
| "resume_kind_to_json (External c) = JObject [(''External'', JObject [(''callback_id'', JString c)])]"

definition json_opt_str :: "json option \<Rightarrow> string option option" where
  "json_opt_str j =
     (case j of
        None \<Rightarrow> Some None
      | Some JNull \<Rightarrow> Some None
      | Some (JString s) \<Rightarrow> Some (Some s)
      | _ \<Rightarrow> None)"

definition resume_kind_from_json :: "json \<Rightarrow> resume_kind option" where
  "resume_kind_from_json j =
     (case j of
        JObject [(k, v)] \<Rightarrow>
          if k = ''Approval'' then
            (case json_get ''allow_always'' v of Some (JBool b) \<Rightarrow> Some (Approval b) | _ \<Rightarrow> None)
          else if k = ''Authentication'' then
            (case (json_get ''credential_name'' v, json_get ''instructions'' v,
                   json_opt_str (json_get ''auth_url'' v)) of
               (Some (JString c), Some (JString i), Some u) \<Rightarrow> Some (Authentication c i u)
             | _ \<Rightarrow> None)
          else if k = ''External'' then
            (case json_get ''callback_id'' v of Some (JString c) \<Rightarrow> Some (External c) | _ \<Rightarrow> None)
          else None
      | _ \<Rightarrow> None)"

section \<open>Classification of one result\<close>

definition classify_exec_result ::
    "engine_error + action_result \<Rightarrow> action_call \<Rightarrow> exec_context \<Rightarrow> action_result \<times> event_kind" where
  "classify_exec_result r c ctx =
     (case r of
        Inr res \<Rightarrow>
          (res\<lparr>ar_call_id := ac_id c\<rparr>,
           ActionExecuted (xc_step_id ctx) (ac_action_name c) (ac_id c)
             (of_nat (ar_duration res div 1000000)) None)
      | Inl (GatePausedErr gate_name action_name call_id parameters resume_kind resume_output) \<Rightarrow>
          (\<lparr>ar_call_id = ac_id c, ar_action_name = ac_action_name c,
            ar_output = JObject
              [(''gate'', JString gate_name),
               (''resume_kind'', resume_kind_to_json resume_kind),
               (''resume_output'', case resume_output of Some v \<Rightarrow> v | None \<Rightarrow> JNull),
               (''status'', JString ''gate_paused'')],
            ar_is_error = True, ar_duration = 0\<rparr>,
           ApprovalRequested action_name call_id (Some parameters) None
             (case resume_kind of Approval b \<Rightarrow> Some b | _ \<Rightarrow> None)
             (Some gate_name) (summarize_params (ac_action_name c) parameters))
      | Inl e \<Rightarrow>
          (\<lparr>ar_call_id = ac_id c, ar_action_name = ac_action_name c,
            ar_output = JObject [(''error'', JString (engine_error_display e))],
            ar_is_error = True, ar_duration = 0\<rparr>,
           ActionFailed (xc_step_id ctx) (ac_action_name c) (ac_id c) (engine_error_display e) None))"

definition interrupted_call_needs_refund :: "engine_error + action_result \<Rightarrow> bool" where
  "interrupted_call_needs_refund r =
     (case r of Inl (GatePausedErr _ _ _ _ _ None) \<Rightarrow> True | _ \<Rightarrow> False)"

section \<open>Phase 1: preflight\<close>

definition no_lease_error :: "nat \<Rightarrow> action_call \<Rightarrow> exec_context \<Rightarrow> preflight_outcome" where
  "no_lease_error idx c ctx =
     PfError idx
       \<lparr>ar_call_id = ac_id c, ar_action_name = ac_action_name c,
        ar_output = JObject [(''error'', JString (''no active lease covers action '' @ [CHR 0x27]
                      @ ac_action_name c @ [CHR 0x27]))],
        ar_is_error = True, ar_duration = 0\<rparr>
       (ActionFailed (xc_step_id ctx) (ac_action_name c) (ac_id c)
          (''no lease for action '' @ [CHR 0x27] @ ac_action_name c @ [CHR 0x27]) None)"

definition denied_error :: "nat \<Rightarrow> action_call \<Rightarrow> exec_context \<Rightarrow> string \<Rightarrow> preflight_outcome" where
  "denied_error idx c ctx reason =
     PfError idx
       \<lparr>ar_call_id = ac_id c, ar_action_name = ac_action_name c,
        ar_output = JObject [(''error'', JString (''denied: '' @ reason))],
        ar_is_error = True, ar_duration = 0\<rparr>
       (ActionFailed (xc_step_id ctx) (ac_action_name c) (ac_id c) reason None)"

datatype preflight_step =
    PsPush preflight_outcome
  | PsApproval
  | PsFail engine_error

text \<open>One iteration of the preflight loop.\<close>

definition preflight_call ::
    "(capability_lease list \<Rightarrow> engine_error + action_def list) \<Rightarrow> policy_engine \<Rightarrow> policy_rule list \<Rightarrow>
     exec_context \<Rightarrow> thread_id \<Rightarrow> (nat \<Rightarrow> time) \<Rightarrow> (nat \<Rightarrow> lease_manager \<Rightarrow> lease_manager) \<Rightarrow>
     nat \<Rightarrow> action_call \<Rightarrow> lease_manager \<Rightarrow> preflight_step \<times> lease_manager" where
  "preflight_call available pe policies ctx tid clk env idx c m =
     (let m1 = env (2 * idx) m in
      case find_lease_for_action (clk (3 * idx)) tid (ac_action_name c) m1 of
        None \<Rightarrow> (PsPush (no_lease_error idx c ctx), m1)
      | Some lease \<Rightarrow>
          (case available [lease] of
             Inl e \<Rightarrow> (PsFail e, m1)
           | Inr defs \<Rightarrow>
               (case (case find (\<lambda>a. ad_name a = ac_action_name c) defs of
                        Some ad \<Rightarrow> policy_evaluate pe (clk (3 * idx + 1)) ad lease policies
                      | None \<Rightarrow> DecAllow) of
                  DecDeny reason \<Rightarrow> (PsPush (denied_error idx c ctx reason), m1)
                | DecRequireApproval _ \<Rightarrow> (PsApproval, m1)
                | DecAllow \<Rightarrow>
                    let m2 = env (2 * idx + 1) m1 in
                    (case find_and_consume (clk (3 * idx + 2)) tid (ac_action_name c) m2 of
                       Inl e \<Rightarrow> (PsFail e, m2)
                     | Inr (l, m3) \<Rightarrow> (PsPush (PfRunnable idx l), m3)))))"

definition approval_batch :: "preflight_outcome list \<Rightarrow> action_call \<Rightarrow> action_batch_result" where
  "approval_batch pfs c =
     \<lparr>abr_results = List.map_filter (\<lambda>p. case p of PfError _ r _ \<Rightarrow> Some r | _ \<Rightarrow> None) pfs,
      abr_events = List.map_filter (\<lambda>p. case p of PfError _ _ e \<Rightarrow> Some e | _ \<Rightarrow> None) pfs
        @ [ApprovalRequested (ac_action_name c) (ac_id c) (Some (ac_parameters c)) None None None
             (summarize_params (ac_action_name c) (ac_parameters c))],
      abr_need_approval = Some (OutGatePaused ''approval'' (ac_action_name c) (ac_id c)
        (ac_parameters c) (Approval True) None)\<rparr>"

datatype preflight_end =
    PfDone "preflight_outcome list"
  | PfStop action_batch_result
  | PfFail engine_error

fun preflight ::
    "(capability_lease list \<Rightarrow> engine_error + action_def list) \<Rightarrow> policy_engine \<Rightarrow> policy_rule list \<Rightarrow>
     exec_context \<Rightarrow> thread_id \<Rightarrow> (nat \<Rightarrow> time) \<Rightarrow> (nat \<Rightarrow> lease_manager \<Rightarrow> lease_manager) \<Rightarrow>
     nat \<Rightarrow> preflight_outcome list \<Rightarrow> action_call list \<Rightarrow> lease_manager \<Rightarrow>
     preflight_end \<times> lease_manager" where
  "preflight available pe policies ctx tid clk env idx pfs [] m = (PfDone pfs, m)"
| "preflight available pe policies ctx tid clk env idx pfs (c # cs) m =
     (case preflight_call available pe policies ctx tid clk env idx c m of
        (PsPush p, m') \<Rightarrow>
          preflight available pe policies ctx tid clk env (Suc idx) (pfs @ [p]) cs m'
      | (PsApproval, m') \<Rightarrow> (PfStop (approval_batch pfs c), m')
      | (PsFail e, m') \<Rightarrow> (PfFail e, m'))"

section \<open>Phase 2: execution\<close>

fun separate :: "preflight_outcome list \<Rightarrow> slots \<Rightarrow> (nat \<times> capability_lease) list \<Rightarrow>
    slots \<times> (nat \<times> capability_lease) list" where
  "separate [] sl run = (sl, run)"
| "separate (PfError i r e # pfs) sl run = separate pfs (sl[i := Some (r, e)]) run"
| "separate (PfRunnable i l # pfs) sl run = separate pfs sl (run @ [(i, l)])"

definition call_context :: "exec_context \<Rightarrow> action_call \<Rightarrow> exec_context" where
  "call_context ctx c = ctx\<lparr>xc_current_call_id := Some (ac_id c)\<rparr>"

text \<open>What happens to the table and the slots when one call has finished.\<close>

definition settle_refund :: "lease_id \<Rightarrow> engine_error + action_result \<Rightarrow> lease_manager \<Rightarrow> lease_manager"
    where
  "settle_refund lid r m =
     (if interrupted_call_needs_refund r
      then (case lm_refund_use lid m of Inl _ \<Rightarrow> m | Inr m' \<Rightarrow> m') else m)"

definition finish_call ::
    "exec_fun \<Rightarrow> exec_context \<Rightarrow> action_call list \<Rightarrow> nat \<times> capability_lease \<Rightarrow>
     slots \<times> lease_manager \<Rightarrow> slots \<times> lease_manager" where
  "finish_call exec ctx calls il st =
     (let i = fst il; lease = snd il; c = calls ! i in
      case exec i (ac_action_name c) (ac_parameters c) lease (call_context ctx c) of
        None \<Rightarrow> st
      | Some r \<Rightarrow> ((fst st)[i := Some (classify_exec_result r c (call_context ctx c))],
                   settle_refund (ls_id lease) r (snd st)))"

text \<open>
  With one runnable call a panic reaches the caller (\<open>None\<close>); with several it is contained
  in its task.
\<close>

definition run_calls ::
    "exec_fun \<Rightarrow> exec_context \<Rightarrow> action_call list \<Rightarrow>
     ((nat \<times> capability_lease) list \<Rightarrow> (nat \<times> capability_lease) list) \<Rightarrow>
     (nat \<times> capability_lease) list \<Rightarrow> slots \<Rightarrow> lease_manager \<Rightarrow> (slots \<times> lease_manager) option" where
  "run_calls exec ctx calls sched run sl m =
     (case run of
        [(i, lease)] \<Rightarrow>
          (case exec i (ac_action_name (calls ! i)) (ac_parameters (calls ! i)) lease
                  (call_context ctx (calls ! i)) of
             None \<Rightarrow> None
           | Some r \<Rightarrow> Some (finish_call exec ctx calls (i, lease) (sl, m)))
      | _ \<Rightarrow> Some (fold (finish_call exec ctx calls) (sched run) (sl, m)))"

section \<open>Phase 3: merge\<close>

definition slot_interrupt :: "action_call \<Rightarrow> action_result \<Rightarrow> event_kind \<Rightarrow> thread_outcome option" where
  "slot_interrupt c r e =
     (case e of
        ApprovalRequested action_name call_id _ _ _ _ _ \<Rightarrow>
          if Option.bind (json_get ''status'' (ar_output r)) json_as_str = Some ''gate_paused''
          then Some (OutGatePaused
                 (case Option.bind (json_get ''gate'' (ar_output r)) json_as_str of
                    Some g \<Rightarrow> g | None \<Rightarrow> ''unknown'')
                 action_name call_id (ac_parameters c)
                 (case resume_kind_from_json
                         (case json_get ''resume_kind'' (ar_output r) of
                            Some v \<Rightarrow> v
                          | None \<Rightarrow> JObject [(''Approval'', JObject [(''allow_always'', JBool False)])]) of
                    Some k \<Rightarrow> k | None \<Rightarrow> Approval False)
                 (json_get ''resume_output'' (ar_output r)))
          else None
      | _ \<Rightarrow> None)"

fun merge_slots ::
    "action_call list \<Rightarrow> nat \<Rightarrow> slots \<Rightarrow> action_batch_result \<Rightarrow> action_batch_result" where
  "merge_slots calls idx [] acc = acc"
| "merge_slots calls idx (None # sl) acc = merge_slots calls (Suc idx) sl acc"
| "merge_slots calls idx (Some (r, e) # sl) acc =
     merge_slots calls (Suc idx) sl
       \<lparr>abr_results = abr_results acc @ [r], abr_events = abr_events acc @ [e],
        abr_need_approval = (case abr_need_approval acc of
          Some i \<Rightarrow> Some i | None \<Rightarrow> slot_interrupt (calls ! idx) r e)\<rparr>"

definition execute_action_calls ::
    "(capability_lease list \<Rightarrow> engine_error + action_def list) \<Rightarrow> exec_fun \<Rightarrow>
     ((nat \<times> capability_lease) list \<Rightarrow> (nat \<times> capability_lease) list) \<Rightarrow>
     policy_engine \<Rightarrow> policy_rule list \<Rightarrow> exec_context \<Rightarrow> (nat \<Rightarrow> time) \<Rightarrow>
     (nat \<Rightarrow> lease_manager \<Rightarrow> lease_manager) \<Rightarrow> thread \<Rightarrow> action_call list \<Rightarrow> lease_manager \<Rightarrow>
     (engine_error + action_batch_result) option \<times> lease_manager" where
  "execute_action_calls available exec sched pe policies ctx clk env th calls m =
     (case preflight available pe policies ctx (th_id th) clk env 0 [] calls m of
        (PfFail e, m1) \<Rightarrow> (Some (Inl e), m1)
      | (PfStop b, m1) \<Rightarrow> (Some (Inr b), m1)
      | (PfDone pfs, m1) \<Rightarrow>
          let (sl, run) = separate pfs (replicate (length calls) None) [] in
          (case run_calls exec ctx calls sched run sl m1 of
             None \<Rightarrow> (None, m1)
           | Some (sl', m2) \<Rightarrow>
               (Some (Inr (merge_slots calls 0 sl'
                  \<lparr>abr_results = [], abr_events = [], abr_need_approval = None\<rparr>)), m2)))"

section \<open>Facts about the phases\<close>

lemma resume_kind_json: "resume_kind_from_json (resume_kind_to_json k) = Some k"
  by (cases k)
    (auto simp: resume_kind_from_json_def json_get_def json_opt_str_def split: option.splits)

lemma classify_call_id [simp]: "ar_call_id (fst (classify_exec_result r c ctx)) = ac_id c"
  by (auto simp: classify_exec_result_def split: sum.splits engine_error.splits)

lemma find_and_consume_covers:
  "find_and_consume now tid a m = Inr (l, m') \<Longrightarrow> ls_thread_id l = tid \<and> covers_action l a"
  by (auto simp: find_and_consume_def covers_action_def split: option.splits if_splits
      dest!: find_Some_iff2)

text \<open>What a preflight outcome says of the call it belongs to.\<close>

definition pf_ok ::
    "(capability_lease list \<Rightarrow> engine_error + action_def list) \<Rightarrow> policy_engine \<Rightarrow> policy_rule list \<Rightarrow>
     thread_id \<Rightarrow> (nat \<Rightarrow> time) \<Rightarrow> nat \<Rightarrow> action_call \<Rightarrow> preflight_outcome \<Rightarrow> bool" where
  "pf_ok available pe policies tid clk idx c p \<longleftrightarrow>
     (case p of
        PfError i r e \<Rightarrow> i = idx \<and> ar_call_id r = ac_id c \<and> ar_is_error r
      | PfRunnable i l \<Rightarrow>
          i = idx \<and> ls_thread_id l = tid \<and> covers_action l (ac_action_name c) \<and>
          (\<exists>lease defs. ls_thread_id lease = tid \<and> is_valid (clk (3 * idx)) lease \<and>
             covers_action lease (ac_action_name c) \<and> available [lease] = Inr defs \<and>
             (\<forall>ad. find (\<lambda>a. ad_name a = ac_action_name c) defs = Some ad \<longrightarrow>
                policy_evaluate pe (clk (3 * idx + 1)) ad lease policies = DecAllow)))"

lemma pf_ok_error [simp]:
  "pf_ok av pe ps tid clk idx c (no_lease_error idx c ctx)"
  "pf_ok av pe ps tid clk idx c (denied_error idx c ctx r)"
  by (simp_all add: pf_ok_def no_lease_error_def denied_error_def)

lemma preflight_call_ok:
  assumes "preflight_call av pe ps ctx tid clk env idx c m = (PsPush p, m')"
  shows "pf_ok av pe ps tid clk idx c p"
proof -
  let ?m = "env (2 * idx) m"
  show ?thesis
  proof (cases "find_lease_for_action (clk (3 * idx)) tid (ac_action_name c) ?m")
    case None
    with assms show ?thesis by (auto simp: preflight_call_def)
  next
    case (Some lease)
    with assms obtain defs where d: "av [lease] = Inr defs"
      by (auto simp: preflight_call_def Let_def split: sum.splits)
    with Some assms find_lease_covers [OF Some] show ?thesis
      by (auto simp: preflight_call_def Let_def pf_ok_def split: option.splits policy_decision.splits
          sum.splits dest!: find_and_consume_covers)
        (auto simp: denied_error_def)
  qed
qed

lemma preflight_Done:
  assumes "preflight av pe ps ctx tid clk env idx pfs calls m = (PfDone out, m')"
  shows "\<exists>qs. out = pfs @ qs \<and> length qs = length calls \<and>
           (\<forall>j < length calls. pf_ok av pe ps tid clk (idx + j) (calls ! j) (qs ! j))"
  using assms
proof (induction calls arbitrary: idx pfs m)
  case (Cons c cs)
  from Cons.prems obtain p m1 where p: "preflight_call av pe ps ctx tid clk env idx c m = (PsPush p, m1)"
    "preflight av pe ps ctx tid clk env (Suc idx) (pfs @ [p]) cs m1 = (PfDone out, m')"
    by (auto split: prod.splits preflight_step.splits)
  from Cons.IH [OF p(2)] obtain qs where qs: "out = (pfs @ [p]) @ qs" "length qs = length cs"
    "\<forall>j < length cs. pf_ok av pe ps tid clk (Suc idx + j) (cs ! j) (qs ! j)" by blast
  have "pf_ok av pe ps tid clk (idx + j) ((c # cs) ! j) ((p # qs) ! j)" if "j < Suc (length cs)" for j
    using that qs(3) preflight_call_ok [OF p(1)] by (cases j) auto
  with qs(1,2) show ?case by (intro exI [of _ "p # qs"]) simp
qed simp

definition pf_index :: "preflight_outcome \<Rightarrow> nat" where
  "pf_index p = (case p of PfError i _ _ \<Rightarrow> i | PfRunnable i _ \<Rightarrow> i)"

definition pf_slot :: "preflight_outcome \<Rightarrow> (action_result \<times> event_kind) option" where
  "pf_slot p = (case p of PfError _ r e \<Rightarrow> Some (r, e) | PfRunnable _ _ \<Rightarrow> None)"

definition pf_run :: "preflight_outcome \<Rightarrow> (nat \<times> capability_lease) list" where
  "pf_run p = (case p of PfError _ _ _ \<Rightarrow> [] | PfRunnable i l \<Rightarrow> [(i, l)])"

lemma separate_spec:
  "\<forall>j < length qs. pf_index (qs ! j) = length pre + j \<Longrightarrow>
   separate qs (pre @ replicate (length qs) None) run = (pre @ map pf_slot qs, run @ concat (map pf_run qs))"
proof (induction qs arbitrary: pre run)
  case (Cons q qs)
  have i: "pf_index q = length pre" using Cons.prems by (metis add.right_neutral length_greater_0_conv
      list.discI nth_Cons_0)
  have "\<forall>j < length qs. pf_index (qs ! j) = Suc (length pre) + j"
    using Cons.prems by (metis add_Suc_right add_Suc length_Cons not_less_eq nth_Cons_Suc)
  with Cons.IH [of "pre @ [pf_slot q]"] i show ?case
    by (cases q) (auto simp: pf_index_def pf_slot_def pf_run_def list_update_append)
qed simp

lemma merge_slots_results:
  "abr_results (merge_slots calls idx sl acc) = abr_results acc @ map fst (List.map_filter id sl)"
  "abr_events (merge_slots calls idx sl acc) = abr_events acc @ map snd (List.map_filter id sl)"
  by (induction calls idx sl acc rule: merge_slots.induct) (auto simp: map_filter_def)

lemma finish_call_length [simp]: "length (fst (finish_call exec ctx calls il st)) = length (fst st)"
  by (auto simp: finish_call_def Let_def split: option.splits)

lemma fold_finish_other:
  "i \<notin> fst ` set xs \<Longrightarrow> fst (fold (finish_call exec ctx calls) xs st) ! i = fst st ! i"
  by (induction xs arbitrary: st) (auto simp: finish_call_def Let_def split: option.splits)

lemma fold_finish_length [simp]:
  "length (fst (fold (finish_call exec ctx calls) xs st)) = length (fst st)"
  by (induction xs arbitrary: st) auto

lemma fold_finish_slot:
  assumes "distinct (map fst xs)" "(i, l) \<in> set xs" "i < length (fst st)"
    "exec i (ac_action_name (calls ! i)) (ac_parameters (calls ! i)) l (call_context ctx (calls ! i)) = Some r"
  shows "fst (fold (finish_call exec ctx calls) xs st) ! i =
    Some (classify_exec_result r (calls ! i) (call_context ctx (calls ! i)))"
  using assms
proof (induction xs arbitrary: st)
  case (Cons x xs)
  show ?case
  proof (cases "(i, l) \<in> set xs")
    case True
    with Cons show ?thesis by simp
  next
    case False
    with Cons.prems have x: "x = (i, l)" by auto
    with Cons.prems have "i \<notin> fst ` set xs" by auto
    with x Cons.prems show ?thesis
      by (simp add: fold_finish_other) (simp add: finish_call_def Let_def)
  qed
qed simp

section \<open>Accounting of lease uses\<close>

text \<open>How many of the outcomes took a use of the lease, when no other thread interferes.\<close>

definition charges :: "lease_id \<Rightarrow> preflight_outcome list \<Rightarrow> nat" where
  "charges lid pfs = length (filter (\<lambda>il. ls_id (snd il) = lid) (concat (map pf_run pfs)))"

lemma charges_append [simp]:
  "charges lid [] = 0" "charges lid (xs @ ys) = charges lid xs + charges lid ys"
  by (simp_all add: charges_def)

definition left_in :: "lease_id \<Rightarrow> lease_manager \<Rightarrow> nat option" where
  "left_in lid m = Option.bind (hm_get m lid) uses_left"

definition max_in :: "lease_id \<Rightarrow> lease_manager \<Rightarrow> nat" where
  "max_in lid m = (case hm_get m lid of
     Some l \<Rightarrow> (case ls_max_uses l of Some x \<Rightarrow> unat x | None \<Rightarrow> 0) | None \<Rightarrow> 0)"

lemma find_and_consume_left:
  assumes "lm_inv m" "find_and_consume now tid a m = Inr (l, m')" "left_in lid m = Some n"
  shows "\<exists>k. left_in lid m' = Some k \<and> k + of_bool (ls_id l = lid) = n \<and> max_in lid m' = max_in lid m"
proof -
  from assms(1,2) obtain x where x: "find_lease_for_action now tid a m = Some x"
    "l = snd (consume_use x)" "m' = hm_modify (ls_id x) (\<lambda>l. snd (consume_use l)) m"
    by (auto simp: find_and_consume_find split: option.splits)
  have v: "is_valid now x" using find_lease_covers [OF x(1)] by simp
  have "hm_get m (ls_id x) = Some x"
    using x(1) assms(1) by (auto simp: find_lease_for_action_def Let_def lm_inv_def
        map_of_eq_Some_iff dest!: find_Some_iff2)
  with x v assms(3) uses_left_consume [OF v] show ?thesis
    by (auto simp: left_in_def max_in_def bind_eq_Some_conv)
qed

lemma preflight_call_left:
  assumes "lm_inv m" "preflight_call av pe ps ctx tid clk (\<lambda>_ m. m) idx c m = (s, m')"
    "left_in lid m = Some n"
  shows "lm_inv m' \<and> (\<exists>k. left_in lid m' = Some k \<and>
           k + (case s of PsPush p \<Rightarrow> charges lid [p] | _ \<Rightarrow> 0) = n \<and> max_in lid m' = max_in lid m)"
proof -
  consider "m' = m" "(case s of PsPush p \<Rightarrow> charges lid [p] | _ \<Rightarrow> 0) = 0"
    | l where "find_and_consume (clk (3 * idx + 2)) tid (ac_action_name c) m = Inr (l, m')"
      "s = PsPush (PfRunnable idx l)"
    using assms(2)
    by (auto simp: preflight_call_def Let_def charges_def pf_run_def no_lease_error_def
        denied_error_def split: option.splits sum.splits policy_decision.splits prod.splits)
  then show ?thesis
  proof cases
    case 2
    with find_and_consume_left [OF assms(1) 2(1) assms(3)] find_and_consume_inv [OF assms(1) 2(1)]
    show ?thesis by (auto simp: charges_def pf_run_def)
  qed (use assms in auto)
qed

lemma preflight_left:
  assumes "lm_inv m" "preflight av pe ps ctx tid clk (\<lambda>_ m. m) idx pfs calls m = (PfDone out, m')"
    "left_in lid m = Some n"
  shows "lm_inv m' \<and> (\<exists>k. left_in lid m' = Some k \<and> k + charges lid out = n + charges lid pfs
           \<and> max_in lid m' = max_in lid m)"
  using assms
proof (induction calls arbitrary: idx pfs m n)
  case (Cons c cs)
  from Cons.prems(2) obtain p m1
    where p: "preflight_call av pe ps ctx tid clk (\<lambda>_ m. m) idx c m = (PsPush p, m1)"
      "preflight av pe ps ctx tid clk (\<lambda>_ m. m) (Suc idx) (pfs @ [p]) cs m1 = (PfDone out, m')"
    by (auto split: prod.splits preflight_step.splits)
  from preflight_call_left [OF Cons.prems(1) p(1) Cons.prems(3)] obtain k
    where k: "lm_inv m1" "left_in lid m1 = Some k" "k + charges lid [p] = n"
      "max_in lid m1 = max_in lid m" by auto
  from Cons.IH [OF k(1) p(2) k(2)] k(3,4) show ?case by auto
qed auto

lemma preflight_append:
  "preflight av pe ps ctx tid clk env idx pfs (cs @ ds) m =
     (case preflight av pe ps ctx tid clk env idx pfs cs m of
        (PfDone out, m') \<Rightarrow> preflight av pe ps ctx tid clk env (idx + length cs) out ds m'
      | r \<Rightarrow> r)"
  by (induction cs arbitrary: idx pfs m) (auto split: prod.splits preflight_step.splits preflight_end.splits)

text \<open>The refunds of a list of finished calls.\<close>

definition refunded :: "exec_fun \<Rightarrow> exec_context \<Rightarrow> action_call list \<Rightarrow> lease_id \<Rightarrow>
    nat \<times> capability_lease \<Rightarrow> bool" where
  "refunded exec ctx calls lid il \<longleftrightarrow>
     ls_id (snd il) = lid \<and>
     (case exec (fst il) (ac_action_name (calls ! fst il)) (ac_parameters (calls ! fst il)) (snd il)
             (call_context ctx (calls ! fst il)) of
        Some r \<Rightarrow> interrupted_call_needs_refund r | None \<Rightarrow> False)"

lemma refund_left:
  assumes "left_in lid m = Some n" "n < max_in lid m"
  shows "left_in lid (hm_modify lid refund_use m) = Some (Suc n)"
proof -
  from assms obtain l x r where l: "hm_get m lid = Some l" "ls_max_uses l = Some x"
      "ls_uses_remaining l = Some r" "n = unat r" "unat r < unat x"
    by (auto simp: left_in_def max_in_def uses_left_def bind_eq_Some_conv split: option.splits)
  then have "r < x" by (simp add: word_less_nat_alt)
  with l show ?thesis
    by (simp add: left_in_def refund_use_def uses_left_def unat_plus_one_u32)
qed

lemma max_in_refund [simp]: "max_in lid (hm_modify lid' refund_use m) = max_in lid m"
  by (auto simp: max_in_def split: option.splits)

lemma left_in_other [simp]:
  "lid' \<noteq> lid \<Longrightarrow> left_in lid (hm_modify lid' f m) = left_in lid m"
  by (simp add: left_in_def)

lemma finish_call_left:
  assumes "left_in lid (snd st) = Some n" "n < max_in lid (snd st) \<or> ls_id (snd il) \<noteq> lid"
  shows "left_in lid (snd (finish_call exec ctx calls il st)) =
      Some (n + of_bool (refunded exec ctx calls lid il)) \<and>
    max_in lid (snd (finish_call exec ctx calls il st)) = max_in lid (snd st)"
proof -
  have eq: "(case lm_refund_use i m of Inl _ \<Rightarrow> m | Inr m' \<Rightarrow> m') = hm_modify i refund_use m" for i m
    by (auto simp: lm_refund_use_def hm_modify_absent split: option.splits)
  show ?thesis
    using assms
    by (auto simp: finish_call_def Let_def settle_refund_def eq refunded_def refund_left
        split: option.splits)
qed

lemma fold_finish_left:
  assumes "left_in lid (snd st) = Some n"
    "n + length (filter (\<lambda>il. ls_id (snd il) = lid) xs) \<le> max_in lid (snd st)"
  shows "left_in lid (snd (fold (finish_call exec ctx calls) xs st)) =
    Some (n + length (filter (refunded exec ctx calls lid) xs))"
  using assms
proof (induction xs arbitrary: st n)
  case (Cons il xs)
  have "n < max_in lid (snd st) \<or> ls_id (snd il) \<noteq> lid"
    using Cons.prems(2) by auto
  note step = finish_call_left [OF Cons.prems(1) this, of exec ctx calls]
  have "refunded exec ctx calls lid il \<Longrightarrow> ls_id (snd il) = lid"
    by (simp add: refunded_def)
  with step Cons.prems(2) Cons.IH [OF conjunct1 [OF step]] show ?case
    by (auto split: if_splits)
qed simp

lemma run_calls_Some:
  assumes "run_calls exec ctx calls sched run sl m = Some st" "mset (sched run) = mset run"
  obtains xs where "mset xs = mset run" "st = fold (finish_call exec ctx calls) xs (sl, m)"
proof (cases "\<exists>x. run = [x]")
  case True
  with assms(1) that [of run] show thesis by (auto simp: run_calls_def split: option.splits)
next
  case False
  with assms(1) have "st = fold (finish_call exec ctx calls) (sched run) (sl, m)"
    by (auto simp: run_calls_def split: list.splits)
  with assms(2) that show thesis by blast
qed

lemma preflight_separate:
  assumes "preflight av pe ps ctx tid clk env 0 [] calls m = (PfDone pfs, m')"
  shows "separate pfs (replicate (length calls) None) [] = (map pf_slot pfs, concat (map pf_run pfs))"
    and "length pfs = length calls" and "j < length calls \<Longrightarrow> pf_index (pfs ! j) = j"
    and "j < length calls \<Longrightarrow> pf_ok av pe ps tid clk j (calls ! j) (pfs ! j)"
proof -
  from preflight_Done [OF assms] have l: "length pfs = length calls"
    and ok: "\<And>j. j < length calls \<Longrightarrow> pf_ok av pe ps tid clk j (calls ! j) (pfs ! j)" by auto
  have i: "pf_index (pfs ! j) = j" if "j < length calls" for j
    using ok [OF that] by (auto simp: pf_ok_def pf_index_def split: preflight_outcome.splits)
  show "separate pfs (replicate (length calls) None) [] = (map pf_slot pfs, concat (map pf_run pfs))"
    using separate_spec [of pfs "[]" "[]"] i l by simp
  show "length pfs = length calls" by (rule l)
  show "j < length calls \<Longrightarrow> pf_index (pfs ! j) = j" by (rule i)
  show "j < length calls \<Longrightarrow> pf_ok av pe ps tid clk j (calls ! j) (pfs ! j)" by (rule ok)
qed

lemma pf_run_mem: "(i, l) \<in> set (concat (map pf_run pfs)) \<longleftrightarrow> PfRunnable i l \<in> set pfs"
  by (force simp: pf_run_def split: preflight_outcome.splits)

lemma pf_run_distinct:
  "\<forall>j < length pfs. pf_index (pfs ! j) = k + j \<Longrightarrow> distinct (map fst (concat (map pf_run pfs)))
     \<and> (\<forall>i \<in> fst ` set (concat (map pf_run pfs)). k \<le> i)"
proof (induction pfs arbitrary: k)
  case (Cons p pfs)
  have "\<forall>j < length pfs. pf_index (pfs ! j) = Suc k + j"
    using Cons.prems by (metis add_Suc_right add_Suc length_Cons not_less_eq nth_Cons_Suc)
  moreover have "pf_index p = k"
    using Cons.prems by (metis add.right_neutral length_greater_0_conv list.discI nth_Cons_0)
  ultimately show ?case
    using Cons.IH [of "Suc k"] by (cases p) (force simp: pf_run_def pf_index_def)+
qed simp

text \<open>When no task panics, every slot is filled with a result for its own call.\<close>

lemma all_slots_filled:
  assumes pf: "preflight av pe ps ctx tid clk env 0 [] calls m = (PfDone pfs, m1)"
    and total: "\<forall>i n p l x. exec i n p l x \<noteq> None"
    and xs: "mset xs = mset (concat (map pf_run pfs))" and j: "j < length calls"
  shows "\<exists>r e. fst (fold (finish_call exec ctx calls) xs (map pf_slot pfs, m1)) ! j = Some (r, e)
           \<and> ar_call_id r = ac_id (calls ! j)"
proof -
  note P = preflight_separate [OF pf]
  have set: "set xs = set (concat (map pf_run pfs))" using xs by (rule mset_eq_setD)
  have "mset (map fst xs) = mset (map fst (concat (map pf_run pfs)))"
    unfolding mset_map xs ..
  then have dist: "distinct (map fst xs)"
    using pf_run_distinct [of pfs 0] P(2,3) by (metis add_0 mset_eq_imp_distinct_iff)
  show ?thesis
  proof (cases "pfs ! j")
    case (PfRunnable i l)
    with P(3) [OF j] have "i = j" by (simp add: pf_index_def)
    with PfRunnable P(2) j have "PfRunnable j l \<in> set pfs" by (metis nth_mem)
    then have "(j, l) \<in> set xs" using set pf_run_mem by blast
    moreover obtain r where "exec j (ac_action_name (calls ! j)) (ac_parameters (calls ! j)) l
        (call_context ctx (calls ! j)) = Some r" using total by blast
    ultimately show ?thesis
      using fold_finish_slot [OF dist, of j l "(map pf_slot pfs, m1)"] j P(2)
      by (metis classify_call_id fst_conv length_map surj_pair)
  next
    case (PfError i r e)
    have "j \<notin> fst ` set xs"
    proof
      assume "j \<in> fst ` set xs"
      then obtain l where "PfRunnable j l \<in> set pfs" using set pf_run_mem by force
      then obtain k where "k < length pfs" "pfs ! k = PfRunnable j l" by (auto simp: in_set_conv_nth)
      with P(2) P(3) [of k] have "k = j" by (simp add: pf_index_def)
      with \<open>pfs ! k = PfRunnable j l\<close> PfError show False by simp
    qed
    with PfError P(2) P(4) [OF j] j show ?thesis
      by (simp add: fold_finish_other pf_slot_def pf_ok_def)
  qed
qed

lemma map_filter_all_Some:
  "\<forall>x \<in> set xs. x \<noteq> None \<Longrightarrow> List.map_filter id xs = map the xs"
  by (induction xs) (auto simp: map_filter_def)

lemma run_calls_total:
  "\<forall>i n p l x. exec i n p l x \<noteq> None \<Longrightarrow> \<exists>st. run_calls exec ctx calls sched run sl m = Some st"
  by (cases run; cases "tl run") (auto simp: run_calls_def split: option.splits)

lemma left_le_max:
  assumes "lm_inv m" "left_in lid m = Some n"
  shows "n \<le> max_in lid m"
proof -
  from assms(2) obtain l where l: "hm_get m lid = Some l" "uses_left l = Some n"
    by (auto simp: left_in_def bind_eq_Some_conv)
  with lm_inv_get [OF assms(1) l(1)] show ?thesis
    by (auto simp: max_in_def uses_left_def lease_budget_ok_def word_le_nat_alt split: option.splits)
qed

text \<open>A batch on which the properties are instantiated.\<close>

definition sample_call :: "string \<Rightarrow> string \<Rightarrow> action_call" where
  "sample_call i n = \<lparr>ac_id = i, ac_action_name = n, ac_parameters = JObject []\<rparr>"

definition sample_exec_context :: exec_context where
  "sample_exec_context = \<lparr>xc_thread_id = 7, xc_thread_type = Foreground, xc_project_id = 0,
     xc_user_id = ''u'', xc_step_id = 3, xc_current_call_id = None, xc_source_channel = None,
     xc_supervised_mode = False, xc_supervised_timeout_secs = 300\<rparr>"

definition sample_available :: "capability_lease list \<Rightarrow> engine_error + action_def list" where
  "sample_available _ = Inr [sample_action ''shell'' [ReadLocal] False,
                             sample_action ''list_issues'' [ReadExternal] True]"

definition sample_thread :: thread where
  "sample_thread = new_thread 7 0 ''goal'' Foreground 0 ''u'' default_thread_config"

definition sample_exec :: exec_fun where
  "sample_exec i n p l x =
     (if i = 0 then Some (Inl (GatePausedErr ''auth'' n ''c'' p (Authentication ''k'' ''i'' None) None))
      else Some (Inr \<lparr>ar_call_id = [], ar_action_name = n, ar_output = JNull, ar_is_error = False,
                       ar_duration = 1000000\<rparr>))"

abbreviation sample_preflight where
  "sample_preflight calls \<equiv> preflight sample_available new_policy_engine [] sample_exec_context
     (th_id sample_thread) (\<lambda>_. 5) (\<lambda>_ m. m) 0 [] calls [(1, sample_lease)]"

lemmas sample_batch_simps = preflight_call_def sample_available_def sample_call_def
  sample_thread_def new_thread_def find_lease_for_action_def find_and_consume_def consume_use_def
  hm_modify_def policy_evaluate_def new_policy_engine_def sample_action_def sample_lease_simps
  merge_decision.simps Let_def

lemma sample_preflight_shell:
  "sample_preflight [sample_call ''a'' ''shell''] =
     (PfDone [PfRunnable 0 (sample_lease\<lparr>ls_uses_remaining := Some 1\<rparr>)],
      [(1, sample_lease\<lparr>ls_uses_remaining := Some 1\<rparr>)])"
  by (simp add: sample_batch_simps)

lemma sample_exec_total: "\<forall>i n p l x. sample_exec i n p l x \<noteq> None"
  by (simp add: sample_exec_def)

lemma sample_left: "left_in 1 [(1, sample_lease)] = Some 2"
  by (simp add: left_in_def uses_left_def sample_lease_def)

section \<open>Properties\<close>



text \<open>
  C1. No call is run without authority: for every call that preflight lets through, the
  thread held a lease that was valid and covered the action when it was looked up, the
  policy engine allowed the action whenever the executor lists it under its exact name, and
  the lease the call was charged to belongs to the thread and covers the action.
\<close>

theorem runnable_authorised:
  assumes "preflight av pe ps ctx tid clk env 0 [] calls m = (PfDone pfs, m1)" "PfRunnable i l \<in> set pfs"
  shows "i < length calls \<and> ls_thread_id l = tid \<and> covers_action l (ac_action_name (calls ! i)) \<and>
    (\<exists>lease defs. ls_thread_id lease = tid \<and> is_valid (clk (3 * i)) lease \<and>
       covers_action lease (ac_action_name (calls ! i)) \<and> av [lease] = Inr defs \<and>
       (\<forall>ad. find (\<lambda>a. ad_name a = ac_action_name (calls ! i)) defs = Some ad \<longrightarrow>
          policy_evaluate pe (clk (3 * i + 1)) ad lease ps = DecAllow))"
proof -
  note P = preflight_separate [OF assms(1)]
  from assms(2) obtain j where j: "j < length pfs" "pfs ! j = PfRunnable i l"
    by (auto simp: in_set_conv_nth)
  with P(2) P(3) [of j] have "i = j" by (simp add: pf_index_def)
  with j P(2) P(4) [of j] show ?thesis by (simp add: pf_ok_def)
qed

theorem runnable_authorised_witness:
  "\<exists>l. sample_preflight [sample_call ''a'' ''shell''] =
      (PfDone [PfRunnable 0 l], [(1, sample_lease\<lparr>ls_uses_remaining := Some 1\<rparr>)]) \<and>
    ls_thread_id l = 7 \<and> covers_action l ''shell''"
  using runnable_authorised [OF sample_preflight_shell, of 0 "sample_lease\<lparr>ls_uses_remaining := Some 1\<rparr>"]
    sample_preflight_shell
  by (auto simp: sample_call_def sample_thread_def new_thread_def)

text \<open>
  Accounting: when no other thread touches the table, a completed batch charges every
  call it ran one use of the lease found for it and gives back exactly the uses of the calls
  that a gate paused before they ran.
\<close>

lemma batch_accounting:
  assumes inv: "lm_inv m" and left: "left_in lid m = Some n" and sched: "\<forall>xs. mset (sched xs) = mset xs"
    and pf: "preflight av pe ps ctx (th_id th) clk (\<lambda>_ m. m) 0 [] calls m = (PfDone pfs, m1)"
    and ex: "execute_action_calls av exec sched pe ps ctx clk (\<lambda>_ m. m) th calls m = (Some (Inr b), m2)"
  shows "\<exists>k. left_in lid m2 = Some k \<and>
    k + charges lid pfs =
      n + length (filter (refunded exec ctx calls lid) (concat (map pf_run pfs)))"
proof -
  note P = preflight_separate [OF pf]
  let ?run = "concat (map pf_run pfs)"
  from preflight_left [OF inv pf left] obtain k where k: "left_in lid m1 = Some k"
    "k + charges lid pfs = n" "max_in lid m1 = max_in lid m" by auto
  from ex obtain st where st: "run_calls exec ctx calls sched ?run (map pf_slot pfs) m1 = Some st"
    and m2: "m2 = snd st"
    by (auto simp: execute_action_calls_def pf P(1) split: prod.splits option.splits)
  obtain xs where xs: "mset xs = mset ?run"
    "st = fold (finish_call exec ctx calls) xs (map pf_slot pfs, m1)"
    by (rule run_calls_Some [OF st sched [rule_format]])
  have len: "length (filter Q xs) = length (filter Q ?run)" for Q
    using xs(1) by (metis mset_filter size_mset)
  with k left_le_max [OF inv left] have "k + length (filter (\<lambda>il. ls_id (snd il) = lid) xs) \<le> max_in lid m1"
    by (simp add: len charges_def)
  with fold_finish_left [of lid "(map pf_slot pfs, m1)" k xs exec ctx calls] k(1) xs(2)
  have "left_in lid m2 = Some (k + length (filter (refunded exec ctx calls lid) xs))"
    by (simp add: m2)
  with k(2) show ?thesis by (simp add: len)
qed

lemma batch_accounting_witness:
  "\<exists>b m2. execute_action_calls sample_available sample_exec rev new_policy_engine [] sample_exec_context
      (\<lambda>_. 5) (\<lambda>_ m. m) sample_thread [sample_call ''a'' ''shell''] [(1, sample_lease)] = (Some (Inr b), m2)
    \<and> left_in 1 m2 = Some 2"
proof -
  obtain b m2 where ex: "execute_action_calls sample_available sample_exec rev new_policy_engine []
      sample_exec_context (\<lambda>_. 5) (\<lambda>_ m. m) sample_thread [sample_call ''a'' ''shell'']
      [(1, sample_lease)] = (Some (Inr b), m2)"
    by (simp add: execute_action_calls_def run_calls_def sample_exec_def finish_call_def
        sample_batch_simps)
  from batch_accounting [OF sample_lease_inv sample_left _ sample_preflight_shell ex] ex show ?thesis
    by (auto simp: charges_def pf_run_def sample_lease_def refunded_def sample_exec_def
        interrupted_call_needs_refund_def)
qed

text \<open>
  An approval request in the middle of a batch keeps the uses that preflight has
  already charged: the batch stops with the request, none of the earlier calls that passed
  runs (the batch holds the error results only), and their uses stay consumed.
\<close>

lemma approval_keeps_charges:
  assumes inv: "lm_inv m" and left: "left_in lid m = Some n"
    and pf: "preflight av pe ps ctx (th_id th) clk (\<lambda>_ m. m) 0 [] cs m = (PfDone pfs, m1)"
    and ap: "preflight_call av pe ps ctx (th_id th) clk (\<lambda>_ m. m) (length cs) c m1 = (PsApproval, m2)"
  shows "\<exists>k. execute_action_calls av exec sched pe ps ctx clk (\<lambda>_ m. m) th (cs @ c # ds) m =
      (Some (Inr (approval_batch pfs c)), m2) \<and>
    length (abr_results (approval_batch pfs c)) + length (concat (map pf_run pfs)) = length cs \<and>
    left_in lid m2 = Some k \<and> k + charges lid pfs = n"
proof -
  from preflight_left [OF inv pf left] obtain k where k: "lm_inv m1" "left_in lid m1 = Some k"
    "k + charges lid pfs = n" by auto
  from preflight_call_left [OF k(1) ap k(2)] have "left_in lid m2 = Some k" by simp
  moreover have "length (abr_results (approval_batch pfs c)) + length (concat (map pf_run pfs)) = length pfs"
    by (induction pfs)
      (auto simp: approval_batch_def map_filter_def pf_run_def split: preflight_outcome.splits)
  moreover have "execute_action_calls av exec sched pe ps ctx clk (\<lambda>_ m. m) th (cs @ c # ds) m =
      (Some (Inr (approval_batch pfs c)), m2)"
    using pf ap by (simp add: execute_action_calls_def preflight_append)
  ultimately show ?thesis
    using k(3) preflight_separate(2) [OF pf] by auto
qed

lemma approval_keeps_charges_witness:
  "\<exists>m2. execute_action_calls sample_available sample_exec rev new_policy_engine [] sample_exec_context
      (\<lambda>_. 5) (\<lambda>_ m. m) sample_thread
      ([sample_call ''a'' ''shell''] @ sample_call ''b'' ''list_issues'' # []) [(1, sample_lease)] =
     (Some (Inr (approval_batch [PfRunnable 0 (sample_lease\<lparr>ls_uses_remaining := Some 1\<rparr>)]
        (sample_call ''b'' ''list_issues''))), m2) \<and> left_in 1 m2 = Some 1"
proof -
  let ?m = "[(1, sample_lease\<lparr>ls_uses_remaining := Some 1\<rparr>)]"
  have ap: "preflight_call sample_available new_policy_engine [] sample_exec_context (th_id sample_thread)
      (\<lambda>_. 5) (\<lambda>_ m. m) (length [sample_call ''a'' ''shell'']) (sample_call ''b'' ''list_issues'') ?m =
      (PsApproval, ?m)"
    by (simp add: sample_batch_simps)
  from approval_keeps_charges [OF sample_lease_inv sample_left sample_preflight_shell ap, of sample_exec rev "[]"]
  show ?thesis
    by (auto simp: charges_def pf_run_def sample_lease_def)
qed

text \<open>
  What a gate pause becomes in the outcome of a batch: gate, action, call identifier and
  resume kind survive the way through JSON, but a pause before the action ran, which carries
  no output and whose use is refunded, comes out with the output \<open>null\<close> instead of none.
\<close>

lemma gate_pause_outcome:
  "(let (r, e) = classify_exec_result (Inl (GatePausedErr g a cid p k ro)) c ctx
    in slot_interrupt c r e) =
     Some (OutGatePaused g a cid (ac_parameters c) k (Some (case ro of Some v \<Rightarrow> v | None \<Rightarrow> JNull))) \<and>
   (interrupted_call_needs_refund (Inl (GatePausedErr g a cid p k ro)) \<longleftrightarrow> ro = None)"
  by (auto simp: classify_exec_result_def slot_interrupt_def json_get_def json_as_str_def
      resume_kind_json interrupted_call_needs_refund_def split: option.splits)

end
