(* ===== verification/Engine_Store.thy ===== *)
theory Engine_Store
  imports Thread_Model
begin

text \<open>
  The engine's store: the conversation surface (\<open>types/conversation.rs\<close>) and
  \<open>HybridStore\<close> (\<open>src/bridge/store_adapter.rs\<close>), the implementation of the trait \<open>Store\<close>
  that the engine runs on, for threads, events, leases and conversations. The store keeps
  tables in memory and, when it has a workspace, writes each record there as JSON; the
  workspace is represented by the thread records written to it. The operations of the trait
  return \<open>Ok\<close> in this implementation, so they are total here.

  Clients use the store through the locale \<open>thread_store\<close>.
\<close>

section \<open>Conversations (types/conversation.rs)\<close>

type_synonym conversation_id = uuid
type_synonym entry_id = uuid

datatype entry_sender = SenderUser | SenderAgent thread_id | SenderSystem

record conversation_entry =
  ce_id :: entry_id
  ce_sender :: entry_sender
  ce_content :: string
  ce_origin_thread_id :: "thread_id option"
  ce_timestamp :: time
  ce_metadata :: json

definition entry_user :: "entry_id \<Rightarrow> time \<Rightarrow> string \<Rightarrow> conversation_entry" where
  "entry_user eid now content =
     \<lparr>ce_id = eid, ce_sender = SenderUser, ce_content = content, ce_origin_thread_id = None,
      ce_timestamp = now, ce_metadata = JNull\<rparr>"

definition entry_agent :: "entry_id \<Rightarrow> time \<Rightarrow> thread_id \<Rightarrow> string \<Rightarrow> conversation_entry" where
  "entry_agent eid now tid content =
     \<lparr>ce_id = eid, ce_sender = SenderAgent tid, ce_content = content,
      ce_origin_thread_id = Some tid, ce_timestamp = now, ce_metadata = JNull\<rparr>"

definition entry_system :: "entry_id \<Rightarrow> time \<Rightarrow> string \<Rightarrow> conversation_entry" where
  "entry_system eid now content =
     \<lparr>ce_id = eid, ce_sender = SenderSystem, ce_content = content, ce_origin_thread_id = None,
      ce_timestamp = now, ce_metadata = JNull\<rparr>"

definition entry_system_for_thread ::
    "entry_id \<Rightarrow> time \<Rightarrow> thread_id \<Rightarrow> string \<Rightarrow> conversation_entry" where
  "entry_system_for_thread eid now tid content =
     \<lparr>ce_id = eid, ce_sender = SenderSystem, ce_content = content,
      ce_origin_thread_id = Some tid, ce_timestamp = now, ce_metadata = JNull\<rparr>"

record conversation_surface =
  cs_id :: conversation_id
  cs_channel :: string
  cs_user_id :: string
  cs_entries :: "conversation_entry list"
  cs_active_threads :: "thread_id list"
  cs_metadata :: json
  cs_created_at :: time
  cs_updated_at :: time

definition new_conversation ::
    "conversation_id \<Rightarrow> time \<Rightarrow> string \<Rightarrow> string \<Rightarrow> conversation_surface" where
  "new_conversation cid now channel user_id =
     \<lparr>cs_id = cid, cs_channel = channel, cs_user_id = user_id, cs_entries = [],
      cs_active_threads = [], cs_metadata = JNull, cs_created_at = now, cs_updated_at = now\<rparr>"

definition add_entry :: "time \<Rightarrow> conversation_entry \<Rightarrow> conversation_surface \<Rightarrow> conversation_surface" where
  "add_entry now e c = c\<lparr>cs_entries := cs_entries c @ [e], cs_updated_at := now\<rparr>"

definition track_thread :: "thread_id \<Rightarrow> conversation_surface \<Rightarrow> conversation_surface" where
  "track_thread tid c =
     (if \<not> List.member (cs_active_threads c) tid
      then c\<lparr>cs_active_threads := cs_active_threads c @ [tid]\<rparr> else c)"

definition untrack_thread :: "thread_id \<Rightarrow> conversation_surface \<Rightarrow> conversation_surface" where
  "untrack_thread tid c =
     c\<lparr>cs_active_threads := filter (\<lambda>t. t \<noteq> tid) (cs_active_threads c)\<rparr>"

definition entries_for_thread :: "thread_id \<Rightarrow> conversation_surface \<Rightarrow> conversation_entry list" where
  "entries_for_thread tid c = filter (\<lambda>e. ce_origin_thread_id e = Some tid) (cs_entries c)"

section \<open>The hybrid store\<close>

record hybrid_store =
  hs_threads :: "(thread_id, thread) hmap"
  hs_events :: "(thread_id, thread_event list) hmap"
  hs_conversations :: "(conversation_id, conversation_surface) hmap"
  hs_leases :: "(lease_id, capability_lease) hmap"
  hs_workspace :: "(thread_id, thread) hmap option"

definition new_store :: "(thread_id, thread) hmap option \<Rightarrow> hybrid_store" where
  "new_store ws = \<lparr>hs_threads = [], hs_events = [], hs_conversations = [], hs_leases = [],
     hs_workspace = ws\<rparr>"

text \<open>\<open>persist_json\<close> of a thread: a file of its own in the workspace, if there is one.\<close>

definition persist_thread :: "thread_id \<Rightarrow> thread \<Rightarrow> hybrid_store \<Rightarrow> hybrid_store" where
  "persist_thread tid th s =
     (case hs_workspace s of
        None \<Rightarrow> s
      | Some ws \<Rightarrow> s\<lparr>hs_workspace := Some (hm_insert tid th ws)\<rparr>)"

definition save_thread :: "thread \<Rightarrow> hybrid_store \<Rightarrow> hybrid_store" where
  "save_thread th s =
     persist_thread (th_id th) th (s\<lparr>hs_threads := hm_insert (th_id th) th (hs_threads s)\<rparr>)"

definition load_thread :: "thread_id \<Rightarrow> hybrid_store \<Rightarrow> thread option \<times> hybrid_store" where
  "load_thread tid s =
     (case hm_get (hs_threads s) tid of
        Some th \<Rightarrow> (Some th, s)
      | None \<Rightarrow>
          (case hs_workspace s of
             None \<Rightarrow> (None, s)
           | Some ws \<Rightarrow>
               (case hm_get ws tid of
                  None \<Rightarrow> (None, s)
                | Some th \<Rightarrow> (Some th, s\<lparr>hs_threads := hm_insert (th_id th) th (hs_threads s)\<rparr>))))"

definition list_threads :: "project_id \<Rightarrow> string \<Rightarrow> hybrid_store \<Rightarrow> thread list" where
  "list_threads pid uid s =
     filter (\<lambda>t. th_project_id t = pid \<and> th_user_id t = uid) (hm_values (hs_threads s))"

definition list_all_threads :: "project_id \<Rightarrow> hybrid_store \<Rightarrow> thread list" where
  "list_all_threads pid s = filter (\<lambda>t. th_project_id t = pid) (hm_values (hs_threads s))"

definition update_thread_state :: "thread_id \<Rightarrow> thread_state \<Rightarrow> hybrid_store \<Rightarrow> hybrid_store" where
  "update_thread_state tid st s =
     (case hm_get (hs_threads s) tid of
        None \<Rightarrow> s
      | Some th \<Rightarrow>
          persist_thread tid (th\<lparr>th_state := st\<rparr>)
            (s\<lparr>hs_threads := hm_modify tid (\<lambda>t. t\<lparr>th_state := st\<rparr>) (hs_threads s)\<rparr>))"

text \<open>
  \<open>append_events\<close>: the events are grouped by thread; each group is appended to what is stored
  for its thread, less the events already there, and the whole is sorted by time.
\<close>

definition group_events :: "thread_event list \<Rightarrow> (thread_id \<times> thread_event list) list" where
  "group_events es =
     map (\<lambda>t. (t, filter (\<lambda>e. ev_thread_id e = t) es)) (remdups (map ev_thread_id es))"

fun push_new_events :: "thread_event list \<Rightarrow> thread_event list \<Rightarrow> thread_event list" where
  "push_new_events [] stored = stored"
| "push_new_events (e # es) stored =
     push_new_events es (if list_ex (\<lambda>x. ev_id x = ev_id e) stored then stored else stored @ [e])"

definition append_group ::
    "thread_id \<times> thread_event list \<Rightarrow> (thread_id, thread_event list) hmap \<Rightarrow>
     (thread_id, thread_event list) hmap" where
  "append_group g m =
     (let stored = (case hm_get m (fst g) of Some es \<Rightarrow> es | None \<Rightarrow> [])
      in hm_insert (fst g) (sort_key ev_timestamp (push_new_events (snd g) stored)) m)"

definition append_events :: "thread_event list \<Rightarrow> hybrid_store \<Rightarrow> hybrid_store" where
  "append_events es s = s\<lparr>hs_events := fold append_group (group_events es) (hs_events s)\<rparr>"

definition load_conversation :: "conversation_id \<Rightarrow> hybrid_store \<Rightarrow> conversation_surface option" where
  "load_conversation cid s = hm_get (hs_conversations s) cid"

definition save_conversation :: "conversation_surface \<Rightarrow> hybrid_store \<Rightarrow> hybrid_store" where
  "save_conversation c s =
     s\<lparr>hs_conversations := hm_insert (cs_id c) c (hs_conversations s)\<rparr>"

definition list_conversations :: "string \<Rightarrow> hybrid_store \<Rightarrow> conversation_surface list" where
  "list_conversations uid s = filter (\<lambda>c. cs_user_id c = uid) (hm_values (hs_conversations s))"

definition save_lease :: "capability_lease \<Rightarrow> hybrid_store \<Rightarrow> hybrid_store" where
  "save_lease l s = s\<lparr>hs_leases := hm_insert (ls_id l) l (hs_leases s)\<rparr>"

definition load_active_leases :: "time \<Rightarrow> thread_id \<Rightarrow> hybrid_store \<Rightarrow> capability_lease list" where
  "load_active_leases now tid s =
     filter (\<lambda>l. ls_thread_id l = tid \<and> is_valid now l) (hm_values (hs_leases s))"

definition store_revoke_lease :: "lease_id \<Rightarrow> string \<Rightarrow> hybrid_store \<Rightarrow> hybrid_store" where
  "store_revoke_lease lid reason s =
     s\<lparr>hs_leases := hm_modify lid (\<lambda>l. l\<lparr>ls_revoked := True\<rparr>) (hs_leases s)\<rparr>"

text \<open>
  Eviction. \<open>now - at > min_age\<close> is a comparison of durations; the archive summaries that the
  source writes as well are not read by the operations above.
\<close>

definition evictable :: "time \<Rightarrow> int \<Rightarrow> thread \<Rightarrow> bool" where
  "evictable now min_age t \<longleftrightarrow>
     (th_state t = ThDone \<or> th_state t = ThFailed \<or> th_state t = ThCompleted) \<and>
     now - (case th_completed_at t of Some c \<Rightarrow> c | None \<Rightarrow> th_updated_at t) > min_age"

definition evict_thread :: "thread \<Rightarrow> hybrid_store \<Rightarrow> hybrid_store" where
  "evict_thread th s = s\<lparr>hs_threads := hm_remove (th_id th) (hs_threads s),
                          hs_events := hm_remove (th_id th) (hs_events s)\<rparr>"

definition cleanup_terminal_state :: "time \<Rightarrow> int \<Rightarrow> hybrid_store \<Rightarrow> nat \<times> hybrid_store" where
  "cleanup_terminal_state now min_age s =
     (let terminal = filter (evictable now min_age) (hm_values (hs_threads s));
          s1 = fold evict_thread terminal s;
          dead = map fst (filter (\<lambda>p. ls_revoked (snd p) \<or> \<not> is_valid now (snd p)) (hs_leases s1));
          s2 = s1\<lparr>hs_leases := fold hm_remove dead (hs_leases s1)\<rparr>
      in (length terminal + length dead, s2))"

section \<open>The interface of the thread table\<close>

text \<open>What the runtime relies on: a saved thread is the one that is loaded next.\<close>

locale thread_store =
  fixes lookup :: "'s \<Rightarrow> thread_id \<Rightarrow> thread option"
    and save :: "thread \<Rightarrow> 's \<Rightarrow> 's"
  assumes lookup_save: "lookup (save th s) tid = (if tid = th_id th then Some th else lookup s tid)"
begin

lemma lookup_save_fold_other:
  "tid \<notin> th_id ` set ths \<Longrightarrow> lookup (fold save ths s) tid = lookup s tid"
  by (induction ths arbitrary: s) (auto simp: lookup_save)

lemma lookup_save_fold:
  "distinct (map th_id ths) \<Longrightarrow> th \<in> set ths \<Longrightarrow> lookup (fold save ths s) (th_id th) = Some th"
proof (induction ths arbitrary: s)
  case (Cons t ths)
  show ?case
  proof (cases "th = t")
    case True
    with Cons.prems(1) show ?thesis by (simp add: lookup_save_fold_other lookup_save)
  next
    case False
    with Cons show ?thesis by simp
  qed
qed simp

end

definition hs_lookup :: "hybrid_store \<Rightarrow> thread_id \<Rightarrow> thread option" where
  "hs_lookup s tid = fst (load_thread tid s)"

lemma hs_lookup_alt:
  "hs_lookup s tid =
     (case hm_get (hs_threads s) tid of
        Some th \<Rightarrow> Some th
      | None \<Rightarrow> (case hs_workspace s of None \<Rightarrow> None | Some ws \<Rightarrow> hm_get ws tid))"
  by (auto simp: hs_lookup_def load_thread_def split: option.splits)

interpretation hs: thread_store hs_lookup save_thread
  by unfold_locales
    (auto simp: hs_lookup_alt save_thread_def persist_thread_def split: option.splits)

text \<open>
  The invariant of the store: tables are keyed by the identifiers of their records, and with
  a workspace every thread in memory is the one last written.
\<close>

definition store_inv :: "hybrid_store \<Rightarrow> bool" where
  "store_inv s \<longleftrightarrow>
     hm_keyed th_id (hs_threads s) \<and>
     (case hs_workspace s of
        None \<Rightarrow> True
      | Some ws \<Rightarrow> hm_keyed th_id ws \<and> hm_le (hs_threads s) ws)"

lemma store_inv_new [invariant_intros]: "store_inv (new_store (Some []))" "store_inv (new_store None)"
  by (simp_all add: store_inv_def new_store_def)

lemma store_inv_threads: "store_inv s \<Longrightarrow> hm_keyed th_id (hs_threads s)"
  by (simp add: store_inv_def)

lemma store_inv_frame [simp]:
  "store_inv (s\<lparr>hs_leases := x\<rparr>) = store_inv s" "store_inv (s\<lparr>hs_events := y\<rparr>) = store_inv s"
  "store_inv (s\<lparr>hs_conversations := z\<rparr>) = store_inv s"
  by (auto simp: store_inv_def split: option.splits)

lemma save_thread_inv [invariant_intros]: "store_inv s \<Longrightarrow> store_inv (save_thread th s)"
  by (auto simp: store_inv_def save_thread_def persist_thread_def split: option.splits)

lemma load_thread_cases:
  assumes "store_inv s"
  obtains r where "load_thread tid s = (r, s)"
  | th ws where "hm_get (hs_threads s) tid = None" "hs_workspace s = Some ws"
      "hm_get ws tid = Some th" "th_id th = tid"
      "load_thread tid s = (Some th, s\<lparr>hs_threads := hm_insert tid th (hs_threads s)\<rparr>)"
proof (cases "hm_get (hs_threads s) tid = None \<and> hs_lookup s tid \<noteq> None")
  case True
  then obtain ws th where ws: "hs_workspace s = Some ws" "hm_get ws tid = Some th"
    by (auto simp: hs_lookup_alt split: option.splits)
  with assms have "th_id th = tid" by (auto simp: store_inv_def dest: hm_keyed_get)
  with True ws that(2) show thesis by (simp add: load_thread_def)
next
  case False
  then have "load_thread tid s = (hs_lookup s tid, s)"
    by (auto simp: hs_lookup_alt load_thread_def split: option.splits)
  then show thesis by (rule that(1))
qed

lemma load_thread_inv [invariant_intros]:
  assumes "store_inv s"
  shows "store_inv (snd (load_thread tid s))"
  by (rule load_thread_cases [OF assms, of tid])
    (use assms in \<open>auto simp: store_inv_def hm_le_insert_known\<close>)

lemma load_thread_lookup [simp]:
  assumes "store_inv s"
  shows "hs_lookup (snd (load_thread tid s)) i = hs_lookup s i"
  by (rule load_thread_cases [OF assms, of tid]) (auto simp: hs_lookup_alt split: option.splits)

lemma update_thread_state_inv [invariant_intros]:
  assumes "store_inv s"
  shows "store_inv (update_thread_state tid st s)"
proof (cases "hm_get (hs_threads s) tid")
  case (Some th)
  with assms have "hm_keyed th_id (hm_modify tid (\<lambda>t. t\<lparr>th_state := st\<rparr>) (hs_threads s))"
    "th_id th = tid"
    by (auto simp: store_inv_def dest: hm_keyed_get)
  moreover have "hm_le (hs_threads s) ws \<Longrightarrow>
      hm_le (hm_modify tid (\<lambda>t. t\<lparr>th_state := st\<rparr>) (hs_threads s)) (hm_insert tid (th\<lparr>th_state := st\<rparr>) ws)"
    for ws
    using Some by (auto simp: hm_le_def)
  ultimately show ?thesis
    using assms Some
    by (auto simp: store_inv_def update_thread_state_def persist_thread_def split: option.splits)
qed (simp add: update_thread_state_def assms)

lemma evict_frame [simp]:
  "hs_workspace (evict_thread th s) = hs_workspace s"
  "hm_get (hs_threads (evict_thread th s)) i = (if i = th_id th then None else hm_get (hs_threads s) i)"
  by (simp_all add: evict_thread_def)

lemma evict_fold:
  "hs_workspace (fold evict_thread ths s) = hs_workspace s \<and>
   hm_get (hs_threads (fold evict_thread ths s)) i =
     (if i \<in> th_id ` set ths then None else hm_get (hs_threads s) i)"
  by (induction ths arbitrary: s) auto

lemma evict_thread_inv [invariant_intros]: "store_inv s \<Longrightarrow> store_inv (evict_thread th s)"
  by (auto simp: store_inv_def evict_thread_def split: option.splits)

lemma evict_fold_inv: "store_inv s \<Longrightarrow> store_inv (fold evict_thread ths s)"
  by (induction ths arbitrary: s) (auto intro: evict_thread_inv)

lemma cleanup_frame:
  "hs_workspace (snd (cleanup_terminal_state now a s)) = hs_workspace s"
  "hs_threads (snd (cleanup_terminal_state now a s)) =
     hs_threads (fold evict_thread (filter (evictable now a) (hm_values (hs_threads s))) s)"
  by (simp_all add: cleanup_terminal_state_def Let_def evict_fold)

lemma cleanup_inv [invariant_intros]:
  "store_inv s \<Longrightarrow> store_inv (snd (cleanup_terminal_state now a s))"
  by (simp add: cleanup_terminal_state_def Let_def evict_fold_inv)

section \<open>Stored events\<close>

lemma event_known [simp]: "list_ex (\<lambda>x. ev_id x = ev_id e) es \<longleftrightarrow> ev_id e \<in> ev_id ` set es"
  by (auto simp: list_ex_iff) (metis image_eqI)

lemma push_new_events_known:
  "\<forall>e \<in> set es. ev_id e \<in> ev_id ` set stored \<Longrightarrow> push_new_events es stored = stored"
  by (induction es) auto

lemma push_new_events_ids:
  "ev_id ` set (push_new_events es stored) = ev_id ` set stored \<union> ev_id ` set es"
  by (induction es stored rule: push_new_events.induct) (simp_all, blast)

lemma push_new_events_distinct:
  "distinct (map ev_id stored) \<Longrightarrow> distinct (map ev_id (push_new_events es stored))"
  by (induction es stored rule: push_new_events.induct) simp_all

lemma push_sorted_twice:
  fixes es stored :: "thread_event list"
  defines "L \<equiv> sort_key ev_timestamp (push_new_events es stored)"
  shows "sort_key ev_timestamp (push_new_events es L) = L"
proof -
  have "\<forall>e \<in> set es. ev_id e \<in> ev_id ` set L"
    by (simp add: L_def push_new_events_ids)
  then have "push_new_events es L = L" by (rule push_new_events_known)
  then show ?thesis by (simp add: L_def sort_key_id_if_sorted)
qed

lemma append_fold_get:
  assumes "distinct (map fst gs)"
  shows "hm_get (fold append_group gs m) t =
    (case map_of gs t of
       None \<Rightarrow> hm_get m t
     | Some es \<Rightarrow> Some (sort_key ev_timestamp (push_new_events es
                    (case hm_get m t of Some st \<Rightarrow> st | None \<Rightarrow> []))))"
  using assms
proof (induction gs arbitrary: m)
  case (Cons g gs)
  obtain k es where g: "g = (k, es)" by fastforce
  show ?case
  proof (cases "t = k")
    case True
    with Cons.prems g have "map_of gs t = None" by (simp add: map_of_eq_None_iff)
    with True g Cons show ?thesis by (simp add: append_group_def Let_def)
  next
    case False
    with g Cons show ?thesis by (simp add: append_group_def Let_def split: option.splits)
  qed
qed simp

lemma group_events_get:
  "map_of (group_events es) t =
     (if t \<in> ev_thread_id ` set es then Some (filter (\<lambda>e. ev_thread_id e = t) es) else None)"
  by (auto simp: group_events_def map_of_map_restrict o_def split: if_splits)

lemma group_events_distinct: "distinct (map fst (group_events es))"
  by (simp add: group_events_def o_def)

text \<open>What is stored for a thread after \<open>append_events\<close>.\<close>

definition stored_events :: "hybrid_store \<Rightarrow> thread_id \<Rightarrow> thread_event list" where
  "stored_events s t = (case hm_get (hs_events s) t of Some es \<Rightarrow> es | None \<Rightarrow> [])"

lemma stored_events_append:
  "stored_events (append_events es s) t =
     (if t \<in> ev_thread_id ` set es
      then sort_key ev_timestamp (push_new_events (filter (\<lambda>e. ev_thread_id e = t) es) (stored_events s t))
      else stored_events s t)"
  by (simp add: stored_events_def append_events_def append_fold_get [OF group_events_distinct]
      group_events_get)

section \<open>Properties\<close>

definition sample_done_thread :: thread where
  "sample_done_thread =
     (new_thread 1 0 ''goal'' Foreground 5 ''alice'' default_thread_config)\<lparr>th_state := ThDone\<rparr>"

definition sample_store :: hybrid_store where
  "sample_store = save_thread sample_done_thread (new_store (Some []))"

text \<open>
  Eviction of finished threads is transparent: with a workspace, after any cleanup a
  thread is loaded exactly as before, and the next loads leave that so.
\<close>

lemma eviction_transparent:
  assumes "store_inv s" "hs_workspace s = Some ws"
  shows "hs_lookup (snd (cleanup_terminal_state now min_age s)) i = hs_lookup s i \<and>
    hs_lookup (snd (load_thread j (snd (cleanup_terminal_state now min_age s)))) i = hs_lookup s i"
proof -
  have "hs_lookup (snd (cleanup_terminal_state now min_age s)) i = hs_lookup s i"
    using assms
    by (auto simp: hs_lookup_alt cleanup_frame evict_fold store_inv_def split: option.splits
        dest: hm_le_get)
  with load_thread_lookup [OF cleanup_inv [OF assms(1)]] show ?thesis by simp
qed

lemma eviction_transparent_witness:
  "hm_get (hs_threads (snd (cleanup_terminal_state 100 10 sample_store))) 1 = None \<and>
   hs_lookup (snd (cleanup_terminal_state 100 10 sample_store)) 1 = Some sample_done_thread"
proof -
  have "store_inv sample_store"
    unfolding sample_store_def by (intro save_thread_inv store_inv_new)
  moreover have "hs_workspace sample_store = Some [(1, sample_done_thread)]"
    by (simp add: sample_store_def save_thread_def persist_thread_def new_store_def
        sample_done_thread_def new_thread_def)
  moreover have "hs_lookup sample_store 1 = Some sample_done_thread"
    by (simp add: sample_store_def hs.lookup_save) (simp add: sample_done_thread_def new_thread_def)
  moreover have "hm_get (hs_threads (snd (cleanup_terminal_state 100 10 sample_store))) 1 = None"
    by (simp add: cleanup_frame evict_fold sample_store_def save_thread_def persist_thread_def
        new_store_def sample_done_thread_def new_thread_def evictable_def)
  ultimately show ?thesis using eviction_transparent [of sample_store _ 100 10 1 1] by simp
qed

text \<open>
  Persisting the event log of a thread again adds nothing: the runtime appends the whole
  log each time, and the store keeps every event once, whatever was stored before.
\<close>

lemma append_events_idempotent:
  "stored_events (append_events es (append_events es s)) t = stored_events (append_events es s) t \<and>
   (distinct (map ev_id (stored_events s t)) \<longrightarrow>
      distinct (map ev_id (stored_events (append_events es s) t))) \<and>
   ev_id ` set (stored_events (append_events es s) t) =
     ev_id ` set (stored_events s t) \<union> ev_id ` {e \<in> set es. ev_thread_id e = t}"
proof -
  have d: "distinct (map ev_id (sort_key ev_timestamp xs)) = distinct (map ev_id xs)" for xs
    by (metis mset_eq_imp_distinct_iff mset_map mset_sort)
  show ?thesis
    by (auto simp: stored_events_append push_sorted_twice push_new_events_ids d
        push_new_events_distinct)
qed

end
