(* ===== verification/Thread_Manager.thy ===== *)
theory Thread_Manager
  imports Engine_Store Policy_Gates
begin

text \<open>
  The thread tree (\<open>runtime/tree.rs\<close>) and the thread manager (\<open>runtime/manager.rs\<close>), which
  spawns, resumes, signals, joins and recovers threads on top of the lease manager and the
  store. The execution loop that a started thread runs is not part of the manager: what it
  leaves behind, the final copy of its thread and a result, is an argument of the operation
  that ends the task. An operation is one atomic step; time stamps and drawn identifiers are
  arguments.
\<close>

section \<open>The tree\<close>

record thread_tree =
  tt_parents :: "(thread_id, thread_id) hmap"
  tt_children :: "(thread_id, thread_id list) hmap"

definition new_tree :: thread_tree where
  "new_tree = \<lparr>tt_parents = [], tt_children = []\<rparr>"

definition children_of :: "thread_tree \<Rightarrow> thread_id \<Rightarrow> thread_id list" where
  "children_of t i = (case hm_get (tt_children t) i of Some cs \<Rightarrow> cs | None \<Rightarrow> [])"

definition parent_of :: "thread_tree \<Rightarrow> thread_id \<Rightarrow> thread_id option" where
  "parent_of t i = hm_get (tt_parents t) i"

definition add_child :: "thread_id \<Rightarrow> thread_id \<Rightarrow> thread_tree \<Rightarrow> thread_tree" where
  "add_child parent child t =
     t\<lparr>tt_parents := hm_insert child parent (tt_parents t),
       tt_children := hm_insert parent (children_of t parent @ [child]) (tt_children t)\<rparr>"

text \<open>The loop ends only if no thread is its own ancestor; not ending is \<open>None\<close>.\<close>

partial_function (option) ancestors_from ::
    "(thread_id, thread_id) hmap \<Rightarrow> thread_id \<Rightarrow> thread_id list \<Rightarrow> thread_id list option" where
  "ancestors_from parents current result =
     (case hm_get parents current of
        None \<Rightarrow> Some result
      | Some parent \<Rightarrow> ancestors_from parents parent (result @ [parent]))"

definition ancestors :: "thread_tree \<Rightarrow> thread_id \<Rightarrow> thread_id list option" where
  "ancestors t i = ancestors_from (tt_parents t) i []"

definition tree_remove :: "thread_id \<Rightarrow> thread_tree \<Rightarrow> thread_tree" where
  "tree_remove i t =
     (let t1 = (case hm_get (tt_parents t) i of
                  None \<Rightarrow> t
                | Some p \<Rightarrow>
                    t\<lparr>tt_parents := hm_remove i (tt_parents t),
                      tt_children := hm_modify p (filter (\<lambda>c. c \<noteq> i)) (tt_children t)\<rparr>)
      in t1\<lparr>tt_children := hm_remove i (tt_children t1)\<rparr>)"

definition is_root :: "thread_tree \<Rightarrow> thread_id \<Rightarrow> bool" where
  "is_root t i \<longleftrightarrow> hm_get (tt_parents t) i = None"

section \<open>The manager\<close>

text \<open>
  A running thread: its mailbox, the copy of the thread that its loop owns, and whether its
  task has finished.
\<close>

record running_thread =
  rt_mailbox :: "thread_signal list"
  rt_thread :: thread
  rt_finished :: "thread_outcome option"

record thread_manager =
  mg_store :: hybrid_store
  mg_capabilities :: capability_registry
  mg_leases :: lease_manager
  mg_tree :: thread_tree
  mg_running :: "(thread_id, running_thread) hmap"
  mg_completed :: "(thread_id, thread_outcome) hmap"
  mg_sent :: "thread_event list"

definition start_thread :: "thread \<Rightarrow> thread_manager \<Rightarrow> thread_id \<times> thread_manager" where
  "start_thread th mg =
     (th_id th,
      mg\<lparr>mg_running := hm_insert (th_id th)
           \<lparr>rt_mailbox = [], rt_thread = th, rt_finished = None\<rparr> (mg_running mg)\<rparr>)"

fun grant_plans ::
    "(nat \<Rightarrow> lease_id) \<Rightarrow> nat \<Rightarrow> time \<Rightarrow> capability_grant_plan list \<Rightarrow>
     lease_manager \<times> hybrid_store \<times> thread \<Rightarrow> engine_error + lease_manager \<times> hybrid_store \<times> thread"
    where
  "grant_plans fresh n now [] st = Inr st"
| "grant_plans fresh n now (p # ps) (m, s, th) =
     (case grant (fresh n) now (th_id th) (cgp_capability_name p) (cgp_granted_actions p) None None m of
        Inl e \<Rightarrow> Inl e
      | Inr (lease, m') \<Rightarrow>
          grant_plans fresh (Suc n) now ps
            (m', save_lease lease s,
             th\<lparr>th_capability_leases := th_capability_leases th @ [ls_id lease]\<rparr>))"

definition spawn_thread_with_history ::
    "thread_id \<Rightarrow> (nat \<Rightarrow> lease_id) \<Rightarrow> event_id \<Rightarrow> time \<Rightarrow> string \<Rightarrow> thread_type \<Rightarrow> project_id \<Rightarrow>
     thread_config \<Rightarrow> thread_id option \<Rightarrow> string \<Rightarrow> thread_message list \<Rightarrow> thread_manager \<Rightarrow>
     (engine_error + thread_id) \<times> thread_manager" where
  "spawn_thread_with_history tid fresh eid now goal tt pid cfg parent uid initial mg =
     (let th0 = new_thread tid now goal tt pid uid cfg;
          th1 = (case parent of Some p \<Rightarrow> with_parent p th0 | None \<Rightarrow> th0);
          mg1 = (case parent of
                   Some p \<Rightarrow> mg\<lparr>mg_tree := add_child p tid (mg_tree mg)\<rparr> | None \<Rightarrow> mg)
      in case grant_plans fresh 0 now (plan_for_thread tt (mg_capabilities mg1))
                (mg_leases mg1, mg_store mg1, th1) of
           Inl e \<Rightarrow> (Inl e, mg1)
         | Inr (m, s, th2) \<Rightarrow>
             let th3 = th2\<lparr>th_messages := th_messages th2 @ initial\<rparr>;
                 th4 = add_message eid now (msg_user now (th_goal th3)) th3;
                 mg2 = mg1\<lparr>mg_leases := m, mg_store := save_thread th4 s\<rparr>;
                 (i, mg3) = start_thread th4 mg2
             in (Inr i, mg3))"

definition spawn_thread ::
    "thread_id \<Rightarrow> (nat \<Rightarrow> lease_id) \<Rightarrow> event_id \<Rightarrow> time \<Rightarrow> string \<Rightarrow> thread_type \<Rightarrow> project_id \<Rightarrow>
     thread_config \<Rightarrow> thread_id option \<Rightarrow> string \<Rightarrow> thread_manager \<Rightarrow>
     (engine_error + thread_id) \<times> thread_manager" where
  "spawn_thread tid fresh eid now goal tt pid cfg parent uid mg =
     spawn_thread_with_history tid fresh eid now goal tt pid cfg parent uid [] mg"

definition is_running :: "thread_manager \<Rightarrow> thread_id \<Rightarrow> bool" where
  "is_running mg tid =
     (case hm_get (mg_running mg) tid of None \<Rightarrow> False | Some rt \<Rightarrow> rt_finished rt = None)"

definition is_resolved_call_message :: "thread_message \<Rightarrow> string \<Rightarrow> bool" where
  "is_resolved_call_message msg call_id =
     (if tm_role msg = RoleActionResult \<and> tm_action_call_id msg = Some call_id then True
      else tm_role msg = RoleAssistant \<and>
           (case tm_action_calls msg of
              Some calls \<Rightarrow> list_ex (\<lambda>c. ac_id c = call_id) calls | None \<Rightarrow> False))"

definition json_remove_key :: "string \<Rightarrow> json \<Rightarrow> json" where
  "json_remove_key k j =
     (case j of JObject kvs \<Rightarrow> JObject (filter (\<lambda>p. fst p \<noteq> k) kvs) | _ \<Rightarrow> j)"

text \<open>The changes that \<open>resume_thread\<close> makes to the loaded thread before it is saved.\<close>

definition prepare_resume ::
    "event_id \<Rightarrow> time \<Rightarrow> thread_message option \<Rightarrow> (string \<times> bool) option \<Rightarrow> string option \<Rightarrow>
     thread \<Rightarrow> thread" where
  "prepare_resume eid now injected approval resolved th =
     (let th1 = (case approval of
                   Some (call_id, approved) \<Rightarrow>
                     th\<lparr>th_events := th_events th @
                          [new_event eid now (th_id th) (ApprovalReceived call_id approved)],
                        th_updated_at := now\<rparr>
                 | None \<Rightarrow> th);
          th2 = (case resolved of
                   Some call_id \<Rightarrow>
                     th1\<lparr>th_messages :=
                       filter (\<lambda>m. \<not> is_resolved_call_message m call_id) (th_messages th1)\<rparr>
                 | None \<Rightarrow> th1);
          th3 = (case injected of Some m \<Rightarrow> add_message eid now m th2 | None \<Rightarrow> th2)
      in if th_state th3 = ThWaiting
         then th3\<lparr>th_metadata := json_remove_key ''runtime_checkpoint'' (th_metadata th3)\<rparr>
         else th3)"

definition resume_thread ::
    "event_id \<Rightarrow> time \<Rightarrow> thread_id \<Rightarrow> string \<Rightarrow> thread_message option \<Rightarrow> (string \<times> bool) option \<Rightarrow>
     string option \<Rightarrow> thread_manager \<Rightarrow> (engine_error + unit) \<times> thread_manager" where
  "resume_thread eid now tid uid injected approval resolved mg =
     (if is_running mg tid then (Inl (ThreadErr (AlreadyRunning tid)), mg)
      else
        let (loaded, s) = load_thread tid (mg_store mg);
            mg1 = mg\<lparr>mg_store := s\<rparr>
        in case loaded of
             None \<Rightarrow> (Inl (ThreadNotFound tid), mg1)
           | Some th \<Rightarrow>
               if \<not> thread_is_owned_by th uid
               then (Inl (AccessDenied uid (''thread '' @ show_nat tid)), mg1)
               else if \<not> (th_state th = ThWaiting \<or> th_state th = ThSuspended)
               then (Inl (StoreErr (''thread '' @ show_nat tid @ '' is not resumable from ''
                       @ thread_state_debug (th_state th))), mg1)
               else
                 let sent = (case approval of
                       Some (call_id, approved) \<Rightarrow>
                         [new_event eid now tid (ApprovalReceived call_id approved)]
                     | None \<Rightarrow> []);
                     th' = prepare_resume eid now injected approval resolved th;
                     mg2 = mg1\<lparr>mg_sent := mg_sent mg1 @ sent,
                               mg_store := save_thread th' (mg_store mg1)\<rparr>
                 in (Inr (), snd (start_thread th' mg2)))"

text \<open>
  The end of the background task: the thread as its loop left it goes from \<open>Completed\<close> to
  \<open>Done\<close>, its events and its final state are stored, and the outcome is recorded.
\<close>

definition finish_task ::
    "event_id \<Rightarrow> time \<Rightarrow> thread_id \<Rightarrow> thread \<Rightarrow> engine_error + thread_outcome \<Rightarrow> thread_manager \<Rightarrow>
     thread_manager" where
  "finish_task eid now tid th result mg =
     (let th' = (if th_state th = ThCompleted
                 then (case transition_to eid now ThDone None th of Inr t \<Rightarrow> t | Inl _ \<Rightarrow> th)
                 else th);
          outcome = (case result of
                       Inr out \<Rightarrow> out
                     | Inl e \<Rightarrow> OutFailed (engine_error_display e))
      in mg\<lparr>mg_store := save_thread th' (append_events (th_events th') (mg_store mg)),
            mg_completed := hm_insert tid outcome (mg_completed mg),
            mg_running := hm_remove tid (mg_running mg)\<rparr>)"

text \<open>
  Sending to a mailbox: its capacity is 32, and sending to a full mailbox waits (\<open>None\<close>);
  sending to a thread whose loop has ended is ignored.
\<close>

definition send_signal :: "thread_signal \<Rightarrow> thread_id \<Rightarrow> running_thread \<Rightarrow> thread_manager \<Rightarrow>
    thread_manager option" where
  "send_signal sig tid rt mg =
     (if rt_finished rt \<noteq> None then Some mg
      else if length (rt_mailbox rt) < 32
      then Some (mg\<lparr>mg_running := hm_insert tid (rt\<lparr>rt_mailbox := rt_mailbox rt @ [sig]\<rparr>)
                     (mg_running mg)\<rparr>)
      else None)"

definition signal_running ::
    "thread_signal \<Rightarrow> thread_id \<Rightarrow> thread_manager \<Rightarrow> ((engine_error + unit) \<times> thread_manager) option"
    where
  "signal_running sig tid mg =
     (case hm_get (mg_running mg) tid of
        None \<Rightarrow> Some (Inl (ThreadNotFound tid), mg)
      | Some rt \<Rightarrow> map_option (\<lambda>mg'. (Inr (), mg')) (send_signal sig tid rt mg))"

definition signal_checked ::
    "thread_signal \<Rightarrow> thread_id \<Rightarrow> string \<Rightarrow> thread_manager \<Rightarrow>
     ((engine_error + unit) \<times> thread_manager) option" where
  "signal_checked sig tid uid mg =
     (let (loaded, s) = load_thread tid (mg_store mg);
          mg1 = mg\<lparr>mg_store := s\<rparr>
      in case loaded of
           Some th \<Rightarrow>
             if \<not> thread_is_owned_by th uid
             then Some (Inl (AccessDenied uid (''thread '' @ show_nat tid)), mg1)
             else signal_running sig tid mg1
         | None \<Rightarrow> signal_running sig tid mg1)"

definition stop_thread where
  "stop_thread tid uid mg = signal_checked SigStop tid uid mg"

definition stop_thread_system where
  "stop_thread_system tid mg = signal_running SigStop tid mg"

definition inject_message where
  "inject_message tid uid msg mg = signal_checked (SigInjectMessage msg) tid uid mg"

definition inject_message_system where
  "inject_message_system tid msg mg = signal_running (SigInjectMessage msg) tid mg"

definition json_insert_key :: "string \<Rightarrow> json \<Rightarrow> json \<Rightarrow> json" where
  "json_insert_key k v j = (case j of JObject kvs \<Rightarrow> JObject (hm_insert k v kvs) | _ \<Rightarrow> j)"

definition set_thread_metadata :: "thread_id \<Rightarrow> string \<Rightarrow> string \<Rightarrow> thread_manager \<Rightarrow> thread_manager" where
  "set_thread_metadata tid k v mg =
     (let (loaded, s) = load_thread tid (mg_store mg)
      in case loaded of
           None \<Rightarrow> mg\<lparr>mg_store := s\<rparr>
         | Some th \<Rightarrow>
             mg\<lparr>mg_store := save_thread
                  (th\<lparr>th_metadata := json_insert_key k (JString v) (th_metadata th)\<rparr>) s\<rparr>)"

text \<open>
  \<open>join_thread\<close> takes the entry out of the table before it waits for the task; \<open>JoinWaits\<close>
  is the state while it waits.
\<close>

datatype join_result = JoinReady "engine_error + thread_outcome" | JoinWaits

definition join_thread :: "thread_id \<Rightarrow> thread_manager \<Rightarrow> join_result \<times> thread_manager" where
  "join_thread tid mg =
     (case hm_get (mg_completed mg) tid of
        Some out \<Rightarrow> (JoinReady (Inr out), mg\<lparr>mg_completed := hm_remove tid (mg_completed mg)\<rparr>)
      | None \<Rightarrow>
          (case hm_get (mg_running mg) tid of
             None \<Rightarrow> (JoinReady (Inl (ThreadNotFound tid)), mg)
           | Some rt \<Rightarrow>
               let mg1 = mg\<lparr>mg_running := hm_remove tid (mg_running mg)\<rparr>
               in (case rt_finished rt of
                     Some out \<Rightarrow>
                       (JoinReady (Inr out), mg1\<lparr>mg_completed := hm_remove tid (mg_completed mg1)\<rparr>)
                   | None \<Rightarrow> (JoinWaits, mg1))))"

definition cleanup_finished :: "thread_manager \<Rightarrow> thread_id list \<times> thread_manager" where
  "cleanup_finished mg =
     (let finished = map fst (filter (\<lambda>p. rt_finished (snd p) \<noteq> None) (mg_running mg))
      in (finished, mg\<lparr>mg_running := fold hm_remove finished (mg_running mg)\<rparr>))"

definition auto_resumable :: "thread \<Rightarrow> bool" where
  "auto_resumable th \<longleftrightarrow>
     th_state th = ThSuspended \<and> th_type th = Research \<and>
     json_get ''runtime_checkpoint'' (th_metadata th) \<noteq> None \<and> th_user_id th \<noteq> []"

fun resume_each ::
    "event_id \<Rightarrow> time \<Rightarrow> thread list \<Rightarrow> thread_id list \<Rightarrow> thread_manager \<Rightarrow>
     (engine_error + thread_id list) \<times> thread_manager" where
  "resume_each eid now [] resumed mg = (Inr resumed, mg)"
| "resume_each eid now (th # ths) resumed mg =
     (if \<not> auto_resumable th then resume_each eid now ths resumed mg
      else case resume_thread eid now (th_id th) (th_user_id th) None None None mg of
             (Inl e, mg') \<Rightarrow> (Inl e, mg')
           | (Inr _, mg') \<Rightarrow> resume_each eid now ths (resumed @ [th_id th]) mg')"

definition resume_background_threads ::
    "event_id \<Rightarrow> time \<Rightarrow> project_id \<Rightarrow> thread_manager \<Rightarrow>
     (engine_error + thread_id list) \<times> thread_manager" where
  "resume_background_threads eid now pid mg =
     resume_each eid now (list_all_threads pid (mg_store mg)) [] mg"

text \<open>
  One iteration of \<open>recover_project_threads\<close>: \<open>None\<close> for a thread that is left alone, else the
  thread to be stored. The first transition cannot fail, so its \<open>?\<close> has no branch.
\<close>

definition recover_thread :: "event_id \<Rightarrow> time \<Rightarrow> thread \<Rightarrow> thread option" where
  "recover_thread eid now th =
     (if is_terminal (th_state th) \<or> th_state th = ThCompleted then None
      else if th_state th = ThWaiting \<and> json_get ''pending_approval'' (th_metadata th) \<noteq> None
      then None
      else if json_get ''runtime_checkpoint'' (th_metadata th) \<noteq> None \<and>
              (th_state th = ThRunning \<or> th_state th = ThSuspended)
      then (if th_state th = ThRunning
            then (case transition_to eid now ThSuspended
                         (Some ''engine restart; resumable from checkpoint'') th of
                    Inr t \<Rightarrow> Some t | Inl _ \<Rightarrow> None)
            else Some th)
      else (case transition_to eid now ThFailed
                   (Some ''engine restart before thread completion'') th of
              Inr t \<Rightarrow> Some t | Inl _ \<Rightarrow> None))"

fun recover_each ::
    "(nat \<Rightarrow> event_id) \<Rightarrow> nat \<Rightarrow> time \<Rightarrow> thread list \<Rightarrow> thread_id list \<Rightarrow> hybrid_store \<Rightarrow>
     thread_id list \<times> hybrid_store" where
  "recover_each fresh n now [] done s = (done, s)"
| "recover_each fresh n now (th # ths) done s =
     (case recover_thread (fresh n) now th of
        None \<Rightarrow> recover_each fresh (Suc n) now ths done s
      | Some th' \<Rightarrow>
          recover_each fresh (Suc n) now ths (done @ [th_id th'])
            (save_thread th' (append_events (th_events th') s)))"

definition recover_project_threads ::
    "(nat \<Rightarrow> event_id) \<Rightarrow> time \<Rightarrow> project_id \<Rightarrow> thread_manager \<Rightarrow> thread_id list \<times> thread_manager" where
  "recover_project_threads fresh now pid mg =
     (let (ids, s) = recover_each fresh 0 now (list_all_threads pid (mg_store mg)) [] (mg_store mg)
      in (ids, mg\<lparr>mg_store := s\<rparr>))"

section \<open>Facts about the tree\<close>

definition tree_rel :: "thread_tree \<Rightarrow> (thread_id \<times> thread_id) set" where
  "tree_rel t = {(c, p). parent_of t c = Some p}"

definition tree_inv :: "thread_tree \<Rightarrow> bool" where
  "tree_inv t \<longleftrightarrow> acyclic (tree_rel t) \<and> (\<forall>p. \<forall>c \<in> set (children_of t p). parent_of t c = Some p)"

lemma tree_inv_new [invariant_intros]: "tree_inv new_tree"
  by (simp add: tree_inv_def new_tree_def tree_rel_def parent_of_def children_of_def acyclic_def)

lemma add_child_inv [invariant_intros]:
  assumes inv: "tree_inv t" and new: "parent_of t c = None" "\<forall>x. parent_of t x \<noteq> Some c" "c \<noteq> p"
  shows "tree_inv (add_child p c t)"
proof -
  have rel: "tree_rel (add_child p c t) = insert (c, p) (tree_rel t)"
    using new(1) by (auto simp: tree_rel_def add_child_def parent_of_def split: if_splits)
  have "(p, c) \<notin> (tree_rel t)\<^sup>*"
    using new(2,3) by (auto elim: rtranclE simp: tree_rel_def)
  with inv rel have "acyclic (tree_rel (add_child p c t))"
    by (simp add: tree_inv_def acyclic_insert)
  moreover have "c \<notin> set (children_of t q)" for q
    using inv new(1) by (auto simp: tree_inv_def)
  ultimately show ?thesis
    using inv by (auto simp: tree_inv_def add_child_def children_of_def parent_of_def)
qed

lemma tree_remove_parents [simp]: "tt_parents (tree_remove i t) = hm_remove i (tt_parents t)"
proof -
  have "hm_get m k = None \<Longrightarrow> hm_remove k m = m" for m :: "(thread_id, thread_id) hmap" and k
    by (force simp: hm_remove_def map_of_eq_None_iff filter_id_conv)
  then show ?thesis by (auto simp: tree_remove_def Let_def split: option.splits)
qed

lemma tree_remove_children:
  assumes "tree_inv t" "c \<in> set (children_of (tree_remove i t) p)"
  shows "c \<in> set (children_of t p) \<and> c \<noteq> i"
proof -
  from assms(2) have c: "c \<in> set (children_of t p)" "parent_of t i = Some p \<Longrightarrow> c \<noteq> i"
    by (cases "hm_get (tt_children t) p";
        auto simp: tree_remove_def children_of_def parent_of_def split: if_splits option.splits)+
  with assms(1) have "parent_of t c = Some p" by (auto simp: tree_inv_def)
  with c show ?thesis by auto
qed

lemma tree_remove_inv [invariant_intros]:
  assumes "tree_inv t"
  shows "tree_inv (tree_remove i t)"
proof -
  have sub: "tree_rel (tree_remove i t) \<subseteq> tree_rel t"
    by (auto simp: tree_rel_def parent_of_def split: if_splits)
  with assms have "acyclic (tree_rel (tree_remove i t))"
    by (auto simp: tree_inv_def intro: acyclic_subset)
  with assms show ?thesis
    using tree_remove_children [OF assms] by (fastforce simp: tree_inv_def parent_of_def)
qed

lemma finite_tree_rel: "finite (tree_rel t)"
proof (rule finite_subset)
  show "tree_rel t \<subseteq> (\<lambda>c. (c, the (map_of (tt_parents t) c))) ` dom (map_of (tt_parents t))"
    by (force simp: tree_rel_def parent_of_def)
qed (simp add: finite_dom_map_of)

lemma ancestors_from_spec:
  assumes "acyclic (tree_rel t)"
  shows "\<exists>as. ancestors_from (tt_parents t) i acc = Some (acc @ as) \<and>
    distinct as \<and> set as = {a. (i, a) \<in> (tree_rel t)\<^sup>+}"
proof -
  have "wf ((tree_rel t)\<inverse>)"
    using finite_tree_rel assms by (rule finite_acyclic_wf_converse)
  then show ?thesis
  proof (induction i arbitrary: acc rule: wf_induct_rule)
    case (less i)
    show ?case
    proof (cases "hm_get (tt_parents t) i")
      case None
      then have "(i, a) \<notin> (tree_rel t)\<^sup>+" for a
        by (auto simp: tree_rel_def parent_of_def dest: tranclD)
      with None show ?thesis by (subst ancestors_from.simps) simp
    next
      case (Some p)
      then have p: "(i, p) \<in> tree_rel t" by (simp add: tree_rel_def parent_of_def)
      with less.IH [of p "acc @ [p]"] obtain as where
        as: "ancestors_from (tt_parents t) p (acc @ [p]) = Some (acc @ p # as)" "distinct as"
          "set as = {a. (p, a) \<in> (tree_rel t)\<^sup>+}" by auto
      have "p \<notin> set as" using assms as(3) by (auto simp: acyclic_def)
      moreover have "{a. (i, a) \<in> (tree_rel t)\<^sup>+} = insert p (set as)"
      proof -
        have "(i, q) \<in> tree_rel t \<longleftrightarrow> q = p" for q
          using Some by (auto simp: tree_rel_def parent_of_def)
        then show ?thesis using as(3) p
          by (auto dest: tranclD simp: rtrancl_eq_or_trancl intro: trancl_into_trancl2)
      qed
      moreover have "ancestors_from (tt_parents t) i acc = Some (acc @ p # as)"
        using Some as(1) by (subst ancestors_from.simps) simp
      ultimately show ?thesis
        using as(2) by (intro exI [of _ "p # as"]) auto
    qed
  qed
qed

section \<open>Facts about the manager\<close>

fun planned_leases ::
    "(nat \<Rightarrow> lease_id) \<Rightarrow> nat \<Rightarrow> time \<Rightarrow> thread_id \<Rightarrow> capability_grant_plan list \<Rightarrow>
     capability_lease list" where
  "planned_leases fresh n now tid [] = []"
| "planned_leases fresh n now tid (p # ps) =
     \<lparr>ls_id = fresh n, ls_thread_id = tid, ls_capability_name = cgp_capability_name p,
      ls_granted_actions = cgp_granted_actions p, ls_granted_at = now, ls_expires_at = None,
      ls_max_uses = None, ls_uses_remaining = None, ls_revoked = False, ls_revoked_reason = None\<rparr>
     # planned_leases fresh (Suc n) now tid ps"

lemma planned_leases_mem:
  "l \<in> set (planned_leases fresh n now tid ps) \<Longrightarrow>
     ls_thread_id l = tid \<and> (\<exists>p \<in> set ps. ls_granted_actions l = cgp_granted_actions p)"
  by (induction fresh n now tid ps rule: planned_leases.induct) auto

lemma planned_leases_budget: "\<forall>c \<in> set (planned_leases fresh n now tid ps). lease_budget_ok c"
  by (induction fresh n now tid ps rule: planned_leases.induct) (auto simp: lease_budget_ok_def)

lemma grant_plans_total:
  "grant_plans fresh n now ps (m, s, th) =
     (let ls = planned_leases fresh n now (th_id th) ps
      in Inr (insert_children ls m, fold save_lease ls s,
              th\<lparr>th_capability_leases := th_capability_leases th @ map ls_id ls\<rparr>))"
proof (induction ps arbitrary: n m s th)
  case (Cons p ps)
  then show ?case
    by (simp add: grant_def Let_def insert_children_def)
qed (simp add: insert_children_def)

lemma lookup_append_events [simp]: "hs_lookup (append_events es s) i = hs_lookup s i"
  by (simp add: hs_lookup_alt append_events_def split: option.splits)

lemma lookup_save_lease [simp]: "hs_lookup (save_lease l s) i = hs_lookup s i"
  by (simp add: hs_lookup_alt save_lease_def split: option.splits)

lemma store_inv_append_events [simp]: "store_inv (append_events es s) = store_inv s"
  by (simp add: append_events_def)

lemma insert_children_values:
  assumes "lm_inv m" "hm_get (insert_children cs m) i = Some l"
  shows "l \<in> set cs \<or> hm_get m i = Some l"
  using assms(2) unfolding insert_children_def
proof (induction cs arbitrary: m)
  case (Cons c cs)
  from Cons.IH [of "hm_insert (ls_id c) c m"] Cons.prems show ?case
    by (auto split: if_splits)
qed simp

lemma shared_never_owns: "is_shared_owner uid \<Longrightarrow> \<not> thread_is_owned_by th uid"
  by (auto simp: thread_is_owned_by_def owner_from_user_id_def)

lemma resume_thread_shared:
  assumes "is_shared_owner uid"
  shows "\<exists>e mg'. resume_thread eid now tid uid injected approval resolved mg = (Inl e, mg')"
  using shared_never_owns [OF assms]
  by (auto simp: resume_thread_def Let_def split: prod.splits option.splits)

lemma resume_each_shared:
  "\<exists>th \<in> set ths. auto_resumable th \<and> is_shared_owner (th_user_id th) \<Longrightarrow>
     \<exists>e mg'. resume_each eid now ths resumed mg = (Inl e, mg')"
proof (induction ths arbitrary: resumed mg)
  case (Cons th ths)
  show ?case
  proof (cases "auto_resumable th \<and> is_shared_owner (th_user_id th)")
    case True
    then obtain e mg' where
      "resume_thread eid now (th_id th) (th_user_id th) None None None mg = (Inl e, mg')"
      using resume_thread_shared by blast
    with True show ?thesis by simp
  next
    case False
    with Cons.prems have "\<exists>th \<in> set ths. auto_resumable th \<and> is_shared_owner (th_user_id th)" by auto
    from Cons.IH [OF this] show ?thesis
      by (auto split: prod.splits sum.splits)
  qed
qed simp

text \<open>A thread that recovery leaves alone or has dealt with.\<close>

definition settled :: "thread \<Rightarrow> bool" where
  "settled th \<longleftrightarrow>
     is_terminal (th_state th) \<or> th_state th = ThCompleted \<or>
     th_state th = ThWaiting \<and> json_get ''pending_approval'' (th_metadata th) \<noteq> None \<or>
     th_state th = ThSuspended \<and> json_get ''runtime_checkpoint'' (th_metadata th) \<noteq> None"

lemma recover_thread_None: "recover_thread eid now th = None \<Longrightarrow> settled th"
  by (cases "th_state th")
    (auto simp: recover_thread_def settled_def transition_to_def can_transition_to_def Let_def
      split: if_splits sum.splits)

lemma recover_thread_Some:
  assumes "recover_thread eid now th = Some th'"
  shows "settled th' \<and> th_id th' = th_id th \<and> th_user_id th' = th_user_id th"
proof (cases "th_state th = ThSuspended \<and> json_get ''runtime_checkpoint'' (th_metadata th) \<noteq> None")
  case True
  with assms show ?thesis by (auto simp: recover_thread_def settled_def)
next
  case False
  with assms obtain t r where tr: "transition_to eid now t r th = Inr th'"
    "t = ThFailed \<or> t = ThSuspended \<and> json_get ''runtime_checkpoint'' (th_metadata th) \<noteq> None"
    by (auto simp: recover_thread_def split: if_splits sum.splits)
  with transition_to_frame [OF tr(1)] show ?thesis by (auto simp: settled_def)
qed

lemma recover_each_inv: "store_inv s \<Longrightarrow> store_inv (snd (recover_each fresh n now ths ids s))"
  by (induction ths arbitrary: n ids s) (auto split: option.splits simp: save_thread_inv)

lemma recover_each_other:
  "i \<notin> th_id ` set ths \<Longrightarrow> hs_lookup (snd (recover_each fresh n now ths ids s)) i = hs_lookup s i"
  by (induction ths arbitrary: n ids s)
    (auto split: option.splits simp: hs.lookup_save dest: recover_thread_Some)

lemma recover_each_settled:
  assumes "distinct (map th_id ths)" "th \<in> set ths" "hs_lookup s (th_id th) = Some th"
  shows "\<exists>th'. hs_lookup (snd (recover_each fresh n now ths ids s)) (th_id th) = Some th' \<and> settled th'"
  using assms
proof (induction ths arbitrary: n ids s)
  case (Cons t ths)
  show ?case
  proof (cases "t = th")
    case True
    with Cons.prems(1) have nin: "th_id th \<notin> th_id ` set ths" by auto
    show ?thesis
    proof (cases "recover_thread (fresh n) now th")
      case None
      with True Cons.prems(3) recover_thread_None [OF None] show ?thesis
        by (simp add: recover_each_other [OF nin])
    next
      case (Some th')
      with True recover_thread_Some [OF Some] show ?thesis
        by (simp add: recover_each_other [OF nin] hs.lookup_save)
    qed
  next
    case False
    then have "th \<in> set ths" using Cons.prems(2) by simp
    moreover from this have "th_id th \<in> th_id ` set ths" by simp
    ultimately have th: "th \<in> set ths" "th_id th \<noteq> th_id t"
      using Cons.prems(1) by (simp, metis distinct.simps(2) list.simps(9) set_map)
    show ?thesis
    proof (cases "recover_thread (fresh n) now t")
      case None
      with Cons.IH [of s "Suc n" ids] Cons.prems th show ?thesis by simp
    next
      case (Some t')
      with recover_thread_Some [OF Some] th Cons.prems
        Cons.IH [of "save_thread t' (append_events (th_events t') s)" "Suc n" "ids @ [th_id t']"]
      show ?thesis by (simp add: hs.lookup_save)
    qed
  qed
qed simp

lemma list_all_threads_lookup:
  assumes "store_inv s"
  shows "distinct (map th_id (list_all_threads pid s))"
    and "th \<in> set (list_all_threads pid s) \<longleftrightarrow>
           hm_get (hs_threads s) (th_id th) = Some th \<and> th_project_id th = pid"
    and "th \<in> set (list_all_threads pid s) \<Longrightarrow> hs_lookup s (th_id th) = Some th"
proof -
  note k = store_inv_threads [OF assms]
  show "distinct (map th_id (list_all_threads pid s))"
    unfolding list_all_threads_def using keyed_values_distinct [OF k]
    by (rule distinct_map_filter)
  show iff: "th \<in> set (list_all_threads pid s) \<longleftrightarrow>
      hm_get (hs_threads s) (th_id th) = Some th \<and> th_project_id th = pid"
    unfolding list_all_threads_def using hm_keyed_mem [OF k, of th] by auto
  show "th \<in> set (list_all_threads pid s) \<Longrightarrow> hs_lookup s (th_id th) = Some th"
    unfolding iff by (simp add: hs_lookup_alt)
qed

text \<open>Two managers that differ at most in what the store has cached.\<close>

definition same_manager :: "thread_manager \<Rightarrow> thread_manager \<Rightarrow> bool" where
  "same_manager mg mg' \<longleftrightarrow>
     mg_running mg' = mg_running mg \<and> mg_completed mg' = mg_completed mg \<and>
     mg_leases mg' = mg_leases mg \<and> mg_tree mg' = mg_tree mg \<and> mg_sent mg' = mg_sent mg \<and>
     (\<forall>i. hs_lookup (mg_store mg') i = hs_lookup (mg_store mg) i)"

lemma same_manager_load:
  "store_inv (mg_store mg) \<Longrightarrow> same_manager mg (mg\<lparr>mg_store := snd (load_thread tid (mg_store mg))\<rparr>)"
  by (simp add: same_manager_def)

lemma load_thread_pair: "load_thread tid s = (hs_lookup s tid, snd (load_thread tid s))"
  by (simp add: hs_lookup_def)

section \<open>Properties\<close>

definition sample_manager :: "thread list \<Rightarrow> capability_registry \<Rightarrow> thread_manager" where
  "sample_manager ths reg =
     \<lparr>mg_store = fold save_thread ths (new_store None), mg_capabilities = reg, mg_leases = [],
      mg_tree = new_tree, mg_running = [], mg_completed = [], mg_sent = []\<rparr>"

definition sample_worker :: "thread_id \<Rightarrow> string \<Rightarrow> thread_state \<Rightarrow> json \<Rightarrow> thread" where
  "sample_worker tid uid st md =
     (new_thread tid 0 ''goal'' Research 5 uid default_thread_config)\<lparr>th_state := st, th_metadata := md\<rparr>"

lemmas sample_manager_simps = sample_manager_def sample_worker_def new_thread_def

lemma sample_manager_inv: "store_inv (mg_store (sample_manager [th] reg))"
  by (simp add: sample_manager_def save_thread_inv store_inv_new)

lemma sample_manager_lookup: "hs_lookup (mg_store (sample_manager [th] reg)) (th_id th) = Some th"
  by (simp add: sample_manager_def hs.lookup_save)



text \<open>
  A thread that is spawned to run without a user never holds a lease for a denylisted
  tool: after \<open>spawn_thread\<close> of a research or mission thread, no lease for the thread covers
  such a tool at any time, unless the registry has an action with the hyphenated name.
\<close>

lemma spawned_thread_no_denylisted:
  assumes inv: "lm_inv (mg_leases mg)"
    and new: "\<forall>i l. hm_get (mg_leases mg) i = Some l \<longrightarrow> ls_thread_id l \<noteq> tid"
    and tt: "tt \<noteq> Foreground" and deny: "is_autonomous_denylisted a"
    and hyp: "\<forall>x \<in> set (all_actions (mg_capabilities mg)).
                ad_name x \<noteq> replace_char (CHR ''_'') (CHR ''-'') a \<or> ad_name x = a"
    and spawn: "spawn_thread tid fresh eid now goal tt pid cfg parent uid mg = (r, mg')"
  shows "r = Inr tid \<and> is_running mg' tid \<and> (\<forall>t. find_lease_for_action t tid a (mg_leases mg') = None)"
proof -
  define ls where "ls = planned_leases fresh 0 now tid (plan_for_thread tt (mg_capabilities mg))"
  have r: "r = Inr tid" "is_running mg' tid" "mg_leases mg' = insert_children ls (mg_leases mg)"
    using spawn
    by (auto simp: spawn_thread_def spawn_thread_with_history_def grant_plans_total Let_def
        start_thread_def new_thread_def with_parent_def ls_def is_running_def split: option.splits)
  have inv': "lm_inv (mg_leases mg')"
    unfolding r(3) ls_def by (rule insert_children_inv [OF inv planned_leases_budget])
  have "find_lease_for_action t tid a (mg_leases mg') = None" for t
  proof (rule ccontr)
    assume "find_lease_for_action t tid a (mg_leases mg') \<noteq> None"
    then obtain l where l: "find_lease_for_action t tid a (mg_leases mg') = Some l" by blast
    have "hm_get (insert_children ls (mg_leases mg)) (ls_id l) = Some l"
      using find_lease_stored [OF inv' l] r(3) by simp
    with insert_children_values [OF inv] new find_lease_covers [OF l] have "l \<in> set ls" by blast
    then obtain p where p: "p \<in> set (plan_for_thread tt (mg_capabilities mg))"
      "ls_granted_actions l = cgp_granted_actions p"
      unfolding ls_def using planned_leases_mem by blast
    with find_lease_covers [OF l] have "covers (cgp_granted_actions p) a"
      by (simp add: covers_action_def)
    with plan_not_denylisted [OF tt p(1) deny] hyp show False by auto
  qed
  with r show ?thesis by blast
qed

lemma spawned_thread_no_denylisted_witness:
  "find_lease_for_action 5 1 ''restart''
     (mg_leases (snd (spawn_thread 1 (\<lambda>n. n) 0 0 ''g'' MissionThread 5 default_thread_config None ''alice''
        (sample_manager [] sample_registry)))) = None"
proof -
  let ?mg = "sample_manager [] sample_registry"
  obtain r mg' where s: "spawn_thread 1 (\<lambda>n. n) 0 0 ''g'' MissionThread 5 default_thread_config None
      ''alice'' ?mg = (r, mg')" by fastforce
  have hyp: "\<forall>x \<in> set (all_actions (mg_capabilities ?mg)).
      ad_name x \<noteq> replace_char (CHR ''_'') (CHR ''-'') ''restart'' \<or> ad_name x = ''restart''"
    by (simp add: sample_manager_def all_actions_def sample_registry_def sample_action_def
        replace_char_def)
  have "is_autonomous_denylisted ''restart''"
    by (simp add: is_autonomous_denylisted_def AUTONOMOUS_TOOL_DENYLIST_def)
  from spawned_thread_no_denylisted [OF _ _ _ this hyp s] s show ?thesis
    by (simp add: sample_manager_def lm_inv_empty)
qed



text \<open>
  What a successful resume guarantees: the thread was not running, is owned by the user
  and was waiting or suspended; it now runs, what is stored is what runs, no message of the
  resolved call is left unless it was injected, and a waiting thread has lost its
  checkpoint.
\<close>

lemma resume_thread_sound:
  assumes "resume_thread eid now tid uid injected approval resolved mg = (Inr (), mg')" "store_inv (mg_store mg)"
  shows "\<not> is_running mg tid \<and> is_running mg' tid \<and>
    (\<exists>th th'. hs_lookup (mg_store mg) tid = Some th \<and> thread_is_owned_by th uid \<and>
       (th_state th = ThWaiting \<or> th_state th = ThSuspended) \<and>
       hs_lookup (mg_store mg') tid = Some th' \<and>
       map_option rt_thread (hm_get (mg_running mg') tid) = Some th' \<and> th_state th' = th_state th \<and>
       (\<forall>c m. resolved = Some c \<longrightarrow> m \<in> set (th_messages th') \<longrightarrow> is_resolved_call_message m c \<longrightarrow> injected = Some m) \<and>
       (th_state th = ThWaiting \<longrightarrow> json_get ''runtime_checkpoint'' (th_metadata th') = None))"
proof -
  obtain s where load: "load_thread tid (mg_store mg) = (hs_lookup (mg_store mg) tid, s)"
    using load_thread_pair by metis
  from assms(1) obtain th where th: "\<not> is_running mg tid" "hs_lookup (mg_store mg) tid = Some th"
    "thread_is_owned_by th uid" "th_state th = ThWaiting \<or> th_state th = ThSuspended"
    by (auto simp: resume_thread_def load Let_def split: if_splits option.splits)
  define th' where "th' = prepare_resume eid now injected approval resolved th"
  have id: "th_id th = tid"
    using th(2) assms(2) by (auto simp: hs_lookup_alt store_inv_def split: option.splits dest: hm_keyed_get)
  have st: "th_state th' = th_state th" "th_id th' = tid"
    by (auto simp: th'_def prepare_resume_def Let_def id split: option.splits)
  have mg': "mg_running mg' = hm_insert tid \<lparr>rt_mailbox = [], rt_thread = th', rt_finished = None\<rparr> (mg_running mg)"
    "mg_store mg' = save_thread th' s"
    using assms(1) th st by (auto simp: resume_thread_def load Let_def start_thread_def th'_def)
  have "json_get k (json_remove_key k j) = None" for k j
    by (auto simp: json_get_def json_remove_key_def map_of_eq_None_iff split: json.splits)
  then have "th_state th = ThWaiting \<longrightarrow> json_get ''runtime_checkpoint'' (th_metadata th') = None"
    by (auto simp: th'_def prepare_resume_def Let_def split: option.splits)
  moreover have "\<forall>c m. resolved = Some c \<longrightarrow> m \<in> set (th_messages th') \<longrightarrow>
      is_resolved_call_message m c \<longrightarrow> injected = Some m"
    by (auto simp: th'_def prepare_resume_def Let_def split: option.splits)
  ultimately show ?thesis
    using th st mg' by (auto simp: is_running_def hs.lookup_save)
qed

lemma resume_thread_sound_witness:
  "\<exists>mg'. resume_thread 0 9 1 ''alice'' None None (Some ''c'')
       (sample_manager [sample_worker 1 ''alice'' ThSuspended JNull] []) = (Inr (), mg') \<and> is_running mg' 1"
proof -
  let ?mg = "sample_manager [sample_worker 1 ''alice'' ThSuspended JNull] []"
  obtain mg' where "resume_thread 0 9 1 ''alice'' None None (Some ''c'') ?mg = (Inr (), mg')"
    by (simp add: resume_thread_def is_running_def sample_manager_simps load_thread_def save_thread_def Let_def
        persist_thread_def new_store_def thread_is_owned_by_def owner_from_user_id_def
        is_shared_owner_def SHARED_OWNER_ID_def LEGACY_SHARED_OWNER_ID_def)
  with resume_thread_sound [OF this sample_manager_inv] show ?thesis by blast
qed

text \<open>
  Recovery after a restart settles every thread of the project: each one that was in
  memory ends up terminal, completed, waiting for an approval that is on record, or suspended
  with a checkpoint; threads outside the project are untouched.
\<close>

lemma recover_settles_project:
  assumes "store_inv (mg_store mg)" "recover_project_threads fresh now pid mg = (ids, mg')"
  shows "(\<forall>i th. hm_get (hs_threads (mg_store mg)) i = Some th \<and> th_project_id th = pid \<longrightarrow>
            (\<exists>th'. hs_lookup (mg_store mg') i = Some th' \<and> settled th')) \<and>
    (\<forall>i. (\<forall>th. hm_get (hs_threads (mg_store mg)) i = Some th \<longrightarrow> th_project_id th \<noteq> pid) \<longrightarrow>
       hs_lookup (mg_store mg') i = hs_lookup (mg_store mg) i) \<and> store_inv (mg_store mg')"
proof -
  let ?ths = "list_all_threads pid (mg_store mg)"
  note L = list_all_threads_lookup [OF assms(1), where pid = pid]
  have s: "mg_store mg' = snd (recover_each fresh 0 now ?ths [] (mg_store mg))"
    using assms(2) by (auto simp: recover_project_threads_def Let_def split: prod.splits)
  have key: "hm_get (hs_threads (mg_store mg)) i = Some th \<Longrightarrow> th_id th = i" for i th
    using store_inv_threads [OF assms(1)] by (rule hm_keyed_get)
  have "\<exists>th'. hs_lookup (mg_store mg') i = Some th' \<and> settled th'"
    if "hm_get (hs_threads (mg_store mg)) i = Some th" "th_project_id th = pid" for i th
    using that key [OF that(1)] recover_each_settled [OF L(1), of th] L(2,3) [of th] unfolding s by auto
  moreover have "hs_lookup (mg_store mg') i = hs_lookup (mg_store mg) i"
    if "\<forall>th. hm_get (hs_threads (mg_store mg)) i = Some th \<longrightarrow> th_project_id th \<noteq> pid" for i
    unfolding s using that L(2) by (intro recover_each_other) auto
  moreover have "store_inv (mg_store mg')"
    unfolding s by (rule recover_each_inv [OF assms(1)])
  ultimately show ?thesis by blast
qed

lemma recover_settles_project_witness:
  "\<exists>th'. hs_lookup (mg_store (snd (recover_project_threads (\<lambda>n. n) 9 5
       (sample_manager [sample_worker 1 ''alice'' ThRunning JNull] [])))) 1 = Some th' \<and> settled th'"
proof -
  let ?th = "sample_worker 1 ''alice'' ThRunning JNull"
  obtain ids mg' where r: "recover_project_threads (\<lambda>n. n) 9 5 (sample_manager [?th] []) = (ids, mg')"
    by fastforce
  have "hm_get (hs_threads (mg_store (sample_manager [?th] []))) 1 = Some ?th" "th_project_id ?th = 5"
    by (simp_all add: sample_manager_simps save_thread_def persist_thread_def new_store_def)
  with recover_settles_project [OF sample_manager_inv r] r show ?thesis by auto
qed

text \<open>
  A suspended research thread of the shared owner stops the automatic resume: as soon as
  the project has one, \<open>resume_background_threads\<close> returns an error, since nobody owns a
  shared thread, and the threads listed after it are not resumed.
\<close>

lemma shared_thread_blocks_resume:
  assumes "th \<in> set (list_all_threads pid (mg_store mg))" "auto_resumable th"
    "is_shared_owner (th_user_id th)"
  shows "\<exists>e mg'. resume_background_threads eid now pid mg = (Inl e, mg')"
  unfolding resume_background_threads_def using assms by (intro resume_each_shared) blast

end
