(* ===== verification/Conversation_Manager.thy ===== *)
theory Conversation_Manager
  imports Thread_Manager
begin

text \<open>
  The conversation manager (\<open>runtime/conversation.rs\<close>), which routes the messages of a channel
  to threads. It shares the thread manager and, through it, the store. A call that waits on a
  full mailbox is \<open>None\<close>.
\<close>

record conversation_manager =
  cm_threads :: thread_manager
  cm_conversations :: "(conversation_id, conversation_surface) hmap"
  cm_index :: "(string \<times> string, conversation_id) hmap"

abbreviation cm_store :: "conversation_manager \<Rightarrow> hybrid_store" where
  "cm_store cm \<equiv> mg_store (cm_threads cm)"

definition cm_save :: "conversation_surface \<Rightarrow> conversation_manager \<Rightarrow> conversation_manager" where
  "cm_save c cm =
     cm\<lparr>cm_threads := (cm_threads cm)\<lparr>mg_store := save_conversation c (cm_store cm)\<rparr>\<rparr>"

definition cm_put :: "conversation_surface \<Rightarrow> conversation_manager \<Rightarrow> conversation_manager" where
  "cm_put c cm = cm\<lparr>cm_conversations := hm_insert (cs_id c) c (cm_conversations cm)\<rparr>"

section \<open>Operations\<close>

fun index_all :: "conversation_surface list \<Rightarrow> conversation_manager \<Rightarrow> conversation_manager" where
  "index_all [] cm = cm"
| "index_all (c # cs) cm =
     index_all cs (cm_put c (cm\<lparr>cm_index := hm_insert (cs_channel c, cs_user_id c) (cs_id c) (cm_index cm)\<rparr>))"

definition bootstrap_user :: "string \<Rightarrow> conversation_manager \<Rightarrow> nat \<times> conversation_manager" where
  "bootstrap_user uid cm =
     (let cs = list_conversations uid (cm_store cm) in (length cs, index_all cs cm))"

definition get_or_create_conversation ::
    "conversation_id \<Rightarrow> time \<Rightarrow> string \<Rightarrow> string \<Rightarrow> conversation_manager \<Rightarrow>
     conversation_id \<times> conversation_manager" where
  "get_or_create_conversation fresh now channel uid cm =
     (case hm_get (cm_index cm) (channel, uid) of
        Some cid \<Rightarrow> (cid, cm)
      | None \<Rightarrow>
          (case find (\<lambda>c. cs_channel c = channel) (list_conversations uid (cm_store cm)) of
             Some c \<Rightarrow>
               (cs_id c, (cm_put c cm)\<lparr>cm_index := hm_insert (channel, uid) (cs_id c) (cm_index cm)\<rparr>)
           | None \<Rightarrow>
               let c = new_conversation fresh now channel uid
               in (fresh, cm_save c ((cm_put c cm)
                     \<lparr>cm_index := hm_insert (channel, uid) fresh (cm_index cm)\<rparr>))))"

text \<open>
  \<open>build_history_from_entries\<close>: all entries but the last, without the notifications of the
  system.
\<close>

definition entry_message :: "time \<Rightarrow> conversation_entry \<Rightarrow> thread_message option" where
  "entry_message now e =
     (case ce_sender e of
        SenderUser \<Rightarrow> Some (msg_user now (ce_content e))
      | SenderAgent _ \<Rightarrow> Some (msg_assistant now (ce_content e))
      | SenderSystem \<Rightarrow> None)"

definition build_history_from_entries :: "time \<Rightarrow> conversation_entry list \<Rightarrow> thread_message list" where
  "build_history_from_entries now es =
     (if length es > 1 then List.map_filter (entry_message now) (take (length es - 1) es) else [])"

datatype active_foreground = AfRunning thread_id | AfResumable thread_id

fun find_active_in ::
    "thread_id list \<Rightarrow> thread_manager \<Rightarrow> active_foreground option \<times> thread_manager" where
  "find_active_in [] mg = (None, mg)"
| "find_active_in (tid # tids) mg =
     (if is_running mg tid then (Some (AfRunning tid), mg)
      else
        let (loaded, s) = load_thread tid (mg_store mg);
            mg1 = mg\<lparr>mg_store := s\<rparr>
        in case loaded of
             Some th \<Rightarrow>
               if th_type th = Foreground \<and> th_state th = ThSuspended
               then (Some (AfResumable tid), mg1) else find_active_in tids mg1
           | None \<Rightarrow> find_active_in tids mg1)"

definition base_channel :: "string \<Rightarrow> string" where
  "base_channel channel = takeWhile (\<lambda>c. c \<noteq> CHR '':'') channel"

text \<open>The three branches of \<open>handle_user_message\<close>; \<open>conv\<close> has the user's entry already.\<close>

definition route_running ::
    "time \<Rightarrow> thread_id \<Rightarrow> string \<Rightarrow> string \<Rightarrow> conversation_surface \<Rightarrow> conversation_manager \<Rightarrow>
     ((engine_error + thread_id) \<times> conversation_manager) option" where
  "route_running now tid content uid conv cm =
     (case inject_message tid uid (msg_user now content) (cm_threads cm) of
        None \<Rightarrow> None
      | Some (Inl e, mg) \<Rightarrow> Some (Inl e, cm\<lparr>cm_threads := mg\<rparr>)
      | Some (Inr _, mg) \<Rightarrow> Some (Inr tid, cm_save conv (cm\<lparr>cm_threads := mg\<rparr>)))"

definition route_resumable ::
    "event_id \<Rightarrow> entry_id \<Rightarrow> time \<Rightarrow> thread_id \<Rightarrow> string \<Rightarrow> string \<Rightarrow> conversation_surface \<Rightarrow>
     conversation_manager \<Rightarrow> (engine_error + thread_id) \<times> conversation_manager" where
  "route_resumable eid nid now tid content uid conv cm =
     (case resume_thread eid now tid uid (Some (msg_user now content)) None None (cm_threads cm) of
        (Inl e, mg) \<Rightarrow> (Inl e, cm\<lparr>cm_threads := mg\<rparr>)
      | (Inr _, mg) \<Rightarrow>
          let conv' = add_entry now (entry_system_for_thread nid now tid ''Thread resumed'') conv
          in (Inr tid, cm_save conv' (cm_put conv' (cm\<lparr>cm_threads := mg\<rparr>))))"

definition route_spawn ::
    "thread_id \<Rightarrow> (nat \<Rightarrow> lease_id) \<Rightarrow> event_id \<Rightarrow> entry_id \<Rightarrow> time \<Rightarrow> string \<Rightarrow> project_id \<Rightarrow> string \<Rightarrow>
     thread_config \<Rightarrow> conversation_surface \<Rightarrow> conversation_manager \<Rightarrow>
     (engine_error + thread_id) \<times> conversation_manager" where
  "route_spawn tid fresh eid nid now content pid uid cfg conv cm =
     (case spawn_thread_with_history tid fresh eid now content Foreground pid cfg None uid
             (build_history_from_entries now (cs_entries conv)) (cm_threads cm) of
        (Inl e, mg) \<Rightarrow> (Inl e, cm\<lparr>cm_threads := mg\<rparr>)
      | (Inr i, mg) \<Rightarrow>
          let mg1 = set_thread_metadata i ''source_channel'' (base_channel (cs_channel conv)) mg;
              conv' = add_entry now (entry_system_for_thread nid now i ''Thread started'')
                        (track_thread i conv)
          in (Inr i, cm_save conv' (cm_put conv' (cm\<lparr>cm_threads := mg1\<rparr>))))"

definition handle_user_message ::
    "thread_id \<Rightarrow> (nat \<Rightarrow> lease_id) \<Rightarrow> event_id \<Rightarrow> entry_id \<Rightarrow> entry_id \<Rightarrow> time \<Rightarrow> conversation_id \<Rightarrow>
     string \<Rightarrow> project_id \<Rightarrow> string \<Rightarrow> thread_config \<Rightarrow> conversation_manager \<Rightarrow>
     ((engine_error + thread_id) \<times> conversation_manager) option" where
  "handle_user_message tid fresh eid nid nid' now cid content pid uid cfg cm =
     (case hm_get (cm_conversations cm) cid of
        None \<Rightarrow> Some (Inl (StoreErr (''conversation '' @ show_nat cid @ '' not found'')), cm)
      | Some conv0 \<Rightarrow>
          if cs_user_id conv0 \<noteq> uid
          then Some (Inl (AccessDenied uid (''conversation '' @ show_nat cid)), cm)
          else
            let conv = add_entry now (entry_user nid now content) conv0;
                (active, mg) = find_active_in (cs_active_threads conv) (cm_threads cm);
                cm1 = (cm_put conv cm)\<lparr>cm_threads := mg\<rparr>
            in case active of
                 Some (AfRunning t) \<Rightarrow> route_running now t content uid conv cm1
               | Some (AfResumable t) \<Rightarrow> Some (route_resumable eid nid' now t content uid conv cm1)
               | None \<Rightarrow> Some (route_spawn tid fresh eid nid' now content pid uid cfg conv cm1))"

definition outcome_entry :: "entry_id \<Rightarrow> time \<Rightarrow> thread_id \<Rightarrow> thread_outcome \<Rightarrow>
    conversation_surface \<Rightarrow> conversation_surface" where
  "outcome_entry nid now tid outcome conv =
     (case outcome of
        OutCompleted response \<Rightarrow>
          untrack_thread tid (case response of
            Some text \<Rightarrow> add_entry now (entry_agent nid now tid text) conv | None \<Rightarrow> conv)
      | OutStopped \<Rightarrow>
          untrack_thread tid
            (add_entry now (entry_system_for_thread nid now tid ''Thread stopped'') conv)
      | OutMaxIterations \<Rightarrow>
          untrack_thread tid
            (add_entry now (entry_system_for_thread nid now tid ''Thread reached max iterations'') conv)
      | OutFailed error \<Rightarrow>
          untrack_thread tid
            (add_entry now (entry_system_for_thread nid now tid (''Thread failed: '' @ error)) conv)
      | OutGatePaused gate action _ _ _ _ \<Rightarrow>
          add_entry now (entry_system_for_thread nid now tid
            (''Gate '' @ [CHR 0x27] @ gate @ [CHR 0x27] @ '' paused execution of action: '' @ action)) conv)"

definition record_thread_outcome ::
    "entry_id \<Rightarrow> time \<Rightarrow> conversation_id \<Rightarrow> thread_id \<Rightarrow> thread_outcome \<Rightarrow> conversation_manager \<Rightarrow>
     conversation_manager" where
  "record_thread_outcome nid now cid tid outcome cm =
     (case hm_get (cm_conversations cm) cid of
        None \<Rightarrow> cm
      | Some conv \<Rightarrow>
          let conv' = outcome_entry nid now tid outcome conv in cm_save conv' (cm_put conv' cm))"

definition clear_conversation ::
    "time \<Rightarrow> conversation_id \<Rightarrow> string \<Rightarrow> conversation_manager \<Rightarrow>
     (engine_error + unit) \<times> conversation_manager" where
  "clear_conversation now cid uid cm =
     (case hm_get (cm_conversations cm) cid of
        None \<Rightarrow> (Inr (), cm)
      | Some conv \<Rightarrow>
          if cs_user_id conv \<noteq> uid
          then (Inl (AccessDenied uid (''conversation '' @ show_nat cid)), cm)
          else
            let conv' = conv\<lparr>cs_active_threads := [], cs_entries := [], cs_updated_at := now\<rparr>
            in (Inr (), cm_save conv' (cm_put conv' cm)))"

definition cm_list_conversations :: "string \<Rightarrow> conversation_manager \<Rightarrow> conversation_surface list" where
  "cm_list_conversations uid cm =
     filter (\<lambda>c. cs_user_id c = uid) (hm_values (cm_conversations cm))"

section \<open>The invariant\<close>

text \<open>
  The tables of conversations are keyed by identifier, the index points to a conversation of
  the channel and the user it is filed under, and memory and store agree on both.
\<close>

definition owner_key :: "conversation_surface \<Rightarrow> string \<times> string" where
  "owner_key c = (cs_channel c, cs_user_id c)"

definition owner_of :: "(conversation_id, conversation_surface) hmap \<Rightarrow> conversation_id \<Rightarrow>
    (string \<times> string) option" where
  "owner_of m cid = map_option owner_key (hm_get m cid)"

lemma owner_of_insert [simp]:
  "owner_of (hm_insert k c m) cid = (if cid = k then Some (owner_key c) else owner_of m cid)"
  by (simp add: owner_of_def)

definition cm_inv :: "conversation_manager \<Rightarrow> bool" where
  "cm_inv cm \<longleftrightarrow>
     hm_keyed cs_id (cm_conversations cm) \<and> hm_keyed cs_id (hs_conversations (cm_store cm)) \<and>
     (\<forall>k cid. hm_get (cm_index cm) k = Some cid \<longrightarrow> owner_of (cm_conversations cm) cid = Some k) \<and>
     (\<forall>cid k k'. owner_of (cm_conversations cm) cid = Some k \<longrightarrow>
        owner_of (hs_conversations (cm_store cm)) cid = Some k' \<longrightarrow> k = k')"

lemma cm_inv_agree:
  "cm_inv cm \<Longrightarrow> owner_of (cm_conversations cm) cid = Some k \<Longrightarrow>
     owner_of (hs_conversations (cm_store cm)) cid = Some k' \<Longrightarrow> k = k'"
  unfolding cm_inv_def by blast

lemma cm_inv_index:
  "cm_inv cm \<Longrightarrow> hm_get (cm_index cm) k = Some cid \<Longrightarrow> owner_of (cm_conversations cm) cid = Some k"
  unfolding cm_inv_def by blast

text \<open>Writing a conversation whose owner and channel are those on record.\<close>

definition owner_on_record :: "conversation_surface \<Rightarrow> conversation_manager \<Rightarrow> bool" where
  "owner_on_record c cm \<longleftrightarrow>
     owner_of (cm_conversations cm) (cs_id c) \<in> {None, Some (owner_key c)} \<and>
     owner_of (hs_conversations (cm_store cm)) (cs_id c) \<in> {None, Some (owner_key c)}"

lemma cm_put_inv [invariant_intros]:
  "cm_inv cm \<Longrightarrow> owner_on_record c cm \<Longrightarrow> cm_inv (cm_put c cm)"
  by (auto simp: cm_inv_def cm_put_def owner_on_record_def)

lemma cm_save_inv [invariant_intros]:
  "cm_inv cm \<Longrightarrow> owner_on_record c cm \<Longrightarrow> cm_inv (cm_save c cm)"
  by (auto simp: cm_inv_def cm_save_def save_conversation_def owner_on_record_def)

lemma cm_index_inv:
  "cm_inv cm \<Longrightarrow> owner_of (cm_conversations cm) cid = Some k \<Longrightarrow>
     cm_inv (cm\<lparr>cm_index := hm_insert k cid (cm_index cm)\<rparr>)"
  by (simp add: cm_inv_def)

lemma owner_on_record_put [simp]:
  "owner_on_record c cm \<Longrightarrow> owner_on_record c (cm_put c cm)"
  by (simp add: owner_on_record_def cm_put_def)

lemma owner_on_record_mem:
  assumes "cm_inv cm" "hm_get (cm_conversations cm) cid = Some c"
    "cs_id c' = cs_id c" "owner_key c' = owner_key c"
  shows "owner_on_record c' cm"
proof -
  have "cs_id c = cid" using assms(1,2) by (auto simp: cm_inv_def dest: hm_keyed_get)
  moreover have "owner_of (cm_conversations cm) cid = Some (owner_key c)"
    using assms(2) by (simp add: owner_of_def)
  moreover from this have "owner_of (hs_conversations (cm_store cm)) cid \<in> {None, Some (owner_key c)}"
    using cm_inv_agree [OF assms(1), of cid "owner_key c"] by (metis insert_iff option.exhaust)
  ultimately show ?thesis using assms(3,4) by (simp add: owner_on_record_def)
qed

lemma owner_on_record_stored:
  assumes "cm_inv cm" "hm_get (hs_conversations (cm_store cm)) cid = Some c"
  shows "owner_on_record c cm"
proof -
  have "cs_id c = cid" using assms by (auto simp: cm_inv_def dest: hm_keyed_get)
  moreover have "owner_of (hs_conversations (cm_store cm)) cid = Some (owner_key c)"
    using assms(2) by (simp add: owner_of_def)
  moreover from this have "owner_of (cm_conversations cm) cid \<in> {None, Some (owner_key c)}"
    using cm_inv_agree [OF assms(1), of cid _ "owner_key c"] by (metis insert_iff option.exhaust)
  ultimately show ?thesis by (simp add: owner_on_record_def)
qed

text \<open>The engine's threads do not matter for the invariant, as long as conversations are kept.\<close>

lemma cm_inv_threads:
  "cm_inv cm \<Longrightarrow> hs_conversations (mg_store mg) = hs_conversations (cm_store cm) \<Longrightarrow>
     cm_inv (cm\<lparr>cm_threads := mg\<rparr>)"
  by (simp add: cm_inv_def)

lemma save_thread_conversations [simp]:
  "hs_conversations (save_thread th s) = hs_conversations s"
  "hs_conversations (snd (load_thread tid s)) = hs_conversations s"
  "hs_conversations (append_events es s) = hs_conversations s"
  "hs_conversations (save_lease l s) = hs_conversations s"
  by (auto simp: save_thread_def persist_thread_def load_thread_def append_events_def save_lease_def
      split: option.splits)

lemma fold_save_lease_conversations [simp]:
  "hs_conversations (fold save_lease ls s) = hs_conversations s"
  by (induction ls arbitrary: s) auto

lemma load_conversations: "load_thread tid s = (r, s') \<Longrightarrow> hs_conversations s' = hs_conversations s"
  using save_thread_conversations(2) [of tid s] by simp

lemma list_conversations_get:
  assumes "cm_inv cm" "c \<in> set (list_conversations uid (cm_store cm))"
  shows "hm_get (hs_conversations (cm_store cm)) (cs_id c) = Some c \<and> cs_user_id c = uid"
  using assms hm_keyed_mem [of cs_id "hs_conversations (cm_store cm)" c]
  by (auto simp: list_conversations_def cm_inv_def)

lemma outcome_entry_owner [simp]:
  "cs_id (outcome_entry nid now tid out c) = cs_id c"
  "owner_key (outcome_entry nid now tid out c) = owner_key c"
  by (auto simp: outcome_entry_def untrack_thread_def add_entry_def owner_key_def
      split: thread_outcome.splits option.splits)

lemma record_thread_outcome_inv [invariant_intros]:
  assumes "cm_inv cm"
  shows "cm_inv (record_thread_outcome nid now cid tid out cm)"
proof (cases "hm_get (cm_conversations cm) cid")
  case (Some c)
  from owner_on_record_mem [OF assms Some, of "outcome_entry nid now tid out c"] assms Some
  show ?thesis by (simp add: record_thread_outcome_def Let_def cm_save_inv cm_put_inv)
qed (simp add: record_thread_outcome_def assms)

lemma clear_conversation_inv [invariant_intros]:
  assumes "cm_inv cm"
  shows "cm_inv (snd (clear_conversation now cid uid cm))"
proof (cases "hm_get (cm_conversations cm) cid")
  case (Some c)
  from owner_on_record_mem [OF assms Some,
      of "c\<lparr>cs_active_threads := [], cs_entries := [], cs_updated_at := now\<rparr>"] assms Some
  show ?thesis
    by (simp add: clear_conversation_def Let_def cm_save_inv cm_put_inv owner_key_def)
qed (simp add: clear_conversation_def assms)

lemma index_all_inv:
  "cm_inv cm \<Longrightarrow> set cs \<subseteq> set (list_conversations uid (cm_store cm)) \<Longrightarrow> cm_inv (index_all cs cm)"
proof (induction cs arbitrary: cm)
  case (Cons c cs)
  have c: "hm_get (hs_conversations (cm_store cm)) (cs_id c) = Some c"
    using list_conversations_get [OF Cons.prems(1)] Cons.prems(2) by auto
  have "cm_inv (cm_put c cm)"
    by (rule cm_put_inv [OF Cons.prems(1) owner_on_record_stored [OF Cons.prems(1) c]])
  then have "cm_inv ((cm_put c cm)\<lparr>cm_index := hm_insert (cs_channel c, cs_user_id c) (cs_id c) (cm_index cm)\<rparr>)"
    using cm_index_inv [of "cm_put c cm" "cs_id c"] by (simp add: cm_put_def owner_key_def)
  moreover have "(cm_put c cm)\<lparr>cm_index := x\<rparr> = cm_put c (cm\<lparr>cm_index := x\<rparr>)" for x
    by (simp add: cm_put_def)
  ultimately show ?case
    using Cons.prems(2) by (simp add: Cons.IH) (simp add: cm_put_def Cons.IH)
qed simp

lemma get_or_create_owner:
  assumes inv: "cm_inv cm" and fresh: "owner_of (cm_conversations cm) fresh = None"
      "owner_of (hs_conversations (cm_store cm)) fresh = None"
    and goc: "get_or_create_conversation fresh now ch u cm = (cid, cm')"
  shows "cm_inv cm' \<and> owner_of (cm_conversations cm') cid = Some (ch, u) \<and>
    hm_get (cm_index cm') (ch, u) = Some cid"
proof (cases "hm_get (cm_index cm) (ch, u)")
  case (Some i)
  with goc inv cm_inv_index [OF inv Some] show ?thesis
    by (auto simp: get_or_create_conversation_def)
next
  case None
  note idx = None
  show ?thesis
  proof (cases "find (\<lambda>c. cs_channel c = ch) (list_conversations u (cm_store cm))")
    case (Some c)
    then have c: "hm_get (hs_conversations (cm_store cm)) (cs_id c) = Some c" "owner_key c = (ch, u)"
      using list_conversations_get [OF inv] find_Some_iff2 [OF Some] by (auto simp: owner_key_def)
    have put: "cm_inv (cm_put c cm)"
      by (rule cm_put_inv [OF inv owner_on_record_stored [OF inv c(1)]])
    with cm_index_inv [OF put, of "cs_id c" "(ch, u)"] c(2) idx Some goc show ?thesis
      by (auto simp: get_or_create_conversation_def cm_put_def)
  next
    case None
    let ?c = "new_conversation fresh now ch u"
    have rec: "owner_on_record ?c cm"
      using fresh by (simp add: owner_on_record_def new_conversation_def)
    have put: "cm_inv (cm_put ?c cm)" by (rule cm_put_inv [OF inv rec])
    let ?cm = "(cm_put ?c cm)\<lparr>cm_index := hm_insert (ch, u) fresh (cm_index cm)\<rparr>"
    have own: "owner_of (cm_conversations (cm_put ?c cm)) fresh = Some (ch, u)"
      by (simp add: cm_put_def new_conversation_def owner_key_def)
    have "cm_inv ?cm"
      using cm_index_inv [OF put own] by (simp add: cm_put_def)
    moreover have "owner_on_record ?c ?cm"
      using fresh by (simp add: owner_on_record_def cm_put_def new_conversation_def)
    ultimately have "cm_inv (cm_save ?c ?cm)" by (rule cm_save_inv)
    with own idx None goc show ?thesis
      by (auto simp: get_or_create_conversation_def Let_def cm_save_def cm_put_def)
  qed
qed

text \<open>The threads that \<open>handle_user_message\<close> starts.\<close>

lemma spawn_thread_with_history_eq:
  assumes "parent = None"
  shows "\<exists>ls th. spawn_thread_with_history tid fresh eid now goal tt pid cfg parent uid initial mg =
      (Inr tid, mg\<lparr>mg_leases := insert_children ls (mg_leases mg),
         mg_store := save_thread th (fold save_lease ls (mg_store mg)),
         mg_running := hm_insert tid \<lparr>rt_mailbox = [], rt_thread = th, rt_finished = None\<rparr> (mg_running mg)\<rparr>)
    \<and> th_id th = tid \<and> th_user_id th = uid \<and> th_metadata th = JObject [] \<and>
      th_messages th = initial @ [msg_user now goal]"
proof -
  let ?ls = "planned_leases fresh 0 now tid (plan_for_thread tt (mg_capabilities mg))"
  let ?th = "add_message eid now (msg_user now goal)
    ((new_thread tid now goal tt pid uid cfg)\<lparr>th_capability_leases := map ls_id ?ls, th_messages := initial\<rparr>)"
  show ?thesis
    using assms
    by (intro exI [of _ ?ls] exI [of _ ?th])
      (simp add: spawn_thread_with_history_def grant_plans_total Let_def start_thread_def, simp add: new_thread_def)
qed

lemma load_after_save: "th_id th = tid \<Longrightarrow> load_thread tid (save_thread th s) = (Some th, save_thread th s)"
  by (auto simp: load_thread_def save_thread_def persist_thread_def split: option.splits)

lemma lookup_save_conversation [simp]: "hs_lookup (save_conversation c s) i = hs_lookup s i"
  by (simp add: hs_lookup_alt save_conversation_def split: option.splits)

lemma finish_task_stored:
  assumes "th_id th = tid"
  shows "\<exists>th'. hs_lookup (mg_store (finish_task eid now tid th result mg)) tid = Some th' \<and>
    th_metadata th' = th_metadata th"
proof -
  define th2 where "th2 = (if th_state th = ThCompleted
      then (case transition_to eid now ThDone None th of Inr t \<Rightarrow> t | Inl _ \<Rightarrow> th) else th)"
  have th2: "th_id th2 = tid" "th_metadata th2 = th_metadata th"
    using assms by (auto simp: th2_def transition_to_Inr split: sum.splits)
  have "mg_store (finish_task eid now tid th result mg) =
      save_thread th2 (append_events (th_events th2) (mg_store mg))"
    by (simp add: finish_task_def Let_def th2_def)
  with th2 show ?thesis by (simp add: hs.lookup_save)
qed

section \<open>Properties\<close>

text \<open>
  A conversation belongs to one user and channel: whatever is asked for, the conversation
  that \<open>get_or_create_conversation\<close> returns is the caller's, on the channel that was asked for,
  and the next call for the same pair returns it again.
\<close>

lemma conversation_of_caller:
  assumes "cm_inv cm" "owner_of (cm_conversations cm) fresh = None"
      "owner_of (hs_conversations (cm_store cm)) fresh = None"
    and "get_or_create_conversation fresh now ch u cm = (cid, cm')"
  shows "cm_inv cm' \<and> owner_of (cm_conversations cm') cid = Some (ch, u) \<and>
    get_or_create_conversation fresh' now' ch u cm' = (cid, cm')"
  using get_or_create_owner [OF assms] by (simp add: get_or_create_conversation_def)

lemma conversation_of_caller_witness:
  "\<exists>cm'. get_or_create_conversation 3 0 ''web'' ''alice''
       \<lparr>cm_threads = sample_manager [] [], cm_conversations = [], cm_index = []\<rparr> = (3, cm') \<and>
     owner_of (cm_conversations cm') 3 = Some (''web'', ''alice'')"
proof -
  let ?cm = "\<lparr>cm_threads = sample_manager [] [], cm_conversations = [], cm_index = []\<rparr>"
  have "cm_inv ?cm"
    by (simp add: cm_inv_def sample_manager_def new_store_def owner_of_def)
  moreover obtain cm' where "get_or_create_conversation 3 0 ''web'' ''alice'' ?cm = (3, cm')"
    by (simp add: get_or_create_conversation_def list_conversations_def sample_manager_def new_store_def Let_def)
  ultimately show ?thesis
    using conversation_of_caller [of ?cm 3 0 "''web''" "''alice''" 3 cm']
    by (simp add: owner_of_def sample_manager_def new_store_def)
qed

text \<open>
  A user who does not own a conversation can neither speak in it nor clear it: both calls
  are refused and leave every component as it was.
\<close>

lemma foreign_conversation_untouched:
  assumes "owner_of (cm_conversations cm) cid = Some (ch, u)" "u \<noteq> uid"
  shows "handle_user_message tid fresh eid nid nid' now cid content pid uid cfg cm =
      Some (Inl (AccessDenied uid (''conversation '' @ show_nat cid)), cm) \<and>
    clear_conversation now cid uid cm =
      (Inl (AccessDenied uid (''conversation '' @ show_nat cid)), cm)"
  using assms
  by (auto simp: owner_of_def owner_key_def handle_user_message_def clear_conversation_def)

lemma foreign_conversation_untouched_witness:
  "\<exists>e. clear_conversation 9 3 ''bob'' \<lparr>cm_threads = sample_manager [] [],
      cm_conversations = [(3, new_conversation 3 0 ''web'' ''alice'')], cm_index = []\<rparr> =
    (Inl e, \<lparr>cm_threads = sample_manager [] [],
      cm_conversations = [(3, new_conversation 3 0 ''web'' ''alice'')], cm_index = []\<rparr>)"
  using foreign_conversation_untouched [of "\<lparr>cm_threads = sample_manager [] [],
      cm_conversations = [(3, new_conversation 3 0 ''web'' ''alice'')], cm_index = []\<rparr>" 3 "''web''"
      "''alice''" "''bob''"]
  by (simp add: owner_of_def owner_key_def new_conversation_def)

text \<open>
  A message that starts a thread: the thread runs with the earlier messages of the user
  and the agent, in order, followed by the new one, and the conversation tracks it. The
  channel that is then written to the thread's metadata reaches the stored copy only: the copy
  that the execution loop owns has no \<open>source_channel\<close>, and when the loop ends with the
  metadata it was given, the stored value is gone too.
\<close>

lemma first_message_starts_thread:
  assumes conv: "hm_get (cm_conversations cm) cid = Some conv" and own: "cs_user_id conv = uid"
    and none: "cs_active_threads conv = []"
  shows "\<exists>cm' rt th. handle_user_message tid fresh eid nid nid' now cid content pid uid cfg cm = Some (Inr tid, cm') \<and>
    hm_get (mg_running (cm_threads cm')) tid = Some rt \<and>
    th_messages (rt_thread rt) =
      (if cs_entries conv = [] then [] else List.map_filter (entry_message now) (cs_entries conv))
        @ [msg_user now content] \<and>
    json_get ''source_channel'' (th_metadata (rt_thread rt)) = None \<and>
    hs_lookup (cm_store cm') tid = Some th \<and>
    json_get ''source_channel'' (th_metadata th) = Some (JString (base_channel (cs_channel conv))) \<and>
    (\<forall>end_th result. th_id end_th = tid \<longrightarrow> th_metadata end_th = th_metadata (rt_thread rt) \<longrightarrow>
       (\<exists>th'. hs_lookup (mg_store (finish_task eid now tid end_th result (cm_threads cm'))) tid = Some th' \<and>
          json_get ''source_channel'' (th_metadata th') = None))"
proof -
  let ?conv = "add_entry now (entry_user nid now content) conv"
  let ?cm1 = "(cm_put ?conv cm)\<lparr>cm_threads := cm_threads cm\<rparr>"
  let ?h = "build_history_from_entries now (cs_entries ?conv)"
  obtain ls th where sp: "spawn_thread_with_history tid fresh eid now content Foreground pid cfg None uid ?h
      (cm_threads cm) = (Inr tid, (cm_threads cm)\<lparr>mg_leases := insert_children ls (mg_leases (cm_threads cm)),
         mg_store := save_thread th (fold save_lease ls (cm_store cm)),
         mg_running := hm_insert tid \<lparr>rt_mailbox = [], rt_thread = th, rt_finished = None\<rparr>
           (mg_running (cm_threads cm))\<rparr>)"
    and th: "th_id th = tid" "th_metadata th = JObject []" "th_messages th = ?h @ [msg_user now content]"
    using spawn_thread_with_history_eq [OF refl] by blast
  have h: "?h = (if cs_entries conv = [] then [] else List.map_filter (entry_message now) (cs_entries conv))"
    by (simp add: build_history_from_entries_def add_entry_def)
  define mg0 where "mg0 = (cm_threads cm)\<lparr>mg_leases := insert_children ls (mg_leases (cm_threads cm)),
      mg_store := save_thread th (fold save_lease ls (cm_store cm)),
      mg_running := hm_insert tid \<lparr>rt_mailbox = [], rt_thread = th, rt_finished = None\<rparr>
        (mg_running (cm_threads cm))\<rparr>"
  define mg where "mg = set_thread_metadata tid ''source_channel'' (base_channel (cs_channel conv)) mg0"
  let ?th = "th\<lparr>th_metadata := JObject [(''source_channel'', JString (base_channel (cs_channel conv)))]\<rparr>"
  have "mg_store mg0 = save_thread th (fold save_lease ls (cm_store cm))" by (simp add: mg0_def)
  with th(1,2) have mg: "mg_store mg = save_thread ?th (mg_store mg0)" "mg_running mg = mg_running mg0"
    by (simp_all add: mg_def set_thread_metadata_def load_after_save json_insert_key_def)
  define conv' where "conv' = add_entry now (entry_system_for_thread nid' now tid ''Thread started'')
      (track_thread tid ?conv)"
  have hm: "handle_user_message tid fresh eid nid nid' now cid content pid uid cfg cm =
      Some (Inr tid, cm_save conv' (cm_put conv' (?cm1\<lparr>cm_threads := mg\<rparr>)))"
    using conv own none sp [folded mg0_def]
    by (simp add: handle_user_message_def route_spawn_def add_entry_def cm_put_def Let_def mg_def conv'_def)
  let ?cm' = "cm_save conv' (cm_put conv' (?cm1\<lparr>cm_threads := mg\<rparr>))"
  let ?rt = "\<lparr>rt_mailbox = [], rt_thread = th, rt_finished = None\<rparr>"
  have "hs_lookup (cm_store ?cm') tid = Some ?th"
    using th(1) mg(1) by (simp add: cm_save_def cm_put_def hs.lookup_save)
  moreover have "hm_get (mg_running (cm_threads ?cm')) tid = Some ?rt"
    by (simp add: cm_save_def cm_put_def mg(2) mg0_def)
  moreover have "\<exists>th'. hs_lookup (mg_store (finish_task eid now tid e r (cm_threads ?cm'))) tid = Some th' \<and>
      json_get ''source_channel'' (th_metadata th') = None"
    if "th_id e = tid" "th_metadata e = th_metadata th" for e r
    using finish_task_stored [OF that(1), of eid now r "cm_threads ?cm'"] that(2) th(2)
    by (auto simp: json_get_def)
  ultimately show ?thesis
    unfolding hm using th h
    by (intro exI [of _ ?cm'] exI [of _ ?rt] exI [of _ ?th]) (simp add: json_get_def)
qed

lemma first_message_starts_thread_witness:
  "\<exists>cm' rt. handle_user_message 1 (\<lambda>n. n) 0 0 1 9 3 ''hi'' 5 ''alice'' default_thread_config
      \<lparr>cm_threads = sample_manager [] [],
       cm_conversations = [(3, new_conversation 3 0 ''web:42'' ''alice'')], cm_index = []\<rparr> = Some (Inr 1, cm') \<and>
    hm_get (mg_running (cm_threads cm')) 1 = Some rt \<and>
    th_messages (rt_thread rt) = [msg_user 9 ''hi''] \<and>
    json_get ''source_channel'' (th_metadata (rt_thread rt)) = None"
proof -
  let ?conv = "new_conversation 3 0 ''web:42'' ''alice''"
  let ?cm = "\<lparr>cm_threads = sample_manager [] [], cm_conversations = [(3, ?conv)], cm_index = []\<rparr>"
  have "hm_get (cm_conversations ?cm) 3 = Some ?conv" "cs_user_id ?conv = ''alice''"
    "cs_active_threads ?conv = []" "cs_entries ?conv = []"
    by (simp_all add: new_conversation_def)
  with first_message_starts_thread [of ?cm 3 ?conv "''alice''" 1 "\<lambda>n. n" 0 0 1 9 "''hi''" 5
      default_thread_config]
  show ?thesis by fastforce
qed

end
