(* ===== verification/Llm_Types.thy ===== *)
theory Llm_Types
  imports Prelude
begin

text \<open>
  The messages and errors of the LLM layer (\<open>src/llm/provider.rs\<close>, \<open>src/llm/error.rs\<close>) and
  the generator of tool call identifiers.
\<close>

section \<open>Messages\<close>

datatype chat_role = ChatSystem | ChatUser | ChatAssistant | ChatTool

record image_url =
  iu_url :: string
  iu_detail :: "string option"

datatype content_part = PartText string | PartImageUrl image_url

record tool_call =
  tcall_id :: string
  tcall_name :: string
  tcall_arguments :: json
  tcall_reasoning :: "string option"

record chat_message =
  cm_role :: chat_role
  cm_content :: string
  cm_content_parts :: "content_part list"
  cm_tool_call_id :: "string option"
  cm_name :: "string option"
  cm_tool_calls :: "tool_call list option"

definition chat_system :: "string \<Rightarrow> chat_message" where
  "chat_system content =
     \<lparr>cm_role = ChatSystem, cm_content = content, cm_content_parts = [], cm_tool_call_id = None,
      cm_name = None, cm_tool_calls = None\<rparr>"

definition chat_user :: "string \<Rightarrow> chat_message" where
  "chat_user content =
     \<lparr>cm_role = ChatUser, cm_content = content, cm_content_parts = [], cm_tool_call_id = None,
      cm_name = None, cm_tool_calls = None\<rparr>"

definition chat_user_with_parts :: "string \<Rightarrow> content_part list \<Rightarrow> chat_message" where
  "chat_user_with_parts content parts =
     \<lparr>cm_role = ChatUser, cm_content = content, cm_content_parts = parts, cm_tool_call_id = None,
      cm_name = None, cm_tool_calls = None\<rparr>"

definition chat_assistant :: "string \<Rightarrow> chat_message" where
  "chat_assistant content =
     \<lparr>cm_role = ChatAssistant, cm_content = content, cm_content_parts = [], cm_tool_call_id = None,
      cm_name = None, cm_tool_calls = None\<rparr>"

definition chat_assistant_with_tool_calls :: "string option \<Rightarrow> tool_call list \<Rightarrow> chat_message" where
  "chat_assistant_with_tool_calls content calls =
     \<lparr>cm_role = ChatAssistant, cm_content = (case content of Some c \<Rightarrow> c | None \<Rightarrow> []),
      cm_content_parts = [], cm_tool_call_id = None, cm_name = None,
      cm_tool_calls = (if calls = [] then None else Some calls)\<rparr>"

definition chat_tool_result :: "string \<Rightarrow> string \<Rightarrow> string \<Rightarrow> chat_message" where
  "chat_tool_result tool_call_id name content =
     \<lparr>cm_role = ChatTool, cm_content = content, cm_content_parts = [],
      cm_tool_call_id = Some tool_call_id, cm_name = Some name, cm_tool_calls = None\<rparr>"

section \<open>Errors\<close>

text \<open>The payloads of the last three are opaque errors of other libraries.\<close>

datatype llm_error =
    RequestFailed string string
  | RateLimited string "nat option"
  | InvalidResponse string string
  | ContextLengthExceeded nat nat
  | ModelNotAvailable string string
  | AuthFailed string
  | SessionExpired string
  | SessionRenewalFailed string string
  | HttpErr string
  | JsonErr string
  | IoErr string

section \<open>Identifiers of tool calls\<close>

definition base62_digit :: "nat \<Rightarrow> char" where
  "base62_digit d =
     (if d \<le> 9 then char_of (48 + d) else if d \<le> 35 then char_of (97 + (d - 10))
      else char_of (65 + (d - 36)))"

text \<open>The loop fills the buffer from its last place.\<close>

fun base62_fill :: "nat \<Rightarrow> u64 \<Rightarrow> string" where
  "base62_fill 0 val = []"
| "base62_fill (Suc n) val =
     base62_fill n (val div 62) @ [base62_digit (unat (val mod 62))]"

definition generate_tool_call_id :: "u64 \<Rightarrow> u64 \<Rightarrow> string" where
  "generate_tool_call_id seed_a seed_b =
     (let combined = seed_a * 6364136223846793005 + seed_b in base62_fill 9 combined)"

definition base62_value :: "char \<Rightarrow> nat" where
  "base62_value c =
     (let n = of_char c in
      if 48 \<le> n \<and> n \<le> 57 then n - 48 else if 97 \<le> n \<and> n \<le> 122 then n - 97 + 10 else n - 65 + 36)"

definition base62_decode :: "string \<Rightarrow> nat" where
  "base62_decode s = foldl (\<lambda>a c. a * 62 + base62_value c) 0 s"

definition is_alnum :: "char \<Rightarrow> bool" where
  "is_alnum c \<longleftrightarrow> (let n = of_char c :: nat in
     48 \<le> n \<and> n \<le> 57 \<or> 97 \<le> n \<and> n \<le> 122 \<or> 65 \<le> n \<and> n \<le> 90)"

lemma base62_digit_ok:
  "d < 62 \<Longrightarrow> base62_value (base62_digit d) = d \<and> is_alnum (base62_digit d)"
  by (auto simp: base62_value_def base62_digit_def is_alnum_def Let_def)

lemma base62_fill_spec:
  "length (base62_fill n v) = n \<and> list_all is_alnum (base62_fill n v) \<and>
   base62_decode (base62_fill n v) = unat v mod 62 ^ n"
proof (induction n arbitrary: v)
  case (Suc n)
  have m: "unat (v mod 62) = unat v mod 62" by (simp add: unat_mod)
  then have d: "unat (v mod 62) < 62" by simp
  have q: "unat (v div 62) = unat v div 62" by (simp add: unat_div)
  have "unat v mod 62 ^ Suc n = (unat v div 62) mod 62 ^ n * 62 + unat v mod 62"
    by (simp add: mod_mult2_eq mult.commute)
  with Suc.IH [of "v div 62"] base62_digit_ok [OF d] m q show ?case
    by (simp add: base62_decode_def)
qed (simp add: base62_decode_def)

section \<open>Properties\<close>

text \<open>
  Every identifier of a tool call is nine letters or digits, and it determines the mixed
  seed modulo \<open>62 ^ 9\<close>: two calls get the same identifier only if their mixed seeds agree
  modulo that number.
\<close>

lemma tool_call_id_spec:
  "length (generate_tool_call_id a b) = 9 \<and> list_all is_alnum (generate_tool_call_id a b) \<and>
   base62_decode (generate_tool_call_id a b) = unat (a * 6364136223846793005 + b) mod 62 ^ 9"
  using base62_fill_spec [of 9 "a * 6364136223846793005 + b"]
  by (simp add: generate_tool_call_id_def Let_def)

end
