(* ===== verification/Job_Context.thy ===== *)
theory Job_Context
  imports Llm_Types
begin

text \<open>
  Jobs (\<open>src/context\<close>): the job state machine with its bounded log of transitions
  (\<open>state.rs\<close>), the memory of a job (\<open>memory.rs\<close>) and the manager that bounds how many jobs run
  in parallel (\<open>manager.rs\<close>). A \<open>Decimal\<close> is a rational number. The job's log is the second
  instance of the locale \<open>logged_machine\<close>.
\<close>

section \<open>The state machine (state.rs)\<close>

datatype job_state =
    JPending | JInProgress | JCompleted | JSubmitted | JAccepted | JFailed | JStuck | JCancelled

definition job_can_transition :: "job_state \<Rightarrow> job_state \<Rightarrow> bool" where
  "job_can_transition self target =
     (if self = JCompleted \<and> target = JCompleted then True
      else case (self, target) of
        (JPending, JInProgress) \<Rightarrow> True
      | (JPending, JCancelled) \<Rightarrow> True
      | (JInProgress, JCompleted) \<Rightarrow> True
      | (JInProgress, JFailed) \<Rightarrow> True
      | (JInProgress, JStuck) \<Rightarrow> True
      | (JInProgress, JCancelled) \<Rightarrow> True
      | (JCompleted, JSubmitted) \<Rightarrow> True
      | (JCompleted, JFailed) \<Rightarrow> True
      | (JSubmitted, JAccepted) \<Rightarrow> True
      | (JSubmitted, JFailed) \<Rightarrow> True
      | (JStuck, JInProgress) \<Rightarrow> True
      | (JStuck, JFailed) \<Rightarrow> True
      | (JStuck, JCancelled) \<Rightarrow> True
      | _ \<Rightarrow> False)"

fun job_is_terminal :: "job_state \<Rightarrow> bool" where
  "job_is_terminal JAccepted = True"
| "job_is_terminal JFailed = True"
| "job_is_terminal JCancelled = True"
| "job_is_terminal _ = False"

definition job_is_active :: "job_state \<Rightarrow> bool" where
  "job_is_active s \<longleftrightarrow> \<not> job_is_terminal s"

fun is_parallel_blocking :: "job_state \<Rightarrow> bool" where
  "is_parallel_blocking JPending = True"
| "is_parallel_blocking JInProgress = True"
| "is_parallel_blocking JStuck = True"
| "is_parallel_blocking _ = False"

fun job_state_display :: "job_state \<Rightarrow> string" where
  "job_state_display JPending = ''pending''"
| "job_state_display JInProgress = ''in_progress''"
| "job_state_display JCompleted = ''completed''"
| "job_state_display JSubmitted = ''submitted''"
| "job_state_display JAccepted = ''accepted''"
| "job_state_display JFailed = ''failed''"
| "job_state_display JStuck = ''stuck''"
| "job_state_display JCancelled = ''cancelled''"

record state_transition =
  sx_from :: job_state
  sx_to :: job_state
  sx_timestamp :: time
  sx_reason :: "string option"

text \<open>The HTTP interceptor is an opaque handle; the stash of outputs is a table.\<close>

record job_context =
  jc_job_id :: uuid
  jc_state :: job_state
  jc_user_id :: string
  jc_vision_service_url :: "string option"
  jc_requester_id :: "string option"
  jc_conversation_id :: "uuid option"
  jc_title :: string
  jc_description :: string
  jc_category :: "string option"
  jc_budget :: "rat option"
  jc_budget_token :: "string option"
  jc_bid_amount :: "rat option"
  jc_estimated_cost :: "rat option"
  jc_estimated_duration :: "nat option"
  jc_actual_cost :: rat
  jc_total_tokens_used :: u64
  jc_max_tokens :: u64
  jc_created_at :: time
  jc_started_at :: "time option"
  jc_completed_at :: "time option"
  jc_repair_attempts :: u32
  jc_transitions :: "state_transition list"
  jc_metadata :: json
  jc_extra_env :: "(string, string) hmap"
  jc_http_interceptor :: "uuid option"
  jc_tool_output_stash :: "(string, string) hmap"
  jc_user_timezone :: string

definition job_with_user ::
    "uuid \<Rightarrow> time \<Rightarrow> string option \<Rightarrow> string \<Rightarrow> string \<Rightarrow> string \<Rightarrow> job_context" where
  "job_with_user jid now vision user_id title description =
     \<lparr>jc_job_id = jid, jc_state = JPending, jc_user_id = user_id, jc_vision_service_url = vision,
      jc_requester_id = None, jc_conversation_id = None, jc_title = title,
      jc_description = description, jc_category = None, jc_budget = None, jc_budget_token = None,
      jc_bid_amount = None, jc_estimated_cost = None, jc_estimated_duration = None,
      jc_actual_cost = 0, jc_total_tokens_used = 0, jc_max_tokens = 0, jc_created_at = now,
      jc_started_at = None, jc_completed_at = None, jc_repair_attempts = 0, jc_transitions = [],
      jc_metadata = JNull, jc_extra_env = [], jc_http_interceptor = None,
      jc_tool_output_stash = [], jc_user_timezone = ''UTC''\<rparr>"

definition MAX_TRANSITIONS :: nat where
  "MAX_TRANSITIONS = 200"

definition job_transition_to ::
    "time \<Rightarrow> job_state \<Rightarrow> string option \<Rightarrow> job_context \<Rightarrow> string + job_context" where
  "job_transition_to now new_state reason c =
     (if \<not> job_can_transition (jc_state c) new_state
      then Inl (''Cannot transition from '' @ job_state_display (jc_state c) @ '' to ''
             @ job_state_display new_state)
      else if jc_state c = new_state then Inr c
      else
        let ts = jc_transitions c @
              [\<lparr>sx_from = jc_state c, sx_to = new_state, sx_timestamp = now, sx_reason = reason\<rparr>];
            ts' = (if length ts > MAX_TRANSITIONS then drop (length ts - MAX_TRANSITIONS) ts else ts);
            c1 = c\<lparr>jc_transitions := ts', jc_state := new_state\<rparr>
        in Inr (if new_state = JInProgress \<and> jc_started_at c1 = None
                then c1\<lparr>jc_started_at := Some now\<rparr>
                else if new_state = JCompleted \<or> new_state = JAccepted \<or> new_state = JFailed
                        \<or> new_state = JCancelled
                then c1\<lparr>jc_completed_at := Some now\<rparr>
                else c1))"

definition add_cost :: "rat \<Rightarrow> job_context \<Rightarrow> job_context" where
  "add_cost cost c = c\<lparr>jc_actual_cost := jc_actual_cost c + cost\<rparr>"

text \<open>The budget error carries the tokens used and the limit; the addition is on 64 bits.\<close>

definition add_tokens :: "u64 \<Rightarrow> job_context \<Rightarrow> (u64 \<times> u64 + unit) \<times> job_context" where
  "add_tokens tokens c =
     (let c1 = c\<lparr>jc_total_tokens_used := jc_total_tokens_used c + tokens\<rparr>
      in (if jc_max_tokens c1 > 0 \<and> jc_total_tokens_used c1 > jc_max_tokens c1
          then Inl (jc_total_tokens_used c1, jc_max_tokens c1) else Inr (), c1))"

definition budget_exceeded :: "job_context \<Rightarrow> bool" where
  "budget_exceeded c = (case jc_budget c of Some b \<Rightarrow> jc_actual_cost c > b | None \<Rightarrow> False)"

definition elapsed :: "time \<Rightarrow> job_context \<Rightarrow> nat option" where
  "elapsed now c =
     map_option (\<lambda>start.
       let end_time = (case jc_completed_at c of Some e \<Rightarrow> e | None \<Rightarrow> now)
       in nat (max 0 ((end_time - start) div 1000000000))) (jc_started_at c)"

definition mark_stuck :: "time \<Rightarrow> string \<Rightarrow> job_context \<Rightarrow> string + job_context" where
  "mark_stuck now reason c = job_transition_to now JStuck (Some reason) c"

definition attempt_recovery :: "time \<Rightarrow> job_context \<Rightarrow> string + job_context" where
  "attempt_recovery now c =
     (if jc_state c \<noteq> JStuck then Inl ''Job is not stuck''
      else job_transition_to now JInProgress (Some ''Recovery attempt'')
             (c\<lparr>jc_repair_attempts := jc_repair_attempts c + 1\<rparr>))"

section \<open>The memory of a job (memory.rs)\<close>

record action_record =
  arec_id :: uuid
  arec_sequence :: u32
  arec_tool_name :: string
  arec_input :: json
  arec_output_raw :: "string option"
  arec_output_sanitized :: "json option"
  arec_sanitization_warnings :: "string list"
  arec_cost :: "rat option"
  arec_duration :: nat
  arec_success :: bool
  arec_error :: "string option"
  arec_executed_at :: time

definition new_action :: "uuid \<Rightarrow> time \<Rightarrow> u32 \<Rightarrow> string \<Rightarrow> json \<Rightarrow> action_record" where
  "new_action aid now seq tool_name input =
     \<lparr>arec_id = aid, arec_sequence = seq, arec_tool_name = tool_name, arec_input = input,
      arec_output_raw = None, arec_output_sanitized = None, arec_sanitization_warnings = [],
      arec_cost = None, arec_duration = 0, arec_success = False, arec_error = None,
      arec_executed_at = now\<rparr>"

text \<open>\<open>pretty\<close> is \<open>serde_json::to_string_pretty\<close>, which never fails on a JSON value.\<close>

definition action_succeed ::
    "(json \<Rightarrow> string) \<Rightarrow> string option \<Rightarrow> json \<Rightarrow> nat \<Rightarrow> action_record \<Rightarrow> action_record" where
  "action_succeed pretty output_sanitized output_raw duration a =
     a\<lparr>arec_success := True, arec_output_raw := Some (pretty output_raw),
       arec_output_sanitized := map_option JString output_sanitized, arec_duration := duration\<rparr>"

definition action_fail :: "string \<Rightarrow> nat \<Rightarrow> action_record \<Rightarrow> action_record" where
  "action_fail err duration a =
     a\<lparr>arec_success := False, arec_error := Some err, arec_duration := duration\<rparr>"

definition action_with_cost :: "rat \<Rightarrow> action_record \<Rightarrow> action_record" where
  "action_with_cost cost a = a\<lparr>arec_cost := Some cost\<rparr>"

record conversation_memory =
  mem_messages :: "chat_message list"
  mem_max_messages :: nat

text \<open>The trimming loop of \<open>add\<close>.\<close>

function trim_messages :: "nat \<Rightarrow> chat_message list \<Rightarrow> chat_message list" where
  "trim_messages max_messages ms =
     (if length ms \<le> max_messages then ms
      else case ms of
        [] \<Rightarrow> []
      | m # rest \<Rightarrow>
          if cm_role m = ChatSystem
          then (if length ms > 1 then trim_messages max_messages (m # drop 1 rest) else ms)
          else trim_messages max_messages rest)"
  by pat_completeness auto
termination
  by (relation "measure (\<lambda>(n, ms). length ms)") auto

declare trim_messages.simps [simp del]

definition memory_add :: "chat_message \<Rightarrow> conversation_memory \<Rightarrow> conversation_memory" where
  "memory_add m cm = cm\<lparr>mem_messages := trim_messages (mem_max_messages cm) (mem_messages cm @ [m])\<rparr>"

definition memory_last_n :: "nat \<Rightarrow> conversation_memory \<Rightarrow> chat_message list" where
  "memory_last_n n cm = drop (length (mem_messages cm) - n) (mem_messages cm)"

record job_memory =
  jm_job_id :: uuid
  jm_conversation :: conversation_memory
  jm_actions :: "action_record list"
  jm_next_sequence :: u32

definition new_memory :: "uuid \<Rightarrow> job_memory" where
  "new_memory jid =
     \<lparr>jm_job_id = jid, jm_conversation = \<lparr>mem_messages = [], mem_max_messages = 100\<rparr>,
      jm_actions = [], jm_next_sequence = 0\<rparr>"

definition create_action ::
    "uuid \<Rightarrow> time \<Rightarrow> string \<Rightarrow> json \<Rightarrow> job_memory \<Rightarrow> action_record \<times> job_memory" where
  "create_action aid now tool_name input m =
     (new_action aid now (jm_next_sequence m) tool_name input,
      m\<lparr>jm_next_sequence := jm_next_sequence m + 1\<rparr>)"

definition record_action :: "action_record \<Rightarrow> job_memory \<Rightarrow> job_memory" where
  "record_action a m = m\<lparr>jm_actions := jm_actions m @ [a]\<rparr>"

definition total_cost :: "job_memory \<Rightarrow> rat" where
  "total_cost m = fold (\<lambda>c acc. acc + c) (List.map_filter arec_cost (jm_actions m)) 0"

definition total_duration :: "job_memory \<Rightarrow> nat" where
  "total_duration m = fold (\<lambda>d acc. acc + d) (map arec_duration (jm_actions m)) 0"

definition successful_actions :: "job_memory \<Rightarrow> nat" where
  "successful_actions m = length (filter arec_success (jm_actions m))"

definition failed_actions :: "job_memory \<Rightarrow> nat" where
  "failed_actions m = length (filter (\<lambda>a. \<not> arec_success a) (jm_actions m))"

definition last_action :: "job_memory \<Rightarrow> action_record option" where
  "last_action m = (if jm_actions m = [] then None else Some (last (jm_actions m)))"

definition actions_by_tool :: "string \<Rightarrow> job_memory \<Rightarrow> action_record list" where
  "actions_by_tool tool_name m = filter (\<lambda>a. arec_tool_name a = tool_name) (jm_actions m)"

section \<open>The context manager (manager.rs)\<close>

datatype job_error = JobNotFound uuid | MaxJobsExceeded nat

record context_manager =
  xm_contexts :: "(uuid, job_context) hmap"
  xm_memories :: "(uuid, job_memory) hmap"
  xm_max_jobs :: nat

definition new_context_manager :: "nat \<Rightarrow> context_manager" where
  "new_context_manager n = \<lparr>xm_contexts = [], xm_memories = [], xm_max_jobs = n\<rparr>"

definition parallel_count :: "context_manager \<Rightarrow> nat" where
  "parallel_count xm =
     length (filter (\<lambda>c. is_parallel_blocking (jc_state c)) (hm_values (xm_contexts xm)))"

definition insert_context :: "job_context \<Rightarrow> context_manager \<Rightarrow> (job_error + unit) \<times> context_manager" where
  "insert_context c xm =
     (if parallel_count xm \<ge> xm_max_jobs xm then (Inl (MaxJobsExceeded (xm_max_jobs xm)), xm)
      else (Inr (), xm\<lparr>xm_contexts := hm_insert (jc_job_id c) c (xm_contexts xm),
                        xm_memories := hm_insert (jc_job_id c) (new_memory (jc_job_id c)) (xm_memories xm)\<rparr>))"

definition create_job_for_user ::
    "uuid \<Rightarrow> time \<Rightarrow> string option \<Rightarrow> string \<Rightarrow> string \<Rightarrow> string \<Rightarrow> context_manager \<Rightarrow>
     (job_error + uuid) \<times> context_manager" where
  "create_job_for_user jid now vision user_id title description xm =
     (case insert_context (job_with_user jid now vision user_id title description) xm of
        (Inl e, xm') \<Rightarrow> (Inl e, xm') | (Inr _, xm') \<Rightarrow> (Inr jid, xm'))"

definition register_sandbox_job ::
    "uuid \<Rightarrow> time \<Rightarrow> string option \<Rightarrow> string \<Rightarrow> string \<Rightarrow> string \<Rightarrow> context_manager \<Rightarrow>
     (job_error + unit) \<times> context_manager" where
  "register_sandbox_job jid now vision user_id title description xm =
     insert_context ((job_with_user jid now vision user_id title description)
       \<lparr>jc_job_id := jid, jc_state := JInProgress, jc_started_at := Some now\<rparr>) xm"

definition get_context :: "uuid \<Rightarrow> context_manager \<Rightarrow> job_error + job_context" where
  "get_context jid xm =
     (case hm_get (xm_contexts xm) jid of Some c \<Rightarrow> Inr c | None \<Rightarrow> Inl (JobNotFound jid))"

text \<open>\<open>f\<close> is the closure the caller passes; it returns a value and the updated context.\<close>

definition update_context ::
    "uuid \<Rightarrow> (job_context \<Rightarrow> 'r \<times> job_context) \<Rightarrow> context_manager \<Rightarrow> (job_error + 'r) \<times> context_manager"
    where
  "update_context jid f xm =
     (case hm_get (xm_contexts xm) jid of
        None \<Rightarrow> (Inl (JobNotFound jid), xm)
      | Some c \<Rightarrow> (Inr (fst (f c)), xm\<lparr>xm_contexts := hm_modify jid (\<lambda>c. snd (f c)) (xm_contexts xm)\<rparr>))"

definition update_context_and_get ::
    "uuid \<Rightarrow> (job_context \<Rightarrow> job_context) \<Rightarrow> context_manager \<Rightarrow>
     (job_error + job_context) \<times> context_manager" where
  "update_context_and_get jid f xm =
     (case hm_get (xm_contexts xm) jid of
        None \<Rightarrow> (Inl (JobNotFound jid), xm)
      | Some c \<Rightarrow> (Inr (f c), xm\<lparr>xm_contexts := hm_modify jid f (xm_contexts xm)\<rparr>))"

definition get_memory :: "uuid \<Rightarrow> context_manager \<Rightarrow> job_error + job_memory" where
  "get_memory jid xm =
     (case hm_get (xm_memories xm) jid of Some m \<Rightarrow> Inr m | None \<Rightarrow> Inl (JobNotFound jid))"

definition update_memory ::
    "uuid \<Rightarrow> (job_memory \<Rightarrow> 'r \<times> job_memory) \<Rightarrow> context_manager \<Rightarrow> (job_error + 'r) \<times> context_manager"
    where
  "update_memory jid f xm =
     (case hm_get (xm_memories xm) jid of
        None \<Rightarrow> (Inl (JobNotFound jid), xm)
      | Some m \<Rightarrow> (Inr (fst (f m)), xm\<lparr>xm_memories := hm_modify jid (\<lambda>m. snd (f m)) (xm_memories xm)\<rparr>))"

definition active_count :: "context_manager \<Rightarrow> nat" where
  "active_count xm = length (filter (\<lambda>c. job_is_active (jc_state c)) (hm_values (xm_contexts xm)))"

definition active_jobs :: "context_manager \<Rightarrow> uuid list" where
  "active_jobs xm = map fst (filter (\<lambda>p. job_is_active (jc_state (snd p))) (xm_contexts xm))"

definition all_jobs :: "context_manager \<Rightarrow> uuid list" where
  "all_jobs xm = map fst (xm_contexts xm)"

definition active_jobs_for :: "string \<Rightarrow> context_manager \<Rightarrow> uuid list" where
  "active_jobs_for uid xm =
     map fst (filter (\<lambda>p. jc_user_id (snd p) = uid \<and> job_is_active (jc_state (snd p))) (xm_contexts xm))"

definition all_jobs_for :: "string \<Rightarrow> context_manager \<Rightarrow> uuid list" where
  "all_jobs_for uid xm = map fst (filter (\<lambda>p. jc_user_id (snd p) = uid) (xm_contexts xm))"

definition remove_job ::
    "uuid \<Rightarrow> context_manager \<Rightarrow> (job_error + job_context \<times> job_memory) \<times> context_manager" where
  "remove_job jid xm =
     (case hm_get (xm_contexts xm) jid of
        None \<Rightarrow> (Inl (JobNotFound jid), xm)
      | Some c \<Rightarrow>
          let xm1 = xm\<lparr>xm_contexts := hm_remove jid (xm_contexts xm)\<rparr>
          in case hm_get (xm_memories xm1) jid of
               None \<Rightarrow> (Inl (JobNotFound jid), xm1)
             | Some m \<Rightarrow> (Inr (c, m), xm1\<lparr>xm_memories := hm_remove jid (xm_memories xm1)\<rparr>))"

text \<open>Time differences are in nanoseconds, thresholds in seconds.\<close>

definition find_stuck_jobs_with_threshold :: "time \<Rightarrow> nat option \<Rightarrow> context_manager \<Rightarrow> uuid list" where
  "find_stuck_jobs_with_threshold now threshold xm =
     map fst (filter (\<lambda>p. let c = snd p in
       if jc_state c = JStuck then True
       else if jc_state c = JInProgress then
         (case (threshold, jc_started_at c) of
            (Some secs, Some started) \<Rightarrow> nat (max 0 ((now - started) div 1000000000)) > secs
          | _ \<Rightarrow> False)
       else False) (xm_contexts xm))"

record context_summary =
  sm_total :: nat
  sm_pending :: nat
  sm_in_progress :: nat
  sm_completed :: nat
  sm_submitted :: nat
  sm_accepted :: nat
  sm_failed :: nat
  sm_stuck :: nat
  sm_cancelled :: nat

fun count_state :: "job_state \<Rightarrow> context_summary \<Rightarrow> context_summary" where
  "count_state JPending s = s\<lparr>sm_pending := sm_pending s + 1\<rparr>"
| "count_state JInProgress s = s\<lparr>sm_in_progress := sm_in_progress s + 1\<rparr>"
| "count_state JCompleted s = s\<lparr>sm_completed := sm_completed s + 1\<rparr>"
| "count_state JSubmitted s = s\<lparr>sm_submitted := sm_submitted s + 1\<rparr>"
| "count_state JAccepted s = s\<lparr>sm_accepted := sm_accepted s + 1\<rparr>"
| "count_state JFailed s = s\<lparr>sm_failed := sm_failed s + 1\<rparr>"
| "count_state JStuck s = s\<lparr>sm_stuck := sm_stuck s + 1\<rparr>"
| "count_state JCancelled s = s\<lparr>sm_cancelled := sm_cancelled s + 1\<rparr>"

definition empty_summary :: context_summary where
  "empty_summary = \<lparr>sm_total = 0, sm_pending = 0, sm_in_progress = 0, sm_completed = 0,
     sm_submitted = 0, sm_accepted = 0, sm_failed = 0, sm_stuck = 0, sm_cancelled = 0\<rparr>"

definition summary :: "context_manager \<Rightarrow> context_summary" where
  "summary xm =
     (fold (\<lambda>c. count_state (jc_state c)) (hm_values (xm_contexts xm)) empty_summary)
       \<lparr>sm_total := length (xm_contexts xm)\<rparr>"

definition summary_sum :: "context_summary \<Rightarrow> nat" where
  "summary_sum s = sm_pending s + sm_in_progress s + sm_completed s + sm_submitted s
     + sm_accepted s + sm_failed s + sm_stuck s + sm_cancelled s"

definition summary_for :: "string \<Rightarrow> context_manager \<Rightarrow> context_summary" where
  "summary_for uid xm =
     (let s = fold (\<lambda>c. count_state (jc_state c))
                (filter (\<lambda>c. jc_user_id c = uid) (hm_values (xm_contexts xm))) empty_summary
      in s\<lparr>sm_total := summary_sum s\<rparr>)"

section \<open>The log of transitions\<close>

definition job_log :: "job_context \<Rightarrow> (job_state \<times> job_state) list" where
  "job_log c = map (\<lambda>t. (sx_from t, sx_to t)) (jc_transitions c)"

definition job_attempt :: "time \<times> string option \<Rightarrow> job_state \<Rightarrow> job_context \<Rightarrow> job_context option" where
  "job_attempt a t c = (case job_transition_to (fst a) t (snd a) c of Inl _ \<Rightarrow> None | Inr c' \<Rightarrow> Some c')"

lemma job_transition_state:
  "job_transition_to now t r c = Inr c' \<Longrightarrow> jc_state c' = t \<and> jc_job_id c' = jc_job_id c"
  by (auto simp: job_transition_to_def Let_def split: if_splits)

lemma job_transition_log:
  assumes "job_transition_to now t r c = Inr c'" "jc_state c \<noteq> t"
  shows "job_log c' = drop (length (jc_transitions c) + 1 - MAX_TRANSITIONS) (job_log c @ [(jc_state c, t)])"
proof -
  let ?ts = "jc_transitions c @ [\<lparr>sx_from = jc_state c, sx_to = t, sx_timestamp = now, sx_reason = r\<rparr>]"
  have "jc_transitions c' =
      (if length ?ts > MAX_TRANSITIONS then drop (length ?ts - MAX_TRANSITIONS) ?ts else ?ts)"
    using assms by (auto simp: job_transition_to_def Let_def simp del: drop_append split: if_splits)
  then have "jc_transitions c' = drop (length (jc_transitions c) + 1 - MAX_TRANSITIONS) ?ts"
    by (cases "length ?ts > MAX_TRANSITIONS") (simp_all del: drop_append)
  then show ?thesis
    by (simp add: job_log_def drop_map [symmetric] del: drop_append)
qed

lemma job_transition_bounded:
  "job_transition_to now t r c = Inr c' \<Longrightarrow> length (jc_transitions c) \<le> MAX_TRANSITIONS \<Longrightarrow>
     length (jc_transitions c') \<le> MAX_TRANSITIONS"
  by (auto simp: job_transition_to_def Let_def split: if_splits)

lemma job_transition_idempotent:
  "job_transition_to now t r c = Inr c' \<Longrightarrow> jc_state c = t \<Longrightarrow> c' = c"
  by (auto simp: job_transition_to_def split: if_splits)

interpretation job_machine: state_machine job_can_transition job_is_terminal
proof
  fix s t
  assume "job_is_terminal s"
  then show "\<not> job_can_transition s t"
    by (cases s; cases t) (simp_all add: job_can_transition_def)
qed

interpretation job_lg: logged_machine job_can_transition job_is_terminal jc_state job_log job_attempt
proof
  fix a t x
  show "job_attempt a t x = None \<longleftrightarrow> \<not> job_can_transition (jc_state x) t"
    by (auto simp: job_attempt_def job_transition_to_def Let_def)
next
  fix a t x y
  assume "job_attempt a t x = Some y"
  then have y: "job_transition_to (fst a) t (snd a) x = Inr y"
    by (simp add: job_attempt_def split: sum.splits)
  from job_transition_state [OF y] show "jc_state y = t" by simp
  show "t = jc_state x \<and> job_log y = job_log x \<or>
      (\<exists>n\<le>length (job_log x). job_log y = drop n (job_log x @ [(jc_state x, t)]))"
  proof (cases "jc_state x = t")
    case True
    with job_transition_idempotent [OF y] show ?thesis by simp
  next
    case False
    have "length (jc_transitions x) + 1 - MAX_TRANSITIONS \<le> length (job_log x)"
      by (simp add: MAX_TRANSITIONS_def job_log_def)
    with job_transition_log [OF y False] show ?thesis by blast
  qed
qed

section \<open>Every job of the manager\<close>

text \<open>
  The value a closure returns does not reach the manager, so it is the unit below. What a closure passed to \<open>update_context\<close> does to a job: it calls \<open>transition_to\<close> (directly
  or through \<open>mark_stuck\<close>), \<open>attempt_recovery\<close>, or writes fields other than the state, the log
  and the identifier (\<open>add_cost\<close>, \<open>add_tokens\<close>, the budget, the metadata, the category).
\<close>

inductive job_step :: "job_context \<Rightarrow> job_context \<Rightarrow> bool" where
  js_transition: "job_transition_to now t r c = Inr c' \<Longrightarrow> job_step c c'"
| js_recover: "attempt_recovery now c = Inr c' \<Longrightarrow> job_step c c'"
| js_fields: "jc_state c' = jc_state c \<Longrightarrow> jc_transitions c' = jc_transitions c \<Longrightarrow>
    jc_job_id c' = jc_job_id c \<Longrightarrow> job_step c c'"

inductive ctx_reach :: "nat \<Rightarrow> context_manager \<Rightarrow> bool" where
  xr_new: "ctx_reach n (new_context_manager n)"
| xr_create: "ctx_reach n xm \<Longrightarrow>
    ctx_reach n (snd (create_job_for_user jid now vision user_id title description xm))"
| xr_register: "ctx_reach n xm \<Longrightarrow>
    ctx_reach n (snd (register_sandbox_job jid now vision user_id title description xm))"
| xr_update: "ctx_reach n xm \<Longrightarrow>
    (\<forall>c. hm_get (xm_contexts xm) jid = Some c \<longrightarrow> job_step c (snd (f c))) \<Longrightarrow>
    ctx_reach n (snd (update_context jid (f :: job_context \<Rightarrow> unit \<times> job_context) xm))"
| xr_memory: "ctx_reach n xm \<Longrightarrow>
    ctx_reach n (snd (update_memory jid (g :: job_memory \<Rightarrow> unit \<times> job_memory) xm))"
| xr_remove: "ctx_reach n xm \<Longrightarrow> ctx_reach n (snd (remove_job jid xm))"

definition job_ok :: "job_context \<Rightarrow> bool" where
  "job_ok c \<longleftrightarrow> job_lg.log_ok c \<and> length (jc_transitions c) \<le> MAX_TRANSITIONS"

definition blocking :: "(uuid, job_context) hmap \<Rightarrow> nat" where
  "blocking m = length (filter (\<lambda>p. is_parallel_blocking (jc_state (snd p))) m)"

lemma parallel_count_blocking: "parallel_count xm = blocking (xm_contexts xm)"
  by (simp add: parallel_count_def blocking_def filter_map comp_def)

definition ctx_ok :: "context_manager \<Rightarrow> bool" where
  "ctx_ok xm \<longleftrightarrow> hm_keyed jc_job_id (xm_contexts xm) \<and>
     set (map fst (xm_contexts xm)) = set (map fst (xm_memories xm)) \<and>
     (\<forall>jid c. hm_get (xm_contexts xm) jid = Some c \<longrightarrow> job_ok c) \<and>
     blocking (xm_contexts xm) \<le> xm_max_jobs xm"

lemma job_transition_blocking:
  "job_can_transition s t \<Longrightarrow> is_parallel_blocking t \<Longrightarrow> is_parallel_blocking s"
  by (cases s; cases t) (simp_all add: job_can_transition_def)

lemma job_transition_can:
  "job_transition_to now t r c = Inr c' \<Longrightarrow> job_can_transition (jc_state c) t"
  by (simp add: job_transition_to_def split: if_splits)

lemma job_ok_transition:
  "job_transition_to now t r c = Inr c' \<Longrightarrow> job_ok c \<Longrightarrow> job_ok c'"
  using job_lg.attempt_log_ok [of c "(now, r)" t c'] job_transition_bounded [of now t r c c']
  by (simp add: job_ok_def job_attempt_def)

lemma job_ok_frame:
  "job_ok c \<Longrightarrow> jc_state c' = jc_state c \<Longrightarrow> jc_transitions c' = jc_transitions c \<Longrightarrow> job_ok c'"
  unfolding job_ok_def by (auto elim!: job_lg.log_ok_frame simp: job_log_def)

lemma job_step_spec:
  assumes "job_step c c'"
  shows "jc_job_id c' = jc_job_id c \<and>
      (is_parallel_blocking (jc_state c') \<longrightarrow> is_parallel_blocking (jc_state c)) \<and>
      (job_ok c \<longrightarrow> job_ok c')"
  using assms
proof cases
  case (js_transition now t r)
  then show ?thesis
    using job_transition_state job_transition_can job_transition_blocking job_ok_transition by blast
next
  case (js_recover now)
  let ?c = "c\<lparr>jc_repair_attempts := jc_repair_attempts c + 1\<rparr>"
  from js_recover have tr: "job_transition_to now JInProgress (Some ''Recovery attempt'') ?c = Inr c'"
    and st: "jc_state c = JStuck"
    by (simp_all add: attempt_recovery_def split: if_splits)
  have "job_ok c \<Longrightarrow> job_ok ?c" by (erule job_ok_frame) simp_all
  with job_transition_state [OF tr] job_ok_transition [OF tr] st show ?thesis by simp
next
  case js_fields
  then show ?thesis using job_ok_frame by metis
qed

lemma blocking_insert: "blocking (hm_insert k c m) \<le> blocking m + 1"
  by (induction k c m rule: hm_insert.induct) (auto simp: blocking_def)

lemma blocking_modify:
  assumes "hm_wf m" "\<And>c. hm_get m k = Some c \<Longrightarrow>
     is_parallel_blocking (jc_state (f c)) \<Longrightarrow> is_parallel_blocking (jc_state c)"
  shows "blocking (hm_modify k f m) \<le> blocking m"
  using assms
proof (induction m)
  case (Cons p m)
  show ?case
  proof (cases "fst p = k")
    case True
    with Cons.prems have "hm_modify k f m = m" by (intro hm_modify_absent) (auto simp: map_of_eq_None_iff)
    with True Cons.prems(2) show ?thesis
      by (cases p) (auto simp: blocking_def hm_modify_def)
  next
    case False
    with Cons.IH Cons.prems show ?thesis
      by (cases p) (auto simp: blocking_def hm_modify_def)
  qed
qed (simp add: blocking_def hm_modify_def)

lemma blocking_remove: "blocking (hm_remove k m) \<le> blocking m"
  by (induction m) (auto simp: blocking_def hm_remove_def)

lemma hm_keys_remove: "set (map fst (hm_remove k m)) = set (map fst m) - {k}"
  by (auto simp: hm_remove_def)

lemma job_ok_fresh: "jc_transitions c = [] \<Longrightarrow> job_ok c"
  unfolding job_ok_def by (auto intro: job_lg.log_okI_empty simp: job_log_def)

lemma ctx_ok_insert:
  assumes "ctx_ok xm" "job_ok c"
  shows "ctx_ok (snd (insert_context c xm))"
  using assms blocking_insert [of "jc_job_id c" c "xm_contexts xm"]
  by (auto simp: ctx_ok_def insert_context_def parallel_count_blocking simp del: set_map)

lemma create_job_snd:
  "snd (create_job_for_user jid now vision user_id title description xm)
     = snd (insert_context (job_with_user jid now vision user_id title description) xm)"
  by (simp add: create_job_for_user_def split: prod.splits sum.splits)

lemma job_steps_spec:
  "job_step\<^sup>*\<^sup>* c c' \<Longrightarrow> jc_job_id c' = jc_job_id c \<and>
      (is_parallel_blocking (jc_state c') \<longrightarrow> is_parallel_blocking (jc_state c)) \<and>
      (job_ok c \<longrightarrow> job_ok c')"
  by (induction rule: rtranclp_induct) (auto dest: job_step_spec)

lemma ctx_ok_steps:
  assumes ok: "ctx_ok xm"
    and f: "\<forall>c. hm_get (xm_contexts xm) jid = Some c \<longrightarrow> job_step\<^sup>*\<^sup>* c (snd (f c))"
  shows "ctx_ok (snd (update_context jid f xm))"
proof (cases "hm_get (xm_contexts xm) jid")
  case None
  with ok show ?thesis by (simp add: update_context_def)
next
  case (Some c)
  let ?m = "hm_modify jid (\<lambda>c. snd (f c)) (xm_contexts xm)"
  have k: "hm_keyed jc_job_id (xm_contexts xm)" using ok by (simp add: ctx_ok_def)
  have step: "jc_job_id (snd (f c)) = jc_job_id c" "job_ok c \<Longrightarrow> job_ok (snd (f c))"
    and bl: "is_parallel_blocking (jc_state (snd (f c))) \<Longrightarrow> is_parallel_blocking (jc_state c)"
    using f Some job_steps_spec [of c "snd (f c)"] by blast+
  have "hm_keyed jc_job_id ?m"
    using k step(1) Some by (auto simp: hm_keyed_def)
  moreover have "blocking ?m \<le> blocking (xm_contexts xm)"
    using k bl Some by (intro blocking_modify) (auto simp: hm_keyed_def)
  ultimately show ?thesis
    using ok Some step(2) by (auto simp: ctx_ok_def update_context_def simp del: set_map)
qed

lemma ctx_ok_update:
  "ctx_ok xm \<Longrightarrow> \<forall>c. hm_get (xm_contexts xm) jid = Some c \<longrightarrow> job_step c (snd (f c)) \<Longrightarrow>
     ctx_ok (snd (update_context jid f xm))"
  by (rule ctx_ok_steps) auto

lemma ctx_ok_remove: "ctx_ok xm \<Longrightarrow> ctx_ok (snd (remove_job jid xm))"
proof -
  assume ok: "ctx_ok xm"
  have mem: "hm_get (xm_contexts xm) jid = Some c \<Longrightarrow> hm_get (xm_memories xm) jid \<noteq> None" for c
    using ok map_of_eq_None_iff [of "xm_memories xm" jid] map_of_eq_None_iff [of "xm_contexts xm" jid]
    by (simp add: ctx_ok_def)
  show ?thesis
  proof (cases "hm_get (xm_contexts xm) jid")
    case (Some c)
    with mem obtain m where "hm_get (xm_memories xm) jid = Some m" by blast
    with ok Some blocking_remove [of jid "xm_contexts xm"] show ?thesis
      by (auto simp: ctx_ok_def remove_job_def Let_def hm_keys_remove simp del: set_map)
  qed (use ok in \<open>simp add: remove_job_def\<close>)
qed

lemma ctx_ok_memory: "ctx_ok xm \<Longrightarrow> ctx_ok (snd (update_memory jid g xm))"
  by (simp add: ctx_ok_def update_memory_def split: option.splits del: set_map)

lemma max_jobs_fixed [simp]:
  "xm_max_jobs (snd (insert_context c xm)) = xm_max_jobs xm"
  "xm_max_jobs (snd (update_context jid f xm)) = xm_max_jobs xm"
  "xm_max_jobs (snd (update_memory jid g xm)) = xm_max_jobs xm"
  "xm_max_jobs (snd (remove_job jid xm)) = xm_max_jobs xm"
  by (simp_all add: insert_context_def update_context_def update_memory_def remove_job_def Let_def
      split: option.splits)

lemma ctx_reach_ok: "ctx_reach n xm \<Longrightarrow> ctx_ok xm \<and> xm_max_jobs xm = n"
proof (induction rule: ctx_reach.induct)
  case (xr_new n)
  then show ?case by (simp add: ctx_ok_def new_context_manager_def blocking_def)
qed (simp_all add: ctx_ok_insert create_job_snd register_sandbox_job_def ctx_ok_update ctx_ok_memory
      ctx_ok_remove job_ok_fresh job_with_user_def)

section \<open>The memory loop\<close>

lemma trim_messages_length:
  "1 \<le> n \<Longrightarrow> length (trim_messages n ms) = min (length ms) n"
proof (induction n ms rule: trim_messages.induct)
  case (1 n ms)
  then show ?case by (subst trim_messages.simps) (auto split: list.splits)
qed

lemma trim_messages_last:
  "2 \<le> n \<Longrightarrow> ms \<noteq> [] \<Longrightarrow> last (trim_messages n ms) = last ms"
proof (induction n ms rule: trim_messages.induct)
  case (1 n ms)
  show ?case
  proof (cases "length ms \<le> n")
    case False
    with 1(3) obtain a b c r where ms: "ms = a # b # c # r"
      by (cases ms; cases "tl ms"; cases "tl (tl ms)") (use 1(3,4) in auto)
    show ?thesis using 1 ms False by (subst trim_messages.simps) auto
  next
    case True
    then show ?thesis by (subst trim_messages.simps) simp
  qed
qed

lemma trim_messages_system:
  "1 \<le> n \<Longrightarrow> cm_role m = ChatSystem \<Longrightarrow> \<exists>r. trim_messages n (m # ms) = m # r"
proof (induction "length ms" arbitrary: ms)
  case 0
  then show ?case by (subst trim_messages.simps) simp
next
  case (Suc k)
  then show ?case
    by (subst trim_messages.simps) (cases ms; auto)
qed

lemma trim_messages_subset: "set (trim_messages n ms) \<subseteq> set ms"
proof (induction n ms rule: trim_messages.induct)
  case (1 n ms)
  show ?case
  proof (cases "length ms \<le> n \<or> ms = []")
    case False
    then obtain m rest where ms: "ms = m # rest" by (cases ms) auto
    have "set (drop 1 rest) \<subseteq> set rest" by (rule set_drop_subset)
    with 1(1) [OF _ ms] 1(2) [OF _ ms] False ms show ?thesis
      by (subst trim_messages.simps) auto
  next
    case True
    then have "trim_messages n ms = ms" by (subst trim_messages.simps) auto
    then show ?thesis by simp
  qed
qed

section \<open>Properties\<close>



text \<open>
  Adding a message to a conversation memory that may hold two messages or more: it then
  holds the smaller of the limit and the number of messages, all of them old messages or the
  new one, the new message is the last one, and a leading system message is still in front.
\<close>

lemma memory_add_keeps_recent:
  assumes "2 \<le> mem_max_messages cm"
  shows "length (mem_messages (memory_add m cm)) = min (length (mem_messages cm) + 1) (mem_max_messages cm) \<and>
    set (mem_messages (memory_add m cm)) \<subseteq> insert m (set (mem_messages cm)) \<and>
    last (mem_messages (memory_add m cm)) = m \<and>
    (\<forall>s r. mem_messages cm = s # r \<longrightarrow> cm_role s = ChatSystem \<longrightarrow>
       (\<exists>r'. mem_messages (memory_add m cm) = s # r'))"
proof -
  let ?n = "mem_max_messages cm" and ?ms = "mem_messages cm @ [m]"
  have "length (trim_messages ?n ?ms) = min (length (mem_messages cm) + 1) ?n"
    using assms by (simp add: trim_messages_length)
  moreover have "last (trim_messages ?n ?ms) = m"
    using assms trim_messages_last [of ?n ?ms] by simp
  ultimately show ?thesis
    using assms trim_messages_subset [of ?n ?ms] trim_messages_system [of ?n]
    by (auto simp: memory_add_def)
qed

lemma memory_add_keeps_recent_witness:
  "length (mem_messages (memory_add (chat_user ''c'')
     \<lparr>mem_messages = [chat_system ''s'', chat_user ''b''], mem_max_messages = 2\<rparr>)) = 2"
  using memory_add_keeps_recent
    [of "\<lparr>mem_messages = [chat_system ''s'', chat_user ''b''], mem_max_messages = 2\<rparr>" "chat_user ''c''"]
  by simp

end
