(* ===== verification/Host_Tools.thy ===== *)
theory Host_Tools
  imports Prelude
begin

text \<open>
  The tools of the host as the gates and the chat see them: what a tool tells of itself
  (\<open>src/tools/tool.rs\<close>) and the resolution of names in the registry
  (\<open>src/tools/registry.rs\<close>, \<open>src/extensions/naming.rs\<close>).
\<close>

section \<open>Tools by name\<close>

datatype approval_requirement = ReqNever | ReqUnlessAutoApproved | ReqAlways

text \<open>The two methods of the trait \<open>Tool\<close> the gate calls.\<close>

record tool_iface =
  tl_name :: string
  tl_requires_approval :: "json \<Rightarrow> approval_requirement"

definition legacy_extension_alias :: "string \<Rightarrow> string option" where
  "legacy_extension_alias name =
     (let alias = replace_char (CHR ''_'') (CHR ''-'') name
      in if alias \<noteq> name then Some alias else None)"

definition resolve_name :: "(string, tool_iface) hmap \<Rightarrow> string \<Rightarrow> string option" where
  "resolve_name tools name =
     (if hm_get tools name \<noteq> None then Some name
      else case legacy_extension_alias name of
        None \<Rightarrow> None
      | Some alias \<Rightarrow> if hm_get tools alias \<noteq> None then Some alias else None)"

definition get_resolved :: "(string, tool_iface) hmap \<Rightarrow> string \<Rightarrow> (string \<times> tool_iface) option" where
  "get_resolved tools name =
     (case resolve_name tools name of
        None \<Rightarrow> None
      | Some resolved \<Rightarrow>
          (case hm_get tools resolved of None \<Rightarrow> None | Some t \<Rightarrow> Some (resolved, t)))"

section \<open>Sensitive parameters\<close>

text \<open>\<open>insert\<close> on an object that has the key keeps its place.\<close>

definition redact_params :: "json \<Rightarrow> string list \<Rightarrow> json" where
  "redact_params params sensitive =
     (case params of
        JObject kvs \<Rightarrow> JObject (map (\<lambda>(k, v). (k, if k \<in> set sensitive then JString ''[REDACTED]'' else v)) kvs)
      | _ \<Rightarrow> params)"

end
