(* ===== verification/Pending_Gates.thy ===== *)
theory Pending_Gates
  imports Policy_Gates Host_Tools
begin

text \<open>
  The host's side of gates: the approval gate (\<open>src/gate/approval.rs\<close>) over the name resolution of
  the tool registry, and the store of the
  gates that wait for an answer (\<open>pending.rs\<close>, \<open>store.rs\<close>) with its file
  (\<open>persistence.rs\<close>). Every operation of the store has the phase it runs under the lock and the
  phase that writes the file after the lock is released, so that two operations can interleave.
\<close>

section \<open>The approval gate\<close>

definition quoted :: "string \<Rightarrow> string" where
  "quoted s = [CHR 0x27] @ s @ [CHR 0x27]"

text \<open>
  \<open>has_credentials\<close> says whether a credential registry is present and has credentials for the
  host named in the parameters.
\<close>

definition approval_gate_evaluate ::
    "(string, tool_iface) hmap \<Rightarrow> (json \<Rightarrow> bool) \<Rightarrow> gate_context \<Rightarrow> gate_decision" where
  "approval_gate_evaluate tools has_credentials ctx =
     (case get_resolved tools (gc_action_name ctx) of
        None \<Rightarrow> GateAllow
      | Some (_, tool) \<Rightarrow>
          let requirement = tl_requires_approval tool (gc_parameters ctx) in
          if gc_supervised_mode ctx
          then GatePause (''[Supervised mode] Tool '' @ quoted (gc_action_name ctx)
                 @ '' requires human approval before execution.'') (Approval (requirement \<noteq> ReqAlways))
          else
            case gc_execution_mode ctx of
              Interactive \<Rightarrow>
                (case requirement of
                   ReqNever \<Rightarrow> GateAllow
                 | ReqUnlessAutoApproved \<Rightarrow>
                     if List.member (gc_auto_approved ctx) (gc_action_name ctx) then GateAllow
                     else if (gc_action_name ctx = ''http'' \<or> gc_action_name ctx = ''http_request'')
                             \<and> has_credentials (gc_parameters ctx) then GateAllow
                     else GatePause (''Tool '' @ quoted (gc_action_name ctx)
                            @ '' requires approval to execute.'') (Approval True)
                 | ReqAlways \<Rightarrow>
                     GatePause (''Tool '' @ quoted (gc_action_name ctx)
                       @ '' requires explicit approval for this operation.'') (Approval False))
            | InteractiveAutoApprove \<Rightarrow>
                (case requirement of
                   ReqNever \<Rightarrow> GateAllow
                 | ReqUnlessAutoApproved \<Rightarrow> GateAllow
                 | ReqAlways \<Rightarrow>
                     GatePause (''Tool '' @ quoted (gc_action_name ctx)
                       @ '' requires explicit approval (auto-approve does not cover this operation).'')
                       (Approval False))
            | Autonomous \<Rightarrow>
                (case requirement of
                   ReqNever \<Rightarrow> GateAllow
                 | ReqUnlessAutoApproved \<Rightarrow> GateAllow
                 | ReqAlways \<Rightarrow>
                     GateDeny (''Tool '' @ quoted (gc_action_name ctx)
                       @ '' requires explicit approval and cannot run autonomously.''))
            | Container \<Rightarrow> GateAllow)"

definition approval_gate ::
    "(string, tool_iface) hmap \<Rightarrow> (json \<Rightarrow> bool) \<Rightarrow> execution_gate" where
  "approval_gate tools has_credentials =
     \<lparr>eg_name = ''approval'', eg_priority = 100,
      eg_evaluate = approval_gate_evaluate tools has_credentials\<rparr>"

definition authentication_gate :: execution_gate where
  "authentication_gate =
     \<lparr>eg_name = ''authentication'', eg_priority = 200, eg_evaluate = (\<lambda>_. GateAllow)\<rparr>"

section \<open>Pending gates (pending.rs)\<close>

record pending_gate_key =
  pgk_user_id :: string
  pgk_thread_id :: thread_id

record pending_gate =
  pg_request_id :: uuid
  pg_gate_name :: string
  pg_user_id :: string
  pg_thread_id :: thread_id
  pg_conversation_id :: uuid
  pg_source_channel :: string
  pg_action_name :: string
  pg_call_id :: string
  pg_parameters :: json
  pg_display_parameters :: "json option"
  pg_description :: string
  pg_resume_kind :: resume_kind
  pg_created_at :: time
  pg_expires_at :: time
  pg_original_message :: "string option"
  pg_resume_output :: "json option"

definition pg_is_expired :: "time \<Rightarrow> pending_gate \<Rightarrow> bool" where
  "pg_is_expired now g \<longleftrightarrow> now > pg_expires_at g"

definition pg_key :: "pending_gate \<Rightarrow> pending_gate_key" where
  "pg_key g = \<lparr>pgk_user_id = pg_user_id g, pgk_thread_id = pg_thread_id g\<rparr>"

record pending_gate_view =
  pgv_request_id :: string
  pgv_thread_id :: string
  pgv_gate_name :: string
  pgv_tool_name :: string
  pgv_description :: string
  pgv_parameters :: string
  pgv_resume_kind :: resume_kind

definition pg_view :: "(json \<Rightarrow> string) \<Rightarrow> pending_gate \<Rightarrow> pending_gate_view" where
  "pg_view pretty g =
     \<lparr>pgv_request_id = show_nat (pg_request_id g), pgv_thread_id = show_nat (pg_thread_id g),
      pgv_gate_name = pg_gate_name g, pgv_tool_name = pg_action_name g,
      pgv_description = pg_description g,
      pgv_parameters = pretty (case pg_display_parameters g of Some p \<Rightarrow> p | None \<Rightarrow> pg_parameters g),
      pgv_resume_kind = pg_resume_kind g\<rparr>"

section \<open>The file (persistence.rs)\<close>

datatype gate_store_error =
    GateNotFound
  | RequestIdMismatch
  | ChannelMismatch string string
  | GateExpired
  | GateAlreadyExists
  | GatePersistenceErr string

text \<open>
  The file holds a list of gates, or a content that does not parse. An operation may fail before
  it writes, which leaves the file as it was, or while it writes, after the truncation, which
  leaves some content.
\<close>

datatype gate_file = GateFile "pending_gate list" | Unreadable string

datatype io_fault = FaultBefore string | FaultWriting string gate_file

definition read_state :: "gate_file \<Rightarrow> gate_store_error + pending_gate list" where
  "read_state f = (case f of GateFile gs \<Rightarrow> Inr gs | Unreadable r \<Rightarrow> Inl (GatePersistenceErr r))"

definition rewrite_file ::
    "io_fault option \<Rightarrow> (pending_gate list \<Rightarrow> pending_gate list) \<Rightarrow> gate_file \<Rightarrow>
     (gate_store_error + unit) \<times> gate_file" where
  "rewrite_file fault upd f =
     (case fault of
        Some (FaultBefore r) \<Rightarrow> (Inl (GatePersistenceErr r), f)
      | _ \<Rightarrow>
          (case read_state f of
             Inl e \<Rightarrow> (Inl e, f)
           | Inr gs \<Rightarrow>
               (case fault of
                  Some (FaultWriting r f') \<Rightarrow> (Inl (GatePersistenceErr r), f')
                | _ \<Rightarrow> (Inr (), GateFile (upd gs)))))"

definition gate_file_save ::
    "io_fault option \<Rightarrow> pending_gate \<Rightarrow> gate_file \<Rightarrow> (gate_store_error + unit) \<times> gate_file" where
  "gate_file_save fault g f = rewrite_file fault (\<lambda>gs. filter (\<lambda>x. pg_key x \<noteq> pg_key g) gs @ [g]) f"

definition gate_file_remove ::
    "io_fault option \<Rightarrow> pending_gate_key \<Rightarrow> gate_file \<Rightarrow> (gate_store_error + unit) \<times> gate_file" where
  "gate_file_remove fault k f = rewrite_file fault (\<lambda>gs. filter (\<lambda>x. pg_key x \<noteq> k) gs) f"

definition gate_file_load_all :: "string option \<Rightarrow> gate_file \<Rightarrow> gate_store_error + pending_gate list" where
  "gate_file_load_all fault f =
     (case fault of Some r \<Rightarrow> Inl (GatePersistenceErr r) | None \<Rightarrow> read_state f)"

section \<open>The store (store.rs)\<close>

definition TRUSTED_GATE_CHANNELS :: "string list" where
  "TRUSTED_GATE_CHANNELS = [''web'', ''gateway'']"

definition RESERVED_CHANNEL_NAMES :: "string list" where
  "RESERVED_CHANNEL_NAMES =
     [''web'', ''gateway'', ''signal'', ''repl'', ''cli'', ''http'', ''__bootstrap__'']"

definition is_channel_reserved :: "string \<Rightarrow> bool" where
  "is_channel_reserved name = List.member RESERVED_CHANNEL_NAMES name"

record gate_store =
  gs_by_key :: "(pending_gate_key, pending_gate) hmap"
  gs_by_request_id :: "(uuid, pending_gate_key) hmap"
  gs_persistence :: "gate_file option"

definition new_gate_store :: "gate_file option \<Rightarrow> gate_store" where
  "new_gate_store p = \<lparr>gs_by_key = [], gs_by_request_id = [], gs_persistence = p\<rparr>"

text \<open>The phase under the lock, then the write of the file.\<close>

definition gate_insert_locked ::
    "pending_gate \<Rightarrow> gate_store \<Rightarrow> (gate_store_error + unit) \<times> gate_store" where
  "gate_insert_locked g s =
     (if hm_get (gs_by_key s) (pg_key g) \<noteq> None then (Inl GateAlreadyExists, s)
      else (Inr (), s\<lparr>gs_by_request_id := hm_insert (pg_request_id g) (pg_key g) (gs_by_request_id s),
                      gs_by_key := hm_insert (pg_key g) g (gs_by_key s)\<rparr>))"

definition gate_persist_save ::
    "io_fault option \<Rightarrow> pending_gate \<Rightarrow> gate_store \<Rightarrow> (gate_store_error + unit) \<times> gate_store" where
  "gate_persist_save fault g s =
     (case gs_persistence s of
        None \<Rightarrow> (Inr (), s)
      | Some f \<Rightarrow> (let (r, f') = gate_file_save fault g f in (r, s\<lparr>gs_persistence := Some f'\<rparr>)))"

definition gate_persist_remove ::
    "io_fault option \<Rightarrow> pending_gate_key \<Rightarrow> gate_store \<Rightarrow> (gate_store_error + unit) \<times> gate_store" where
  "gate_persist_remove fault k s =
     (case gs_persistence s of
        None \<Rightarrow> (Inr (), s)
      | Some f \<Rightarrow> (let (r, f') = gate_file_remove fault k f in (r, s\<lparr>gs_persistence := Some f'\<rparr>)))"

definition gate_insert ::
    "io_fault option \<Rightarrow> pending_gate \<Rightarrow> gate_store \<Rightarrow> (gate_store_error + unit) \<times> gate_store" where
  "gate_insert fault g s =
     (case gate_insert_locked g s of
        (Inl e, s') \<Rightarrow> (Inl e, s')
      | (Inr _, s') \<Rightarrow> gate_persist_save fault g s')"

definition drop_gate :: "pending_gate_key \<Rightarrow> gate_store \<Rightarrow> gate_store" where
  "drop_gate k s =
     (case hm_get (gs_by_key s) k of
        None \<Rightarrow> s
      | Some g \<Rightarrow> s\<lparr>gs_by_key := hm_remove k (gs_by_key s),
                    gs_by_request_id := hm_remove (pg_request_id g) (gs_by_request_id s)\<rparr>)"

definition take_verified_locked ::
    "time \<Rightarrow> pending_gate_key \<Rightarrow> uuid \<Rightarrow> string \<Rightarrow> gate_store \<Rightarrow>
     (gate_store_error + pending_gate) \<times> gate_store" where
  "take_verified_locked now k rid channel s =
     (case hm_get (gs_by_key s) k of
        None \<Rightarrow> (Inl GateNotFound, s)
      | Some g \<Rightarrow>
          if pg_request_id g \<noteq> rid then (Inl RequestIdMismatch, s)
          else if \<not> (pg_source_channel g = channel \<or> List.member TRUSTED_GATE_CHANNELS channel)
          then (Inl (ChannelMismatch (pg_source_channel g) channel), s)
          else if pg_is_expired now g then (Inl GateExpired, drop_gate k s)
          else (Inr g, drop_gate k s))"

text \<open>A failure to write the file is only logged.\<close>

definition take_verified ::
    "io_fault option \<Rightarrow> time \<Rightarrow> pending_gate_key \<Rightarrow> uuid \<Rightarrow> string \<Rightarrow> gate_store \<Rightarrow>
     (gate_store_error + pending_gate) \<times> gate_store" where
  "take_verified fault now k rid channel s =
     (case take_verified_locked now k rid channel s of
        (Inl e, s') \<Rightarrow> (Inl e, s')
      | (Inr g, s') \<Rightarrow> (Inr g, snd (gate_persist_remove fault k s')))"

definition gate_peek ::
    "(json \<Rightarrow> string) \<Rightarrow> time \<Rightarrow> pending_gate_key \<Rightarrow> gate_store \<Rightarrow> pending_gate_view option" where
  "gate_peek pretty now k s =
     (case hm_get (gs_by_key s) k of
        None \<Rightarrow> None
      | Some g \<Rightarrow> if pg_is_expired now g then None else Some (pg_view pretty g))"

definition list_for_user :: "time \<Rightarrow> string \<Rightarrow> gate_store \<Rightarrow> pending_gate list" where
  "list_for_user now user_id s =
     filter (\<lambda>g. pg_user_id g = user_id \<and> \<not> pg_is_expired now g) (hm_values (gs_by_key s))"

definition list_all_gates :: "time \<Rightarrow> gate_store \<Rightarrow> pending_gate list" where
  "list_all_gates now s = filter (\<lambda>g. \<not> pg_is_expired now g) (hm_values (gs_by_key s))"

definition gate_discard ::
    "io_fault option \<Rightarrow> pending_gate_key \<Rightarrow> gate_store \<Rightarrow> (gate_store_error + unit) \<times> gate_store" where
  "gate_discard fault k s =
     (case hm_get (gs_by_key s) k of
        None \<Rightarrow> (Inl GateNotFound, s)
      | Some g \<Rightarrow> gate_persist_remove fault k (drop_gate k s))"

fun restore_gates :: "time \<Rightarrow> pending_gate list \<Rightarrow> nat \<times> gate_store \<Rightarrow> nat \<times> gate_store" where
  "restore_gates now [] (n, s) = (n, s)"
| "restore_gates now (g # gs) (n, s) =
     (if pg_is_expired now g then restore_gates now gs (n, s)
      else restore_gates now gs
        (n + 1, s\<lparr>gs_by_request_id := hm_insert (pg_request_id g) (pg_key g) (gs_by_request_id s),
                  gs_by_key := hm_insert (pg_key g) g (gs_by_key s)\<rparr>))"

definition restore_from_persistence ::
    "string option \<Rightarrow> time \<Rightarrow> gate_store \<Rightarrow> (gate_store_error + nat) \<times> gate_store" where
  "restore_from_persistence fault now s =
     (case gs_persistence s of
        None \<Rightarrow> (Inr 0, s)
      | Some f \<Rightarrow>
          (case gate_file_load_all fault f of
             Inl e \<Rightarrow> (Inl e, s)
           | Inr gs \<Rightarrow> (let (n, s') = restore_gates now gs (0, s) in (Inr n, s'))))"

definition expired_keys :: "time \<Rightarrow> gate_store \<Rightarrow> pending_gate_key list" where
  "expired_keys now s = map fst (filter (\<lambda>p. pg_is_expired now (snd p)) (gs_by_key s))"

definition gate_expire_stale ::
    "(pending_gate_key \<Rightarrow> io_fault option) \<Rightarrow> time \<Rightarrow> gate_store \<Rightarrow> nat \<times> gate_store" where
  "gate_expire_stale fault now s =
     (let ks = expired_keys now s;
          s1 = fold drop_gate ks s
      in (length ks, fold (\<lambda>k s. snd (gate_persist_remove (fault k) k s)) ks s1))"

section \<open>Runs of the store\<close>

text \<open>
  The calls of the router, each with the outcome of its file access and the clock. A run returns
  the gates that \<open>take_verified\<close> handed out, in order.
\<close>

datatype gate_op =
    OpInsert "io_fault option" pending_gate
  | OpTake "io_fault option" time pending_gate_key uuid string
  | OpDiscard "io_fault option" pending_gate_key
  | OpExpire "pending_gate_key \<Rightarrow> io_fault option" time

fun gate_exec :: "gate_op \<Rightarrow> gate_store \<Rightarrow> pending_gate list \<times> gate_store" where
  "gate_exec (OpInsert fault g) s = ([], snd (gate_insert fault g s))"
| "gate_exec (OpTake fault now k rid ch) s =
     (case take_verified fault now k rid ch s of
        (Inr g, s') \<Rightarrow> ([g], s') | (Inl _, s') \<Rightarrow> ([], s'))"
| "gate_exec (OpDiscard fault k) s = ([], snd (gate_discard fault k s))"
| "gate_exec (OpExpire fault now) s = ([], snd (gate_expire_stale fault now s))"

fun gate_run :: "gate_op list \<Rightarrow> gate_store \<Rightarrow> pending_gate list \<times> gate_store" where
  "gate_run [] s = ([], s)"
| "gate_run (op # ops) s =
     (let (gs, s') = gate_exec op s; (gs', s'') = gate_run ops s' in (gs @ gs', s''))"

definition op_inserts :: "gate_op \<Rightarrow> uuid option" where
  "op_inserts op = (case op of OpInsert _ g \<Rightarrow> Some (pg_request_id g) | _ \<Rightarrow> None)"

text \<open>Which keys hold a gate with a request identifier.\<close>

definition held :: "uuid \<Rightarrow> gate_store \<Rightarrow> pending_gate_key set" where
  "held rid s = {k. \<exists>g. hm_get (gs_by_key s) k = Some g \<and> pg_request_id g = rid}"

lemma by_key_persist [simp]:
  "gs_by_key (snd (gate_persist_save fault g s)) = gs_by_key s"
  "gs_by_key (snd (gate_persist_remove fault k s)) = gs_by_key s"
  "gs_by_request_id (snd (gate_persist_save fault g s)) = gs_by_request_id s"
  "gs_by_request_id (snd (gate_persist_remove fault k s)) = gs_by_request_id s"
  by (simp_all add: gate_persist_save_def gate_persist_remove_def split: option.splits prod.splits)

lemma by_key_insert:
  "gs_by_key (snd (gate_insert fault g s)) =
     (if hm_get (gs_by_key s) (pg_key g) = None then hm_insert (pg_key g) g (gs_by_key s) else gs_by_key s)"
  by (simp add: gate_insert_def gate_insert_locked_def)

lemma by_key_drop [simp]: "gs_by_key (drop_gate k s) = hm_remove k (gs_by_key s)"
proof (cases "hm_get (gs_by_key s) k")
  case None
  then have "k \<notin> set (map fst (gs_by_key s))" by (simp add: map_of_eq_None_iff)
  then have "hm_remove k (gs_by_key s) = gs_by_key s"
    unfolding hm_remove_def by (intro filter_True) auto
  with None show ?thesis by (simp add: drop_gate_def)
qed (simp add: drop_gate_def)

lemma by_key_drops: "gs_by_key (fold drop_gate ks s) = fold hm_remove ks (gs_by_key s)"
  by (induction ks arbitrary: s) simp_all

lemma get_fold_remove: "hm_get (fold hm_remove ks m) k = (if k \<in> set ks then None else hm_get m k)"
  by (induction ks arbitrary: m) auto

lemma by_key_persist_fold:
  "gs_by_key (fold (\<lambda>k s. snd (gate_persist_remove (fault k) k s)) ks s) = gs_by_key s"
  by (induction ks arbitrary: s) simp_all

lemma get_expire:
  "hm_get (gs_by_key (snd (gate_expire_stale fault now s))) k =
     (if k \<in> set (expired_keys now s) then None else hm_get (gs_by_key s) k)"
  by (simp add: gate_expire_stale_def Let_def by_key_persist_fold by_key_drops get_fold_remove)

lemma take_verified_cases:
  obtains (taken) g where "fst (take_verified fault now k rid ch s) = Inr g"
      "hm_get (gs_by_key s) k = Some g" "pg_request_id g = rid"
      "pg_source_channel g = ch \<or> List.member TRUSTED_GATE_CHANNELS ch" "\<not> pg_is_expired now g"
      "gs_by_key (snd (take_verified fault now k rid ch s)) = hm_remove k (gs_by_key s)"
  | (expired) g where "fst (take_verified fault now k rid ch s) = Inl GateExpired"
      "hm_get (gs_by_key s) k = Some g" "pg_request_id g = rid" "pg_is_expired now g"
      "pg_source_channel g = ch \<or> List.member TRUSTED_GATE_CHANNELS ch"
      "snd (take_verified fault now k rid ch s) = drop_gate k s"
  | (refused) e where "fst (take_verified fault now k rid ch s) = Inl e" "e \<noteq> GateExpired"
      "snd (take_verified fault now k rid ch s) = s"
      "\<And>g. hm_get (gs_by_key s) k = Some g \<Longrightarrow> pg_request_id g = rid \<Longrightarrow>
         \<not> (pg_source_channel g = ch \<or> List.member TRUSTED_GATE_CHANNELS ch)"
proof (cases "hm_get (gs_by_key s) k")
  case None
  then have "take_verified fault now k rid ch s = (Inl GateNotFound, s)"
    by (simp add: take_verified_def take_verified_locked_def)
  with None show ?thesis by (intro refused [of GateNotFound]) simp_all
next
  case (Some g)
  let ?ok = "pg_source_channel g = ch \<or> List.member TRUSTED_GATE_CHANNELS ch"
  consider "pg_request_id g \<noteq> rid" | "pg_request_id g = rid" "\<not> ?ok"
    | "pg_request_id g = rid" "?ok" "pg_is_expired now g"
    | "pg_request_id g = rid" "?ok" "\<not> pg_is_expired now g" by blast
  then show ?thesis
  proof cases
    case 1
    with Some have "take_verified fault now k rid ch s = (Inl RequestIdMismatch, s)"
      by (simp add: take_verified_def take_verified_locked_def)
    with Some 1 show ?thesis by (intro refused [of RequestIdMismatch]) simp_all
  next
    case 2
    with Some have "take_verified fault now k rid ch s = (Inl (ChannelMismatch (pg_source_channel g) ch), s)"
      by (simp add: take_verified_def take_verified_locked_def)
    with Some 2 show ?thesis by (intro refused [of "ChannelMismatch (pg_source_channel g) ch"]) simp_all
  next
    case 3
    with Some have "take_verified fault now k rid ch s = (Inl GateExpired, drop_gate k s)"
      by (simp add: take_verified_def take_verified_locked_def)
    with Some 3 show ?thesis by (intro expired [of g]) simp_all
  next
    case 4
    with Some have "take_verified fault now k rid ch s = (Inr g, snd (gate_persist_remove fault k (drop_gate k s)))"
      by (simp add: take_verified_def take_verified_locked_def)
    with Some 4 show ?thesis by (intro taken [of g]) simp_all
  qed
qed

lemma gate_exec_held:
  assumes "op_inserts op \<noteq> Some rid"
  shows "held rid (snd (gate_exec op s)) \<subseteq> held rid s"
proof (cases op)
  case (OpInsert fault g)
  with assms show ?thesis by (auto simp: held_def op_inserts_def by_key_insert split: if_splits)
next
  case (OpTake fault now k rid' ch)
  show ?thesis
    by (rule take_verified_cases [of fault now k rid' ch s])
      (auto simp: held_def OpTake split: prod.splits sum.splits if_splits)
next
  case (OpDiscard fault k)
  then show ?thesis
    by (auto simp: held_def gate_discard_def split: option.splits if_splits)
next
  case (OpExpire fault now)
  then show ?thesis by (auto simp: held_def get_expire split: if_splits)
qed

text \<open>Taking a gate leaves no key with its request identifier, when there was only one.\<close>

lemma gate_exec_takes:
  assumes "op_inserts op \<noteq> Some rid"
    and "held rid s \<subseteq> {k0}"
  shows "let (gs, s') = gate_exec op s in
     length (filter (\<lambda>g. pg_request_id g = rid) gs) + card (held rid s') \<le> card (held rid s)"
proof -
  have fin: "finite (held rid s)" using assms(2) finite_subset by blast
  have mono: "card (held rid (snd (gate_exec op s))) \<le> card (held rid s)"
    by (intro card_mono fin gate_exec_held assms(1))
  show ?thesis
  proof (cases op)
    case (OpTake fault now k rid' ch)
    show ?thesis
    proof (rule take_verified_cases [of fault now k rid' ch s])
      fix g
      assume t: "fst (take_verified fault now k rid' ch s) = Inr g" "hm_get (gs_by_key s) k = Some g"
        "pg_request_id g = rid'"
        "gs_by_key (snd (take_verified fault now k rid' ch s)) = hm_remove k (gs_by_key s)"
      then have ex: "gate_exec op s = ([g], snd (take_verified fault now k rid' ch s))"
        by (cases "take_verified fault now k rid' ch s") (simp add: OpTake)
      show ?thesis
      proof (cases "rid' = rid")
        case True
        with t have "k \<in> held rid s" by (simp add: held_def)
        with assms(2) have "held rid s = {k}" by blast
        moreover have "k \<notin> held rid (snd (gate_exec op s))" using t(4) ex by (simp add: held_def)
        ultimately have "held rid (snd (gate_exec op s)) = {}" "card (held rid s) = 1"
          using gate_exec_held [OF assms(1), of s] by auto
        with ex True t(3) show ?thesis by simp
      qed (use mono ex t(3) in simp)
    qed (use mono OpTake in \<open>auto split: prod.splits sum.splits\<close>)
  qed (use mono in simp_all)
qed

lemma gate_run_takes:
  assumes "Some rid \<notin> op_inserts ` set ops"
    and "held rid s \<subseteq> {k0}"
  shows "length (filter (\<lambda>g. pg_request_id g = rid) (fst (gate_run ops s))) \<le> card (held rid s)"
  using assms
proof (induction ops arbitrary: s)
  case (Cons op ops)
  obtain gs s' where ex: "gate_exec op s = (gs, s')" by fastforce
  have op: "op_inserts op \<noteq> Some rid" using Cons.prems(1) by auto
  have "held rid s' \<subseteq> {k0}"
    using gate_exec_held [OF op, of s] ex Cons.prems(2) by auto
  then have "length (filter (\<lambda>g. pg_request_id g = rid) (fst (gate_run ops s'))) \<le> card (held rid s')"
    using Cons.IH [of s'] Cons.prems(1) by simp
  moreover have "length (filter (\<lambda>g. pg_request_id g = rid) gs) + card (held rid s') \<le> card (held rid s)"
    using gate_exec_takes [OF op Cons.prems(2)] ex by simp
  ultimately show ?case by (cases "gate_run ops s'") (simp add: ex)
qed simp

section \<open>The two indices\<close>

definition gate_inv :: "gate_store \<Rightarrow> bool" where
  "gate_inv s \<longleftrightarrow> hm_keyed pg_key (gs_by_key s) \<and>
     (\<forall>rid k. hm_get (gs_by_request_id s) rid = Some k \<longleftrightarrow>
        (\<exists>g. hm_get (gs_by_key s) k = Some g \<and> pg_request_id g = rid))"

lemma gate_inv_new: "gate_inv (new_gate_store p)"
  by (simp add: gate_inv_def new_gate_store_def)

lemma gate_inv_insert:
  assumes "gate_inv s" "hm_get (gs_by_request_id s) (pg_request_id g) = None"
  shows "gate_inv (snd (gate_insert_locked g s))"
  using assms
  by (auto simp: gate_inv_def gate_insert_locked_def split: if_splits) (metis option.distinct(1))

lemma gate_inv_frame:
  "gate_inv s \<Longrightarrow> gs_by_key s' = gs_by_key s \<Longrightarrow> gs_by_request_id s' = gs_by_request_id s \<Longrightarrow> gate_inv s'"
  by (simp add: gate_inv_def)

lemma gate_inv_drop: "gate_inv s \<Longrightarrow> gate_inv (drop_gate k s)"
proof (cases "hm_get (gs_by_key s) k")
  case (Some g)
  assume inv: "gate_inv s"
  then have "hm_get (gs_by_request_id s) (pg_request_id g) = Some k"
    using Some by (auto simp: gate_inv_def)
  with inv Some show ?thesis
    unfolding gate_inv_def drop_gate_def
    by (auto split: if_splits) (metis option.inject)+
qed (simp add: drop_gate_def)

lemma gate_inv_drops: "gate_inv s \<Longrightarrow> gate_inv (fold drop_gate ks s)"
  by (induction ks arbitrary: s) (simp_all add: gate_inv_drop)

lemma by_request_persist_fold:
  "gs_by_request_id (fold (\<lambda>k s. snd (gate_persist_remove (fault k) k s)) ks s) = gs_by_request_id s"
  by (induction ks arbitrary: s) simp_all

lemma gate_inv_exec:
  assumes "gate_inv s"
    and "\<And>rid. op_inserts op = Some rid \<Longrightarrow> hm_get (gs_by_request_id s) rid = None"
  shows "gate_inv (snd (gate_exec op s))"
proof (cases op)
  case (OpInsert fault g)
  have "gate_inv (snd (gate_insert_locked g s))"
    by (rule gate_inv_insert) (use assms OpInsert in \<open>auto simp: op_inserts_def\<close>)
  then show ?thesis
    by (auto simp: OpInsert gate_insert_def intro: gate_inv_frame split: prod.splits sum.splits)
next
  case (OpTake fault now k rid ch)
  have "gate_inv (drop_gate k s)" by (rule gate_inv_drop [OF assms(1)])
  then have "gate_inv (snd (take_verified fault now k rid ch s))"
    using assms(1)
    by (auto simp: take_verified_def take_verified_locked_def intro: gate_inv_frame split: option.splits)
  then show ?thesis
    by (cases "take_verified fault now k rid ch s") (simp add: OpTake split: sum.splits)
next
  case (OpDiscard fault k)
  then show ?thesis
    using gate_inv_drop [OF assms(1), of k] assms(1)
    by (auto simp: gate_discard_def intro: gate_inv_frame split: option.splits)
next
  case (OpExpire fault now)
  have "gate_inv (fold drop_gate (expired_keys now s) s)" by (rule gate_inv_drops [OF assms(1)])
  then show ?thesis
    by (rule gate_inv_frame) (simp_all add: OpExpire gate_expire_stale_def Let_def by_key_persist_fold
        by_request_persist_fold)
qed

section \<open>The file and the memory\<close>

text \<open>
  The file holds every gate of the memory and, for a key that is free in memory, at most a gate
  that has expired. The operations keep this when the file accesses succeed, each operation ends
  before the next one begins and the clock does not run backwards.
\<close>

definition file_agrees :: "time \<Rightarrow> gate_store \<Rightarrow> bool" where
  "file_agrees now s \<longleftrightarrow> hm_keyed pg_key (gs_by_key s) \<and>
     (\<exists>gs. gs_persistence s = Some (GateFile gs) \<and> distinct (map pg_key gs) \<and>
        (\<forall>k g. hm_get (gs_by_key s) k = Some g \<longrightarrow> g \<in> set gs) \<and>
        (\<forall>g \<in> set gs. hm_get (gs_by_key s) (pg_key g) = None \<longrightarrow> pg_is_expired now g))"

fun op_ok :: "gate_op \<Rightarrow> bool" where
  "op_ok (OpInsert fault g) = (fault = None)"
| "op_ok (OpTake fault now k rid ch) = (fault = None)"
| "op_ok (OpDiscard fault k) = (fault = None)"
| "op_ok (OpExpire fault now) = (\<forall>k. fault k = None)"

fun op_time :: "time \<Rightarrow> gate_op \<Rightarrow> time" where
  "op_time now (OpTake _ now' _ _ _) = now'"
| "op_time now (OpExpire _ now') = now'"
| "op_time now _ = now"

fun clock_ok :: "time \<Rightarrow> gate_op list \<Rightarrow> bool" where
  "clock_ok now [] = True"
| "clock_ok now (op # ops) = (now \<le> op_time now op \<and> clock_ok (op_time now op) ops)"

fun last_time :: "time \<Rightarrow> gate_op list \<Rightarrow> time" where
  "last_time now [] = now"
| "last_time now (op # ops) = last_time (op_time now op) ops"

lemma expired_mono: "now \<le> now' \<Longrightarrow> pg_is_expired now g \<Longrightarrow> pg_is_expired now' g"
  by (simp add: pg_is_expired_def)

lemma file_agrees_mono: "file_agrees now s \<Longrightarrow> now \<le> now' \<Longrightarrow> file_agrees now' s"
  unfolding file_agrees_def by (blast intro: expired_mono)

lemma file_agrees_new: "file_agrees now (new_gate_store (Some (GateFile [])))"
  by (simp add: file_agrees_def new_gate_store_def)

lemma distinct_key_unique:
  "distinct (map f xs) \<Longrightarrow> x \<in> set xs \<Longrightarrow> y \<in> set xs \<Longrightarrow> f x = f y \<Longrightarrow> x = y"
  by (metis distinct_map inj_onD)

lemma file_agrees_insert:
  assumes "file_agrees now s"
  shows "file_agrees now (snd (gate_insert None g s))"
proof (cases "hm_get (gs_by_key s) (pg_key g)")
  case None
  from assms obtain gs where gs: "hm_keyed pg_key (gs_by_key s)" "gs_persistence s = Some (GateFile gs)"
      "distinct (map pg_key gs)" "\<forall>k g. hm_get (gs_by_key s) k = Some g \<longrightarrow> g \<in> set gs"
      "\<forall>g \<in> set gs. hm_get (gs_by_key s) (pg_key g) = None \<longrightarrow> pg_is_expired now g"
    by (auto simp: file_agrees_def)
  let ?gs = "filter (\<lambda>x. pg_key x \<noteq> pg_key g) gs @ [g]" and ?s = "snd (gate_insert None g s)"
  have s: "gs_by_key ?s = hm_insert (pg_key g) g (gs_by_key s)" "gs_persistence ?s = Some (GateFile ?gs)"
    using None gs(2) by (simp_all add: gate_insert_def gate_insert_locked_def gate_persist_save_def
        gate_file_save_def rewrite_file_def read_state_def)
  have d: "distinct (map pg_key ?gs)"
    using distinct_filter [OF gs(3), of "\<lambda>k. k \<noteq> pg_key g"] by (auto simp: filter_map comp_def)
  have "\<forall>k h. hm_get (gs_by_key ?s) k = Some h \<longrightarrow> h \<in> set ?gs"
  proof (intro allI impI)
    fix k h
    assume h: "hm_get (gs_by_key ?s) k = Some h"
    then show "h \<in> set ?gs"
      using gs(1,4) None by (cases "k = pg_key g") (auto simp: s(1) dest: hm_keyed_get)
  qed
  moreover have "\<forall>h \<in> set ?gs. hm_get (gs_by_key ?s) (pg_key h) = None \<longrightarrow> pg_is_expired now h"
    using gs(5) by (auto simp: s(1))
  ultimately show ?thesis
    using s(2) d hm_keyed_insert [OF gs(1), of g "pg_key g"] unfolding file_agrees_def s(1) by blast
next
  case (Some h)
  then show ?thesis using assms by (simp add: gate_insert_def gate_insert_locked_def)
qed

lemma file_agrees_drop_remove:
  assumes "file_agrees now s"
  shows "file_agrees now (snd (gate_persist_remove None k (drop_gate k s)))"
proof -
  from assms obtain gs where gs: "hm_keyed pg_key (gs_by_key s)" "gs_persistence s = Some (GateFile gs)"
      "distinct (map pg_key gs)" "\<forall>k g. hm_get (gs_by_key s) k = Some g \<longrightarrow> g \<in> set gs"
      "\<forall>g \<in> set gs. hm_get (gs_by_key s) (pg_key g) = None \<longrightarrow> pg_is_expired now g"
    by (auto simp: file_agrees_def)
  let ?gs = "filter (\<lambda>x. pg_key x \<noteq> k) gs"
  have "gs_persistence (drop_gate k s) = gs_persistence s" by (simp add: drop_gate_def split: option.splits)
  then have p: "gs_persistence (snd (gate_persist_remove None k (drop_gate k s))) = Some (GateFile ?gs)"
    using gs(2) by (simp add: gate_persist_remove_def gate_file_remove_def rewrite_file_def read_state_def)
  have "distinct (map pg_key ?gs)"
    using distinct_filter [OF gs(3), of "\<lambda>x. x \<noteq> k"] by (simp add: filter_map comp_def)
  moreover have "\<forall>k' g. hm_get (hm_remove k (gs_by_key s)) k' = Some g \<longrightarrow> g \<in> set ?gs"
    using gs(1,4) by (auto split: if_splits dest: hm_keyed_get)
  ultimately show ?thesis
    using p gs(1,5) by (auto simp: file_agrees_def)
qed

text \<open>Dropping an expired gate from memory only.\<close>

lemma file_agrees_drop_expired:
  assumes "file_agrees now s" "hm_get (gs_by_key s) k = Some g" "pg_is_expired now g"
  shows "file_agrees now (drop_gate k s)"
proof -
  from assms(1) obtain gs where gs: "hm_keyed pg_key (gs_by_key s)" "gs_persistence s = Some (GateFile gs)"
      "distinct (map pg_key gs)" "\<forall>k g. hm_get (gs_by_key s) k = Some g \<longrightarrow> g \<in> set gs"
      "\<forall>g \<in> set gs. hm_get (gs_by_key s) (pg_key g) = None \<longrightarrow> pg_is_expired now g"
    by (auto simp: file_agrees_def)
  have "pg_key g = k" using gs(1) assms(2) by (rule hm_keyed_get)
  then have "\<forall>h \<in> set gs. pg_key h = k \<longrightarrow> h = g"
    using gs(3,4) assms(2) distinct_key_unique by metis
  moreover have "gs_persistence (drop_gate k s) = gs_persistence s"
    by (simp add: drop_gate_def split: option.splits)
  ultimately show ?thesis
    using gs assms(3) by (auto simp: file_agrees_def split: if_splits)
qed

lemma file_agrees_remove_free:
  assumes "file_agrees now s" "hm_get (gs_by_key s) k = None"
  shows "file_agrees now (snd (gate_persist_remove None k s))"
  using file_agrees_drop_remove [OF assms(1), of k] assms(2) by (simp add: drop_gate_def)

lemma file_agrees_drops:
  assumes "file_agrees now s" "distinct ks"
    and "\<forall>k \<in> set ks. \<exists>g. hm_get (gs_by_key s) k = Some g \<and> pg_is_expired now g"
  shows "file_agrees now (fold drop_gate ks s)"
  using assms
proof (induction ks arbitrary: s)
  case (Cons k ks)
  then obtain g where "hm_get (gs_by_key s) k = Some g" "pg_is_expired now g" by auto
  with Cons.prems(1) have "file_agrees now (drop_gate k s)" by (rule file_agrees_drop_expired)
  moreover have "\<forall>k' \<in> set ks. \<exists>g. hm_get (gs_by_key (drop_gate k s)) k' = Some g \<and> pg_is_expired now g"
    using Cons.prems(2,3) by auto
  ultimately show ?case using Cons.IH Cons.prems(2) by simp
qed simp

lemma file_agrees_removes:
  assumes "file_agrees now s" "\<forall>k \<in> set ks. hm_get (gs_by_key s) k = None" "\<forall>k. fault k = None"
  shows "file_agrees now (fold (\<lambda>k s. snd (gate_persist_remove (fault k) k s)) ks s)"
  using assms
proof (induction ks arbitrary: s)
  case (Cons k ks)
  then have "file_agrees now (snd (gate_persist_remove (fault k) k s))"
    using file_agrees_remove_free by simp
  with Cons show ?case by simp
qed simp

lemma expired_keys_spec:
  assumes "hm_keyed pg_key (gs_by_key s)"
  shows "distinct (expired_keys now s) \<and>
    (\<forall>k \<in> set (expired_keys now s). \<exists>g. hm_get (gs_by_key s) k = Some g \<and> pg_is_expired now g)"
proof -
  have wf: "hm_wf (gs_by_key s)" using assms by (rule hm_keyed_wf)
  then have "distinct (expired_keys now s)" unfolding expired_keys_def by (rule hm_wf_filter)
  moreover have "\<exists>g. hm_get (gs_by_key s) k = Some g \<and> pg_is_expired now g" if "k \<in> set (expired_keys now s)" for k
    using that wf by (auto simp: expired_keys_def intro: map_of_is_SomeI)
  ultimately show ?thesis by blast
qed

lemma file_agrees_exec:
  assumes ag: "file_agrees now s" and "op_ok op" "now \<le> op_time now op"
  shows "file_agrees (op_time now op) (snd (gate_exec op s))"
proof (cases op)
  case (OpInsert fault g)
  with assms show ?thesis by (simp add: file_agrees_insert)
next
  case (OpTake fault now' k rid ch)
  have ag': "file_agrees now' s" using file_agrees_mono [OF ag] assms(3) OpTake by simp
  then have "file_agrees now' (snd (take_verified None now' k rid ch s))"
    using file_agrees_drop_expired file_agrees_drop_remove
    by (auto simp: take_verified_def take_verified_locked_def split: option.splits)
  then show ?thesis
    using assms(2) OpTake by (cases "take_verified None now' k rid ch s") (simp split: sum.splits)
next
  case (OpDiscard fault k)
  with assms show ?thesis
    by (auto simp: gate_discard_def file_agrees_drop_remove split: option.splits)
next
  case (OpExpire fault now')
  have ag': "file_agrees now' s" using file_agrees_mono [OF ag] assms(3) OpExpire by simp
  let ?ks = "expired_keys now' s"
  have "hm_keyed pg_key (gs_by_key s)" using ag by (simp add: file_agrees_def)
  from expired_keys_spec [OF this, of now']
  have "file_agrees now' (fold drop_gate ?ks s)" using file_agrees_drops [OF ag'] by blast
  then have "file_agrees now' (fold (\<lambda>k s. snd (gate_persist_remove (fault k) k s)) ?ks (fold drop_gate ?ks s))"
    using assms(2) OpExpire by (intro file_agrees_removes) (auto simp: by_key_drops get_fold_remove)
  then show ?thesis by (simp add: OpExpire gate_expire_stale_def Let_def)
qed

lemma file_agrees_run:
  "file_agrees now s \<Longrightarrow> list_all op_ok ops \<Longrightarrow> clock_ok now ops \<Longrightarrow>
     file_agrees (last_time now ops) (snd (gate_run ops s))"
proof (induction ops arbitrary: now s)
  case (Cons op ops)
  obtain gs s' where ex: "gate_exec op s = (gs, s')" by fastforce
  have "file_agrees (op_time now op) s'" using file_agrees_exec [of now s op] Cons.prems ex by simp
  then have "file_agrees (last_time (op_time now op) ops) (snd (gate_run ops s'))"
    using Cons.IH Cons.prems by simp
  then show ?case by (cases "gate_run ops s'") (simp add: ex)
qed simp

lemma restore_gates_get:
  assumes "distinct (map pg_key gs)"
  shows "hm_get (gs_by_key (snd (restore_gates now gs (n, s)))) k = Some g \<longleftrightarrow>
     g \<in> set gs \<and> pg_key g = k \<and> \<not> pg_is_expired now g \<or>
     (\<forall>h \<in> set gs. pg_key h = k \<longrightarrow> pg_is_expired now h) \<and> hm_get (gs_by_key s) k = Some g"
  using assms
proof (induction gs arbitrary: n s)
  case (Cons h gs)
  then show ?case
    by (cases "pg_is_expired now h"; cases "pg_key h = k") (auto simp: image_iff)
qed simp

lemma restore_after:
  assumes "file_agrees now s" "now \<le> now'"
  shows "hm_get (gs_by_key (snd (restore_from_persistence None now' (new_gate_store (gs_persistence s))))) k =
     (case hm_get (gs_by_key s) k of
        None \<Rightarrow> None | Some g \<Rightarrow> if pg_is_expired now' g then None else Some g)"
proof -
  from assms(1) obtain gs where gs: "hm_keyed pg_key (gs_by_key s)" "gs_persistence s = Some (GateFile gs)"
      "distinct (map pg_key gs)" "\<forall>k g. hm_get (gs_by_key s) k = Some g \<longrightarrow> g \<in> set gs"
      "\<forall>g \<in> set gs. hm_get (gs_by_key s) (pg_key g) = None \<longrightarrow> pg_is_expired now g"
    by (auto simp: file_agrees_def)
  let ?m = "gs_by_key (snd (restore_from_persistence None now' (new_gate_store (gs_persistence s))))"
  have m: "hm_get ?m k = Some g \<longleftrightarrow> g \<in> set gs \<and> pg_key g = k \<and> \<not> pg_is_expired now' g" for g
    using restore_gates_get [OF gs(3), of now' 0 "new_gate_store (Some (GateFile gs))" k g] gs(2)
    by (simp add: restore_from_persistence_def gate_file_load_all_def read_state_def new_gate_store_def
        case_prod_beta)
  have eq: "hm_get ?m k = Some g \<longleftrightarrow> hm_get (gs_by_key s) k = Some g \<and> \<not> pg_is_expired now' g" for g
    unfolding m
  proof
    assume g: "g \<in> set gs \<and> pg_key g = k \<and> \<not> pg_is_expired now' g"
    then have "\<not> pg_is_expired now g" using expired_mono [OF assms(2)] by blast
    with gs(5) g obtain h where h: "hm_get (gs_by_key s) k = Some h" by blast
    have "h = g"
      by (rule distinct_key_unique [OF gs(3)]) (use h g gs(4) hm_keyed_get [OF gs(1) h] in simp_all)
    with g h show "hm_get (gs_by_key s) k = Some g \<and> \<not> pg_is_expired now' g" by simp
  next
    assume "hm_get (gs_by_key s) k = Some g \<and> \<not> pg_is_expired now' g"
    then show "g \<in> set gs \<and> pg_key g = k \<and> \<not> pg_is_expired now' g"
      using gs(4) hm_keyed_get [OF gs(1)] by blast
  qed
  show ?thesis
  proof (cases "hm_get ?m k")
    case (Some g)
    with eq [of g] show ?thesis by simp
  next
    case None
    then show ?thesis using eq by (simp split: option.splits)
  qed
qed

text \<open>A gate for the witnesses.\<close>

definition example_gate :: "string \<Rightarrow> pending_gate" where
  "example_gate channel =
     \<lparr>pg_request_id = 5, pg_gate_name = ''approval'', pg_user_id = ''alice'', pg_thread_id = 2,
      pg_conversation_id = 3, pg_source_channel = channel, pg_action_name = ''shell'',
      pg_call_id = ''c'', pg_parameters = JNull, pg_display_parameters = None,
      pg_description = ''d'', pg_resume_kind = Approval True, pg_created_at = 0,
      pg_expires_at = 100, pg_original_message = None, pg_resume_output = None\<rparr>"

section \<open>Properties\<close>

text \<open>
  C3. \<open>take_verified\<close> hands out a gate exactly when the store holds it under the key, the request
  identifier is the gate's, the channel is the gate's own or a trusted one and the gate has not
  expired; the key is then free in memory whatever the file does. On every other call but an
  expired one the store is unchanged.
\<close>

theorem take_verified_spec:
  "(fst (take_verified fault now k rid ch s) = Inr g \<longleftrightarrow>
      hm_get (gs_by_key s) k = Some g \<and> pg_request_id g = rid \<and>
      (pg_source_channel g = ch \<or> List.member TRUSTED_GATE_CHANNELS ch) \<and> \<not> pg_is_expired now g) \<and>
   (fst (take_verified fault now k rid ch s) = Inr g \<longrightarrow>
      hm_get (gs_by_key (snd (take_verified fault now k rid ch s))) k = None) \<and>
   (\<forall>e. fst (take_verified fault now k rid ch s) = Inl e \<longrightarrow> e \<noteq> GateExpired \<longrightarrow>
      snd (take_verified fault now k rid ch s) = s)"
  by (rule take_verified_cases [of fault now k rid ch s]) auto

theorem take_verified_spec_witness:
  "let g = example_gate ''signal'';
      s = snd (gate_insert None g (new_gate_store None))
   in fst (take_verified None 10 (pg_key g) 5 ''web'' s) = Inr g \<and>
      hm_get (gs_by_key (snd (take_verified None 10 (pg_key g) 5 ''web'' s))) (pg_key g) = None \<and>
      snd (take_verified None 10 (pg_key g) 5 ''repl'' s) = s"
proof -
  let ?g = "example_gate ''signal''"
  let ?s = "snd (gate_insert None ?g (new_gate_store None))"
  have "fst (take_verified None 10 (pg_key ?g) 5 ''web'' ?s) = Inr ?g" by code_simp
  moreover have "fst (take_verified None 10 (pg_key ?g) 5 ''repl'' ?s) = Inl (ChannelMismatch ''signal'' ''repl'')"
    by code_simp
  ultimately show ?thesis
    using take_verified_spec [of None 10 "pg_key ?g" 5 "''web''" ?s ?g]
      take_verified_spec [of None 10 "pg_key ?g" 5 "''repl''" ?s ?g]
    by (auto simp: Let_def)
qed

text \<open>
  C9. A request is answered at most once: after a gate is stored under a request identifier that
  is not in the store, and however insertions of other requests, answers, discards and expiries
  follow, with or without failures of the file, at most one call of \<open>take_verified\<close> hands out a
  gate with this identifier.
\<close>

theorem gate_taken_at_most_once:
  assumes "held (pg_request_id g) s = {}" "Some (pg_request_id g) \<notin> op_inserts ` set ops"
  shows "length (filter (\<lambda>h. pg_request_id h = pg_request_id g)
           (fst (gate_run (OpInsert fault g # ops) s))) \<le> 1"
proof -
  let ?s = "snd (gate_insert fault g s)"
  have sub: "held (pg_request_id g) ?s \<subseteq> {pg_key g}"
    using assms(1) by (auto simp: held_def by_key_insert split: if_splits)
  have "length (filter (\<lambda>h. pg_request_id h = pg_request_id g) (fst (gate_run ops ?s)))
      \<le> card (held (pg_request_id g) ?s)"
    by (rule gate_run_takes [OF assms(2) sub])
  also have "\<dots> \<le> 1" using card_mono [OF _ sub] by simp
  finally show ?thesis by (simp add: case_prod_beta Let_def)
qed

theorem gate_taken_at_most_once_witness:
  "let g = example_gate ''web'';
      ops = [OpTake None 10 (pg_key g) 5 ''web'', OpTake None 11 (pg_key g) 5 ''web'']
   in fst (gate_run (OpInsert None g # ops) (new_gate_store None)) = [g] \<and>
      length (filter (\<lambda>h. pg_request_id h = 5)
        (fst (gate_run (OpInsert None g # ops) (new_gate_store None)))) \<le> 1"
proof -
  let ?g = "example_gate ''web''"
  let ?ops = "[OpTake None 10 (pg_key ?g) 5 ''web'', OpTake None 11 (pg_key ?g) 5 ''web'']"
  have "length (filter (\<lambda>h. pg_request_id h = pg_request_id ?g)
      (fst (gate_run (OpInsert None ?g # ?ops) (new_gate_store None)))) \<le> 1"
    by (rule gate_taken_at_most_once) (simp_all add: held_def new_gate_store_def op_inserts_def)
  moreover have "pg_request_id ?g = 5" by (simp add: example_gate_def)
  moreover have "fst (gate_run (OpInsert None ?g # ?ops) (new_gate_store None)) = [?g]" by code_simp
  ultimately show ?thesis unfolding Let_def by (simp only: simp_thms)
qed

text \<open>
  From an empty store and file, after any sequence of calls whose file accesses succeed, one
  call ending before the next begins and the clock never running backwards, a restart restores
  exactly the gates that were in memory and have not expired since: an answered or discarded gate
  does not come back.
\<close>

lemma restart_restores_pending:
  assumes "list_all op_ok ops" "clock_ok now ops" "last_time now ops \<le> now'"
  shows "hm_get (gs_by_key (snd (restore_from_persistence None now'
           (new_gate_store (gs_persistence (snd (gate_run ops (new_gate_store (Some (GateFile []))))))))) ) k =
     (case hm_get (gs_by_key (snd (gate_run ops (new_gate_store (Some (GateFile [])))))) k of
        None \<Rightarrow> None | Some g \<Rightarrow> if pg_is_expired now' g then None else Some g)"
  using restore_after [OF file_agrees_run [OF file_agrees_new assms(1,2)] assms(3)] .

lemma restart_restores_pending_witness:
  "let g = example_gate ''web'';
      s = snd (gate_run [OpInsert None g, OpTake None 10 (pg_key g) 5 ''web''] (new_gate_store (Some (GateFile []))))
   in hm_get (gs_by_key (snd (restore_from_persistence None 20 (new_gate_store (gs_persistence s))))) (pg_key g) = None"
proof -
  let ?g = "example_gate ''web''"
  let ?ops = "[OpInsert None ?g, OpTake None 10 (pg_key ?g) 5 ''web'']"
  have "hm_get (gs_by_key (snd (gate_run ?ops (new_gate_store (Some (GateFile [])))))) (pg_key ?g) = None"
    by code_simp
  then show ?thesis
    using restart_restores_pending [of ?ops 0 20 "pg_key ?g"] by (simp add: Let_def)
qed

text \<open>
  The write of the file happens outside the lock, and this loses the previous two facts when
  two calls interleave: a gate that is answered between the locked phase of its insertion and the
  write of its insertion is written to the file after it was removed from it, so that after a
  restart the same request can be answered a second time.
\<close>

lemma answered_gate_comes_back:
  assumes "\<not> pg_is_expired now g" "\<not> pg_is_expired now' g"
  defines "s1 \<equiv> snd (gate_insert_locked g (new_gate_store (Some (GateFile []))))"
  defines "s2 \<equiv> snd (take_verified None now (pg_key g) (pg_request_id g) (pg_source_channel g) s1)"
  defines "s3 \<equiv> snd (gate_persist_save None g s2)"
  defines "s4 \<equiv> snd (restore_from_persistence None now' (new_gate_store (gs_persistence s3)))"
  shows "fst (take_verified None now (pg_key g) (pg_request_id g) (pg_source_channel g) s1) = Inr g \<and>
    fst (take_verified None now' (pg_key g) (pg_request_id g) (pg_source_channel g) s4) = Inr g"
  using assms(1,2)
  by (simp add: s4_def s3_def s2_def s1_def take_verified_def take_verified_locked_def drop_gate_def
      gate_insert_locked_def new_gate_store_def gate_persist_remove_def gate_file_remove_def hm_remove_def
      gate_persist_save_def gate_file_save_def rewrite_file_def read_state_def
      restore_from_persistence_def gate_file_load_all_def)

lemma answered_gate_comes_back_witness:
  "let g = example_gate ''web'';
       s1 = snd (gate_insert_locked g (new_gate_store (Some (GateFile []))));
       s2 = snd (take_verified None 10 (pg_key g) (pg_request_id g) (pg_source_channel g) s1);
       s3 = snd (gate_persist_save None g s2);
       s4 = snd (restore_from_persistence None 20 (new_gate_store (gs_persistence s3)))
   in fst (take_verified None 20 (pg_key g) (pg_request_id g) (pg_source_channel g) s4) = Inr g"
proof -
  have "\<not> pg_is_expired 10 (example_gate ''web'')" "\<not> pg_is_expired 20 (example_gate ''web'')"
    by (simp_all add: pg_is_expired_def example_gate_def)
  from answered_gate_comes_back [OF this] show ?thesis unfolding Let_def by (rule conjunct2)
qed

end
