(* ===== verification/Circuit_Breaker.thy ===== *)
theory Circuit_Breaker
  imports Llm_Types
begin

text \<open>
  The circuit breaker (\<open>src/llm/circuit_breaker.rs\<close>) and the budget around the provider chain
  (\<open>src/llm/timeout.rs\<close>). The mutex of the breaker is released while the wrapped provider works,
  so a call has an atomic step before the request and one after it, and the steps of several calls
  interleave. The model is of a release build, in which \<open>debug_assert!\<close> is absent. The interface
  of the layers of the chain is the locale \<open>llm_layer\<close>.
\<close>

section \<open>Layers\<close>

text \<open>
  A provider is a step on a state. A layer has a state of its own and turns a provider into a
  provider; what every layer of the chain promises is that, as long as it is ready, it hands on
  the response of a provider that answers, and stays ready. Two layers make a layer.
\<close>

type_synonym ('s, 'r) provider = "'s \<Rightarrow> (llm_error + 'r) \<times> 's"

locale llm_layer =
  fixes wrap :: "('s, 'r) provider \<Rightarrow> ('w \<times> 's, 'r) provider"
    and ready :: "'w \<Rightarrow> bool"
  assumes transparent: "ready w \<Longrightarrow> inner s = (Inr r, s') \<Longrightarrow>
      \<exists>w'. wrap inner (w, s) = (Inr r, (w', s')) \<and> ready w'"

locale llm_two_layers =
  lower: llm_layer wrap1 ready1 + upper: llm_layer wrap2 ready2
  for wrap1 :: "('s, 'r) provider \<Rightarrow> ('v \<times> 's, 'r) provider" and ready1
    and wrap2 :: "('v \<times> 's, 'r) provider \<Rightarrow> ('w \<times> ('v \<times> 's), 'r) provider" and ready2
begin

lemma both_transparent:
  assumes "ready1 v" "ready2 w" "inner s = (Inr r, s')"
  shows "\<exists>v' w'. wrap2 (wrap1 inner) (w, (v, s)) = (Inr r, (w', (v', s'))) \<and> ready1 v' \<and> ready2 w'"
proof -
  obtain v' where v: "wrap1 inner (v, s) = (Inr r, (v', s'))" "ready1 v'"
    using lower.transparent [of v inner s r s'] assms(1,3) by blast
  from upper.transparent [of w "wrap1 inner" "(v, s)" r "(v', s')"] v assms(2) show ?thesis by blast
qed

end

section \<open>The breaker\<close>

record breaker_config =
  bc_failure_threshold :: u32
  bc_recovery_timeout :: nat
  bc_half_open_successes_needed :: u32

definition default_breaker_config :: breaker_config where
  "default_breaker_config =
     \<lparr>bc_failure_threshold = 5, bc_recovery_timeout = 30 * 1000000000, bc_half_open_successes_needed = 2\<rparr>"

datatype circuit_state = CbClosed | CbOpen | CbHalfOpen

record breaker_state =
  bs_state :: circuit_state
  bs_consecutive_failures :: u32
  bs_opened_at :: "time option"
  bs_half_open_successes :: u32

definition new_breaker_state :: breaker_state where
  "new_breaker_state =
     \<lparr>bs_state = CbClosed, bs_consecutive_failures = 0, bs_opened_at = None, bs_half_open_successes = 0\<rparr>"

text \<open>\<open>Instant::elapsed\<close> is zero before the instant.\<close>

definition elapsed_since :: "time \<Rightarrow> time \<Rightarrow> nat" where
  "elapsed_since now t = nat (now - t)"

text \<open>Seconds with the format \<open>{:.0}\<close>: to the nearest, ties to the even number.\<close>

definition show_secs :: "nat \<Rightarrow> string" where
  "show_secs ns =
     (let q = ns div 1000000000; r = ns mod 1000000000
      in show_nat (if r < 500000000 \<or> r = 500000000 \<and> even q then q else q + 1))"

text \<open>\<open>now'\<close> is the clock at the second call of \<open>elapsed\<close>, for the message.\<close>

definition breaker_check_allowed ::
    "breaker_config \<Rightarrow> string \<Rightarrow> time \<Rightarrow> time \<Rightarrow> breaker_state \<Rightarrow> (llm_error + unit) \<times> breaker_state" where
  "breaker_check_allowed cfg model now now' st =
     (case bs_state st of
        CbClosed \<Rightarrow> (Inr (), st)
      | CbHalfOpen \<Rightarrow> (Inr (), st)
      | CbOpen \<Rightarrow>
          (case bs_opened_at st of
             Some t \<Rightarrow>
               if elapsed_since now t \<ge> bc_recovery_timeout cfg
               then (Inr (), st\<lparr>bs_state := CbHalfOpen, bs_half_open_successes := 0\<rparr>)
               else (Inl (RequestFailed model (''Circuit breaker open (''
                       @ show_nat (unat (bs_consecutive_failures st))
                       @ '' consecutive failures, recovery in ''
                       @ show_secs (bc_recovery_timeout cfg - elapsed_since now' t) @ ''s)'')), st)
           | None \<Rightarrow> (Inr (), st\<lparr>bs_state := CbClosed\<rparr>)))"

definition breaker_record_success :: "breaker_config \<Rightarrow> breaker_state \<Rightarrow> breaker_state" where
  "breaker_record_success cfg st =
     (case bs_state st of
        CbClosed \<Rightarrow> st\<lparr>bs_consecutive_failures := 0\<rparr>
      | CbHalfOpen \<Rightarrow>
          let st1 = st\<lparr>bs_half_open_successes := bs_half_open_successes st + 1\<rparr>
          in if bs_half_open_successes st1 \<ge> bc_half_open_successes_needed cfg
             then st1\<lparr>bs_state := CbClosed, bs_consecutive_failures := 0, bs_opened_at := None\<rparr>
             else st1
      | CbOpen \<Rightarrow> st\<lparr>bs_state := CbClosed, bs_consecutive_failures := 0, bs_opened_at := None\<rparr>)"

fun is_transient :: "llm_error \<Rightarrow> bool" where
  "is_transient (RequestFailed _ _) = True"
| "is_transient (RateLimited _ _) = True"
| "is_transient (InvalidResponse _ _) = True"
| "is_transient (SessionExpired _) = True"
| "is_transient (SessionRenewalFailed _ _) = True"
| "is_transient (HttpErr _) = True"
| "is_transient (IoErr _) = True"
| "is_transient _ = False"

definition breaker_record_failure ::
    "breaker_config \<Rightarrow> time \<Rightarrow> llm_error \<Rightarrow> breaker_state \<Rightarrow> breaker_state" where
  "breaker_record_failure cfg now err st =
     (if \<not> is_transient err then st
      else case bs_state st of
        CbClosed \<Rightarrow>
          let st1 = st\<lparr>bs_consecutive_failures := bs_consecutive_failures st + 1\<rparr>
          in if bs_consecutive_failures st1 \<ge> bc_failure_threshold cfg
             then st1\<lparr>bs_state := CbOpen, bs_opened_at := Some now\<rparr> else st1
      | CbHalfOpen \<Rightarrow> st\<lparr>bs_state := CbOpen, bs_opened_at := Some now, bs_half_open_successes := 0\<rparr>
      | CbOpen \<Rightarrow> st)"

text \<open>
  One call that no other call interleaves with; \<open>clk\<close> gives the clock at the check, in its
  message and after the request.
\<close>

definition breaker_complete ::
    "breaker_config \<Rightarrow> string \<Rightarrow> (nat \<Rightarrow> time) \<Rightarrow> ('s, 'r) provider \<Rightarrow> (breaker_state \<times> 's, 'r) provider" where
  "breaker_complete cfg model clk inner = (\<lambda>(st, s).
     case breaker_check_allowed cfg model (clk 0) (clk 1) st of
       (Inl e, st1) \<Rightarrow> (Inl e, (st1, s))
     | (Inr _, st1) \<Rightarrow>
         (case inner s of
            (Inr r, s') \<Rightarrow> (Inr r, (breaker_record_success cfg st1, s'))
          | (Inl e, s') \<Rightarrow> (Inl e, (breaker_record_failure cfg (clk 2) e st1, s'))))"

section \<open>The budget\<close>

definition elapsed_error :: "string \<Rightarrow> nat \<Rightarrow> llm_error" where
  "elapsed_error model budget =
     RequestFailed model (''LLM call exceeded the '' @ show_nat (budget div 1000000000)
       @ ''s turn budget (backend hung or retries stacked); failed gracefully so the turn can recover'')"

text \<open>
  The wrapped call ends within the budget with a result and a state, or is dropped where it waits:
  \<open>dropped\<close> is the state at that point.
\<close>

datatype ('s, 'r) timed_call = InTime "llm_error + 'r" 's | Dropped 's

definition timeout_complete :: "string \<Rightarrow> nat \<Rightarrow> ('s, 'r) timed_call \<Rightarrow> (llm_error + 'r) \<times> 's" where
  "timeout_complete model budget c =
     (case c of InTime r s \<Rightarrow> (r, s) | Dropped s \<Rightarrow> (Inl (elapsed_error model budget), s))"

text \<open>A call through the breaker whose request does not return in time is dropped after the check.\<close>

definition breaker_hung ::
    "breaker_config \<Rightarrow> string \<Rightarrow> (nat \<Rightarrow> time) \<Rightarrow> breaker_state \<times> 's \<Rightarrow> (breaker_state \<times> 's, 'r) timed_call" where
  "breaker_hung cfg model clk = (\<lambda>(st, s).
     case breaker_check_allowed cfg model (clk 0) (clk 1) st of
       (Inl e, st1) \<Rightarrow> InTime (Inl e) (st1, s) | (Inr _, st1) \<Rightarrow> Dropped (st1, s))"

section \<open>Interleaved calls\<close>

text \<open>
  The atomic steps of any number of calls, in the order in which they take the mutex. A success or
  failure belongs to a call that was allowed earlier; the number counts those still open. A call
  that is dropped by the budget ends without a record.
\<close>

inductive breaker_reach :: "breaker_config \<Rightarrow> nat \<Rightarrow> breaker_state \<Rightarrow> bool" for cfg where
  br_new: "breaker_reach cfg 0 new_breaker_state"
| br_allowed: "breaker_reach cfg n st \<Longrightarrow> breaker_check_allowed cfg m now now' st = (Inr (), st') \<Longrightarrow>
    breaker_reach cfg (Suc n) st'"
| br_refused: "breaker_reach cfg n st \<Longrightarrow> breaker_check_allowed cfg m now now' st = (Inl e, st') \<Longrightarrow>
    breaker_reach cfg n st'"
| br_success: "breaker_reach cfg (Suc n) st \<Longrightarrow> breaker_reach cfg n (breaker_record_success cfg st)"
| br_failure: "breaker_reach cfg (Suc n) st \<Longrightarrow> breaker_reach cfg n (breaker_record_failure cfg now err st)"
| br_dropped: "breaker_reach cfg (Suc n) st \<Longrightarrow> breaker_reach cfg n st"

inductive_cases breaker_reachE: "breaker_reach cfg n st"

definition breaker_inv :: "breaker_config \<Rightarrow> breaker_state \<Rightarrow> bool" where
  "breaker_inv cfg st \<longleftrightarrow>
     (case bs_state st of
        CbClosed \<Rightarrow> bs_opened_at st = None \<and>
          (bs_consecutive_failures st < bc_failure_threshold cfg \<or> bs_consecutive_failures st = 0)
      | CbOpen \<Rightarrow> bs_opened_at st \<noteq> None
      | CbHalfOpen \<Rightarrow> bs_opened_at st \<noteq> None \<and>
          (bs_half_open_successes st < bc_half_open_successes_needed cfg \<or> bs_half_open_successes st = 0))"

lemma breaker_check_inv:
  "breaker_inv cfg st \<Longrightarrow> breaker_inv cfg (snd (breaker_check_allowed cfg m now now' st))"
  by (auto simp: breaker_inv_def breaker_check_allowed_def split: circuit_state.splits option.splits)

lemma breaker_success_inv: "breaker_inv cfg st \<Longrightarrow> breaker_inv cfg (breaker_record_success cfg st)"
  by (auto simp: breaker_inv_def breaker_record_success_def Let_def split: circuit_state.splits)

lemma breaker_failure_inv: "breaker_inv cfg st \<Longrightarrow> breaker_inv cfg (breaker_record_failure cfg now err st)"
  by (auto simp: breaker_inv_def breaker_record_failure_def Let_def split: circuit_state.splits)

lemma breaker_reach_inv: "breaker_reach cfg n st \<Longrightarrow> breaker_inv cfg st"
proof (induction rule: breaker_reach.induct)
  case br_new
  then show ?case by (simp add: breaker_inv_def new_breaker_state_def)
next
  case (br_allowed n st m now now' st')
  then show ?case using breaker_check_inv by (metis snd_conv)
next
  case (br_refused n st m now now' e st')
  then show ?case using breaker_check_inv by (metis snd_conv)
qed (auto intro: breaker_success_inv breaker_failure_inv)

interpretation br_layer: llm_layer "breaker_complete cfg model clk" "\<lambda>st. bs_state st = CbClosed"
proof
  fix w :: breaker_state and inner :: "('s, 'r) provider" and s r s'
  assume "bs_state w = CbClosed" "inner s = (Inr r, s')"
  then show "\<exists>w'. breaker_complete cfg model clk inner (w, s) = (Inr r, (w', s')) \<and> bs_state w' = CbClosed"
    by (simp add: breaker_complete_def breaker_check_allowed_def breaker_record_success_def)
qed

section \<open>Sessions\<close>

text \<open>Calls one after the other, each with its clock and the outcome the provider would give.\<close>

fun breaker_session ::
    "breaker_config \<Rightarrow> string \<Rightarrow> ((nat \<Rightarrow> time) \<times> (llm_error + 'r)) list \<Rightarrow> breaker_state \<Rightarrow>
     (llm_error + 'r) list \<times> breaker_state" where
  "breaker_session cfg model [] st = ([], st)"
| "breaker_session cfg model ((clk, outcome) # cs) st =
     (let (r, (st', _)) = breaker_complete cfg model clk (\<lambda>s. (outcome, s)) (st, ());
          (rs, st'') = breaker_session cfg model cs st'
      in (r # rs, st''))"

lemma session_failures:
  assumes "bs_state st = CbClosed"
    and "\<forall>c \<in> set cs. \<exists>e. snd c = Inl e \<and> is_transient e"
    and "unat (bs_consecutive_failures st) + length cs < unat (bc_failure_threshold cfg)"
  shows "fst (breaker_session cfg model cs st) = map snd cs \<and>
    bs_state (snd (breaker_session cfg model cs st)) = CbClosed \<and>
    unat (bs_consecutive_failures (snd (breaker_session cfg model cs st)))
      = unat (bs_consecutive_failures st) + length cs"
  using assms
proof (induction cs arbitrary: st)
  case (Cons c cs)
  obtain clk e where c: "c = (clk, Inl e)" "is_transient e" using Cons.prems(2) by (cases c) auto
  let ?st = "st\<lparr>bs_consecutive_failures := bs_consecutive_failures st + 1\<rparr>"
  have u: "unat (bs_consecutive_failures ?st) = unat (bs_consecutive_failures st) + 1"
    using Cons.prems(3) unat_plus_one_u32 [of "bs_consecutive_failures st" "bc_failure_threshold cfg"]
    by (simp add: word_less_nat_alt)
  then have "\<not> bs_consecutive_failures st + 1 \<ge> bc_failure_threshold cfg"
    using Cons.prems(3) by (simp add: word_le_nat_alt)
  then have call: "breaker_complete cfg model clk (\<lambda>s. (Inl e :: llm_error + 'a, s)) (st, ()) = (Inl e, (?st, ()))"
    using Cons.prems(1) c(2)
    by (simp add: breaker_complete_def breaker_check_allowed_def breaker_record_failure_def)
  have "fst (breaker_session cfg model cs ?st) = map snd cs \<and>
      bs_state (snd (breaker_session cfg model cs ?st)) = CbClosed \<and>
      unat (bs_consecutive_failures (snd (breaker_session cfg model cs ?st)))
        = unat (bs_consecutive_failures ?st) + length cs"
    using Cons.IH [of ?st] Cons.prems u by simp
  then show ?case using call u c(1) by (simp add: case_prod_beta)
qed simp

lemma session_append:
  "breaker_session cfg model (cs @ ds) st =
     (let (rs, st') = breaker_session cfg model cs st; (rs', st'') = breaker_session cfg model ds st'
      in (rs @ rs', st''))"
  by (induction cs arbitrary: st) (auto simp: case_prod_beta Let_def)

lemma session_last_failure:
  assumes "bs_state st = CbClosed" "is_transient e"
    and "unat (bs_consecutive_failures st) + 1 = unat (bc_failure_threshold cfg)"
  shows "breaker_session cfg model [(clk, Inl e :: llm_error + 'r)] st =
    ([Inl e], st\<lparr>bs_consecutive_failures := bc_failure_threshold cfg, bs_state := CbOpen,
                 bs_opened_at := Some (clk 2)\<rparr>)"
proof -
  have "unat (bs_consecutive_failures st + 1) = unat (bc_failure_threshold cfg)"
    using assms(3) unat_plus_one_u32 [of "bs_consecutive_failures st" "bc_failure_threshold cfg"]
    by (simp add: word_less_nat_alt)
  then have "bs_consecutive_failures st + 1 = bc_failure_threshold cfg" by (simp add: word_unat_eq_iff)
  with assms(1,2) show ?thesis
    by (simp add: breaker_complete_def breaker_check_allowed_def breaker_record_failure_def)
qed

text \<open>While the breaker is open every call is refused and the provider is not asked.\<close>

lemma session_refused:
  assumes "bs_state st = CbOpen" "bs_opened_at st = Some t"
    and "\<forall>c \<in> set cs. elapsed_since (fst c 0) t < bc_recovery_timeout cfg"
  shows "snd (breaker_session cfg model cs st) = st \<and>
    (\<forall>r \<in> set (fst (breaker_session cfg model cs st)). \<exists>m. r = Inl (RequestFailed model m))"
  using assms(3)
proof (induction cs)
  case (Cons c cs)
  obtain clk o' where c: "c = (clk, o')" by (cases c)
  obtain m where "breaker_complete cfg model clk (\<lambda>s. (o', s)) (st, ()) = (Inl (RequestFailed model m), (st, ()))"
    using assms(1,2) Cons.prems c by (auto simp: breaker_complete_def breaker_check_allowed_def)
  with Cons c show ?case by (auto simp: case_prod_beta)
qed simp

lemma session_recovers_half_open:
  assumes "bs_state st = CbHalfOpen" "\<forall>c \<in> set cs. \<exists>r. snd c = Inr r"
    and "unat (bs_half_open_successes st) + length cs = unat (bc_half_open_successes_needed cfg)" "cs \<noteq> []"
  shows "fst (breaker_session cfg model cs st) = map snd cs \<and>
    bs_state (snd (breaker_session cfg model cs st)) = CbClosed \<and>
    bs_consecutive_failures (snd (breaker_session cfg model cs st)) = 0"
  using assms
proof (induction cs arbitrary: st)
  case (Cons c cs)
  obtain clk r where c: "c = (clk, Inr r)" using Cons.prems(2) by (cases c) auto
  let ?h = "bs_half_open_successes st + 1" and ?n = "bc_half_open_successes_needed cfg"
  have u: "unat ?h = unat (bs_half_open_successes st) + 1"
    using Cons.prems(3) unat_plus_one_u32 [of "bs_half_open_successes st" ?n] by (simp add: word_less_nat_alt)
  show ?case
  proof (cases "cs = []")
    case True
    then have "?h \<ge> ?n" using u Cons.prems(3) by (simp add: word_le_nat_alt)
    then show ?thesis
      using True c Cons.prems(1)
      by (simp add: breaker_complete_def breaker_check_allowed_def breaker_record_success_def Let_def)
  next
    case False
    let ?st = "st\<lparr>bs_half_open_successes := ?h\<rparr>"
    have "unat ?h < unat ?n" using u Cons.prems(3) False by (cases cs) simp_all
    then have "\<not> ?h \<ge> ?n" by (simp add: word_le_nat_alt)
    then have "breaker_complete cfg model clk (\<lambda>s. (Inr r :: llm_error + 'a, s)) (st, ()) = (Inr r, (?st, ()))"
      using Cons.prems(1)
      by (simp add: breaker_complete_def breaker_check_allowed_def breaker_record_success_def Let_def)
    moreover have "fst (breaker_session cfg model cs ?st) = map snd cs \<and>
        bs_state (snd (breaker_session cfg model cs ?st)) = CbClosed \<and>
        bs_consecutive_failures (snd (breaker_session cfg model cs ?st)) = 0"
      using Cons.IH [of ?st] Cons.prems u False by simp
    ultimately show ?thesis using c by (simp add: case_prod_beta)
  qed
qed simp

lemma session_recovers:
  assumes "bs_state st = CbOpen" "bs_opened_at st = Some t" "\<forall>c \<in> set cs. \<exists>r. snd c = Inr r"
    and "cs \<noteq> []" "length cs = unat (bc_half_open_successes_needed cfg)"
    and "elapsed_since (fst (hd cs) 0) t \<ge> bc_recovery_timeout cfg"
  shows "fst (breaker_session cfg model cs st) = map snd cs \<and>
    bs_state (snd (breaker_session cfg model cs st)) = CbClosed \<and>
    bs_consecutive_failures (snd (breaker_session cfg model cs st)) = 0"
proof -
  obtain clk r ds where cs: "cs = (clk, Inr r) # ds" using assms(3,4) by (cases cs) auto
  let ?st = "st\<lparr>bs_state := CbHalfOpen, bs_half_open_successes := 0\<rparr>"
  have "breaker_session cfg model cs st = breaker_session cfg model cs ?st"
    using assms(1,2,6) cs by (simp add: breaker_complete_def breaker_check_allowed_def)
  with session_recovers_half_open [of ?st cs cfg model] assms(3,4,5) show ?thesis by simp
qed

section \<open>What the breaker does not see\<close>

lemma reach_flights: "breaker_reach cfg n new_breaker_state"
proof (induction n)
  case (Suc n)
  then show ?case
    by (rule br_allowed) (simp add: breaker_check_allowed_def new_breaker_state_def)
qed (rule br_new)

lemma reach_failures:
  "k < unat (bc_failure_threshold cfg) \<Longrightarrow>
     breaker_reach cfg n (new_breaker_state\<lparr>bs_consecutive_failures := word_of_nat k\<rparr>)"
proof (induction k arbitrary: n)
  case 0
  then show ?case using reach_flights [of cfg n] by (simp add: new_breaker_state_def)
next
  case (Suc k)
  let ?st = "new_breaker_state\<lparr>bs_consecutive_failures := word_of_nat k\<rparr>"
  have r: "breaker_reach cfg n (breaker_record_failure cfg 0 (HttpErr []) ?st)"
    using Suc by (intro br_failure) simp
  have b: "unat (bc_failure_threshold cfg) < 2 ^ 32" using unsigned_less [of "bc_failure_threshold cfg"] by simp
  have "unat (word_of_nat (Suc k) :: u32) = Suc k"
    using Suc.prems b by (simp add: unat_of_nat take_bit_nat_eq_self del: of_nat_Suc)
  then have "\<not> word_of_nat k + 1 \<ge> bc_failure_threshold cfg"
    using Suc.prems by (simp add: word_le_nat_alt add.commute)
  then have "breaker_record_failure cfg 0 (HttpErr []) ?st
      = new_breaker_state\<lparr>bs_consecutive_failures := word_of_nat (Suc k)\<rparr>"
    by (simp add: breaker_record_failure_def new_breaker_state_def add.commute)
  with r show ?case by simp
qed

lemma reach_open_in_flight:
  assumes "0 < bc_failure_threshold cfg"
  shows "breaker_reach cfg 1 (new_breaker_state\<lparr>bs_consecutive_failures := bc_failure_threshold cfg,
           bs_state := CbOpen, bs_opened_at := Some now\<rparr>)"
proof -
  let ?k = "unat (bc_failure_threshold cfg) - 1"
  let ?st = "new_breaker_state\<lparr>bs_consecutive_failures := word_of_nat ?k\<rparr>"
  have pos: "0 < unat (bc_failure_threshold cfg)" using assms by (simp add: word_less_nat_alt)
  have r: "breaker_reach cfg 1 (breaker_record_failure cfg now (HttpErr []) ?st)"
    using pos reach_failures [of ?k cfg 2] by (intro br_failure) (simp add: numeral_2_eq_2)
  have "(word_of_nat ?k :: u32) + 1 = word_of_nat (Suc ?k)" by (simp add: add.commute)
  also have "\<dots> = bc_failure_threshold cfg" using pos by simp
  finally have "(word_of_nat ?k :: u32) + 1 = bc_failure_threshold cfg" .
  then have "breaker_record_failure cfg now (HttpErr []) ?st = new_breaker_state
      \<lparr>bs_consecutive_failures := bc_failure_threshold cfg, bs_state := CbOpen, bs_opened_at := Some now\<rparr>"
    by (simp add: breaker_record_failure_def new_breaker_state_def)
  with r show ?thesis by simp
qed

section \<open>Properties\<close>

text \<open>
  C14. A provider that fails as often as the threshold, with transient errors and no success in
  between, opens the breaker, not one failure earlier; every caller gets the provider's error.
  From then on every call that checks before the recovery timeout has passed is refused without
  reaching the provider and changes nothing, and after it, as many successful calls as are needed
  close the breaker and reset its count.
\<close>

theorem breaker_trips_and_recovers:
  fixes cs ds es :: "((nat \<Rightarrow> time) \<times> (llm_error + 'a)) list"
  assumes fails: "\<forall>c \<in> set cs. \<exists>e. snd c = Inl e \<and> is_transient e" "cs \<noteq> []"
    and len: "length cs = unat (bc_failure_threshold cfg)"
    and opened: "t = fst (last cs) 2"
    and refused: "\<forall>c \<in> set ds. elapsed_since (fst c 0) t < bc_recovery_timeout cfg"
    and probes: "\<forall>c \<in> set es. \<exists>r. snd c = Inr r" "es \<noteq> []"
      "length es = unat (bc_half_open_successes_needed cfg)"
      "elapsed_since (fst (hd es) 0) t \<ge> bc_recovery_timeout cfg"
  shows "bs_state (snd (breaker_session cfg model (butlast cs) new_breaker_state)) = CbClosed \<and>
    fst (breaker_session cfg model cs new_breaker_state) = map snd cs \<and>
    (let st = snd (breaker_session cfg model cs new_breaker_state) in
       bs_state st = CbOpen \<and> bs_opened_at st = Some t \<and>
       snd (breaker_session cfg model ds st) = st \<and>
       (\<forall>r \<in> set (fst (breaker_session cfg model ds st)). \<exists>m. r = Inl (RequestFailed model m)) \<and>
       fst (breaker_session cfg model es st) = map snd es \<and>
       bs_state (snd (breaker_session cfg model es st)) = CbClosed \<and>
       bs_consecutive_failures (snd (breaker_session cfg model es st)) = 0)"
proof -
  obtain bs clk e where cs: "cs = bs @ [(clk, Inl e)]" "is_transient e"
    using fails by (cases cs rule: rev_cases) auto
  let ?s = "snd (breaker_session cfg model bs new_breaker_state)"
  have bs: "fst (breaker_session cfg model bs new_breaker_state) = map snd bs" "bs_state ?s = CbClosed"
    "unat (bs_consecutive_failures ?s) = length bs"
    using session_failures [of new_breaker_state bs cfg model] fails(1) len cs(1)
    by (simp_all add: new_breaker_state_def)
  let ?o = "?s\<lparr>bs_consecutive_failures := bc_failure_threshold cfg, bs_state := CbOpen,
      bs_opened_at := Some (clk 2)\<rparr>"
  have "breaker_session cfg model [(clk, Inl e :: llm_error + 'a)] ?s = ([Inl e], ?o)"
    by (rule session_last_failure [OF bs(2) cs(2)]) (use bs(3) len cs(1) in simp)
  then have s: "breaker_session cfg model cs new_breaker_state = (map snd cs, ?o)"
    using bs(1) cs(1) by (simp add: session_append case_prod_beta del: breaker_session.simps(2))
  have o: "bs_state ?o = CbOpen" "bs_opened_at ?o = Some t" using opened cs(1) by simp_all
  from session_refused [OF o refused, of model] session_recovers [OF o probes, of model] bs(2) cs(1) s o
  show ?thesis by (simp add: Let_def del: breaker_session.simps)
qed

definition failing_calls :: "((nat \<Rightarrow> time) \<times> (llm_error + string)) list" where
  "failing_calls = [(\<lambda>i. 1, Inl (HttpErr [])), (\<lambda>i. 2, Inl (HttpErr []))]"

theorem breaker_trips_and_recovers_witness:
  "let cfg = \<lparr>bc_failure_threshold = 2, bc_recovery_timeout = 10, bc_half_open_successes_needed = 1\<rparr>;
       st = snd (breaker_session cfg ''m'' failing_calls new_breaker_state)
   in bs_state st = CbOpen \<and>
      snd (breaker_session cfg ''m'' [(\<lambda>i. 5, Inr ''x'')] st) = st \<and>
      fst (breaker_session cfg ''m'' [(\<lambda>i. 12, Inr ''x'')] st) = [Inr ''x'']"
proof -
  let ?cfg = "\<lparr>bc_failure_threshold = 2, bc_recovery_timeout = 10, bc_half_open_successes_needed = 1\<rparr>"
  note run = breaker_trips_and_recovers [where cs = failing_calls and t = 2 and cfg = ?cfg and model = "''m''"
      and ds = "[(\<lambda>i. 5, Inr ''x'')]" and es = "[(\<lambda>i. 12, Inr ''x'')]"]
  have "\<forall>c \<in> set failing_calls. \<exists>e. snd c = Inl e \<and> is_transient e" "failing_calls \<noteq> []"
    "length failing_calls = unat (bc_failure_threshold ?cfg)" "2 = fst (last failing_calls) 2"
    by (simp_all add: failing_calls_def)
  note * = run [OF this]
  show ?thesis
    using * by (simp add: elapsed_since_def Let_def del: breaker_session.simps)
qed

text \<open>
  Two things the breaker does not see, for every configuration with a positive threshold.
  First, a call that was allowed while the breaker was closed may succeed after other calls have
  opened it: this state, which the code takes for impossible, is reached, and the success closes
  the breaker at once, without the timeout and without a probe. Second, a call that the turn
  budget drops leaves no record: a provider that hangs on every call never opens the breaker.
\<close>

lemma breaker_blind_spots:
  assumes "0 < bc_failure_threshold cfg"
  shows "(\<exists>st. breaker_reach cfg 1 st \<and> bs_state st = CbOpen \<and> bs_opened_at st = Some now \<and>
       breaker_reach cfg 0 (breaker_record_success cfg st) \<and>
       bs_state (breaker_record_success cfg st) = CbClosed \<and>
       bs_consecutive_failures (breaker_record_success cfg st) = 0) \<and>
    (bs_state st' = CbClosed \<longrightarrow>
       timeout_complete model budget (breaker_hung cfg model clk (st', s))
         = (Inl (elapsed_error model budget) :: llm_error + 'r, (st', s)))"
proof
  let ?st = "new_breaker_state\<lparr>bs_consecutive_failures := bc_failure_threshold cfg,
           bs_state := CbOpen, bs_opened_at := Some now\<rparr>"
  have r: "breaker_reach cfg 1 ?st" by (rule reach_open_in_flight [OF assms])
  then have "breaker_reach cfg 0 (breaker_record_success cfg ?st)" by (intro br_success) simp
  with r show "\<exists>st. breaker_reach cfg 1 st \<and> bs_state st = CbOpen \<and> bs_opened_at st = Some now \<and>
       breaker_reach cfg 0 (breaker_record_success cfg st) \<and>
       bs_state (breaker_record_success cfg st) = CbClosed \<and>
       bs_consecutive_failures (breaker_record_success cfg st) = 0"
    by (intro exI [of _ ?st]) (simp add: breaker_record_success_def)
  show "bs_state st' = CbClosed \<longrightarrow>
       timeout_complete model budget (breaker_hung cfg model clk (st', s))
         = (Inl (elapsed_error model budget) :: llm_error + 'r, (st', s))"
    by (simp add: timeout_complete_def breaker_hung_def breaker_check_allowed_def)
qed

lemma breaker_blind_spots_witness:
  "(\<exists>st. breaker_reach default_breaker_config 1 st \<and> bs_state st = CbOpen \<and>
      bs_state (breaker_record_success default_breaker_config st) = CbClosed) \<and>
   timeout_complete ''m'' 5 (breaker_hung default_breaker_config ''m'' (\<lambda>_. 0) (new_breaker_state, ()))
     = (Inl (elapsed_error ''m'' 5) :: llm_error + string, (new_breaker_state, ()))"
proof -
  have p: "0 < bc_failure_threshold default_breaker_config" by (simp add: default_breaker_config_def)
  have c: "bs_state new_breaker_state = CbClosed" by (simp add: new_breaker_state_def)
  from breaker_blind_spots [OF p, where now = 0 and st' = new_breaker_state and model = "''m''"
      and budget = 5 and clk = "\<lambda>_. 0" and s = "()" and ?'r = string] c
  show ?thesis by blast
qed

end
