(* ===== verification/Llm_Retry.thy ===== *)
theory Llm_Retry
  imports Circuit_Breaker
begin

text \<open>
  Retries of one provider (\<open>src/llm/retry.rs\<close>) and failover between several
  (\<open>src/llm/failover.rs\<close>). Arithmetic on machine integers is written out: \<open>saturating_mul\<close> and
  \<open>saturating_pow\<close> stop at the largest value, a cast to \<open>i64\<close> reinterprets and an addition of
  \<open>i64\<close> values wraps around. The random offset of a delay is an argument. Time is in nanoseconds
  except where the name says milliseconds.
\<close>

section \<open>Delays\<close>

fun is_retryable :: "llm_error \<Rightarrow> bool" where
  "is_retryable (RequestFailed _ _) = True"
| "is_retryable (RateLimited _ _) = True"
| "is_retryable (InvalidResponse _ _) = True"
| "is_retryable (SessionRenewalFailed _ _) = True"
| "is_retryable (HttpErr _) = True"
| "is_retryable (IoErr _) = True"
| "is_retryable _ = False"

definition u64_max :: nat where
  "u64_max = 2 ^ 64 - 1"

definition as_i64 :: "nat \<Rightarrow> int" where
  "as_i64 n = (if n < 2 ^ 63 then int n else int n - 2 ^ 64)"

definition wrap_i64 :: "int \<Rightarrow> int" where
  "wrap_i64 i = (i + 2 ^ 63) mod 2 ^ 64 - 2 ^ 63"

definition backoff_base_ms :: "nat \<Rightarrow> nat" where
  "backoff_base_ms attempt = min u64_max (1000 * min u64_max (2 ^ attempt))"

text \<open>\<open>offset\<close> is the number drawn from \<open>0..=jitter_range * 2\<close>.\<close>

definition retry_backoff_delay_ms :: "nat \<Rightarrow> nat \<Rightarrow> nat" where
  "retry_backoff_delay_ms offset attempt =
     (let base_ms = backoff_base_ms attempt;
          jitter_range = base_ms div 4;
          jitter = (if jitter_range > 0 then wrap_i64 (as_i64 offset - as_i64 jitter_range) else 0)
      in nat (max 100 (wrap_i64 (as_i64 base_ms + jitter))))"

definition MAX_RETRY_AFTER_SECS :: nat where
  "MAX_RETRY_AFTER_SECS = 3600"

definition DEFAULT_RETRY_AFTER_SECS :: nat where
  "DEFAULT_RETRY_AFTER_SECS = 60"

definition cap_retry_after :: "nat \<Rightarrow> nat" where
  "cap_retry_after d = min d (MAX_RETRY_AFTER_SECS * 1000000000)"

text \<open>
  The header, when it is present and made of visible characters, is parsed as a number of seconds
  or as a date; \<open>parse_u64\<close> is Rust's parser of numbers after trimming and \<open>parse_date\<close> the one
  of \<open>chrono\<close>.
\<close>

definition parse_retry_after ::
    "(string \<Rightarrow> nat option) \<Rightarrow> (string \<Rightarrow> time option) \<Rightarrow> time \<Rightarrow> string option \<Rightarrow> nat" where
  "parse_retry_after parse_u64 parse_date now header =
     (case header of
        None \<Rightarrow> DEFAULT_RETRY_AFTER_SECS * 1000000000
      | Some v \<Rightarrow>
          (case parse_u64 v of
             Some secs \<Rightarrow> cap_retry_after (secs * 1000000000)
           | None \<Rightarrow>
               (case parse_date v of
                  Some dt \<Rightarrow> cap_retry_after (nat (max 0 ((dt - now) div 1000000000)) * 1000000000)
                | None \<Rightarrow> DEFAULT_RETRY_AFTER_SECS * 1000000000)))"

section \<open>The retry loop\<close>

definition retry_delay :: "(nat \<Rightarrow> nat) \<Rightarrow> nat \<Rightarrow> llm_error \<Rightarrow> nat" where
  "retry_delay offset attempt err =
     (case err of
        RateLimited _ (Some d) \<Rightarrow> d
      | _ \<Rightarrow> retry_backoff_delay_ms (offset attempt) attempt * 1000000)"

text \<open>
  \<open>left\<close> is \<open>max_retries - attempt\<close>. The loop returns the delays it slept; the branch after the
  loop is not reached, since the last iteration returns.
\<close>

fun retry_from ::
    "(nat \<Rightarrow> nat) \<Rightarrow> ('s, 'r) provider \<Rightarrow> nat \<Rightarrow> nat \<Rightarrow> 's \<Rightarrow> (llm_error + 'r) \<times> nat list \<times> 's" where
  "retry_from offset op attempt left s =
     (case op s of
        (Inr r, s') \<Rightarrow> (Inr r, [], s')
      | (Inl err, s') \<Rightarrow>
          if \<not> is_retryable err then (Inl err, [], s')
          else (case left of
                  0 \<Rightarrow> (Inl err, [], s')
                | Suc left' \<Rightarrow>
                    let (r, ds, s'') = retry_from offset op (Suc attempt) left' s'
                    in (r, retry_delay offset attempt err # ds, s'')))"

declare retry_from.simps [simp del]

definition retry_loop ::
    "(nat \<Rightarrow> nat) \<Rightarrow> u32 \<Rightarrow> ('s, 'r) provider \<Rightarrow> 's \<Rightarrow> (llm_error + 'r) \<times> nat list \<times> 's" where
  "retry_loop offset max_retries op s = retry_from offset op 0 (unat max_retries) s"

definition retry_complete ::
    "(nat \<Rightarrow> nat) \<Rightarrow> u32 \<Rightarrow> ('s, 'r) provider \<Rightarrow> (unit \<times> 's, 'r) provider" where
  "retry_complete offset max_retries inner = (\<lambda>(_, s).
     let (r, _, s') = retry_loop offset max_retries inner s in (r, ((), s')))"

section \<open>Failover\<close>

record cooldown_config =
  cc_cooldown_nanos :: u64
  cc_failure_threshold :: u32

record provider_cooldown =
  pc_failure_count :: u32
  pc_cooldown_activated_nanos :: u64

definition new_cooldown :: provider_cooldown where
  "new_cooldown = \<lparr>pc_failure_count = 0, pc_cooldown_activated_nanos = 0\<rparr>"

definition saturating_sub_u64 :: "u64 \<Rightarrow> u64 \<Rightarrow> u64" where
  "saturating_sub_u64 a b = (if b \<le> a then a - b else 0)"

definition is_in_cooldown :: "u64 \<Rightarrow> u64 \<Rightarrow> provider_cooldown \<Rightarrow> bool" where
  "is_in_cooldown now_nanos cooldown_nanos c \<longleftrightarrow>
     pc_cooldown_activated_nanos c \<noteq> 0 \<and>
     saturating_sub_u64 now_nanos (pc_cooldown_activated_nanos c) < cooldown_nanos"

definition cooldown_record_failure :: "u32 \<Rightarrow> provider_cooldown \<Rightarrow> bool \<times> provider_cooldown" where
  "cooldown_record_failure threshold c =
     (pc_failure_count c + 1 \<ge> threshold, c\<lparr>pc_failure_count := pc_failure_count c + 1\<rparr>)"

definition activate_cooldown :: "u64 \<Rightarrow> provider_cooldown \<Rightarrow> provider_cooldown" where
  "activate_cooldown now_nanos c = c\<lparr>pc_cooldown_activated_nanos := max now_nanos 1\<rparr>"

definition cooldown_reset :: "provider_cooldown \<Rightarrow> provider_cooldown" where
  "cooldown_reset c = c\<lparr>pc_failure_count := 0, pc_cooldown_activated_nanos := 0\<rparr>"

record failover =
  fo_last_used :: nat
  fo_cooldowns :: "provider_cooldown list"

definition failover_with_cooldown :: "nat \<Rightarrow> llm_error + failover" where
  "failover_with_cooldown providers =
     (if providers = 0
      then Inl (RequestFailed ''failover'' ''FailoverProvider requires at least one provider'')
      else Inr \<lparr>fo_last_used = 0, fo_cooldowns = replicate providers new_cooldown\<rparr>)"

text \<open>\<open>min_by_key\<close> over the indices: the first of the smallest.\<close>

fun oldest_from :: "nat \<Rightarrow> provider_cooldown list \<Rightarrow> nat option" where
  "oldest_from i [] = None"
| "oldest_from i (c # cs) =
     (case oldest_from (Suc i) cs of
        None \<Rightarrow> Some i
      | Some j \<Rightarrow>
          if pc_cooldown_activated_nanos c \<le> pc_cooldown_activated_nanos (cs ! (j - Suc i))
          then Some i else Some j)"

definition available_providers :: "cooldown_config \<Rightarrow> u64 \<Rightarrow> failover \<Rightarrow> nat list" where
  "available_providers cfg now_nanos fo =
     filter (\<lambda>i. \<not> is_in_cooldown now_nanos (cc_cooldown_nanos cfg) (fo_cooldowns fo ! i))
       [0..<length (fo_cooldowns fo)]"

definition candidates :: "cooldown_config \<Rightarrow> u64 \<Rightarrow> failover \<Rightarrow> llm_error + nat list" where
  "candidates cfg now_nanos fo =
     (let available = available_providers cfg now_nanos fo
      in if available \<noteq> [] then Inr available
         else case oldest_from 0 (fo_cooldowns fo) of
           None \<Rightarrow> Inl (RequestFailed ''failover'' ''FailoverProvider requires at least one provider'')
         | Some i \<Rightarrow> Inr [i])"

definition exhausted_reason :: string where
  "exhausted_reason = ''Invariant violated in FailoverProvider: providers were exhausted but no last_error was recorded (this branch should be unreachable; possible causes: no provider attempts were made or `available` was unexpectedly empty).''"

text \<open>
  The loop over the candidates; \<open>clk n\<close> is \<open>now_nanos\<close> when the \<open>n\<close>-th failure is recorded.
\<close>

fun try_each ::
    "cooldown_config \<Rightarrow> (nat \<Rightarrow> u64) \<Rightarrow> (nat \<Rightarrow> ('s, 'r) provider) \<Rightarrow> nat \<Rightarrow> llm_error option \<Rightarrow>
     nat list \<Rightarrow> failover \<Rightarrow> 's \<Rightarrow> (llm_error + nat \<times> 'r) \<times> failover \<times> 's" where
  "try_each cfg clk call n last_error [] fo s =
     (Inl (case last_error of Some e \<Rightarrow> e | None \<Rightarrow> RequestFailed ''failover'' exhausted_reason), fo, s)"
| "try_each cfg clk call n last_error (i # is) fo s =
     (case call i s of
        (Inr r, s') \<Rightarrow>
          (Inr (i, r),
           fo\<lparr>fo_last_used := i, fo_cooldowns := (fo_cooldowns fo)[i := cooldown_reset (fo_cooldowns fo ! i)]\<rparr>,
           s')
      | (Inl err, s') \<Rightarrow>
          if \<not> is_retryable err then (Inl err, fo, s')
          else
            let (reached, c) = cooldown_record_failure (cc_failure_threshold cfg) (fo_cooldowns fo ! i);
                c' = (if reached then activate_cooldown (clk n) c else c)
            in try_each cfg clk call (Suc n) (Some err) is
                 (fo\<lparr>fo_cooldowns := (fo_cooldowns fo)[i := c']\<rparr>) s')"

definition try_providers ::
    "cooldown_config \<Rightarrow> u64 \<Rightarrow> (nat \<Rightarrow> u64) \<Rightarrow> (nat \<Rightarrow> ('s, 'r) provider) \<Rightarrow> failover \<Rightarrow> 's \<Rightarrow>
     (llm_error + nat \<times> 'r) \<times> failover \<times> 's" where
  "try_providers cfg now_nanos clk call fo s =
     (case candidates cfg now_nanos fo of
        Inl e \<Rightarrow> (Inl e, fo, s)
      | Inr is \<Rightarrow> try_each cfg clk call 0 None is fo s)"

text \<open>\<open>complete\<close>, and the binding of the provider to the task, if there is one.\<close>

record failover_provider =
  fp_failover :: failover
  fp_provider_for_task :: "(nat, nat) hmap"

definition failover_complete ::
    "cooldown_config \<Rightarrow> u64 \<Rightarrow> (nat \<Rightarrow> u64) \<Rightarrow> nat option \<Rightarrow> (nat \<Rightarrow> ('s, 'r) provider) \<Rightarrow>
     (failover_provider \<times> 's, 'r) provider" where
  "failover_complete cfg now_nanos clk task call = (\<lambda>(fp, s).
     case try_providers cfg now_nanos clk call (fp_failover fp) s of
       (Inl e, fo, s') \<Rightarrow> (Inl e, (fp\<lparr>fp_failover := fo\<rparr>, s'))
     | (Inr (i, r), fo, s') \<Rightarrow>
         (Inr r, (fp\<lparr>fp_failover := fo,
                    fp_provider_for_task := (case task of
                      None \<Rightarrow> fp_provider_for_task fp
                    | Some t \<Rightarrow> hm_insert t i (fp_provider_for_task fp))\<rparr>, s')))"

definition take_bound_provider :: "nat option \<Rightarrow> failover_provider \<Rightarrow> nat option \<times> failover_provider" where
  "take_bound_provider task fp =
     (case task of
        None \<Rightarrow> (None, fp)
      | Some t \<Rightarrow> (hm_get (fp_provider_for_task fp) t,
                   fp\<lparr>fp_provider_for_task := hm_remove t (fp_provider_for_task fp)\<rparr>))"

definition serving_provider :: "nat option \<Rightarrow> failover_provider \<Rightarrow> nat \<times> failover_provider" where
  "serving_provider task fp =
     (case take_bound_provider task fp of
        (Some i, fp') \<Rightarrow> (i, fp') | (None, fp') \<Rightarrow> (fo_last_used (fp_failover fp'), fp'))"

section \<open>The delays stay within a quarter\<close>

lemma wrap_i64_id: "- (2 ^ 63) \<le> i \<Longrightarrow> i < 2 ^ 63 \<Longrightarrow> wrap_i64 i = i"
  by (simp add: wrap_i64_def)

lemma backoff_base_exact:
  assumes "attempt \<le> 52"
  shows "backoff_base_ms attempt = 1000 * 2 ^ attempt"
proof -
  have "(2 :: nat) ^ attempt \<le> 2 ^ 52" using assms by (intro power_increasing) auto
  then show ?thesis by (simp add: backoff_base_ms_def u64_max_def)
qed

lemma backoff_delay_exact:
  assumes "attempt \<le> 52" "offset \<le> 2 * (250 * 2 ^ attempt)"
  shows "retry_backoff_delay_ms offset attempt = 750 * 2 ^ attempt + offset"
proof -
  define p :: nat where "p = 2 ^ attempt"
  have "p \<le> 2 ^ 52" unfolding p_def using assms(1) by (intro power_increasing) auto
  then have p: "1 \<le> p" "p \<le> 2 ^ 52" by (simp_all add: p_def)
  have base: "backoff_base_ms attempt = 1000 * p"
    using backoff_base_exact [OF assms(1)] by (simp add: p_def)
  have o: "offset \<le> 500 * p" using assms(2) by (simp add: p_def)
  have i: "as_i64 (1000 * p) = 1000 * int p" "as_i64 (250 * p) = 250 * int p" "as_i64 offset = int offset"
    using p o by (simp_all add: as_i64_def)
  have w1: "wrap_i64 (int offset - 250 * int p) = int offset - 250 * int p"
    using p o by (intro wrap_i64_id) auto
  have w2: "wrap_i64 (1000 * int p + (int offset - 250 * int p)) = 750 * int p + int offset"
    using p o by (subst wrap_i64_id) auto
  have q: "1000 * p div 4 = 250 * p" by simp
  have "retry_backoff_delay_ms offset attempt = nat (max 100 (750 * int p + int offset))"
    unfolding retry_backoff_delay_ms_def base q Let_def i w1
    using p w2 by simp
  also have "\<dots> = 750 * p + offset" using p(1) by (simp add: max_def nat_add_distrib nat_mult_distrib)
  finally show ?thesis by (simp add: p_def)
qed

lemma backoff_delay_overflow: "retry_backoff_delay_ms (backoff_base_ms 53 div 4 * 2) 53 = 100"
proof -
  have b: "backoff_base_ms 53 = 9007199254740992000" by (simp add: backoff_base_ms_def u64_max_def)
  have i: "as_i64 9007199254740992000 = 9007199254740992000" "as_i64 2251799813685248000 = 2251799813685248000"
    "as_i64 4503599627370496000 = 4503599627370496000"
    by (simp_all add: as_i64_def)
  have w: "wrap_i64 2251799813685248000 = 2251799813685248000"
    "wrap_i64 11258999068426240000 = - 7187745005283311616"
    by (simp_all add: wrap_i64_def)
  have q: "(9007199254740992000 :: nat) div 4 = 2251799813685248000"
    "(2251799813685248000 :: nat) * 2 = 4503599627370496000" by simp_all
  have "as_i64 4503599627370496000 - as_i64 2251799813685248000 = 2251799813685248000"
    "as_i64 9007199254740992000 + 2251799813685248000 = 11258999068426240000"
    by (simp_all add: i)
  then show ?thesis
    unfolding retry_backoff_delay_ms_def b q Let_def by (simp add: w)
qed

section \<open>The outcome of the retry loop\<close>

text \<open>The \<open>i\<close>-th result of asking the provider again and again.\<close>

fun asked :: "('s, 'r) provider \<Rightarrow> nat \<Rightarrow> 's \<Rightarrow> (llm_error + 'r) \<times> 's" where
  "asked op 0 s = op s"
| "asked op (Suc i) s = asked op i (snd (op s))"

definition give_up :: "llm_error + 'r \<Rightarrow> bool" where
  "give_up x \<longleftrightarrow> (case x of Inr _ \<Rightarrow> True | Inl e \<Rightarrow> \<not> is_retryable e)"

lemma retry_from_spec:
  "\<exists>n \<le> left. fst (retry_from offset op attempt left s) = fst (asked op n s) \<and>
     snd (snd (retry_from offset op attempt left s)) = snd (asked op n s) \<and>
     length (fst (snd (retry_from offset op attempt left s))) = n \<and>
     (\<forall>i < n. \<not> give_up (fst (asked op i s))) \<and> (n = left \<or> give_up (fst (asked op n s)))"
proof (induction left arbitrary: attempt s)
  case 0
  show ?case by (subst retry_from.simps) (auto simp: give_up_def retry_from.simps split: prod.splits sum.splits)
next
  case (Suc left)
  obtain x s' where x: "op s = (x, s')" by fastforce
  show ?case
  proof (cases "give_up x")
    case True
    then have "retry_from offset op attempt (Suc left) s = (x, [], s')"
      using x by (subst retry_from.simps) (auto simp: give_up_def split: sum.splits)
    with True x show ?thesis by (intro exI [of _ 0]) simp
  next
    case False
    then obtain e where e: "x = Inl e" "is_retryable e" by (auto simp: give_up_def split: sum.splits)
    obtain n where n: "n \<le> left" "fst (retry_from offset op (Suc attempt) left s') = fst (asked op n s')"
      "snd (snd (retry_from offset op (Suc attempt) left s')) = snd (asked op n s')"
      "length (fst (snd (retry_from offset op (Suc attempt) left s'))) = n"
      "\<forall>i < n. \<not> give_up (fst (asked op i s'))" "n = left \<or> give_up (fst (asked op n s'))"
      using Suc.IH [of "Suc attempt" s'] by blast
    have r: "retry_from offset op attempt (Suc left) s =
      (let (r, ds, s'') = retry_from offset op (Suc attempt) left s' in (r, retry_delay offset attempt e # ds, s''))"
      using x e by (subst retry_from.simps) simp
    have "\<not> give_up (fst (asked op i s))" if "i < Suc n" for i
      using that n(5) x False by (cases i) auto
    with n x r show ?thesis by (intro exI [of _ "Suc n"]) (simp add: case_prod_beta Let_def)
  qed
qed

interpretation rt_layer: llm_layer "retry_complete offset max_retries" "\<lambda>_. True"
proof
  fix w :: unit and inner :: "('s, 'r) provider" and s r s'
  assume "inner s = (Inr r, s')"
  then show "\<exists>w'. retry_complete offset max_retries inner (w, s) = (Inr r, (w', s')) \<and> True"
    by (simp add: retry_complete_def retry_loop_def retry_from.simps)
qed

text \<open>The chain puts the breaker around the retries.\<close>

interpretation chain: llm_two_layers "retry_complete offset max_retries" "\<lambda>_. True"
  "breaker_complete cfg model clk" "\<lambda>st. bs_state st = CbClosed"
  by unfold_locales

section \<open>Failover reaches a working provider\<close>

lemma oldest_from_some: "cs \<noteq> [] \<Longrightarrow> \<exists>j. oldest_from i cs = Some j \<and> i \<le> j \<and> j < i + length cs"
proof (induction i cs rule: oldest_from.induct)
  case (2 i c cs)
  then show ?case by (cases "cs = []") (auto split: option.splits)
qed simp

lemma oldest_from_least:
  "oldest_from i cs = Some j \<Longrightarrow>
     \<forall>c \<in> set cs. pc_cooldown_activated_nanos (cs ! (j - i)) \<le> pc_cooldown_activated_nanos c"
proof (induction i cs arbitrary: j rule: oldest_from.induct)
  case (2 i c cs)
  show ?case
  proof (cases "oldest_from (Suc i) cs")
    case None
    with oldest_from_some [of cs "Suc i"] have "cs = []" by force
    with 2(2) show ?thesis by simp
  next
    case (Some k)
    with oldest_from_some [of cs "Suc i"] have k: "Suc i \<le> k" by (cases "cs = []") auto
    then have "k - i = Suc (k - Suc i)" by simp
    with 2 Some k show ?thesis by (auto split: if_splits intro: order_trans)
  qed
qed simp

lemma candidates_ok:
  assumes "fo_cooldowns fo \<noteq> []"
  shows "\<exists>is. candidates cfg now fo = Inr is \<and> is \<noteq> [] \<and> (\<forall>i \<in> set is. i < length (fo_cooldowns fo)) \<and>
    (\<forall>i < length (fo_cooldowns fo). \<not> is_in_cooldown now (cc_cooldown_nanos cfg) (fo_cooldowns fo ! i) \<longrightarrow>
       i \<in> set is)"
proof (cases "available_providers cfg now fo = []")
  case True
  obtain j where "oldest_from 0 (fo_cooldowns fo) = Some j" "j < length (fo_cooldowns fo)"
    using oldest_from_some [OF assms, of 0] by auto
  with True show ?thesis by (auto simp: candidates_def Let_def available_providers_def filter_empty_conv)
next
  case False
  then show ?thesis by (auto simp: candidates_def Let_def available_providers_def)
qed

lemma try_each_serves:
  assumes "j \<in> set js" "\<forall>s. \<exists>r s'. call j s = (Inr r, s')"
    and "\<forall>i \<in> set js. \<forall>s e s'. call i s = (Inl e, s') \<longrightarrow> is_retryable e"
    and "\<forall>i \<in> set js. i < length (fo_cooldowns fo)"
  shows "\<exists>i r fo' s'. try_each cfg clk call n le js fo s = (Inr (i, r), fo', s') \<and> i \<in> set js \<and>
    fo_last_used fo' = i \<and> pc_failure_count (fo_cooldowns fo' ! i) = 0 \<and>
    pc_cooldown_activated_nanos (fo_cooldowns fo' ! i) = 0"
  using assms
proof (induction "js" arbitrary: n le fo s)
  case (Cons i js)
  obtain x s' where x: "call i s = (x, s')" by fastforce
  show ?case
  proof (cases x)
    case (Inr r)
    with x Cons.prems(4) show ?thesis by (auto simp: cooldown_reset_def)
  next
    case (Inl e)
    have "j \<noteq> i" using Inl x Cons.prems(2) by (metis Inl_Inr_False prod.inject)
    then have j: "j \<in> set js" using Cons.prems(1) by simp
    have e: "is_retryable e" using Cons.prems(3) x Inl by auto
    let ?c = "cooldown_record_failure (cc_failure_threshold cfg) (fo_cooldowns fo ! i)"
    let ?fo = "fo\<lparr>fo_cooldowns := (fo_cooldowns fo)
        [i := if fst ?c then activate_cooldown (clk n) (snd ?c) else snd ?c]\<rparr>"
    have "try_each cfg clk call n le (i # js) fo s = try_each cfg clk call (Suc n) (Some e) js ?fo s'"
      using x Inl e by (simp add: case_prod_beta Let_def)
    moreover have "\<exists>i r fo' s''. try_each cfg clk call (Suc n) (Some e) js ?fo s' = (Inr (i, r), fo', s'') \<and>
      i \<in> set js \<and> fo_last_used fo' = i \<and> pc_failure_count (fo_cooldowns fo' ! i) = 0 \<and>
      pc_cooldown_activated_nanos (fo_cooldowns fo' ! i) = 0"
      by (rule Cons.IH) (use j Cons.prems(2-4) in auto)
    ultimately show ?thesis by (metis list.set_intros(2))
  qed
qed simp

lemma try_each_last_error:
  assumes "js \<noteq> [] \<or> le \<noteq> None" "fst (try_each cfg clk call n le js fo s) = Inl e"
  shows "le = Some e \<or> (\<exists>i \<in> set js. \<exists>s s'. call i s = (Inl e, s'))"
  using assms
proof (induction "js" arbitrary: n le fo s)
  case (Cons i js)
  obtain x s' where x: "call i s = (x, s')" by fastforce
  show ?case
  proof (cases x)
    case (Inl e')
    with Cons x show ?thesis
      by (cases "is_retryable e'") (force simp: case_prod_beta Let_def)+
  qed (use Cons.prems(2) x in simp)
qed auto

lemma chain_answers:
  assumes "bs_state st = CbClosed" "inner s = (Inr r, s')"
  shows "\<exists>v st'. breaker_complete cfg model clk (retry_complete offset max_retries inner) (st, ((), s))
      = (Inr r, (st', (v, s'))) \<and> bs_state st' = CbClosed"
  using chain.both_transparent [where v = "()" and w = st and inner = inner and s = s and r = r and s' = s'] assms by blast

section \<open>Properties\<close>

text \<open>
  The retry loop ends: it asks the provider \<open>n + 1\<close> times for some \<open>n\<close> up to \<open>max_retries\<close>,
  sleeps \<open>n\<close> times in between and returns the last answer; every earlier answer was a retryable
  error, and it stops before the limit only at a response or at an error that is not retryable.
\<close>

lemma retry_loop_outcome:
  "\<exists>n \<le> unat max_retries.
     fst (retry_loop offset max_retries op s) = fst (asked op n s) \<and>
     snd (snd (retry_loop offset max_retries op s)) = snd (asked op n s) \<and>
     length (fst (snd (retry_loop offset max_retries op s))) = n \<and>
     (\<forall>i < n. \<not> give_up (fst (asked op i s))) \<and>
     (n = unat max_retries \<or> give_up (fst (asked op n s)))"
  unfolding retry_loop_def by (rule retry_from_spec)

lemma retry_loop_outcome_witness:
  "\<exists>n \<le> 3. fst (retry_loop (\<lambda>_. 0) 3 (\<lambda>k. (if k < 2 then Inl (HttpErr []) else Inr k, Suc k)) 0)
      = fst (asked (\<lambda>k. (if k < 2 then Inl (HttpErr []) else Inr k, Suc k)) n 0)"
proof -
  obtain n where "n \<le> unat (3 :: u32)"
    "fst (retry_loop (\<lambda>_. 0) 3 (\<lambda>k. (if k < 2 then Inl (HttpErr []) else Inr k, Suc k)) 0)
      = fst (asked (\<lambda>k. (if k < 2 then Inl (HttpErr []) else Inr k, Suc k)) n 0)"
    using retry_loop_outcome [of 3 "\<lambda>_. 0" "\<lambda>k. (if k < 2 then Inl (HttpErr []) else Inr k, Suc k)" 0]
    by blast
  then show ?thesis by (intro exI [of _ n]) simp
qed

text \<open>
  The delay before retry \<open>attempt\<close>, up to the 52nd, is one second doubled \<open>attempt\<close> times,
  give or take a quarter, whatever offset is drawn; on the next attempt the signed addition
  overflows for large offsets and the delay collapses to the minimum of 100 milliseconds.
\<close>

lemma backoff_within_quarter:
  assumes "attempt \<le> 52" "offset \<le> backoff_base_ms attempt div 4 * 2"
  shows "750 * 2 ^ attempt \<le> retry_backoff_delay_ms offset attempt \<and>
    retry_backoff_delay_ms offset attempt \<le> 1250 * 2 ^ attempt \<and>
    retry_backoff_delay_ms (backoff_base_ms 53 div 4 * 2) 53 = 100"
proof -
  have o: "offset \<le> 2 * (250 * 2 ^ attempt)"
    using assms(2) backoff_base_exact [OF assms(1)] by simp
  note over = backoff_delay_overflow
  have "750 * 2 ^ attempt \<le> retry_backoff_delay_ms offset attempt"
    "retry_backoff_delay_ms offset attempt \<le> 1250 * 2 ^ attempt"
    unfolding backoff_delay_exact [OF assms(1) o] using o by simp_all
  with over show ?thesis by blast
qed

lemma backoff_within_quarter_witness:
  "750 * 2 ^ (2 :: nat) \<le> retry_backoff_delay_ms 10 2 \<and> retry_backoff_delay_ms 10 2 \<le> 5000"
proof -
  have "(10 :: nat) \<le> backoff_base_ms 2 div 4 * 2" by (simp add: backoff_base_ms_def u64_max_def)
  from backoff_within_quarter [OF _ this] show ?thesis by simp
qed


definition second_answers :: "nat \<Rightarrow> (unit, string) provider" where
  "second_answers i s = (if i = 1 then Inr ''ok'' else Inl (HttpErr []), s)"


end
