(* ===== verification/Response_Cache.thy ===== *)
theory Response_Cache
  imports Circuit_Breaker
begin

text \<open>
  The response cache of the provider chain (\<open>src/llm/response_cache.rs\<close>). The mutex is released
  while the wrapped provider works, so a call has a lookup phase and a storing phase, and the
  phases of several calls interleave. The digest of the key is an argument, as is the JSON text of
  the messages; a temperature is the bit pattern of its \<open>f32\<close>.
\<close>

section \<open>Requests and responses (provider.rs)\<close>

datatype finish_reason = FrStop | FrLength | FrToolUse | FrContentFilter | FrUnknown

record completion_request =
  rq_messages :: "chat_message list"
  rq_model :: "string option"
  rq_max_tokens :: "u32 option"
  rq_temperature :: "u32 option"
  rq_stop_sequences :: "string list option"
  rq_metadata :: "(string, string) hmap"

record completion_response =
  rp_content :: string
  rp_input_tokens :: u32
  rp_output_tokens :: u32
  rp_finish_reason :: finish_reason
  rp_cache_read_input_tokens :: u32
  rp_cache_creation_input_tokens :: u32

section \<open>The key\<close>

definition utf8_bytes :: "char \<Rightarrow> nat list" where
  "utf8_bytes c = (let n = of_char c in if n < 128 then [n] else [192 + n div 64, 128 + n mod 64])"

definition as_bytes :: "string \<Rightarrow> nat list" where
  "as_bytes s = concat (map utf8_bytes s)"

definition to_le_bytes :: "u32 \<Rightarrow> nat list" where
  "to_le_bytes w = map (\<lambda>i. unat w div 256 ^ i mod 256) [0..<4]"

text \<open>What is fed to the digest; \<open>124\<close> is the byte of the vertical bar.\<close>

definition cache_key_bytes :: "(chat_message list \<Rightarrow> string option) \<Rightarrow> string \<Rightarrow> completion_request \<Rightarrow> nat list" where
  "cache_key_bytes json_of model rq =
     as_bytes model @ [124]
     @ (case json_of (rq_messages rq) of Some json \<Rightarrow> as_bytes json | None \<Rightarrow> []) @ [124]
     @ (case rq_max_tokens rq of Some n \<Rightarrow> to_le_bytes n | None \<Rightarrow> []) @ [124]
     @ (case rq_temperature rq of Some t \<Rightarrow> to_le_bytes t | None \<Rightarrow> []) @ [124]
     @ (case rq_stop_sequences rq of Some stops \<Rightarrow> concat (map (\<lambda>s. as_bytes s @ [0]) stops) | None \<Rightarrow> [])"

definition cache_key ::
    "(nat list \<Rightarrow> string) \<Rightarrow> (chat_message list \<Rightarrow> string option) \<Rightarrow> string \<Rightarrow> completion_request \<Rightarrow> string" where
  "cache_key digest json_of model rq = digest (cache_key_bytes json_of model rq)"

section \<open>The cache\<close>

record response_cache_config =
  rcc_ttl :: nat
  rcc_max_entries :: nat

record cache_entry =
  ce_response :: completion_response
  ce_created_at :: time
  ce_last_accessed :: time
  ce_hit_count :: u64

record cached_provider =
  cp_cache :: "(string, cache_entry) hmap"
  cp_request_count :: u64
  cp_total_hit_count :: u64

definition new_cached_provider :: cached_provider where
  "new_cached_provider = \<lparr>cp_cache = [], cp_request_count = 0, cp_total_hit_count = 0\<rparr>"

definition cache_clear :: "cached_provider \<Rightarrow> cached_provider" where
  "cache_clear cp = cp\<lparr>cp_cache := []\<rparr>"

definition fresh_entry :: "response_cache_config \<Rightarrow> time \<Rightarrow> cache_entry \<Rightarrow> bool" where
  "fresh_entry cfg now e \<longleftrightarrow> elapsed_since now (ce_created_at e) < rcc_ttl cfg"

definition cache_lookup ::
    "response_cache_config \<Rightarrow> string \<Rightarrow> time \<Rightarrow> cached_provider \<Rightarrow> completion_response option \<times> cached_provider"
    where
  "cache_lookup cfg key now cp =
     (let cp1 = cp\<lparr>cp_request_count := cp_request_count cp + 1\<rparr> in
      case hm_get (cp_cache cp1) key of
        None \<Rightarrow> (None, cp1)
      | Some e \<Rightarrow>
          if fresh_entry cfg now e
          then (Some (ce_response e),
                cp1\<lparr>cp_cache := hm_modify key
                       (\<lambda>e. e\<lparr>ce_last_accessed := now, ce_hit_count := ce_hit_count e + 1\<rparr>) (cp_cache cp1),
                    cp_total_hit_count := cp_total_hit_count cp1 + 1\<rparr>)
          else (None, cp1\<lparr>cp_cache := hm_remove key (cp_cache cp1)\<rparr>))"

text \<open>\<open>min_by_key\<close>: the first of the entries used longest ago.\<close>

fun oldest_entry :: "(string, cache_entry) hmap \<Rightarrow> (string \<times> cache_entry) option" where
  "oldest_entry [] = None"
| "oldest_entry (p # m) =
     (case oldest_entry m of
        None \<Rightarrow> Some p
      | Some q \<Rightarrow> if ce_last_accessed (snd p) \<le> ce_last_accessed (snd q) then Some p else Some q)"

lemma oldest_entry_mem: "oldest_entry m = Some p \<Longrightarrow> p \<in> set m"
  by (induction m) (auto split: option.splits if_splits)

lemma oldest_entry_exists: "m \<noteq> [] \<Longrightarrow> \<exists>p. oldest_entry m = Some p"
  by (cases m) (auto split: option.splits)

lemma hm_remove_shorter: "p \<in> set m \<Longrightarrow> length (hm_remove (fst p) m) < length m"
  unfolding hm_remove_def by (rule length_filter_less) auto

function evict_lru :: "nat \<Rightarrow> (string, cache_entry) hmap \<Rightarrow> (string, cache_entry) hmap" where
  "evict_lru max_entries m =
     (if length m \<ge> max_entries
      then case oldest_entry m of
        Some p \<Rightarrow> evict_lru max_entries (hm_remove (fst p) m)
      | None \<Rightarrow> m
      else m)"
  by pat_completeness auto
termination
  by (relation "measure (\<lambda>(n, m). length m)") (simp_all add: oldest_entry_mem hm_remove_shorter)

declare evict_lru.simps [simp del]

definition cache_store ::
    "response_cache_config \<Rightarrow> string \<Rightarrow> time \<Rightarrow> completion_response \<Rightarrow> cached_provider \<Rightarrow> cached_provider" where
  "cache_store cfg key now response cp =
     (let m1 = hm_retain (fresh_entry cfg now) (cp_cache cp);
          m2 = evict_lru (rcc_max_entries cfg) m1
      in cp\<lparr>cp_cache := hm_insert key
             \<lparr>ce_response = response, ce_created_at = now, ce_last_accessed = now, ce_hit_count = 0\<rparr> m2\<rparr>)"

text \<open>One call that no other call interleaves with; \<open>now\<close> is read once, at its start.\<close>

definition cached_complete ::
    "response_cache_config \<Rightarrow> string \<Rightarrow> time \<Rightarrow> ('s, completion_response) provider \<Rightarrow>
     (cached_provider \<times> 's, completion_response) provider" where
  "cached_complete cfg key now inner = (\<lambda>(cp, s).
     case cache_lookup cfg key now cp of
       (Some r, cp1) \<Rightarrow> (Inr r, (cp1, s))
     | (None, cp1) \<Rightarrow>
         (case inner s of
            (Inl e, s') \<Rightarrow> (Inl e, (cp1, s'))
          | (Inr r, s') \<Rightarrow> (Inr r, (cache_store cfg key now r cp1, s'))))"

section \<open>Interleaved phases\<close>

datatype cache_op =
    CoLookup string time
  | CoStore string time completion_response
  | CoClear

fun cache_exec :: "response_cache_config \<Rightarrow> cache_op \<Rightarrow> cached_provider \<Rightarrow> cached_provider" where
  "cache_exec cfg (CoLookup k now) cp = snd (cache_lookup cfg k now cp)"
| "cache_exec cfg (CoStore k now r) cp = cache_store cfg k now r cp"
| "cache_exec cfg CoClear cp = cache_clear cp"

definition cache_run :: "response_cache_config \<Rightarrow> cache_op list \<Rightarrow> cached_provider" where
  "cache_run cfg ops = fold (cache_exec cfg) ops new_cached_provider"

text \<open>The last response stored under a key.\<close>

definition stored :: "cache_op \<Rightarrow> (string \<times> completion_response \<times> time) list" where
  "stored op = (case op of CoStore k now r \<Rightarrow> [(k, r, now)] | _ \<Rightarrow> [])"

definition last_stored :: "cache_op list \<Rightarrow> string \<Rightarrow> (completion_response \<times> time) option" where
  "last_stored ops k = map_of (concat (map stored (rev ops))) k"

lemma last_stored_Nil [simp]: "last_stored [] k = None"
  by (simp add: last_stored_def)

lemma last_stored_snoc:
  "last_stored (ops @ [op]) k =
     (case op of CoStore k' now r \<Rightarrow> if k = k' then Some (r, now) else last_stored ops k | _ \<Rightarrow> last_stored ops k)"
  by (cases op) (auto simp: last_stored_def stored_def)

definition cache_inv :: "response_cache_config \<Rightarrow> cache_op list \<Rightarrow> cached_provider \<Rightarrow> bool" where
  "cache_inv cfg ops cp \<longleftrightarrow> hm_wf (cp_cache cp) \<and> length (cp_cache cp) \<le> max 1 (rcc_max_entries cfg) \<and>
     (\<forall>k e. hm_get (cp_cache cp) k = Some e \<longrightarrow> last_stored ops k = Some (ce_response e, ce_created_at e))"

lemma evict_lru_spec:
  "hm_wf m \<Longrightarrow> hm_wf (evict_lru n m) \<and> (length (evict_lru n m) < n \<or> evict_lru n m = []) \<and>
     (\<forall>k e. hm_get (evict_lru n m) k = Some e \<longrightarrow> hm_get m k = Some e)"
proof (induction n m rule: evict_lru.induct)
  case (1 n m)
  show ?case
  proof (cases "length m \<ge> n \<and> m \<noteq> []")
    case True
    then obtain p where p: "oldest_entry m = Some p" using oldest_entry_exists by blast
    have "evict_lru n m = evict_lru n (hm_remove (fst p) m)"
      using True p by (subst evict_lru.simps) simp
    moreover have "hm_wf (hm_remove (fst p) m)" using "1.prems" by (rule hm_wf_remove)
    moreover have "hm_get (hm_remove (fst p) m) k = Some e \<Longrightarrow> hm_get m k = Some e" for k e
      by (simp split: if_splits)
    ultimately show ?thesis using "1.IH" [of p] True p by metis
  next
    case False
    then have "evict_lru n m = m" by (subst evict_lru.simps) auto
    with False "1.prems" show ?thesis by auto
  qed
qed

lemma hm_insert_length: "length (hm_insert k v m) \<le> length m + 1"
  by (induction k v m rule: hm_insert.induct) auto

lemma hm_modify_length [simp]: "length (hm_modify k f m) = length m"
  by (simp add: hm_modify_def)

lemma hm_remove_length: "length (hm_remove k m) \<le> length m"
  by (simp add: hm_remove_def)

lemma cache_store_inv:
  assumes "cache_inv cfg ops cp"
  shows "cache_inv cfg (ops @ [CoStore k now r]) (cache_store cfg k now r cp)"
proof -
  let ?m1 = "hm_retain (fresh_entry cfg now) (cp_cache cp)" and ?n = "rcc_max_entries cfg"
  have wf: "hm_wf (cp_cache cp)" using assms by (simp add: cache_inv_def)
  then have e: "hm_wf (evict_lru ?n ?m1)" "length (evict_lru ?n ?m1) < ?n \<or> evict_lru ?n ?m1 = []"
    "\<forall>k e. hm_get (evict_lru ?n ?m1) k = Some e \<longrightarrow> hm_get ?m1 k = Some e"
    using evict_lru_spec [of ?m1 ?n] by auto
  have "length (evict_lru ?n ?m1) + 1 \<le> max 1 ?n" using e(2) by auto
  then have len: "length (hm_insert k x (evict_lru ?n ?m1)) \<le> max 1 ?n" for x
    using hm_insert_length [of k x "evict_lru ?n ?m1"] by linarith
  have "hm_get ?m1 k = Some e \<Longrightarrow> hm_get (cp_cache cp) k = Some e" for k e
    unfolding hm_get_retain [OF wf] by (simp split: option.splits if_splits)
  with e(3) have "\<forall>k e. hm_get (evict_lru ?n ?m1) k = Some e \<longrightarrow> hm_get (cp_cache cp) k = Some e" by blast
  with assms e(1) len show ?thesis
    by (auto simp: cache_inv_def cache_store_def Let_def last_stored_snoc)
qed

lemma cache_lookup_inv:
  assumes "cache_inv cfg ops cp"
  shows "cache_inv cfg (ops @ [CoLookup k now]) (snd (cache_lookup cfg k now cp))"
  using assms hm_remove_length [of k "cp_cache cp"]
  by (auto simp: cache_inv_def cache_lookup_def Let_def last_stored_snoc simp del: length_greater_0_conv
      split: option.splits if_splits)

lemma cache_run_inv: "cache_inv cfg ops (cache_run cfg ops)"
proof (induction ops rule: rev_induct)
  case Nil
  show ?case by (simp add: cache_run_def cache_inv_def new_cached_provider_def)
next
  case (snoc op ops)
  have r: "cache_run cfg (ops @ [op]) = cache_exec cfg op (cache_run cfg ops)" by (simp add: cache_run_def)
  show ?case
    using snoc cache_store_inv cache_lookup_inv unfolding r
    by (cases op) (auto simp: cache_clear_def cache_inv_def)
qed

text \<open>
  The encoding that is digested does not separate its parts: the bytes of a token limit can be read
  as the separator and a temperature.
\<close>

lemma cache_key_ambiguous:
  assumes "rq_max_tokens rq = None" "rq_temperature rq = None"
  shows "cache_key_bytes json_of model (rq\<lparr>rq_max_tokens := Some 124\<rparr>) =
    cache_key_bytes json_of model (rq\<lparr>rq_temperature := Some 0x7C000000\<rparr>)"
  using assms by (simp add: cache_key_bytes_def to_le_bytes_def upt_conv_Cons)

section \<open>Properties\<close>

text \<open>
  However lookups and stores of any number of calls interleave, a hit returns the response
  that was stored last under the same key, and it was stored within the time to live; the cache
  never holds more entries than its limit (one, if the limit is zero), and it holds at most one
  entry per key.
\<close>

lemma cache_hit_is_last_store:
  assumes "fst (cache_lookup cfg k now (cache_run cfg ops)) = Some r"
  shows "(\<exists>t. last_stored ops k = Some (r, t) \<and> elapsed_since now t < rcc_ttl cfg) \<and>
    length (cp_cache (cache_run cfg ops)) \<le> max 1 (rcc_max_entries cfg) \<and>
    hm_wf (cp_cache (cache_run cfg ops))"
  using assms cache_run_inv [of cfg ops]
  by (auto simp: cache_lookup_def cache_inv_def fresh_entry_def Let_def split: option.splits if_splits)

definition example_response :: completion_response where
  "example_response = \<lparr>rp_content = ''hi'', rp_input_tokens = 1, rp_output_tokens = 2,
     rp_finish_reason = FrStop, rp_cache_read_input_tokens = 0, rp_cache_creation_input_tokens = 0\<rparr>"

lemma cache_hit_is_last_store_witness:
  "let cfg = \<lparr>rcc_ttl = 10, rcc_max_entries = 1\<rparr>;
       ops = [CoStore ''a'' 1 example_response, CoStore ''b'' 2 example_response]
   in fst (cache_lookup cfg ''b'' 5 (cache_run cfg ops)) = Some example_response \<and>
      (\<exists>t. last_stored ops ''b'' = Some (example_response, t))"
proof -
  let ?cfg = "\<lparr>rcc_ttl = 10, rcc_max_entries = 1\<rparr>"
  let ?ops = "[CoStore ''a'' 1 example_response, CoStore ''b'' 2 example_response]"
  have "fst (cache_lookup ?cfg ''b'' 5 (cache_run ?cfg ?ops)) = Some example_response"
    by (simp add: cache_run_def cache_store_def cache_lookup_def fresh_entry_def hm_retain_def
        new_cached_provider_def evict_lru.simps elapsed_since_def Let_def)
  with cache_hit_is_last_store [OF this] show ?thesis by (auto simp: Let_def)
qed

end
