(* ===== verification/Undo_Manager.thy ===== *)
theory Undo_Manager
  imports Llm_Types
begin

text \<open>
  Undo and redo of conversation turns (\<open>src/agent/undo.rs\<close>). The two stacks refine a zipper: the
  turns before the current one, the current one and the turns that were undone.
\<close>

section \<open>The two stacks\<close>

record checkpoint =
  cpt_id :: uuid
  cpt_turn_number :: nat
  cpt_messages :: "chat_message list"
  cpt_description :: string

definition new_checkpoint :: "uuid \<Rightarrow> nat \<Rightarrow> chat_message list \<Rightarrow> string \<Rightarrow> checkpoint" where
  "new_checkpoint cid turn_number messages description =
     \<lparr>cpt_id = cid, cpt_turn_number = turn_number, cpt_messages = messages, cpt_description = description\<rparr>"

text \<open>The undo stack has its oldest entry first, both stacks have their top last.\<close>

record undo_manager =
  um_undo_stack :: "checkpoint list"
  um_redo_stack :: "checkpoint list"
  um_max_checkpoints :: nat

definition DEFAULT_MAX_CHECKPOINTS :: nat where
  "DEFAULT_MAX_CHECKPOINTS = 20"

definition new_undo_manager :: undo_manager where
  "new_undo_manager =
     \<lparr>um_undo_stack = [], um_redo_stack = [], um_max_checkpoints = DEFAULT_MAX_CHECKPOINTS\<rparr>"

definition push_undo :: "checkpoint \<Rightarrow> undo_manager \<Rightarrow> undo_manager" where
  "push_undo c um =
     (let st = um_undo_stack um @ [c]
      in um\<lparr>um_undo_stack := drop (length st - um_max_checkpoints um) st\<rparr>)"

definition take_checkpoint ::
    "uuid \<Rightarrow> nat \<Rightarrow> chat_message list \<Rightarrow> string \<Rightarrow> undo_manager \<Rightarrow> undo_manager" where
  "take_checkpoint cid turn_number messages description um =
     push_undo (new_checkpoint cid turn_number messages description) (um\<lparr>um_redo_stack := []\<rparr>)"

definition turn_label :: "nat \<Rightarrow> string" where
  "turn_label n = ''Turn '' @ show_nat n"

definition undo ::
    "uuid \<Rightarrow> nat \<Rightarrow> chat_message list \<Rightarrow> undo_manager \<Rightarrow> checkpoint option \<times> undo_manager" where
  "undo cid current_turn current_messages um =
     (if um_undo_stack um = [] then (None, um)
      else (Some (last (um_undo_stack um)),
            um\<lparr>um_redo_stack := um_redo_stack um
                 @ [new_checkpoint cid current_turn current_messages (turn_label current_turn)],
              um_undo_stack := butlast (um_undo_stack um)\<rparr>))"

definition redo ::
    "uuid \<Rightarrow> nat \<Rightarrow> chat_message list \<Rightarrow> undo_manager \<Rightarrow> checkpoint option \<times> undo_manager" where
  "redo cid current_turn current_messages um =
     (if um_redo_stack um = [] then (None, um)
      else let um1 = push_undo (new_checkpoint cid current_turn current_messages (turn_label current_turn)) um
           in (Some (last (um_redo_stack um1)), um1\<lparr>um_redo_stack := butlast (um_redo_stack um1)\<rparr>))"

definition can_undo :: "undo_manager \<Rightarrow> bool" where
  "can_undo um \<longleftrightarrow> um_undo_stack um \<noteq> []"

definition can_redo :: "undo_manager \<Rightarrow> bool" where
  "can_redo um \<longleftrightarrow> um_redo_stack um \<noteq> []"

definition undo_count :: "undo_manager \<Rightarrow> nat" where
  "undo_count um = length (um_undo_stack um)"

definition redo_count :: "undo_manager \<Rightarrow> nat" where
  "redo_count um = length (um_redo_stack um)"

definition undo_clear :: "undo_manager \<Rightarrow> undo_manager" where
  "undo_clear um = um\<lparr>um_undo_stack := [], um_redo_stack := []\<rparr>"

text \<open>\<open>position\<close> finds the first entry; the entries after it are popped one by one.\<close>

definition restore :: "uuid \<Rightarrow> undo_manager \<Rightarrow> checkpoint option \<times> undo_manager" where
  "restore cid um =
     (case dropWhile (\<lambda>c. cpt_id c \<noteq> cid) (um_undo_stack um) of
        [] \<Rightarrow> (None, um)
      | c # _ \<Rightarrow>
          let before = takeWhile (\<lambda>c. cpt_id c \<noteq> cid) (um_undo_stack um)
          in (Some c, um\<lparr>um_redo_stack := [], um_undo_stack := before\<rparr>))"

section \<open>Reachable managers\<close>

inductive undo_reach :: "undo_manager \<Rightarrow> bool" where
  ur_new: "undo_reach new_undo_manager"
| ur_checkpoint: "undo_reach um \<Longrightarrow> undo_reach (take_checkpoint cid n ms d um)"
| ur_undo: "undo_reach um \<Longrightarrow> undo_reach (snd (undo cid n ms um))"
| ur_redo: "undo_reach um \<Longrightarrow> undo_reach (snd (redo cid n ms um))"
| ur_restore: "undo_reach um \<Longrightarrow> undo_reach (snd (restore cid um))"
| ur_clear: "undo_reach um \<Longrightarrow> undo_reach (undo_clear um)"

lemma undo_reach_bounded:
  "undo_reach um \<Longrightarrow> um_max_checkpoints um = DEFAULT_MAX_CHECKPOINTS \<and>
     undo_count um + redo_count um \<le> DEFAULT_MAX_CHECKPOINTS"
proof (induction rule: undo_reach.induct)
  case (ur_redo um cid n ms)
  then show ?case
    by (cases "um_redo_stack um" rule: rev_cases)
      (auto simp: redo_def push_undo_def undo_count_def redo_count_def Let_def)
next
  case (ur_undo um cid n ms)
  then show ?case
    by (cases "um_undo_stack um" rule: rev_cases) (auto simp: undo_def undo_count_def redo_count_def)
next
  case (ur_restore um cid)
  have "length (takeWhile (\<lambda>c. cpt_id c \<noteq> cid) (um_undo_stack um)) \<le> undo_count um"
    unfolding undo_count_def by (rule length_takeWhile_le)
  with ur_restore show ?case
    by (auto simp: restore_def undo_count_def redo_count_def split: list.splits)
qed (auto simp: new_undo_manager_def take_checkpoint_def push_undo_def undo_clear_def undo_count_def
    redo_count_def Let_def)

section \<open>The zipper\<close>

type_synonym turn_state = "nat \<times> chat_message list"
type_synonym zipper = "turn_state list \<times> turn_state \<times> turn_state list"

definition zip_left :: "zipper \<Rightarrow> zipper option" where
  "zip_left z = (case z of (past, cur, future) \<Rightarrow>
     if past = [] then None else Some (butlast past, last past, cur # future))"

definition zip_right :: "zipper \<Rightarrow> zipper option" where
  "zip_right z = (case z of (past, cur, future) \<Rightarrow>
     (case future of [] \<Rightarrow> None | f # fs \<Rightarrow> Some (past @ [cur], f, fs)))"

lemma zip_inverse: "zip_left z = Some z' \<longleftrightarrow> zip_right z' = Some z"
proof -
  obtain p c f p' c' f' where "z = (p, c, f)" "z' = (p', c', f')" by (cases z, cases z') auto
  then show ?thesis
    by (cases p rule: rev_cases; cases f') (auto simp: zip_left_def zip_right_def)
qed

definition turn_state_of :: "checkpoint \<Rightarrow> turn_state" where
  "turn_state_of c = (cpt_turn_number c, cpt_messages c)"

definition undo_abs :: "turn_state \<Rightarrow> undo_manager \<Rightarrow> zipper" where
  "undo_abs cur um = (map turn_state_of (um_undo_stack um), cur, rev (map turn_state_of (um_redo_stack um)))"

lemma undo_simulates:
  "(case undo cid (fst cur) (snd cur) um of
      (None, um') \<Rightarrow> None | (Some c, um') \<Rightarrow> Some (undo_abs (turn_state_of c) um')) = zip_left (undo_abs cur um)"
  by (cases "um_undo_stack um" rule: rev_cases)
    (simp_all add: undo_def undo_abs_def zip_left_def turn_state_of_def new_checkpoint_def)

lemma redo_simulates:
  assumes "undo_count um + redo_count um \<le> um_max_checkpoints um"
  shows "(case redo cid (fst cur) (snd cur) um of
      (None, um') \<Rightarrow> None | (Some c, um') \<Rightarrow> Some (undo_abs (turn_state_of c) um')) = zip_right (undo_abs cur um)"
  using assms
  by (cases "um_redo_stack um" rule: rev_cases)
    (simp_all add: redo_def undo_abs_def zip_right_def turn_state_of_def new_checkpoint_def push_undo_def
      undo_count_def redo_count_def)

section \<open>Properties\<close>

text \<open>
  C16. Undo and redo implement a zipper over the states of the conversation: undo moves one state to
  the left and redo one to the right, each fails exactly when there is no such state, and nothing
  is lost on the way, since the two stacks together never exceed the limit; so a redo takes back
  an undo and the reverse.
\<close>

theorem undo_redo_refines_zipper:
  assumes "undo_reach um"
  shows "(case undo cid (fst cur) (snd cur) um of
        (None, um') \<Rightarrow> None | (Some c, um') \<Rightarrow> Some (undo_abs (turn_state_of c) um')) = zip_left (undo_abs cur um) \<and>
    (case redo cid (fst cur) (snd cur) um of
        (None, um') \<Rightarrow> None | (Some c, um') \<Rightarrow> Some (undo_abs (turn_state_of c) um')) = zip_right (undo_abs cur um) \<and>
    undo_count um + redo_count um \<le> DEFAULT_MAX_CHECKPOINTS \<and>
    (zip_left z = Some z' \<longleftrightarrow> zip_right z' = Some z)"
  using undo_simulates redo_simulates undo_reach_bounded [OF assms] zip_inverse by simp

theorem undo_redo_refines_zipper_witness:
  "let um = take_checkpoint 1 0 [] ''start'' new_undo_manager; um1 = snd (undo 2 1 [chat_user ''a''] um)
   in zip_right (undo_abs (0, []) um1) = Some (undo_abs (1, [chat_user ''a'']) (snd (redo 3 0 [] um1)))"
proof -
  let ?um = "take_checkpoint 1 0 [] ''start'' new_undo_manager"
  let ?um1 = "snd (undo 2 1 [chat_user ''a''] ?um)"
  have r: "undo_reach ?um1" by (intro undo_reach.intros)
  have "fst (redo 3 0 [] ?um1) = Some (new_checkpoint 2 1 [chat_user ''a''] (turn_label 1))"
    by (simp add: redo_def undo_def take_checkpoint_def push_undo_def new_undo_manager_def
        DEFAULT_MAX_CHECKPOINTS_def)
  then show ?thesis
    using undo_redo_refines_zipper [OF r, where cid = 3 and cur = "(0, [])"]
    by (simp add: Let_def case_prod_beta turn_state_of_def new_checkpoint_def)
qed

end
