(* ===== verification/Text_Ops.thy ===== *)
theory Text_Ops
  imports Prelude
begin

text \<open>
  The operations on strings of the standard library that several components use, for the scalar
  values below 256: searching, splitting, trimming and the change of case.
\<close>

section \<open>Characters\<close>

text \<open>The capitals among the first 256 scalars have their small letter 32 further.\<close>

definition lower_char :: "char \<Rightarrow> char" where
  "lower_char c =
     (let n = (of_char c :: nat)
      in if 65 \<le> n \<and> n \<le> 90 \<or> 192 \<le> n \<and> n \<le> 222 \<and> n \<noteq> 215 then char_of (n + 32) else c)"

definition is_whitespace :: "char \<Rightarrow> bool" where
  "is_whitespace c = (let n = (of_char c :: nat) in 9 \<le> n \<and> n \<le> 13 \<or> n = 32 \<or> n = 133 \<or> n = 160)"

definition is_ascii_digit :: "char \<Rightarrow> bool" where
  "is_ascii_digit c = (let n = (of_char c :: nat) in 48 \<le> n \<and> n \<le> 57)"

definition is_ascii_alphanumeric :: "char \<Rightarrow> bool" where
  "is_ascii_alphanumeric c =
     (let n = (of_char c :: nat)
      in 48 \<le> n \<and> n \<le> 57 \<or> 65 \<le> n \<and> n \<le> 90 \<or> 97 \<le> n \<and> n \<le> 122)"

definition is_alphanumeric :: "char \<Rightarrow> bool" where
  "is_alphanumeric c =
     (let n = (of_char c :: nat)
      in is_ascii_alphanumeric c \<or> n \<in> {170, 178, 179, 181, 185, 186, 188, 189, 190}
         \<or> 192 \<le> n \<and> n \<noteq> 215 \<and> n \<noteq> 247)"

text \<open>The dash of some messages is no such scalar; a control character stands for it.\<close>

definition em_dash :: string where
  "em_dash = [CHR 0x97]"

definition newline :: string where
  "newline = [CHR 0x0A]"

section \<open>Strings\<close>

definition to_lowercase :: "string \<Rightarrow> string" where
  "to_lowercase s = map lower_char s"

definition starts_with :: "string \<Rightarrow> string \<Rightarrow> bool" where
  "starts_with s p \<longleftrightarrow> take (length p) s = p"

definition ends_with :: "string \<Rightarrow> string \<Rightarrow> bool" where
  "ends_with s p \<longleftrightarrow> starts_with (rev s) (rev p)"

definition strip_prefix :: "string \<Rightarrow> string \<Rightarrow> string option" where
  "strip_prefix s p = (if starts_with s p then Some (drop (length p) s) else None)"

text \<open>\<open>find\<close>, with what follows the first occurrence; \<open>contains\<close> is that there is one.\<close>

fun after_first :: "string \<Rightarrow> string \<Rightarrow> string option" where
  "after_first [] p = (if p = [] then Some [] else None)"
| "after_first (c # s) p =
     (if starts_with (c # s) p then Some (drop (length p) (c # s)) else after_first s p)"

definition contains_str :: "string \<Rightarrow> string \<Rightarrow> bool" where
  "contains_str s p \<longleftrightarrow> after_first s p \<noteq> None"

definition str_trim :: "string \<Rightarrow> string" where
  "str_trim s = rev (dropWhile is_whitespace (rev (dropWhile is_whitespace s)))"

text \<open>\<open>split\<close> at every character of a set.\<close>

fun split_at_chars :: "(char \<Rightarrow> bool) \<Rightarrow> string \<Rightarrow> string list" where
  "split_at_chars sep [] = [[]]"
| "split_at_chars sep (c # s) =
     (if sep c then [] # split_at_chars sep s
      else case split_at_chars sep s of w # ws \<Rightarrow> (c # w) # ws | [] \<Rightarrow> [[c]])"

definition split_whitespace :: "string \<Rightarrow> string list" where
  "split_whitespace s = filter (\<lambda>w. w \<noteq> []) (split_at_chars is_whitespace s)"

definition join_with :: "string \<Rightarrow> string list \<Rightarrow> string" where
  "join_with sep ws = (case ws of [] \<Rightarrow> [] | w # rest \<Rightarrow> w @ concat (map (\<lambda>v. sep @ v) rest))"

text \<open>The first of \<open>lines()\<close>, or the empty string.\<close>

definition first_line :: "string \<Rightarrow> string" where
  "first_line s =
     (let l = takeWhile (\<lambda>c. c \<noteq> CHR 0x0A) s
      in if l \<noteq> [] \<and> last l = CHR 0x0D \<and> l \<noteq> s then butlast l else l)"

text \<open>\<open>chars().take(n)\<close> with dots when something is left.\<close>

definition preview :: "nat \<Rightarrow> string \<Rightarrow> string" where
  "preview n s = take n s @ (if length s > n then ''...'' else [])"

text \<open>\<open>parse::<u64>()\<close>.\<close>

definition digits_value :: "string \<Rightarrow> nat" where
  "digits_value ds = foldl (\<lambda>n c. 10 * n + (of_char c - 48)) 0 ds"

definition parse_u64 :: "string \<Rightarrow> nat option" where
  "parse_u64 s =
     (let ds = (case s of c # r \<Rightarrow> if c = CHR ''+'' then r else s | [] \<Rightarrow> s)
      in if ds \<noteq> [] \<and> list_all is_ascii_digit ds \<and> digits_value ds < 2 ^ 64
         then Some (digits_value ds) else None)"

text \<open>The debug format of strings.\<close>

fun show_hex :: "nat \<Rightarrow> string" where
  "show_hex n =
     (let d = (\<lambda>k. if k < 10 then char_of (48 + k) else char_of (87 + k) :: char)
      in if n < 16 then [d n] else show_hex (n div 16) @ [d (n mod 16)])"

declare show_hex.simps [simp del]

definition escape_char :: "char \<Rightarrow> string" where
  "escape_char c =
     (let n = (of_char c :: nat)
      in if n = 0 then [CHR 0x5C, CHR ''0'']
         else if n = 9 then [CHR 0x5C, CHR ''t'']
         else if n = 10 then [CHR 0x5C, CHR ''n'']
         else if n = 13 then [CHR 0x5C, CHR ''r'']
         else if n = 34 \<or> n = 92 then [CHR 0x5C, c]
         else if n < 32 \<or> 127 \<le> n \<and> n \<le> 160 \<or> n = 173
         then [CHR 0x5C, CHR ''u'', CHR 0x7B] @ show_hex n @ [CHR 0x7D]
         else [c])"

definition debug_str :: "string \<Rightarrow> string" where
  "debug_str s = [CHR 0x22] @ concat (map escape_char s) @ [CHR 0x22]"

definition debug_opt_str :: "string option \<Rightarrow> string" where
  "debug_opt_str o' = (case o' of None \<Rightarrow> ''None'' | Some s \<Rightarrow> ''Some('' @ debug_str s @ '')'')"

section \<open>Lemmas\<close>

lemma starts_with_iff: "starts_with s p \<longleftrightarrow> (\<exists>r. s = p @ r)"
  unfolding starts_with_def by (metis append_take_drop_id append_eq_conv_conj)

lemma starts_with_simps:
  "starts_with s []" "\<not> starts_with [] (d # p)"
  "starts_with (c # s) (d # p) \<longleftrightarrow> c = d \<and> starts_with s p"
  by (simp_all add: starts_with_def)

lemma ends_with_iff: "ends_with s p \<longleftrightarrow> (\<exists>r. s = r @ p)"
  unfolding ends_with_def starts_with_iff by (metis rev_append rev_rev_ident)

lemma after_first_Some: "after_first s p = Some r \<Longrightarrow> \<exists>l. s = l @ p @ r"
proof (induction s)
  case (Cons c s)
  show ?case
  proof (cases "starts_with (c # s) p")
    case True
    then have "c # s = p @ drop (length p) (c # s)"
      unfolding starts_with_def by (metis append_take_drop_id)
    with True Cons.prems show ?thesis by auto
  next
    case False
    with Cons obtain l where "s = l @ p @ r" by auto
    then have "c # s = (c # l) @ p @ r" by simp
    then show ?thesis by blast
  qed
qed (auto split: if_splits)

lemma contains_str_iff: "contains_str s p \<longleftrightarrow> (\<exists>l r. s = l @ p @ r)"
proof
  assume "contains_str s p"
  then obtain r where "after_first s p = Some r" by (auto simp: contains_str_def)
  then show "\<exists>l r. s = l @ p @ r" by (blast dest: after_first_Some)
next
  assume "\<exists>l r. s = l @ p @ r"
  then obtain l r where "s = l @ p @ r" by blast
  then show "contains_str s p"
  proof (induction l arbitrary: s)
    case Nil
    then have "starts_with s p" by (auto simp: starts_with_iff)
    then show ?case by (cases s) (auto simp: contains_str_def starts_with_def)
  next
    case (Cons c l)
    then show ?case by (auto simp: contains_str_def)
  qed
qed

text \<open>Only letters have another letter as their small letter.\<close>

lemma lower_char_fixed:
  assumes "(of_char d :: nat) < 65 \<or> 90 < (of_char d :: nat) \<and> (of_char d :: nat) < 97 \<or>
    122 < (of_char d :: nat) \<and> (of_char d :: nat) < 192"
  shows "lower_char c = d \<longleftrightarrow> c = d"
proof
  assume l: "lower_char c = d"
  show "c = d"
  proof (rule ccontr)
    assume "c \<noteq> d"
    with l have "65 \<le> (of_char c :: nat) \<and> (of_char c :: nat) \<le> 90 \<or> 192 \<le> (of_char c :: nat) \<and> (of_char c :: nat) \<le> 222"
      and c: "char_of ((of_char c :: nat) + 32) = d"
      by (auto simp: lower_char_def Let_def split: if_splits)
    moreover from arg_cong [OF c, of "of_char :: char \<Rightarrow> nat"] have "((of_char c :: nat) + 32) mod 256 = of_char d" by simp
    ultimately show False using assms by auto
  qed
qed (use assms in \<open>auto simp: lower_char_def Let_def\<close>)

lemma length_to_lowercase [simp]: "length (to_lowercase s) = length s"
  by (simp add: to_lowercase_def)

lemma split_at_chars_nonempty: "split_at_chars sep s \<noteq> []"
  by (cases s) (auto split: list.splits)

end
