(* ===== verification/Llm_Costs.thy ===== *)
theory Llm_Costs
  imports Text_Ops
begin

text \<open>
  The price table of models (\<open>src/llm/costs.rs\<close>): the price per token of input and of output. A
  \<open>Decimal\<close> is a rational number. The table of \<open>model_cost\<close> is the list of its match arms in order.
\<close>

section \<open>Names\<close>

text \<open>\<open>rsplit_once('/')\<close>: what follows the last slash, or everything.\<close>

definition after_last_slash :: "string \<Rightarrow> string" where
  "after_last_slash s = rev (takeWhile (\<lambda>c. c \<noteq> CHR ''/'') (rev s))"

section \<open>Prices\<close>

definition is_local_model :: "string \<Rightarrow> bool" where
  "is_local_model model_id =
     (let lower = to_lowercase model_id
      in list_ex (starts_with lower)
           [''llama'', ''mistral'', ''mixtral'', ''phi'', ''gemma'', ''qwen'', ''codellama'', ''deepseek'',
            ''starcoder'', ''vicuna'', ''yi'']
         \<or> contains_str lower '':latest'' \<or> contains_str lower '':instruct'')"

definition price_table :: "(string list \<times> rat \<times> rat) list" where
  "price_table =
     [([''gpt-5.3-codex'', ''gpt-5.3-codex-spark''],
       2 / 10 ^ 6, 8 / 10 ^ 6),
      ([''gpt-5.2-codex'', ''gpt-5.2-pro'', ''gpt-5.2''],
       2 / 10 ^ 6, 8 / 10 ^ 6),
      ([''gpt-5.1-codex'', ''gpt-5.1-codex-max'', ''gpt-5.1''],
       2 / 10 ^ 6, 8 / 10 ^ 6),
      ([''gpt-5.1-codex-mini''],
       3 / 10 ^ 7, 12 / 10 ^ 7),
      ([''gpt-5-codex'', ''gpt-5-pro'', ''gpt-5''],
       2 / 10 ^ 6, 8 / 10 ^ 6),
      ([''gpt-5-mini'', ''gpt-5-nano''],
       3 / 10 ^ 7, 12 / 10 ^ 7),
      ([''gpt-4.1''],
       2 / 10 ^ 6, 8 / 10 ^ 6),
      ([''gpt-4.1-mini''],
       4 / 10 ^ 7, 16 / 10 ^ 7),
      ([''gpt-4.1-nano''],
       1 / 10 ^ 7, 4 / 10 ^ 7),
      ([''gpt-4o'', ''gpt-4o-2024-11-20'', ''gpt-4o-2024-08-06''],
       25 / 10 ^ 7, 1 / 10 ^ 5),
      ([''gpt-4o-mini'', ''gpt-4o-mini-2024-07-18''],
       15 / 10 ^ 8, 6 / 10 ^ 7),
      ([''gpt-4-turbo'', ''gpt-4-turbo-2024-04-09''],
       1 / 10 ^ 5, 3 / 10 ^ 5),
      ([''gpt-4'', ''gpt-4-0613''],
       3 / 10 ^ 5, 6 / 10 ^ 5),
      ([''gpt-3.5-turbo'', ''gpt-3.5-turbo-0125''],
       5 / 10 ^ 7, 15 / 10 ^ 7),
      ([''o3''],
       2 / 10 ^ 6, 8 / 10 ^ 6),
      ([''o3-mini'', ''o3-mini-2025-01-31''],
       11 / 10 ^ 7, 44 / 10 ^ 7),
      ([''o4-mini''],
       11 / 10 ^ 7, 44 / 10 ^ 7),
      ([''o1'', ''o1-2024-12-17''],
       15 / 10 ^ 6, 6 / 10 ^ 5),
      ([''o1-mini'', ''o1-mini-2024-09-12''],
       3 / 10 ^ 6, 12 / 10 ^ 6),
      ([''claude-opus-4-6'', ''claude-opus-4-5'', ''claude-opus-4-5-20251101'',
       ''claude-opus-4-1'', ''claude-opus-4-1-20250805'', ''claude-opus-4-0'',
       ''claude-opus-4-20250514'', ''claude-3-opus-20240229'', ''claude-3-opus-latest''],
       15 / 10 ^ 6, 75 / 10 ^ 6),
      ([''claude-sonnet-4-6'', ''claude-sonnet-4-5'', ''claude-sonnet-4-5-20250929'',
       ''claude-sonnet-4-0'', ''claude-sonnet-4-20250514'',
       ''claude-3-7-sonnet-20250219'', ''claude-3-7-sonnet-latest'',
       ''claude-3-5-sonnet-20241022'', ''claude-3-5-sonnet-latest''],
       3 / 10 ^ 6, 15 / 10 ^ 6),
      ([''claude-haiku-4-5'', ''claude-haiku-4-5-20251001'', ''claude-3-5-haiku-20241022'',
       ''claude-3-5-haiku-latest''],
       8 / 10 ^ 7, 4 / 10 ^ 6),
      ([''claude-3-haiku-20240307''],
       25 / 10 ^ 8, 125 / 10 ^ 8)]"

fun price_lookup :: "string \<Rightarrow> (string list \<times> rat \<times> rat) list \<Rightarrow> (rat \<times> rat) option" where
  "price_lookup mid [] = None"
| "price_lookup mid ((ids, price) # rows) = (if List.member ids mid then Some price else price_lookup mid rows)"

definition model_cost :: "string \<Rightarrow> (rat \<times> rat) option" where
  "model_cost model_id =
     (if ends_with model_id '':free'' \<or> model_id = ''openrouter/free'' \<or> model_id = ''free'' then Some (0, 0)
      else
        let mid = after_last_slash model_id
        in case price_lookup mid price_table of
             Some p \<Rightarrow> Some p
           | None \<Rightarrow> if is_local_model mid then Some (0, 0) else None)"

definition default_cost :: "rat \<times> rat" where
  "default_cost = (25 / 10 ^ 7, 1 / 10 ^ 5)"

text \<open>The price of a model as its callers take it.\<close>

definition price_of :: "string \<Rightarrow> rat \<times> rat" where
  "price_of model = (case model_cost model of Some p \<Rightarrow> p | None \<Rightarrow> default_cost)"

section \<open>Lemmas\<close>

lemma price_lookup_in: "price_lookup mid rows = Some p \<Longrightarrow> p \<in> snd ` set rows"
  by (induction rows) (force split: if_splits)+

lemma after_last_slash_prefix: "CHR ''/'' \<notin> set mid \<Longrightarrow> after_last_slash (p @ CHR ''/'' # mid) = mid"
proof -
  assume "CHR ''/'' \<notin> set mid"
  then have "takeWhile (\<lambda>c. c \<noteq> CHR ''/'') (rev mid @ CHR ''/'' # rev p) = rev mid"
    by (subst takeWhile_append2) auto
  then show ?thesis by (simp add: after_last_slash_def)
qed

lemma after_last_slash_id: "CHR ''/'' \<notin> set mid \<Longrightarrow> after_last_slash mid = mid"
proof -
  assume "CHR ''/'' \<notin> set mid"
  then have "takeWhile (\<lambda>c. c \<noteq> CHR ''/'') (rev mid) = rev mid" by (subst takeWhile_eq_all_conv) auto
  then show ?thesis unfolding after_last_slash_def by (metis rev_rev_ident)
qed

lemma price_table_nonneg: "p \<in> snd ` set price_table \<Longrightarrow> 0 \<le> fst p \<and> fst p \<le> snd p"
  by (auto simp: price_table_def)

lemma price_of_nonneg: "0 \<le> fst (price_of m) \<and> fst (price_of m) \<le> snd (price_of m)"
  using price_table_nonneg [OF price_lookup_in [of "after_last_slash m"]]
  by (auto simp: price_of_def model_cost_def default_cost_def Let_def split: option.splits)

text \<open>A provider prefix does not change the price of a model that is not free.\<close>

lemma model_cost_prefix:
  assumes "CHR ''/'' \<notin> set mid" "\<not> ends_with (p @ CHR ''/'' # mid) '':free''" "\<not> ends_with mid '':free''"
    "mid \<noteq> ''free''"
  shows "model_cost (p @ CHR ''/'' # mid) = model_cost mid"
proof -
  have "p @ CHR ''/'' # mid \<noteq> ''openrouter/free''"
  proof
    assume "p @ CHR ''/'' # mid = ''openrouter/free''"
    then have "after_last_slash (p @ CHR ''/'' # mid) = after_last_slash ''openrouter/free''" by simp
    then have "mid = ''free''" unfolding after_last_slash_prefix [OF assms(1)] by (simp add: after_last_slash_def)
    with assms(4) show False by simp
  qed
  moreover have "p @ CHR ''/'' # mid \<noteq> ''free''"
  proof
    assume "p @ CHR ''/'' # mid = ''free''"
    then have "CHR ''/'' \<in> set ''free''" by (metis in_set_conv_decomp)
    then show False by simp
  qed
  moreover have "mid \<noteq> ''openrouter/free''" using assms(1) by auto
  ultimately show ?thesis
    using assms by (simp add: model_cost_def after_last_slash_prefix after_last_slash_id)
qed

end
