(* ===== verification/Cost_Guard.thy ===== *)
theory Cost_Guard
  imports Llm_Costs
begin

text \<open>
  The guard on spending and on the rate of LLM calls (\<open>src/agent/cost_guard.rs\<close>). A \<open>Decimal\<close> is
  a rational number, an \<open>Instant\<close> counts nanoseconds since the start of its clock and a date
  counts days. The price table \<open>costs::model_cost\<close> is an argument.
\<close>

section \<open>State\<close>

record cost_guard_config =
  cgc_max_cost_per_day_cents :: "u64 option"
  cgc_max_actions_per_hour :: "u64 option"
  cgc_max_cost_per_user_per_day_cents :: "u64 option"

datatype cost_limit_exceeded =
    DailyBudget u64 u64
  | HourlyRate u64 u64
  | UserDailyBudget string u64 u64

record model_tokens =
  mt_input_tokens :: u64
  mt_output_tokens :: u64
  mt_cost :: rat

record daily_cost =
  dc_total :: rat
  dc_reset_date :: int

record cost_guard =
  cg_config :: cost_guard_config
  cg_daily_cost :: daily_cost
  cg_action_window :: "time list"
  cg_budget_exceeded :: bool
  cg_model_tokens :: "(string, model_tokens) hmap"
  cg_per_user_daily_cost :: "(string, daily_cost) hmap"

definition new_cost_guard :: "int \<Rightarrow> cost_guard_config \<Rightarrow> cost_guard" where
  "new_cost_guard today cfg =
     \<lparr>cg_config = cfg, cg_daily_cost = \<lparr>dc_total = 0, dc_reset_date = today\<rparr>, cg_action_window = [],
      cg_budget_exceeded = False, cg_model_tokens = [], cg_per_user_daily_cost = []\<rparr>"

text \<open>
  Truncation, then the digits are parsed as a \<open>u64\<close>: a negative number and one that does not fit
  give zero.
\<close>

definition to_cents :: "rat \<Rightarrow> u64" where
  "to_cents usd =
     (let c = (if usd \<ge> 0 then \<lfloor>usd * 100\<rfloor> else - \<lfloor>- usd * 100\<rfloor>)
      in if 0 \<le> c \<and> c < 2 ^ 64 then word_of_int c else 0)"

section \<open>Checks\<close>

definition hour_nanos :: int where
  "hour_nanos = 3600 * 1000000000"

text \<open>\<open>checked_sub\<close> fails when the clock has run for less than an hour.\<close>

definition drain_window :: "time \<Rightarrow> time list \<Rightarrow> time list" where
  "drain_window now w =
     (if now \<ge> hour_nanos then dropWhile (\<lambda>t. t < now - hour_nanos) w else w)"

definition check_hourly :: "time \<Rightarrow> cost_guard \<Rightarrow> (cost_limit_exceeded + unit) \<times> cost_guard" where
  "check_hourly now cg =
     (case cgc_max_actions_per_hour (cg_config cg) of
        None \<Rightarrow> (Inr (), cg)
      | Some limit \<Rightarrow>
          let w = drain_window now (cg_action_window cg);
              count = word_of_nat (length w)
          in (if count \<ge> limit then Inl (HourlyRate count limit) else Inr (), cg\<lparr>cg_action_window := w\<rparr>))"

definition check_allowed :: "time \<Rightarrow> cost_guard \<Rightarrow> (cost_limit_exceeded + unit) \<times> cost_guard" where
  "check_allowed now cg =
     (let spent_cents = to_cents (dc_total (cg_daily_cost cg));
          limit = cgc_max_cost_per_day_cents (cg_config cg)
      in if cg_budget_exceeded cg
         then (Inl (DailyBudget spent_cents (case limit of Some l \<Rightarrow> l | None \<Rightarrow> 0)), cg)
         else case limit of
           Some l \<Rightarrow>
             if spent_cents \<ge> l
             then (Inl (DailyBudget spent_cents l), cg\<lparr>cg_budget_exceeded := True\<rparr>)
             else check_hourly now cg
         | None \<Rightarrow> check_hourly now cg)"

definition check_allowed_for_user ::
    "time \<Rightarrow> int \<Rightarrow> string \<Rightarrow> cost_guard \<Rightarrow> (cost_limit_exceeded + unit) \<times> cost_guard" where
  "check_allowed_for_user now today user_id cg =
     (case check_allowed now cg of
        (Inl e, cg1) \<Rightarrow> (Inl e, cg1)
      | (Inr _, cg1) \<Rightarrow>
          (case cgc_max_cost_per_user_per_day_cents (cg_config cg1) of
             None \<Rightarrow> (Inr (), cg1)
           | Some limit_cents \<Rightarrow>
               (case hm_get (cg_per_user_daily_cost cg1) user_id of
                  None \<Rightarrow> (Inr (), cg1)
                | Some entry \<Rightarrow>
                    if dc_reset_date entry = today \<and> to_cents (dc_total entry) \<ge> limit_cents
                    then (Inl (UserDailyBudget user_id (to_cents (dc_total entry)) limit_cents), cg1)
                    else (Inr (), cg1))))"

section \<open>Recording\<close>

record llm_usage =
  us_model :: string
  us_input_tokens :: u32
  us_output_tokens :: u32
  us_cache_read_input_tokens :: u32
  us_cache_creation_input_tokens :: u32
  us_cache_read_discount :: rat
  us_cache_write_multiplier :: rat
  us_cost_per_token :: "(rat \<times> rat) option"

definition sat_add_u32 :: "u32 \<Rightarrow> u32 \<Rightarrow> u32" where
  "sat_add_u32 a b = (if unat a + unat b < 2 ^ 32 then a + b else - 1)"

definition sat_sub_u32 :: "u32 \<Rightarrow> u32 \<Rightarrow> u32" where
  "sat_sub_u32 a b = (if b \<le> a then a - b else 0)"

definition call_cost :: "llm_usage \<Rightarrow> rat" where
  "call_cost u =
     (let (input_rate, output_rate) =
            (case us_cost_per_token u of Some c \<Rightarrow> c | None \<Rightarrow> price_of (us_model u));
          cached_total = sat_add_u32 (us_cache_read_input_tokens u) (us_cache_creation_input_tokens u);
          uncached_input = sat_sub_u32 (us_input_tokens u) cached_total;
          effective_discount = (if us_cache_read_discount u = 0 then 1 else us_cache_read_discount u);
          cache_read_cost = input_rate * of_nat (unat (us_cache_read_input_tokens u)) / effective_discount;
          cache_write_cost = input_rate * of_nat (unat (us_cache_creation_input_tokens u))
            * us_cache_write_multiplier u
      in input_rate * of_nat (unat uncached_input) + cache_read_cost + cache_write_cost
         + output_rate * of_nat (unat (us_output_tokens u)))"

definition add_daily :: "int \<Rightarrow> rat \<Rightarrow> daily_cost \<Rightarrow> daily_cost" where
  "add_daily today cost d =
     (if today \<noteq> dc_reset_date d then \<lparr>dc_total = 0 + cost, dc_reset_date = today\<rparr>
      else d\<lparr>dc_total := dc_total d + cost\<rparr>)"

definition record_llm_call ::
    "time \<Rightarrow> int \<Rightarrow> llm_usage \<Rightarrow> cost_guard \<Rightarrow> rat \<times> cost_guard" where
  "record_llm_call now today u cg =
     (let cost = call_cost u;
          exceeded = (if today \<noteq> dc_reset_date (cg_daily_cost cg) then False else cg_budget_exceeded cg);
          daily = add_daily today cost (cg_daily_cost cg);
          exceeded' = (case cgc_max_cost_per_day_cents (cg_config cg) of
             Some limit \<Rightarrow> if to_cents (dc_total daily) \<ge> limit then True else exceeded
           | None \<Rightarrow> exceeded);
          entry = (case hm_get (cg_model_tokens cg) (us_model u) of
             Some e \<Rightarrow> e | None \<Rightarrow> \<lparr>mt_input_tokens = 0, mt_output_tokens = 0, mt_cost = 0\<rparr>);
          entry' = \<lparr>mt_input_tokens = mt_input_tokens entry + ucast (us_input_tokens u),
             mt_output_tokens = mt_output_tokens entry + ucast (us_output_tokens u),
             mt_cost = mt_cost entry + cost\<rparr>
      in (cost,
          cg\<lparr>cg_daily_cost := daily, cg_budget_exceeded := exceeded',
            cg_action_window := cg_action_window cg @ [now],
            cg_model_tokens := hm_insert (us_model u) entry' (cg_model_tokens cg)\<rparr>))"

definition record_llm_call_for_user ::
    "time \<Rightarrow> int \<Rightarrow> int \<Rightarrow> string \<Rightarrow> llm_usage \<Rightarrow> cost_guard \<Rightarrow> rat \<times> cost_guard" where
  "record_llm_call_for_user now today today' user_id u cg =
     (let (cost, cg1) = record_llm_call now today u cg;
          entry = (case hm_get (cg_per_user_daily_cost cg1) user_id of
             Some e \<Rightarrow> e | None \<Rightarrow> \<lparr>dc_total = 0, dc_reset_date = today'\<rparr>)
      in (cost, cg1\<lparr>cg_per_user_daily_cost :=
             hm_insert user_id (add_daily today' cost entry) (cg_per_user_daily_cost cg1)\<rparr>))"

definition daily_spend :: "int \<Rightarrow> cost_guard \<Rightarrow> rat" where
  "daily_spend today cg =
     (if today \<noteq> dc_reset_date (cg_daily_cost cg) then 0 else dc_total (cg_daily_cost cg))"

definition actions_this_hour :: "time \<Rightarrow> cost_guard \<Rightarrow> u64 \<times> cost_guard" where
  "actions_this_hour now cg =
     (let w = drain_window now (cg_action_window cg)
      in (word_of_nat (length w), cg\<lparr>cg_action_window := w\<rparr>))"

section \<open>Runs\<close>

text \<open>
  The calls of the agent: checks and records. The clock of the actions does not run backwards;
  \<open>cost_hist\<close> lists the times of the recorded calls.
\<close>

datatype cost_op =
    CoCheck time
  | CoCheckUser time int string
  | CoRecord time int llm_usage
  | CoRecordUser time int int string llm_usage
  | CoCount time

fun cost_time :: "cost_op \<Rightarrow> time" where
  "cost_time (CoCheck now) = now"
| "cost_time (CoCheckUser now _ _) = now"
| "cost_time (CoRecord now _ _) = now"
| "cost_time (CoRecordUser now _ _ _ _) = now"
| "cost_time (CoCount now) = now"

fun cost_exec :: "cost_op \<Rightarrow> cost_guard \<Rightarrow> (cost_limit_exceeded + unit) \<times> cost_guard" where
  "cost_exec (CoCheck now) cg = check_allowed now cg"
| "cost_exec (CoCheckUser now today user) cg = check_allowed_for_user now today user cg"
| "cost_exec (CoRecord now today u) cg = (Inr (), snd (record_llm_call now today u cg))"
| "cost_exec (CoRecordUser now today today' user u) cg =
     (Inr (), snd (record_llm_call_for_user now today today' user u cg))"
| "cost_exec (CoCount now) cg = (Inr (), snd (actions_this_hour now cg))"

definition cost_run :: "cost_op list \<Rightarrow> cost_guard \<Rightarrow> cost_guard" where
  "cost_run ops cg = fold (\<lambda>op cg. snd (cost_exec op cg)) ops cg"

definition cost_hist :: "cost_op list \<Rightarrow> time list" where
  "cost_hist ops = concat (map (\<lambda>op. case op of CoRecord now _ _ \<Rightarrow> [now] | CoRecordUser now _ _ _ _ \<Rightarrow> [now] | _ \<Rightarrow> []) ops)"

lemma cost_run_snoc: "cost_run (ops @ [op]) cg = snd (cost_exec op (cost_run ops cg))"
  by (simp add: cost_run_def)

lemma cost_hist_snoc:
  "cost_hist (ops @ [op]) = cost_hist ops @ (case op of CoRecord now _ _ \<Rightarrow> [now] | CoRecordUser now _ _ _ _ \<Rightarrow> [now] | _ \<Rightarrow> [])"
  by (simp add: cost_hist_def)

lemma cost_hist_times: "t \<in> set (cost_hist ops) \<Longrightarrow> \<exists>op \<in> set ops. t = cost_time op"
proof -
  assume "t \<in> set (cost_hist ops)"
  then obtain op where "op \<in> set ops" "t \<in> set (cost_hist [op])" by (auto simp: cost_hist_def)
  moreover have "t \<in> set (cost_hist [op]) \<Longrightarrow> t = cost_time op" by (cases op) (auto simp: cost_hist_def)
  ultimately show ?thesis by blast
qed

text \<open>How each operation changes the window.\<close>

lemma check_hourly_window:
  "cg_action_window (snd (check_hourly now cg)) \<in> {cg_action_window cg, drain_window now (cg_action_window cg)}"
  by (simp add: check_hourly_def Let_def split: option.splits)

lemma check_allowed_window:
  "cg_action_window (snd (check_allowed now cg)) \<in> {cg_action_window cg, drain_window now (cg_action_window cg)}"
  using check_hourly_window [of now cg] by (simp add: check_allowed_def Let_def split: option.splits)

lemma check_allowed_for_user_snd: "snd (check_allowed_for_user now today u cg) = snd (check_allowed now cg)"
  by (simp add: check_allowed_for_user_def split: prod.splits sum.splits option.splits)

lemma cost_exec_window:
  "cg_action_window (snd (cost_exec op cg)) \<in>
     (case op of CoRecord now _ _ \<Rightarrow> {cg_action_window cg @ [now]}
      | CoRecordUser now _ _ _ _ \<Rightarrow> {cg_action_window cg @ [now]}
      | _ \<Rightarrow> {cg_action_window cg, drain_window (cost_time op) (cg_action_window cg)})"
  using check_allowed_window [of "cost_time op" cg]
  by (cases op)
    (simp_all add: check_allowed_for_user_snd record_llm_call_def record_llm_call_for_user_def
      actions_this_hour_def Let_def case_prod_beta)

text \<open>The window is a suffix of the history, and what it lost is older than an hour.\<close>

definition window_ok :: "time \<Rightarrow> time list \<Rightarrow> time list \<Rightarrow> bool" where
  "window_ok now hist w \<longleftrightarrow> (\<exists>old. hist = old @ w \<and> (\<forall>t \<in> set old. t < now - hour_nanos))"

lemma drain_window_ok:
  assumes "window_ok now hist w" "now \<le> now'"
  shows "window_ok now' hist (drain_window now' w)"
proof -
  from assms(1) obtain old where o: "hist = old @ w" "\<forall>t \<in> set old. t < now - hour_nanos"
    by (auto simp: window_ok_def)
  let ?P = "\<lambda>t. t < now' - hour_nanos"
  have "\<forall>t \<in> set (old @ takeWhile ?P w). ?P t"
    using o(2) assms(2) by (auto dest: set_takeWhileD)
  then have "\<exists>old'. hist = old' @ dropWhile ?P w \<and> (\<forall>t \<in> set old'. ?P t)"
    using o(1) by (intro exI [of _ "old @ takeWhile ?P w"]) simp
  moreover have "\<exists>old'. hist = old' @ w \<and> (\<forall>t \<in> set old'. ?P t)"
    using o assms(2) by (intro exI [of _ old]) auto
  ultimately show ?thesis by (simp add: window_ok_def drain_window_def)
qed

lemma window_ok_mono: "window_ok now hist w \<Longrightarrow> now \<le> now' \<Longrightarrow> window_ok now' hist w"
  unfolding window_ok_def by (elim exE conjE) (rule exI, auto)

lemma window_ok_record: "window_ok now hist w \<Longrightarrow> window_ok now (hist @ [t]) (w @ [t])"
  unfolding window_ok_def by auto

lemma cost_run_window:
  assumes "sorted (map cost_time ops)" "\<forall>op \<in> set ops. cost_time op \<le> now" "cg_action_window cg = []"
  shows "window_ok now (cost_hist ops) (cg_action_window (cost_run ops cg))"
  using assms(1,2)
proof (induction ops arbitrary: now rule: rev_induct)
  case Nil
  then show ?case using assms(3) by (simp add: window_ok_def cost_run_def cost_hist_def)
next
  case (snoc op ops)
  let ?w = "cg_action_window (cost_run ops cg)"
  have IH: "window_ok (cost_time op) (cost_hist ops) ?w"
    using snoc by (intro snoc.IH) (auto simp: sorted_append)
  have "window_ok (cost_time op) (cost_hist (ops @ [op])) (cg_action_window (cost_run (ops @ [op]) cg))"
    using cost_exec_window [of op "cost_run ops cg"] IH drain_window_ok [OF IH order_refl]
      window_ok_record [OF IH]
    by (auto simp: cost_run_snoc cost_hist_snoc split: cost_op.splits)
  then show ?case by (rule window_ok_mono) (use snoc.prems(2) in simp)
qed

lemma sorted_hist: "sorted (map cost_time ops) \<Longrightarrow> sorted (cost_hist ops)"
proof (induction ops rule: rev_induct)
  case (snoc op ops)
  then show ?case
    by (auto simp: cost_hist_snoc sorted_append dest!: cost_hist_times split: cost_op.splits)
qed (simp add: cost_hist_def)

lemma sorted_dropWhile_filter:
  "sorted (xs :: time list) \<Longrightarrow> dropWhile (\<lambda>t. t < c) xs = filter (\<lambda>t. t \<ge> c) xs"
proof (induction xs)
  case (Cons x xs)
  show ?case
  proof (cases "x < c")
    case False
    with Cons.prems have "filter (\<lambda>t. t \<ge> c) xs = xs" by (intro filter_True) auto
    with False show ?thesis by simp
  qed (use Cons in simp)
qed simp

lemma drained_is_last_hour:
  assumes "window_ok now hist w" "sorted hist" "\<forall>t \<in> set hist. 0 \<le> t"
  shows "drain_window now w = filter (\<lambda>t. t \<ge> now - hour_nanos) hist"
proof -
  from assms(1) obtain old where o: "hist = old @ w" "\<forall>t \<in> set old. t < now - hour_nanos"
    by (auto simp: window_ok_def)
  have f: "filter (\<lambda>t. t \<ge> now - hour_nanos) old = []" using o(2) by (auto simp: filter_empty_conv)
  show ?thesis
  proof (cases "now \<ge> hour_nanos")
    case True
    then show ?thesis
      using o(1) f assms(2) sorted_dropWhile_filter [of w "now - hour_nanos"]
      by (simp add: drain_window_def sorted_append)
  next
    case False
    have "\<forall>t \<in> set w. 0 \<le> t" using assms(3) o(1) by simp
    with False have "\<forall>t \<in> set w. t \<ge> now - hour_nanos" by force
    then have "filter (\<lambda>t. t \<ge> now - hour_nanos) w = w" by (rule filter_True)
    with False o(1) f show ?thesis by (simp add: drain_window_def)
  qed
qed

lemma cost_config_fixed [simp]: "cg_config (snd (cost_exec op cg)) = cg_config cg"
  by (cases op) (simp_all add: check_allowed_for_user_snd check_allowed_def check_hourly_def
      record_llm_call_def record_llm_call_for_user_def
      actions_this_hour_def Let_def case_prod_beta split: option.splits)

lemma cost_run_config [simp]: "cg_config (cost_run ops cg) = cg_config cg"
  by (induction ops rule: rev_induct) (simp_all add: cost_run_snoc, simp add: cost_run_def)

section \<open>The flag\<close>

definition no_record :: "cost_op \<Rightarrow> bool" where
  "no_record op \<longleftrightarrow> (case op of CoRecord _ _ _ \<Rightarrow> False | CoRecordUser _ _ _ _ _ \<Rightarrow> False | _ \<Rightarrow> True)"

lemma check_allowed_exceeded:
  "cg_budget_exceeded cg \<Longrightarrow> check_allowed now cg =
     (Inl (DailyBudget (to_cents (dc_total (cg_daily_cost cg)))
        (case cgc_max_cost_per_day_cents (cg_config cg) of Some l \<Rightarrow> l | None \<Rightarrow> 0)), cg)"
  by (simp add: check_allowed_def Let_def)

lemma exceeded_stays:
  "cg_budget_exceeded cg \<Longrightarrow> list_all no_record ops \<Longrightarrow>
     cg_budget_exceeded (cost_run ops cg) \<and> cg_daily_cost (cost_run ops cg) = cg_daily_cost cg"
proof (induction ops rule: rev_induct)
  case Nil
  then show ?case by (simp add: cost_run_def)
next
  case (snoc op ops)
  then have ex: "cg_budget_exceeded (cost_run ops cg)" "cg_daily_cost (cost_run ops cg) = cg_daily_cost cg"
    by simp_all
  have "no_record op" using snoc.prems by simp
  then show ?case
    using ex check_allowed_exceeded [OF ex(1)]
    by (cases op) (simp_all add: cost_run_snoc check_allowed_for_user_snd actions_this_hour_def no_record_def Let_def)
qed

lemma denied_sets_flag:
  "fst (check_allowed now cg) = Inl (DailyBudget a b) \<Longrightarrow> cg_budget_exceeded (snd (check_allowed now cg))"
  by (auto simp: check_allowed_def check_hourly_def Let_def split: option.splits if_splits)

section \<open>Properties\<close>

text \<open>
  C17. After any sequence of checks and recorded calls in which the clock does not run backwards,
  \<open>check_allowed\<close> accepts the next call exactly when the budget flag is down, the spending of the
  current counter is below the daily limit, if there is one, and fewer calls than the hourly limit,
  if there is one, were recorded in the last hour: trimming the window forgets no call that counts.
\<close>

theorem cost_check_exact:
  fixes today :: int and cfg :: cost_guard_config
  assumes "sorted (map cost_time ops)" "\<forall>op \<in> set ops. 0 \<le> cost_time op \<and> cost_time op \<le> now"
  defines "cg \<equiv> cost_run ops (new_cost_guard today cfg)"
  shows "fst (check_allowed now cg) = Inr () \<longleftrightarrow>
    \<not> cg_budget_exceeded cg \<and>
    (\<forall>l. cgc_max_cost_per_day_cents cfg = Some l \<longrightarrow> to_cents (dc_total (cg_daily_cost cg)) < l) \<and>
    (\<forall>l. cgc_max_actions_per_hour cfg = Some l \<longrightarrow>
       word_of_nat (length (filter (\<lambda>t. t \<ge> now - hour_nanos) (cost_hist ops))) < l)"
proof -
  have "window_ok now (cost_hist ops) (cg_action_window cg)"
    unfolding cg_def using assms(1,2) by (intro cost_run_window) (simp_all add: new_cost_guard_def)
  then have w: "drain_window now (cg_action_window cg) = filter (\<lambda>t. t \<ge> now - hour_nanos) (cost_hist ops)"
    using assms(1,2) cost_hist_times by (intro drained_is_last_hour sorted_hist) fastforce+
  have c: "cg_config cg = cfg" by (simp add: cg_def new_cost_guard_def)
  show ?thesis
    unfolding check_allowed_def check_hourly_def Let_def c w
    by (auto split: option.splits)
qed

definition cost_example :: cost_guard_config where
  "cost_example = \<lparr>cgc_max_cost_per_day_cents = Some 100, cgc_max_actions_per_hour = Some 1,
     cgc_max_cost_per_user_per_day_cents = None\<rparr>"

definition usage_example :: llm_usage where
  "usage_example = \<lparr>us_model = ''m'', us_input_tokens = 10, us_output_tokens = 5,
     us_cache_read_input_tokens = 0, us_cache_creation_input_tokens = 0, us_cache_read_discount = 1,
     us_cache_write_multiplier = 1, us_cost_per_token = Some (1, 2)\<rparr>"

theorem cost_check_exact_witness:
  "fst (check_allowed 5 (cost_run [CoCheck 1] (new_cost_guard 0 cost_example))) = Inr ()"
proof -
  let ?cg = "cost_run [CoCheck 1] (new_cost_guard 0 cost_example)"
  have "\<not> cg_budget_exceeded ?cg" "dc_total (cg_daily_cost ?cg) = 0"
    by (simp_all add: cost_run_def new_cost_guard_def cost_example_def check_allowed_def check_hourly_def
        to_cents_def Let_def)
  then show ?thesis
    using cost_check_exact [of "[CoCheck 1]" 5 0 cost_example]
    by (simp add: cost_hist_def cost_example_def to_cents_def)
qed

text \<open>
  The daily budget never resets for an agent that obeys it: once a check is refused because of
  the daily budget, every later check, of any user and on any later day, is refused as long as no
  call is recorded, although \<open>daily_spend\<close> reports zero from the next day on. Only a recorded call
  lowers the flag, and a call is recorded only after a check allowed it.
\<close>

lemma exhausted_budget_never_resets:
  assumes "fst (check_allowed now cg) = Inl (DailyBudget a b)" "list_all no_record ops"
  defines "cg' \<equiv> cost_run ops (snd (check_allowed now cg))"
  shows "(\<exists>a' b'. fst (check_allowed now' cg') = Inl (DailyBudget a' b')) \<and>
    (\<exists>a' b'. fst (check_allowed_for_user now' today' user cg') = Inl (DailyBudget a' b')) \<and>
    (today' \<noteq> dc_reset_date (cg_daily_cost cg) \<longrightarrow> daily_spend today' cg' = 0)"
proof -
  let ?c = "snd (check_allowed now cg)"
  have d: "cg_daily_cost ?c = cg_daily_cost cg"
    by (simp add: check_allowed_def check_hourly_def Let_def split: option.splits)
  have ex: "cg_budget_exceeded cg'" "cg_daily_cost cg' = cg_daily_cost cg"
    using exceeded_stays [OF denied_sets_flag [OF assms(1)] assms(2)] d by (simp_all add: cg'_def)
  then show ?thesis
    by (simp add: check_allowed_exceeded check_allowed_for_user_def daily_spend_def)
qed

lemma exhausted_budget_never_resets_witness:
  "\<exists>a b. fst (check_allowed 99
      (cost_run [CoCheckUser 8 1 ''u''] (snd (check_allowed 2
        (snd (record_llm_call 1 0 usage_example (new_cost_guard 0 cost_example)))))))
    = Inl (DailyBudget a b)"
proof -
  let ?cg = "snd (record_llm_call 1 0 usage_example (new_cost_guard 0 cost_example))"
  have "cg_budget_exceeded ?cg"
    by (simp add: record_llm_call_def usage_example_def cost_example_def new_cost_guard_def call_cost_def
        add_daily_def to_cents_def sat_add_u32_def sat_sub_u32_def Let_def)
  then obtain a b where "fst (check_allowed 2 ?cg) = Inl (DailyBudget a b)"
    by (simp add: check_allowed_exceeded)
  from exhausted_budget_never_resets [OF this, of "[CoCheckUser 8 1 ''u'']"] show ?thesis
    by (simp add: no_record_def)
qed

end
