(* ===== verification/Rate_Limiter.thy ===== *)
theory Rate_Limiter
  imports Prelude
begin

text \<open>
  The rate limiter of tools (\<open>src/tools/rate_limiter.rs\<close>): a minute window and an hour window per
  user and tool. A check reads the clock several times; \<open>clk i\<close> is the \<open>i\<close>-th reading.
\<close>

section \<open>Windows\<close>

record tool_rate_limit_config =
  rlc_requests_per_minute :: u32
  rlc_requests_per_hour :: u32

definition default_rate_limit_config :: tool_rate_limit_config where
  "default_rate_limit_config = \<lparr>rlc_requests_per_minute = 60, rlc_requests_per_hour = 1000\<rparr>"

datatype limit_type = PerMinute | PerHour

datatype rate_limit_result = RlAllowed u32 u32 | RlLimited nat limit_type

definition rl_is_allowed :: "rate_limit_result \<Rightarrow> bool" where
  "rl_is_allowed r = (case r of RlAllowed _ _ \<Rightarrow> True | RlLimited _ _ \<Rightarrow> False)"

text \<open>\<open>RateLimitError\<close>: the time to wait and the limit that was reached.\<close>

definition rate_limit_to_result :: "rate_limit_result \<Rightarrow> (nat \<times> limit_type) + unit" where
  "rate_limit_to_result r = (case r of RlAllowed _ _ \<Rightarrow> Inr () | RlLimited d l \<Rightarrow> Inl (d, l))"

record window_state =
  ws_window_start :: time
  ws_count :: u32

definition new_window :: "time \<Rightarrow> window_state" where
  "new_window now = \<lparr>ws_window_start = now, ws_count = 0\<rparr>"

definition ws_elapsed :: "time \<Rightarrow> window_state \<Rightarrow> nat" where
  "ws_elapsed now w = nat (now - ws_window_start w)"

text \<open>\<open>now\<close> is the reading of the test and \<open>now'\<close> the one of the reset.\<close>

definition maybe_reset :: "time \<Rightarrow> time \<Rightarrow> nat \<Rightarrow> window_state \<Rightarrow> window_state" where
  "maybe_reset now now' duration w =
     (if ws_elapsed now w \<ge> duration then \<lparr>ws_window_start = now', ws_count = 0\<rparr> else w)"

definition time_until_reset :: "time \<Rightarrow> nat \<Rightarrow> window_state \<Rightarrow> nat" where
  "time_until_reset now duration w =
     (if ws_elapsed now w \<ge> duration then 0 else duration - ws_elapsed now w)"

record tool_rate_limit_state =
  rls_minute_window :: window_state
  rls_hour_window :: window_state

definition minute_nanos :: nat where
  "minute_nanos = 60 * 1000000000"

definition rl_hour_nanos :: nat where
  "rl_hour_nanos = 3600 * 1000000000"

type_synonym rate_limiter = "(string \<times> string, tool_rate_limit_state) hmap"

definition reset_windows :: "(nat \<Rightarrow> time) \<Rightarrow> tool_rate_limit_state \<Rightarrow> tool_rate_limit_state" where
  "reset_windows clk st =
     \<lparr>rls_minute_window = maybe_reset (clk 2) (clk 3) minute_nanos (rls_minute_window st),
      rls_hour_window = maybe_reset (clk 4) (clk 5) rl_hour_nanos (rls_hour_window st)\<rparr>"

definition check_state ::
    "tool_rate_limit_config \<Rightarrow> bool \<Rightarrow> (nat \<Rightarrow> time) \<Rightarrow> tool_rate_limit_state \<Rightarrow>
     rate_limit_result \<times> tool_rate_limit_state" where
  "check_state cfg record_it clk st0 =
     (let st = reset_windows clk st0;
          mw = rls_minute_window st;
          hw = rls_hour_window st
      in if ws_count mw \<ge> rlc_requests_per_minute cfg
         then (RlLimited (time_until_reset (clk 6) minute_nanos mw) PerMinute, st)
         else if ws_count hw \<ge> rlc_requests_per_hour cfg
         then (RlLimited (time_until_reset (clk 6) rl_hour_nanos hw) PerHour, st)
         else
           let mw' = (if record_it then mw\<lparr>ws_count := ws_count mw + 1\<rparr> else mw);
               hw' = (if record_it then hw\<lparr>ws_count := ws_count hw + 1\<rparr> else hw)
           in (RlAllowed (rlc_requests_per_minute cfg - ws_count mw') (rlc_requests_per_hour cfg - ws_count hw'),
               \<lparr>rls_minute_window = mw', rls_hour_window = hw'\<rparr>))"

definition check_internal ::
    "tool_rate_limit_config \<Rightarrow> bool \<Rightarrow> (nat \<Rightarrow> time) \<Rightarrow> string \<Rightarrow> string \<Rightarrow> rate_limiter \<Rightarrow>
     rate_limit_result \<times> rate_limiter" where
  "check_internal cfg record_it clk user_id tool_name rl =
     (let key = (user_id, tool_name);
          st0 = (case hm_get rl key of
            Some st \<Rightarrow> st
          | None \<Rightarrow> \<lparr>rls_minute_window = new_window (clk 0), rls_hour_window = new_window (clk 1)\<rparr>);
          (r, st) = check_state cfg record_it clk st0
      in (r, hm_insert key st rl))"

definition check_and_record ::
    "tool_rate_limit_config \<Rightarrow> (nat \<Rightarrow> time) \<Rightarrow> string \<Rightarrow> string \<Rightarrow> rate_limiter \<Rightarrow>
     rate_limit_result \<times> rate_limiter" where
  "check_and_record cfg clk user_id tool_name rl = check_internal cfg True clk user_id tool_name rl"

definition rl_check ::
    "tool_rate_limit_config \<Rightarrow> (nat \<Rightarrow> time) \<Rightarrow> string \<Rightarrow> string \<Rightarrow> rate_limiter \<Rightarrow>
     rate_limit_result \<times> rate_limiter" where
  "rl_check cfg clk user_id tool_name rl = check_internal cfg False clk user_id tool_name rl"

definition get_usage :: "string \<Rightarrow> string \<Rightarrow> rate_limiter \<Rightarrow> (u32 \<times> u32) option" where
  "get_usage user_id tool_name rl =
     map_option (\<lambda>s. (ws_count (rls_minute_window s), ws_count (rls_hour_window s)))
       (hm_get rl (user_id, tool_name))"

definition rl_clear :: "string \<Rightarrow> string \<Rightarrow> rate_limiter \<Rightarrow> rate_limiter" where
  "rl_clear user_id tool_name rl = hm_remove (user_id, tool_name) rl"

definition rl_clear_all :: "rate_limiter \<Rightarrow> rate_limiter" where
  "rl_clear_all rl = []"

section \<open>Runs\<close>

text \<open>Calls of any users and tools, each with its readings of the clock; each tool has its limits.\<close>

type_synonym rl_call = "(string \<times> string) \<times> (nat \<Rightarrow> time)"

fun rl_allowed :: "(string \<Rightarrow> tool_rate_limit_config) \<Rightarrow> string \<times> string \<Rightarrow> rl_call list \<Rightarrow> rate_limiter \<Rightarrow> nat" where
  "rl_allowed cfgs key [] rl = 0"
| "rl_allowed cfgs key ((k, clk) # cs) rl =
     (let (r, rl') = check_and_record (cfgs (snd k)) clk (fst k) (snd k) rl
      in (if k = key \<and> rl_is_allowed r then 1 else 0) + rl_allowed cfgs key cs rl')"

text \<open>The budget that a state leaves in the current minute.\<close>

definition minute_left :: "tool_rate_limit_config \<Rightarrow> window_state \<Rightarrow> nat" where
  "minute_left cfg w = unat (rlc_requests_per_minute cfg) - unat (ws_count w)"

lemma check_state_minute:
  assumes "check_state cfg True clk st0 = (r, st)"
  shows "ws_window_start (rls_minute_window st) = ws_window_start (rls_minute_window (reset_windows clk st0)) \<and>
    of_bool (rl_is_allowed r) + minute_left cfg (rls_minute_window st)
      \<le> minute_left cfg (rls_minute_window (reset_windows clk st0))"
proof -
  let ?m = "rls_minute_window (reset_windows clk st0)"
  have u: "unat (ws_count ?m + 1) = unat (ws_count ?m) + 1" if "ws_count ?m < rlc_requests_per_minute cfg"
    using unat_plus_one_u32 [OF that] .
  show ?thesis
    using assms u
    by (auto simp: check_state_def Let_def rl_is_allowed_def minute_left_def word_less_nat_alt not_le
        split: if_splits)
qed

lemma minute_left_le: "minute_left cfg w \<le> unat (rlc_requests_per_minute cfg)"
  by (simp add: minute_left_def)

text \<open>The minute window of a key, and what a check of any key does to it.\<close>

definition minute_of :: "string \<times> string \<Rightarrow> rate_limiter \<Rightarrow> window_state option" where
  "minute_of key rl = map_option rls_minute_window (hm_get rl key)"

lemma check_other:
  "(u, t) \<noteq> key \<Longrightarrow> minute_of key (snd (check_and_record cfg clk u t rl)) = minute_of key rl"
  by (auto simp: minute_of_def check_and_record_def check_internal_def Let_def case_prod_beta)

lemma check_own:
  fixes cfg clk u t rl
  defines "old \<equiv> (case minute_of (u, t) rl of Some w \<Rightarrow> w | None \<Rightarrow> new_window (clk 0))"
  defines "w0 \<equiv> maybe_reset (clk 2) (clk 3) minute_nanos old"
  shows "\<exists>w. minute_of (u, t) (snd (check_and_record cfg clk u t rl)) = Some w \<and>
    ws_window_start w = ws_window_start w0 \<and>
    of_bool (rl_is_allowed (fst (check_and_record cfg clk u t rl))) + minute_left cfg w \<le> minute_left cfg w0"
proof -
  let ?st0 = "case hm_get rl (u, t) of Some st \<Rightarrow> st
      | None \<Rightarrow> \<lparr>rls_minute_window = new_window (clk 0), rls_hour_window = new_window (clk 1)\<rparr>"
  obtain r st where rs: "check_state cfg True clk ?st0 = (r, st)" by fastforce
  have c: "check_and_record cfg clk u t rl = (r, hm_insert (u, t) st rl)"
    by (simp add: check_and_record_def check_internal_def Let_def rs)
  have "rls_minute_window (reset_windows clk ?st0) = w0"
    by (simp add: reset_windows_def w0_def old_def minute_of_def split: option.splits)
  with check_state_minute [OF rs] show ?thesis by (simp add: c minute_of_def)
qed

section \<open>Counting calls in a minute\<close>

lemma rl_allowed_Cons:
  "rl_allowed cfgs key (((u, t), clk) # cs) rl =
     of_bool ((u, t) = key \<and> rl_is_allowed (fst (check_and_record (cfgs t) clk u t rl))) +
     rl_allowed cfgs key cs (snd (check_and_record (cfgs t) clk u t rl))"
  by (simp add: case_prod_beta Let_def)

declare rl_allowed.simps(2) [simp del]

lemma no_reset: "now < ws_window_start w + int minute_nanos \<Longrightarrow> maybe_reset now now' minute_nanos w = w"
  by (auto simp: maybe_reset_def ws_elapsed_def minute_nanos_def)

text \<open>As long as the clock stays within the current window, the window's budget bounds the calls.\<close>

lemma allowed_in_window:
  assumes "minute_of (u, t) rl = Some w"
    and "\<forall>c \<in> set cs. snd c 2 < ws_window_start w + int minute_nanos"
  shows "rl_allowed cfgs (u, t) cs rl \<le> minute_left (cfgs t) w"
  using assms
proof (induction cs arbitrary: rl w)
  case (Cons c cs)
  obtain u' t' clk where c: "c = ((u', t'), clk)" by (metis surj_pair)
  let ?rl = "snd (check_and_record (cfgs t') clk u' t' rl)"
  show ?case
  proof (cases "(u', t') = (u, t)")
    case False
    then have "minute_of (u, t) ?rl = Some w" using check_other Cons.prems(1) by metis
    with Cons.IH Cons.prems(2) have "rl_allowed cfgs (u, t) cs ?rl \<le> minute_left (cfgs t) w" by simp
    with False show ?thesis by (simp only: c rl_allowed_Cons) auto
  next
    case True
    have "clk 2 < ws_window_start w + int minute_nanos" using Cons.prems(2) c by simp
    then obtain w' where w': "minute_of (u, t) ?rl = Some w'" "ws_window_start w' = ws_window_start w"
      "of_bool (rl_is_allowed (fst (check_and_record (cfgs t') clk u' t' rl))) + minute_left (cfgs t) w'
        \<le> minute_left (cfgs t) w"
      using check_own [where u = u' and t = t' and rl = rl and cfg = "cfgs t'" and clk = clk] True Cons.prems(1) no_reset by auto
    with Cons.IH [of ?rl w'] Cons.prems(2) have "rl_allowed cfgs (u, t) cs ?rl \<le> minute_left (cfgs t) w'" by simp
    with w'(3) True show ?thesis by (simp only: c rl_allowed_Cons simp_thms) auto
  qed
qed simp

lemma own_call_in_minute:
  assumes w: "minute_of (u, t) rl = Some w"
    and clk: "t0 \<le> clk 3" and cs: "\<forall>c \<in> set cs. snd c 2 < t0 + int minute_nanos"
    and reset: "int minute_nanos \<le> clk 2 - ws_window_start w"
  shows "rl_allowed cfgs (u, t) (((u, t), clk) # cs) rl \<le> unat (rlc_requests_per_minute (cfgs t))"
proof -
  let ?c = "check_and_record (cfgs t) clk u t rl"
  have "minute_nanos \<le> nat (clk 2 - ws_window_start w)" using reset by simp
  with w obtain w' where w': "minute_of (u, t) (snd ?c) = Some w'" "ws_window_start w' = clk 3"
    "of_bool (rl_is_allowed (fst ?c)) + minute_left (cfgs t) w' \<le> unat (rlc_requests_per_minute (cfgs t))"
    using check_own [where u = u and t = t and rl = rl and cfg = "cfgs t" and clk = clk] by (auto simp: maybe_reset_def ws_elapsed_def minute_left_def)
  have "rl_allowed cfgs (u, t) cs (snd ?c) \<le> minute_left (cfgs t) w'"
    using w' clk cs by (intro allowed_in_window) force+
  with w'(3) show ?thesis by (simp only: rl_allowed_Cons simp_thms)
qed

lemma allowed_from_window:
  assumes "minute_of (u, t) rl = Some w"
    and "\<forall>c \<in> set cs. t0 \<le> snd c 3 \<and> snd c 2 < t0 + int minute_nanos"
  shows "rl_allowed cfgs (u, t) cs rl \<le> minute_left (cfgs t) w + unat (rlc_requests_per_minute (cfgs t))"
  using assms
proof (induction cs arbitrary: rl w)
  case (Cons c cs)
  obtain u' t' clk where c: "c = ((u', t'), clk)" by (metis surj_pair)
  let ?c = "check_and_record (cfgs t') clk u' t' rl"
  let ?n = "unat (rlc_requests_per_minute (cfgs t))"
  consider "(u', t') \<noteq> (u, t)" | "(u', t') = (u, t)" "int minute_nanos \<le> clk 2 - ws_window_start w"
    | "(u', t') = (u, t)" "clk 2 - ws_window_start w < int minute_nanos" by linarith
  then show ?case
  proof cases
    case 1
    then have "minute_of (u, t) (snd ?c) = Some w" using check_other Cons.prems(1) by metis
    with Cons.IH Cons.prems(2) have "rl_allowed cfgs (u, t) cs (snd ?c) \<le> minute_left (cfgs t) w + ?n" by simp
    with 1 show ?thesis by (simp only: c rl_allowed_Cons) auto
  next
    case 2
    then have "rl_allowed cfgs (u, t) (((u, t), clk) # cs) rl \<le> ?n"
      using Cons.prems c by (intro own_call_in_minute [of u t rl w t0]) auto
    with 2(1) show ?thesis by (simp add: c)
  next
    case 3
    then obtain w' where w': "minute_of (u, t) (snd ?c) = Some w'"
      "of_bool (rl_is_allowed (fst ?c)) + minute_left (cfgs t) w' \<le> minute_left (cfgs t) w"
      using check_own [where u = u' and t = t' and rl = rl and cfg = "cfgs t'" and clk = clk] Cons.prems(1) no_reset [of "clk 2" w "clk 3"] by auto
    with Cons.IH Cons.prems(2) have "rl_allowed cfgs (u, t) cs (snd ?c) \<le> minute_left (cfgs t) w' + ?n" by simp
    with w'(2) 3(1) show ?thesis by (simp only: c rl_allowed_Cons simp_thms) auto
  qed
qed simp

lemma allowed_fresh:
  assumes "minute_of (u, t) rl = None"
    and "\<forall>c \<in> set cs. t0 \<le> snd c 0 \<and> snd c 2 < t0 + int minute_nanos"
  shows "rl_allowed cfgs (u, t) cs rl \<le> unat (rlc_requests_per_minute (cfgs t))"
  using assms
proof (induction cs arbitrary: rl)
  case (Cons c cs)
  obtain u' t' clk where c: "c = ((u', t'), clk)" by (metis surj_pair)
  let ?c = "check_and_record (cfgs t') clk u' t' rl"
  show ?case
  proof (cases "(u', t') = (u, t)")
    case False
    then have "minute_of (u, t) (snd ?c) = None" using check_other Cons.prems(1) by metis
    with Cons have "rl_allowed cfgs (u, t) cs (snd ?c) \<le> unat (rlc_requests_per_minute (cfgs t))" by simp
    with False show ?thesis by (simp only: c rl_allowed_Cons) auto
  next
    case True
    have "maybe_reset (clk 2) (clk 3) minute_nanos (new_window (clk 0)) = new_window (clk 0)"
      using Cons.prems(2) c by (intro no_reset) (auto simp: new_window_def)
    then obtain w' where w': "minute_of (u, t) (snd ?c) = Some w'" "ws_window_start w' = clk 0"
      "of_bool (rl_is_allowed (fst ?c)) + minute_left (cfgs t) w' \<le> unat (rlc_requests_per_minute (cfgs t))"
      using check_own [where u = u' and t = t' and rl = rl and cfg = "cfgs t'" and clk = clk] Cons.prems(1) True
      by (auto simp: new_window_def minute_left_def)
    have "t0 \<le> clk 0" using Cons.prems(2) c by simp
    then have "rl_allowed cfgs (u, t) cs (snd ?c) \<le> minute_left (cfgs t) w'"
      using w' Cons.prems(2) by (intro allowed_in_window) force+
    with w'(3) True show ?thesis by (simp only: c rl_allowed_Cons simp_thms) auto
  qed
qed simp

section \<open>The limit\<close>

text \<open>
  Of any sequence of checked calls of all users and tools whose clock readings lie within one minute,
  at most twice the minute limit of a tool are allowed to one user, and at most the limit itself when the
  user has not called the tool before. The limiter counts in fixed windows, so the factor two is reached
  by calls on both sides of a window's end.
\<close>

lemma rate_limit_per_minute:
  assumes "\<forall>c \<in> set cs. t0 \<le> snd c 0 \<and> t0 \<le> snd c 3 \<and> snd c 2 < t0 + int minute_nanos"
  shows "rl_allowed cfgs (u, t) cs rl \<le> 2 * unat (rlc_requests_per_minute (cfgs t)) \<and>
    (get_usage u t rl = None \<longrightarrow> rl_allowed cfgs (u, t) cs rl \<le> unat (rlc_requests_per_minute (cfgs t)))"
proof (cases "minute_of (u, t) rl")
  case None
  then have "rl_allowed cfgs (u, t) cs rl \<le> unat (rlc_requests_per_minute (cfgs t))"
    using assms by (intro allowed_fresh) auto
  then show ?thesis by auto
next
  case (Some w)
  then have "rl_allowed cfgs (u, t) cs rl \<le> minute_left (cfgs t) w + unat (rlc_requests_per_minute (cfgs t))"
    using assms by (intro allowed_from_window) auto
  moreover have "get_usage u t rl \<noteq> None" using Some by (auto simp: get_usage_def minute_of_def)
  ultimately show ?thesis using minute_left_le [of "cfgs t" w] by linarith
qed

text \<open>With a limit of one per minute, two calls a second apart on both sides of the end of a window pass.\<close>

definition one_per_minute :: tool_rate_limit_config where
  "one_per_minute = \<lparr>rlc_requests_per_minute = 1, rlc_requests_per_hour = 10\<rparr>"

definition old_limiter :: rate_limiter where
  "old_limiter = [((''u'', ''t''), \<lparr>rls_minute_window = \<lparr>ws_window_start = 0, ws_count = 0\<rparr>,
     rls_hour_window = \<lparr>ws_window_start = 0, ws_count = 0\<rparr>\<rparr>)]"

lemma rate_limit_per_minute_witness:
  "rl_allowed (\<lambda>_. one_per_minute) (''u'', ''t'')
     [((''u'', ''t''), \<lambda>_. 59500000000), ((''u'', ''t''), \<lambda>_. 60500000000), ((''u'', ''t''), \<lambda>_. 60600000000)]
     old_limiter = 2 \<and>
   rl_allowed (\<lambda>_. one_per_minute) (''u'', ''t'')
     [((''u'', ''t''), \<lambda>_. 59500000000), ((''u'', ''t''), \<lambda>_. 60500000000), ((''u'', ''t''), \<lambda>_. 60600000000)]
     old_limiter \<le> 2 * unat (rlc_requests_per_minute one_per_minute)"
  apply (rule conjI)
   apply (simp add: check_and_record_def check_internal_def check_state_def reset_windows_def maybe_reset_def
      ws_elapsed_def minute_nanos_def rl_hour_nanos_def Let_def one_per_minute_def old_limiter_def
      rl_is_allowed_def rl_allowed_Cons word_le_nat_alt)
  apply (rule rate_limit_per_minute [of _ 59500000000, THEN conjunct1])
  apply (simp add: minute_nanos_def)
  done

end
