(* ===== verification/Memory_Retrieval.thy ===== *)
theory Memory_Retrieval
  imports Engine_Store Text_Ops
begin

text \<open>
  Memory documents (\<open>types/memory.rs\<close>), their table in the store (\<open>traits/store.rs\<close>,
  \<open>src/bridge/store_adapter.rs\<close>) and the retrieval of the documents that fit a goal
  (\<open>memory/retrieval.rs\<close>). A score is an exact number in the place of an \<open>f64\<close>.
\<close>

section \<open>Documents\<close>

datatype doc_type = DtSummary | DtLesson | DtIssue | DtSpec | DtNote | DtSkill | DtPlan

record memory_doc =
  md_id :: doc_id
  md_project_id :: project_id
  md_user_id :: string
  md_doc_type :: doc_type
  md_title :: string
  md_content :: string
  md_source_thread_id :: "thread_id option"
  md_tags :: "string list"
  md_metadata :: json
  md_created_at :: time
  md_updated_at :: time

definition new_memory_doc ::
    "doc_id \<Rightarrow> time \<Rightarrow> project_id \<Rightarrow> string \<Rightarrow> doc_type \<Rightarrow> string \<Rightarrow> string \<Rightarrow> memory_doc" where
  "new_memory_doc did now pid uid dt title content =
     \<lparr>md_id = did, md_project_id = pid, md_user_id = uid, md_doc_type = dt, md_title = title,
      md_content = content, md_source_thread_id = None, md_tags = [], md_metadata = JObject [],
      md_created_at = now, md_updated_at = now\<rparr>"

definition doc_with_source_thread :: "thread_id \<Rightarrow> memory_doc \<Rightarrow> memory_doc" where
  "doc_with_source_thread tid d = d\<lparr>md_source_thread_id := Some tid\<rparr>"

definition doc_with_tags :: "string list \<Rightarrow> memory_doc \<Rightarrow> memory_doc" where
  "doc_with_tags tags d = d\<lparr>md_tags := tags\<rparr>"

definition doc_is_owned_by :: "memory_doc \<Rightarrow> string \<Rightarrow> bool" where
  "doc_is_owned_by d uid = owner_matches_user (owner_from_user_id (md_user_id d)) uid"

section \<open>The table of documents\<close>

type_synonym doc_table = "(doc_id, memory_doc) hmap"

definition is_protected_orchestrator_doc :: "memory_doc \<Rightarrow> bool" where
  "is_protected_orchestrator_doc d \<longleftrightarrow>
     starts_with (md_title d) ''orchestrator:'' \<or> starts_with (md_title d) ''prompt:''"

text \<open>\<open>allow\<close> is whether the environment enables self-modification.\<close>

definition save_memory_doc :: "bool \<Rightarrow> memory_doc \<Rightarrow> doc_table \<Rightarrow> engine_error + doc_table" where
  "save_memory_doc allow d docs =
     (let is_system_internal = md_title d = ''orchestrator:failures''
            \<or> Option.bind (json_get ''source'' (md_metadata d)) json_as_str = Some ''compiled_in''
      in if is_protected_orchestrator_doc d \<and> \<not> allow \<and> \<not> is_system_internal
         then Inl (AccessDenied (md_user_id d) (''orchestrator doc '' @ [CHR 0x27] @ md_title d
                @ [CHR 0x27] @ '' (self-modification disabled)''))
         else Inr (hm_insert (md_id d) d docs))"

definition load_memory_doc :: "doc_id \<Rightarrow> doc_table \<Rightarrow> memory_doc option" where
  "load_memory_doc did docs = hm_get docs did"

definition list_memory_docs :: "project_id \<Rightarrow> string \<Rightarrow> doc_table \<Rightarrow> memory_doc list" where
  "list_memory_docs pid uid docs =
     filter (\<lambda>d. md_project_id d = pid \<and> md_user_id d = uid) (hm_values docs)"

definition shared_owner_candidates :: "string list" where
  "shared_owner_candidates = [SHARED_OWNER_ID, LEGACY_SHARED_OWNER_ID]"

text \<open>\<open>dedup_by_key\<close> keeps the first of neighbours with the same key.\<close>

fun dedup_by_key :: "('a \<Rightarrow> 'k) \<Rightarrow> 'a list \<Rightarrow> 'a list" where
  "dedup_by_key f [] = []"
| "dedup_by_key f [x] = [x]"
| "dedup_by_key f (x # y # xs) =
     (if f x = f y then dedup_by_key f (x # xs) else x # dedup_by_key f (y # xs))"

definition list_shared_memory_docs :: "project_id \<Rightarrow> doc_table \<Rightarrow> memory_doc list" where
  "list_shared_memory_docs pid docs =
     dedup_by_key md_id (sort_key md_id
       (concat (map (\<lambda>o'. list_memory_docs pid o' docs) shared_owner_candidates)))"

definition list_memory_docs_with_shared :: "project_id \<Rightarrow> string \<Rightarrow> doc_table \<Rightarrow> memory_doc list" where
  "list_memory_docs_with_shared pid uid docs =
     (if is_shared_owner uid then list_shared_memory_docs pid docs
      else list_memory_docs pid uid docs @ list_shared_memory_docs pid docs)"

section \<open>Retrieval\<close>

definition STOP_WORDS :: "string list" where
  "STOP_WORDS =
     [''a'', ''an'', ''the'', ''is'', ''are'', ''was'', ''were'', ''be'', ''been'', ''being'', ''have'', ''has'',
      ''had'', ''do'', ''does'', ''did'', ''will'', ''would'', ''could'', ''should'', ''may'', ''might'', ''shall'',
      ''can'', ''to'', ''of'', ''in'', ''for'', ''on'', ''with'', ''at'', ''by'', ''from'', ''as'', ''into'', ''about'',
      ''it'', ''its'', ''this'', ''that'', ''these'', ''those'', ''i'', ''you'', ''he'', ''she'', ''we'', ''they'',
      ''what'', ''which'', ''who'', ''how'', ''when'', ''where'', ''why'', ''and'', ''or'', ''but'', ''not'', ''no'',
      ''if'', ''then'', ''so'', ''up'', ''out'', ''just'']"

definition extract_keywords :: "string \<Rightarrow> string list" where
  "extract_keywords query =
     filter (\<lambda>w. byte_len w \<ge> 2 \<and> \<not> List.member STOP_WORDS w)
       (map to_lowercase
         (split_at_chars (\<lambda>c. \<not> is_alphanumeric c \<and> c \<noteq> CHR ''_'' \<and> c \<noteq> CHR ''-'') query))"

definition keyword_points :: "memory_doc \<Rightarrow> string \<Rightarrow> nat" where
  "keyword_points d kw =
     (if contains_str (to_lowercase (md_title d)) kw then 2
      else if contains_str (to_lowercase (md_content d)) kw then 1 else 0)"

definition keyword_match_score :: "memory_doc \<Rightarrow> string list \<Rightarrow> real" where
  "keyword_match_score d keywords =
     (if keywords = [] then 0
      else real (sum_list (map (keyword_points d) keywords)) / real (length keywords * 2))"

fun doc_type_weight :: "doc_type \<Rightarrow> real" where
  "doc_type_weight DtSpec = 5 / 10"
| "doc_type_weight DtSkill = 45 / 100"
| "doc_type_weight DtLesson = 4 / 10"
| "doc_type_weight DtIssue = 2 / 10"
| "doc_type_weight DtSummary = 1 / 10"
| "doc_type_weight DtNote = 5 / 100"
| "doc_type_weight DtPlan = 3 / 10"

definition retrieval_score :: "string list \<Rightarrow> memory_doc \<Rightarrow> real" where
  "retrieval_score keywords d =
     (if keywords = [] then doc_type_weight (md_doc_type d)
      else keyword_match_score d keywords + doc_type_weight (md_doc_type d))"

definition retrieve_context :: "project_id \<Rightarrow> string \<Rightarrow> string \<Rightarrow> nat \<Rightarrow> doc_table \<Rightarrow> memory_doc list" where
  "retrieve_context pid uid query max_docs docs =
     (if max_docs = 0 then []
      else
        let all_docs = list_memory_docs_with_shared pid uid docs
        in if all_docs = [] then []
           else
             let keywords = extract_keywords query;
                 scored = map (\<lambda>d. (retrieval_score keywords d, d)) all_docs;
                 kept = (if keywords = [] then scored else filter (\<lambda>(score, _). score > 0) scored)
             in map snd (take max_docs (sort_key (\<lambda>(score, _). - score) kept)))"

section \<open>Lemmas\<close>

lemma set_dedup [simp]: "set (dedup_by_key f xs) \<subseteq> set xs"
  by (induction f xs rule: dedup_by_key.induct) auto

lemma dedup_keys: "f ` set (dedup_by_key f xs) = f ` set xs"
  by (induction f xs rule: dedup_by_key.induct) auto

lemma dedup_id: "distinct (map f xs) \<Longrightarrow> dedup_by_key f xs = xs"
  by (induction f xs rule: dedup_by_key.induct) auto

lemma list_memory_docs_mem:
  "d \<in> set (list_memory_docs pid uid docs) \<longleftrightarrow>
     d \<in> set (hm_values docs) \<and> md_project_id d = pid \<and> md_user_id d = uid"
  by (auto simp: list_memory_docs_def)

text \<open>A user sees the own and the shared documents of the project, and no others.\<close>

definition doc_visible :: "project_id \<Rightarrow> string \<Rightarrow> memory_doc \<Rightarrow> bool" where
  "doc_visible pid uid d \<longleftrightarrow> md_project_id d = pid \<and> (md_user_id d = uid \<or> is_shared_owner (md_user_id d))"

lemma shared_distinct:
  assumes "hm_keyed md_id docs"
  shows "distinct (map md_id (concat (map (\<lambda>o'. list_memory_docs pid o' docs) shared_owner_candidates)))"
proof -
  have d: "distinct (map md_id (list_memory_docs pid u docs))" for u
    unfolding list_memory_docs_def using keyed_values_distinct [OF assms] by (rule distinct_map_filter)
  have "md_id x \<noteq> md_id y" if "x \<in> set (list_memory_docs pid SHARED_OWNER_ID docs)"
    "y \<in> set (list_memory_docs pid LEGACY_SHARED_OWNER_ID docs)" for x y
  proof
    assume "md_id x = md_id y"
    then have "x = y"
      using that hm_keyed_mem [OF assms] by (simp add: list_memory_docs_mem)
    with that show False
      by (simp add: list_memory_docs_mem SHARED_OWNER_ID_def LEGACY_SHARED_OWNER_ID_def)
  qed
  with d show ?thesis by (auto simp: shared_owner_candidates_def)
qed

lemma list_shared_mem:
  assumes "hm_keyed md_id docs"
  shows "d \<in> set (list_shared_memory_docs pid docs) \<longleftrightarrow>
    d \<in> set (hm_values docs) \<and> md_project_id d = pid \<and> is_shared_owner (md_user_id d)"
proof -
  let ?c = "concat (map (\<lambda>o'. list_memory_docs pid o' docs) shared_owner_candidates)"
  have "distinct (map md_id (sort_key md_id ?c))"
    using shared_distinct [OF assms] by (metis mset_eq_imp_distinct_iff mset_map mset_sort)
  then have "list_shared_memory_docs pid docs = sort_key md_id ?c"
    by (simp add: list_shared_memory_docs_def dedup_id)
  then show ?thesis
    by (auto simp: shared_owner_candidates_def list_memory_docs_mem is_shared_owner_def)
qed

lemma listed_docs_visible:
  assumes "hm_keyed md_id docs"
  shows "d \<in> set (list_memory_docs_with_shared pid uid docs) \<longleftrightarrow>
    d \<in> set (hm_values docs) \<and>
    (if is_shared_owner uid then md_project_id d = pid \<and> is_shared_owner (md_user_id d)
     else doc_visible pid uid d)"
  by (auto simp: list_memory_docs_with_shared_def list_shared_mem [OF assms] list_memory_docs_mem
      doc_visible_def)

lemma doc_type_weight_pos: "doc_type_weight t > 0"
  by (cases t) simp_all

lemma keyword_score_nonneg: "keyword_match_score d ks \<ge> 0"
  by (simp add: keyword_match_score_def)

lemma retrieval_score_pos: "retrieval_score ks d > 0"
  using doc_type_weight_pos [of "md_doc_type d"] keyword_score_nonneg [of d ks]
  by (simp add: retrieval_score_def)

lemma keyword_score_le_1: "keyword_match_score d ks \<le> 1"
proof (cases "ks = []")
  case False
  have "sum_list (map (keyword_points d) ks) \<le> length ks * 2"
    by (induction ks) (auto simp: keyword_points_def)
  with False show ?thesis
    by (simp add: keyword_match_score_def divide_le_eq)
qed (simp add: keyword_match_score_def)

text \<open>The retrieved documents are the first of all visible ones in the order of their scores.\<close>

lemma retrieve_context_sorted:
  "retrieve_context pid uid query n docs =
     take n (sort_key (\<lambda>d. - retrieval_score (extract_keywords query) d)
       (list_memory_docs_with_shared pid uid docs))"
proof -
  let ?all = "list_memory_docs_with_shared pid uid docs"
  have f: "filter (\<lambda>(score, _). score > 0) (map (\<lambda>d. (retrieval_score ks d, d)) ?all)
      = map (\<lambda>d. (retrieval_score ks d, d)) ?all" for ks
    by (rule filter_True) (auto simp: retrieval_score_pos)
  have "(\<lambda>(score, _). - score) \<circ> (\<lambda>d. (retrieval_score ks d, d)) = (\<lambda>d. - retrieval_score ks d)" for ks
    by auto
  then have s: "sort_key (\<lambda>(score, _). - score) (map (\<lambda>d. (retrieval_score ks d, d)) ?all)
      = map (\<lambda>d. (retrieval_score ks d, d)) (sort_key (\<lambda>d. - retrieval_score ks d) ?all)" for ks
    by (simp only: sort_key_map)
  show ?thesis
    by (simp add: retrieve_context_def Let_def f s take_map comp_def)
qed

lemma take_sort_best:
  fixes f :: "'a \<Rightarrow> real"
  assumes "y \<in> set xs" "y \<notin> set (take n (sort_key (\<lambda>x. - f x) xs))"
  shows "length (take n (sort_key (\<lambda>x. - f x) xs)) = n \<and>
    (\<forall>x \<in> set (take n (sort_key (\<lambda>x. - f x) xs)). f y \<le> f x)"
proof -
  let ?s = "sort_key (\<lambda>x. - f x) xs"
  have "y \<in> set (take n ?s @ drop n ?s)" using assms(1) by (simp only: append_take_drop_id set_sort)
  with assms(2) have y: "y \<in> set (drop n ?s)" by (simp only: set_append Un_iff) simp
  have "sorted (map (\<lambda>x. - f x) (take n ?s @ drop n ?s))" by (simp only: append_take_drop_id sorted_sort_key)
  then have "\<forall>x \<in> set (take n ?s). - f x \<le> - f y" using y by (auto simp: sorted_append simp del: append_take_drop_id)
  moreover have "n < length ?s" using y by (metis drop_all empty_iff empty_set not_le)
  ultimately show ?thesis by simp
qed

section \<open>Properties\<close>

text \<open>
  C18. Retrieval returns at most the requested number of documents, only documents of the project that
  belong to the user or are shared, in the order of decreasing score, and the best ones: a visible
  document is left out only if the result is full and none of its documents scores less.
\<close>

theorem retrieve_context_best:
  fixes pid :: project_id and uid query :: string and n :: nat and docs :: doc_table
  assumes "hm_keyed md_id docs" "\<not> is_shared_owner uid"
  defines "r \<equiv> retrieve_context pid uid query n docs"
    and "score \<equiv> retrieval_score (extract_keywords query)"
  shows "length r \<le> n \<and> sorted_wrt (\<lambda>a b. score b \<le> score a) r \<and>
    (\<forall>d \<in> set r. d \<in> set (hm_values docs) \<and> doc_visible pid uid d) \<and>
    (\<forall>d \<in> set (hm_values docs). doc_visible pid uid d \<longrightarrow> d \<in> set r \<or>
       length r = n \<and> (\<forall>e \<in> set r. score d \<le> score e))"
proof -
  let ?all = "list_memory_docs_with_shared pid uid docs"
  have r: "r = take n (sort_key (\<lambda>d. - score d) ?all)"
    by (simp add: r_def score_def retrieve_context_sorted)
  have vis: "d \<in> set ?all \<longleftrightarrow> d \<in> set (hm_values docs) \<and> doc_visible pid uid d" for d
    using listed_docs_visible [OF assms(1)] assms(2) by simp
  have "sorted (map (\<lambda>d. - score d) r)" unfolding r take_map [symmetric] by (simp add: sorted_wrt_take)
  then have "sorted_wrt (\<lambda>a b. score b \<le> score a) r" by (simp add: sorted_map)
  moreover have "length r \<le> n" by (simp add: r)
  moreover have "\<forall>d \<in> set r. d \<in> set ?all" unfolding r by (auto dest: in_set_takeD)
  moreover have "d \<in> set r \<or> length r = n \<and> (\<forall>e \<in> set r. score d \<le> score e)" if "d \<in> set ?all" for d
    using take_sort_best [OF that, of n score] unfolding r by blast
  ultimately show ?thesis unfolding vis by blast
qed

definition sample_docs :: doc_table where
  "sample_docs =
     [(1, new_memory_doc 1 0 5 ''alice'' DtNote ''notes on web search'' ''use it''),
      (2, new_memory_doc 2 0 5 ''bob'' DtSpec ''web search'' ''secret''),
      (3, new_memory_doc 3 0 5 SHARED_OWNER_ID DtSpec ''other'' ''nothing'')]"

theorem retrieve_context_best_witness:
  "hm_keyed md_id sample_docs \<and> length (retrieve_context 5 ''alice'' ''web search'' 1 sample_docs) \<le> 1 \<and>
   filter (\<lambda>d. \<not> doc_visible 5 ''alice'' d) (retrieve_context 5 ''alice'' ''web search'' 1 sample_docs) = []"
proof -
  have k: "hm_keyed md_id sample_docs" by (simp add: sample_docs_def hm_keyed_def new_memory_doc_def)
  have "\<not> is_shared_owner ''alice''"
    by (simp add: is_shared_owner_def SHARED_OWNER_ID_def LEGACY_SHARED_OWNER_ID_def)
  from retrieve_context_best [OF k this, of 5 "''web search''" 1] k show ?thesis
    unfolding filter_empty_conv by blast
qed

end
