(* ===== verification/Trace_Analysis.thy ===== *)
theory Trace_Analysis
  imports Thread_Model Text_Ops
begin

text \<open>
  The retrospective analysis of a finished thread (\<open>executor/trace.rs\<close>): the issues that the trace of
  the thread shows. Writing the trace to a file is not part of it.
\<close>

datatype issue_severity = SevError | SevWarning | SevInfo

record trace_issue =
  ti_severity :: issue_severity
  ti_category :: string
  ti_description :: string
  ti_step :: "nat option"

definition mk_issue :: "issue_severity \<Rightarrow> string \<Rightarrow> string \<Rightarrow> nat option \<Rightarrow> trace_issue" where
  "mk_issue sev cat desc step =
     \<lparr>ti_severity = sev, ti_category = cat, ti_description = desc, ti_step = step\<rparr>"

definition quoted :: "string \<Rightarrow> string" where
  "quoted s = [CHR 0x27] @ s @ [CHR 0x27]"

definition has_assistant_response :: "thread \<Rightarrow> bool" where
  "has_assistant_response th =
     list_ex (\<lambda>m. tm_role m = RoleAssistant \<and> tm_content m \<noteq> []) (th_messages th)"

definition tool_error_issue :: "thread_event \<Rightarrow> trace_issue option" where
  "tool_error_issue e =
     (case ev_kind e of
        ActionFailed _ action_name _ err _ \<Rightarrow>
          Some (mk_issue SevWarning ''tool_error'' (''Tool '' @ quoted action_name @ '' failed: '' @ err) None)
      | _ \<Rightarrow> None)"

definition tool_error_issues :: "thread \<Rightarrow> trace_issue list" where
  "tool_error_issues th = List.map_filter tool_error_issue (th_events th)"

definition is_code_output :: "thread_message \<Rightarrow> bool" where
  "is_code_output m \<longleftrightarrow> tm_role m = RoleUser \<and>
     (starts_with (tm_content m) ''[stdout]'' \<or> starts_with (tm_content m) ''[stderr]''
      \<or> starts_with (tm_content m) ''[code '' \<or> starts_with (tm_content m) ''Traceback'')"

definition error_patterns :: "string list" where
  "error_patterns = [''NameError'', ''SyntaxError'', ''TypeError'', ''NotImplementedError'']"

definition code_error_issues :: "thread \<Rightarrow> trace_issue list" where
  "code_error_issues th =
     List.map_filter (\<lambda>(i, m).
         if is_code_output m \<and> list_ex (contains_str (tm_content m)) error_patterns
         then Some (mk_issue SevWarning ''code_error''
           (''Code execution error in message '' @ show_nat i @ '': '' @ take 200 (tm_content m)) None)
         else None) (enumerate 0 (th_messages th))"

definition empty_call_id :: "thread_message \<Rightarrow> bool" where
  "empty_call_id m \<longleftrightarrow> tm_role m = RoleActionResult \<and>
     (case tm_action_call_id m of None \<Rightarrow> True | Some cid \<Rightarrow> cid = [])"

definition empty_call_id_issues :: "thread \<Rightarrow> trace_issue list" where
  "empty_call_id_issues th =
     List.map_filter (\<lambda>(i, m).
         if empty_call_id m
         then Some (mk_issue SevError ''empty_call_id''
           (''ActionResult message '' @ show_nat i @ '' (tool ''
            @ quoted (case tm_action_name m of Some n \<Rightarrow> n | None \<Rightarrow> ''unknown'')
            @ '') has empty call_id '' @ em_dash @ '' will cause LLM API rejection'') None)
         else None) (enumerate 0 (th_messages th))"

definition missing_tool_output :: "thread \<Rightarrow> bool" where
  "missing_tool_output th \<longleftrightarrow>
     list_ex (\<lambda>m. tm_role m = RoleActionResult) (th_messages th) \<and>
     \<not> list_ex (\<lambda>m. tm_role m = RoleUser \<and>
         (contains_str (tm_content m) '' result]'' \<or> contains_str (tm_content m) '' error]'')) (th_messages th)"

definition is_action_executed :: "thread_event \<Rightarrow> bool" where
  "is_action_executed e = (case ev_kind e of ActionExecuted _ _ _ _ _ \<Rightarrow> True | _ \<Rightarrow> False)"

definition is_step_started :: "thread_event \<Rightarrow> bool" where
  "is_step_started e = (case ev_kind e of StepStarted _ \<Rightarrow> True | _ \<Rightarrow> False)"

definition text_without_code :: "thread_message \<Rightarrow> bool" where
  "text_without_code m \<longleftrightarrow> tm_role m = RoleAssistant \<and>
     \<not> contains_str (tm_content m) ''```'' \<and> \<not> contains_str (tm_content m) ''FINAL(''"

definition failure_reason_issue :: "thread_event \<Rightarrow> trace_issue option" where
  "failure_reason_issue e =
     (case ev_kind e of
        StateChanged _ ThFailed (Some reason) \<Rightarrow>
          if contains_str reason ''LLM'' \<or> contains_str reason ''Provider''
          then Some (mk_issue SevError ''llm_error'' (''LLM provider error: '' @ preview 300 reason) None)
          else if contains_str reason ''orchestrator''
          then Some (mk_issue SevError ''orchestrator_error'' (''Orchestrator error: '' @ preview 300 reason) None)
          else None
      | _ \<Rightarrow> None)"

definition analyze_trace :: "thread \<Rightarrow> trace_issue list" where
  "analyze_trace th =
     (let text_responses = length (filter text_without_code (th_messages th));
          code_steps = length (filter is_step_started (th_events th))
      in (if th_state th = ThFailed
          then [mk_issue SevError ''thread_failure'' ''Thread ended in Failed state'' None] else [])
       @ (if \<not> has_assistant_response th
          then [mk_issue SevWarning ''no_response'' (''No assistant message in thread '' @ em_dash
                  @ '' model may not have generated output'') None] else [])
       @ tool_error_issues th
       @ code_error_issues th
       @ empty_call_id_issues th
       @ (if missing_tool_output th
          then [mk_issue SevWarning ''missing_tool_output''
                  (''Tool results exist but no tool output in messages '' @ em_dash
                   @ '' model may not see tool results'') None] else [])
       @ (if th_step_count th > 10
          then [mk_issue SevWarning ''excessive_steps'' (''Thread took '' @ show_nat (th_step_count th)
                  @ '' steps '' @ em_dash @ '' may be stuck in a loop'') None] else [])
       @ (if list_all (\<lambda>e. \<not> is_action_executed e) (th_events th) \<and> th_step_count th = 1
             \<and> has_assistant_response th
          then [mk_issue SevInfo ''no_tools_used'' (''Model answered in one step without using any tools ''
                  @ em_dash @ '' may be answering from training data'') (Some 1)] else [])
       @ (if text_responses > 0 \<and> code_steps > 0
          then [mk_issue SevInfo ''mixed_mode'' (show_nat text_responses
                  @ '' text response(s) without code blocks '' @ em_dash
                  @ '' model may not be following CodeAct prompt'') None] else [])
       @ List.map_filter failure_reason_issue (th_events th))"

section \<open>Which traces have errors\<close>

lemma mk_issue_severity [simp]: "ti_severity (mk_issue s c d n) = s"
  by (simp add: mk_issue_def)

lemma map_filter_mem: "x \<in> set (List.map_filter f xs) \<longleftrightarrow> (\<exists>y \<in> set xs. f y = Some x)"
  by (force simp: List.map_filter_def)

lemma enumerate_snd: "(\<exists>p \<in> set (enumerate n xs). P (snd p)) \<longleftrightarrow> (\<exists>x \<in> set xs. P x)"
proof -
  have "set xs = snd ` set (enumerate n xs)" by (metis map_snd_enumerate set_map)
  then show ?thesis by simp
qed

lemma tool_error_warning: "i \<in> set (tool_error_issues th) \<Longrightarrow> ti_severity i = SevWarning"
proof -
  have "tool_error_issue e = Some i \<Longrightarrow> ti_severity i = SevWarning" for e
    by (cases "ev_kind e") (auto simp: tool_error_issue_def)
  then show "i \<in> set (tool_error_issues th) \<Longrightarrow> ti_severity i = SevWarning"
    by (auto simp: tool_error_issues_def map_filter_mem)
qed

lemma code_error_warning: "i \<in> set (code_error_issues th) \<Longrightarrow> ti_severity i = SevWarning"
  by (auto simp: code_error_issues_def map_filter_mem split: if_splits)

lemma empty_call_id_error:
  "(\<exists>i \<in> set (empty_call_id_issues th). ti_severity i = SevError) \<longleftrightarrow> list_ex empty_call_id (th_messages th)"
proof -
  have "(\<exists>i \<in> set (empty_call_id_issues th). ti_severity i = SevError) \<longleftrightarrow>
      (\<exists>p \<in> set (enumerate 0 (th_messages th)). empty_call_id (snd p))"
    by (force simp: empty_call_id_issues_def map_filter_mem split: if_splits)
  then show ?thesis by (simp add: enumerate_snd list_ex_iff)
qed

lemma failure_reason_error: "failure_reason_issue e = Some i \<Longrightarrow> ti_severity i = SevError"
  by (cases "ev_kind e") (auto simp: failure_reason_issue_def split: thread_state.splits option.splits if_splits)

text \<open>
  A trace shows an error, and not only warnings, exactly for a failed thread, a result without a call
  identifier or a failure that names the model or the orchestrator.
\<close>

lemma analyze_trace_error:
  "(\<exists>i \<in> set (analyze_trace th). ti_severity i = SevError) \<longleftrightarrow>
     th_state th = ThFailed \<or> list_ex empty_call_id (th_messages th) \<or>
     (\<exists>e \<in> set (th_events th). failure_reason_issue e \<noteq> None)"
proof -
  have f: "(\<exists>i \<in> set (List.map_filter failure_reason_issue (th_events th)). ti_severity i = SevError) \<longleftrightarrow>
      (\<exists>e \<in> set (th_events th). failure_reason_issue e \<noteq> None)"
    unfolding map_filter_mem Bex_def by (metis failure_reason_error not_None_eq)
  show ?thesis
    unfolding analyze_trace_def Let_def set_append bex_Un f empty_call_id_error
    by (auto dest: tool_error_warning code_error_warning)
qed

end
