(* ===== verification/Mission_Manager.thy ===== *)
theory Mission_Manager
  imports Thread_Manager Memory_Retrieval Trace_Analysis
begin

text \<open>
  Missions (\<open>types/mission.rs\<close>) and the mission manager (\<open>runtime/mission.rs\<close>): goals that spawn
  threads when they are fired by hand, by the clock or by an event of the engine. The manager works
  on the thread manager and on the tables of missions and documents of the store. The prompts of the
  built-in missions, the JSON parser and the JSON printer are arguments. An operation is one atomic
  step; firing is also given in its three phases, between which other tasks run.
\<close>

section \<open>Missions\<close>

type_synonym mission_id = uuid

datatype mission_status = MsActive | MsPaused | MsCompleted | MsFailed

datatype mission_cadence =
    Cron string "string option"
  | OnEvent string
  | OnSystemEvent string string
  | Webhook string "string option"
  | Manual

record mission =
  mi_id :: mission_id
  mi_project_id :: project_id
  mi_user_id :: string
  mi_name :: string
  mi_goal :: string
  mi_status :: mission_status
  mi_cadence :: mission_cadence
  mi_current_focus :: "string option"
  mi_approach_history :: "string list"
  mi_thread_history :: "thread_id list"
  mi_success_criteria :: "string option"
  mi_notify_channels :: "string list"
  mi_max_threads_per_day :: u32
  mi_threads_today :: u32
  mi_last_trigger_payload :: "json option"
  mi_metadata :: json
  mi_created_at :: time
  mi_updated_at :: time
  mi_next_fire_at :: "time option"

definition new_mission ::
    "mission_id \<Rightarrow> time \<Rightarrow> project_id \<Rightarrow> string \<Rightarrow> string \<Rightarrow> string \<Rightarrow> mission_cadence \<Rightarrow> mission" where
  "new_mission mid now pid uid name goal cadence =
     \<lparr>mi_id = mid, mi_project_id = pid, mi_user_id = uid, mi_name = name, mi_goal = goal,
      mi_status = MsActive, mi_cadence = cadence, mi_current_focus = None, mi_approach_history = [],
      mi_thread_history = [], mi_success_criteria = None, mi_notify_channels = [],
      mi_max_threads_per_day = 10, mi_threads_today = 0, mi_last_trigger_payload = None,
      mi_metadata = JObject [], mi_created_at = now, mi_updated_at = now, mi_next_fire_at = None\<rparr>"

definition mission_is_shared :: "mission \<Rightarrow> bool" where
  "mission_is_shared m \<longleftrightarrow> owner_from_user_id (mi_user_id m) = OwnerShared"

definition mission_is_owned_by :: "mission \<Rightarrow> string \<Rightarrow> bool" where
  "mission_is_owned_by m uid = owner_matches_user (owner_from_user_id (mi_user_id m)) uid"

definition record_thread :: "time \<Rightarrow> thread_id \<Rightarrow> mission \<Rightarrow> mission" where
  "record_thread now tid m = m\<lparr>mi_thread_history := mi_thread_history m @ [tid], mi_updated_at := now\<rparr>"

definition mission_is_terminal :: "mission \<Rightarrow> bool" where
  "mission_is_terminal m \<longleftrightarrow> mi_status m = MsCompleted \<or> mi_status m = MsFailed"

section \<open>The manager\<close>

record mission_notification =
  mn_mission_id :: mission_id
  mn_mission_name :: string
  mn_thread_id :: thread_id
  mn_user_id :: string
  mn_notify_channels :: "string list"
  mn_response :: "string option"
  mn_is_error :: bool

record mission_update =
  mu_name :: "string option"
  mu_goal :: "string option"
  mu_cadence :: "mission_cadence option"
  mu_notify_channels :: "string list option"
  mu_max_threads_per_day :: "u32 option"
  mu_success_criteria :: "string option"

definition empty_update :: mission_update where
  "empty_update = \<lparr>mu_name = None, mu_goal = None, mu_cadence = None, mu_notify_channels = None,
     mu_max_threads_per_day = None, mu_success_criteria = None\<rparr>"

text \<open>\<open>mm_watchers\<close> lists the tasks that wait for the end of a mission thread.\<close>

record mission_manager =
  mm_threads :: thread_manager
  mm_missions :: "(mission_id, mission) hmap"
  mm_docs :: doc_table
  mm_active :: "mission_id list"
  mm_watchers :: "(mission_id \<times> thread_id) list"
  mm_notifications :: "mission_notification list"

definition mission_not_found :: "mission_id \<Rightarrow> engine_error" where
  "mission_not_found mid = StoreErr (''mission '' @ show_nat mid @ '' not found'')"

definition mission_denied :: "string \<Rightarrow> mission_id \<Rightarrow> engine_error" where
  "mission_denied uid mid = AccessDenied uid (''mission '' @ show_nat mid)"

text \<open>The table of missions (\<open>src/bridge/store_adapter.rs\<close>, \<open>traits/store.rs\<close>).\<close>

definition save_mission :: "mission \<Rightarrow> mission_manager \<Rightarrow> mission_manager" where
  "save_mission m mm = mm\<lparr>mm_missions := hm_insert (mi_id m) m (mm_missions mm)\<rparr>"

definition load_mission :: "mission_id \<Rightarrow> mission_manager \<Rightarrow> mission option" where
  "load_mission mid mm = hm_get (mm_missions mm) mid"

definition list_missions_of :: "project_id \<Rightarrow> string \<Rightarrow> mission_manager \<Rightarrow> mission list" where
  "list_missions_of pid uid mm =
     filter (\<lambda>m. mi_project_id m = pid \<and> mi_user_id m = uid) (hm_values (mm_missions mm))"

definition list_all_missions :: "project_id \<Rightarrow> mission_manager \<Rightarrow> mission list" where
  "list_all_missions pid mm = filter (\<lambda>m. mi_project_id m = pid) (hm_values (mm_missions mm))"

definition update_mission_status :: "time \<Rightarrow> mission_id \<Rightarrow> mission_status \<Rightarrow> mission_manager \<Rightarrow> mission_manager" where
  "update_mission_status now mid st mm =
     mm\<lparr>mm_missions := hm_modify mid (\<lambda>m. m\<lparr>mi_status := st, mi_updated_at := now\<rparr>) (mm_missions mm)\<rparr>"

definition list_shared_missions :: "project_id \<Rightarrow> mission_manager \<Rightarrow> mission list" where
  "list_shared_missions pid mm =
     dedup_by_key mi_id (sort_key mi_id
       (concat (map (\<lambda>o'. list_missions_of pid o' mm) shared_owner_candidates)))"

definition list_missions_with_shared :: "project_id \<Rightarrow> string \<Rightarrow> mission_manager \<Rightarrow> mission list" where
  "list_missions_with_shared pid uid mm =
     (if is_shared_owner uid then list_shared_missions pid mm
      else list_missions_of pid uid mm @ list_shared_missions pid mm)"

section \<open>Lifecycle\<close>

definition bootstrap_project :: "project_id \<Rightarrow> mission_manager \<Rightarrow> nat \<times> mission_manager" where
  "bootstrap_project pid mm =
     (let active_ids = map mi_id (filter (\<lambda>m. mi_status m = MsActive) (list_all_missions pid mm))
      in (length active_ids, mm\<lparr>mm_active := active_ids\<rparr>))"

definition create_mission ::
    "mission_id \<Rightarrow> time \<Rightarrow> project_id \<Rightarrow> string \<Rightarrow> string \<Rightarrow> string \<Rightarrow> mission_cadence \<Rightarrow> string list \<Rightarrow>
     mission_manager \<Rightarrow> mission_id \<times> mission_manager" where
  "create_mission mid now pid uid name goal cadence notify mm =
     (let m = (new_mission mid now pid uid name goal cadence)\<lparr>mi_notify_channels := notify\<rparr>;
          mm1 = save_mission m mm
      in (mid, mm1\<lparr>mm_active := mm_active mm1 @ [mid]\<rparr>))"

definition apply_update :: "mission_update \<Rightarrow> mission \<Rightarrow> mission" where
  "apply_update u m =
     (let m1 = (case mu_name u of Some x \<Rightarrow> m\<lparr>mi_name := x\<rparr> | None \<Rightarrow> m);
          m2 = (case mu_goal u of Some x \<Rightarrow> m1\<lparr>mi_goal := x\<rparr> | None \<Rightarrow> m1);
          m3 = (case mu_cadence u of Some x \<Rightarrow> m2\<lparr>mi_cadence := x\<rparr> | None \<Rightarrow> m2);
          m4 = (case mu_notify_channels u of Some x \<Rightarrow> m3\<lparr>mi_notify_channels := x\<rparr> | None \<Rightarrow> m3);
          m5 = (case mu_max_threads_per_day u of Some x \<Rightarrow> m4\<lparr>mi_max_threads_per_day := x\<rparr> | None \<Rightarrow> m4)
      in case mu_success_criteria u of Some x \<Rightarrow> m5\<lparr>mi_success_criteria := Some x\<rparr> | None \<Rightarrow> m5)"

definition update_mission ::
    "time \<Rightarrow> mission_id \<Rightarrow> string \<Rightarrow> mission_update \<Rightarrow> mission_manager \<Rightarrow> (engine_error + unit) \<times> mission_manager"
    where
  "update_mission now mid uid u mm =
     (case load_mission mid mm of
        None \<Rightarrow> (Inl (mission_not_found mid), mm)
      | Some m \<Rightarrow>
          if \<not> mission_is_shared m \<and> \<not> mission_is_owned_by m uid
          then (Inl (mission_denied uid mid), mm)
          else (Inr (), save_mission ((apply_update u m)\<lparr>mi_updated_at := now\<rparr>) mm))"

definition mission_foreign :: "mission_id \<Rightarrow> string \<Rightarrow> mission_manager \<Rightarrow> bool" where
  "mission_foreign mid uid mm =
     (case load_mission mid mm of
        Some m \<Rightarrow> \<not> mission_is_owned_by m uid \<and> \<not> mission_is_shared m | None \<Rightarrow> False)"

definition pause_mission ::
    "time \<Rightarrow> mission_id \<Rightarrow> string \<Rightarrow> mission_manager \<Rightarrow> (engine_error + unit) \<times> mission_manager" where
  "pause_mission now mid uid mm =
     (if mission_foreign mid uid mm then (Inl (mission_denied uid mid), mm)
      else
        let mm1 = update_mission_status now mid MsPaused mm
        in (Inr (), mm1\<lparr>mm_active := filter (\<lambda>i. i \<noteq> mid) (mm_active mm1)\<rparr>))"

definition activate_mission :: "mission_id \<Rightarrow> mission_manager \<Rightarrow> mission_manager" where
  "activate_mission mid mm =
     (if List.member (mm_active mm) mid then mm else mm\<lparr>mm_active := mm_active mm @ [mid]\<rparr>)"

definition resume_mission ::
    "time \<Rightarrow> mission_id \<Rightarrow> string \<Rightarrow> mission_manager \<Rightarrow> (engine_error + unit) \<times> mission_manager" where
  "resume_mission now mid uid mm =
     (if mission_foreign mid uid mm then (Inl (mission_denied uid mid), mm)
      else (Inr (), activate_mission mid (update_mission_status now mid MsActive mm)))"

definition complete_mission :: "time \<Rightarrow> mission_id \<Rightarrow> mission_manager \<Rightarrow> (engine_error + unit) \<times> mission_manager" where
  "complete_mission now mid mm =
     (let mm1 = update_mission_status now mid MsCompleted mm
      in (Inr (), mm1\<lparr>mm_active := filter (\<lambda>i. i \<noteq> mid) (mm_active mm1)\<rparr>))"

section \<open>Firing\<close>

fun doc_type_label :: "doc_type \<Rightarrow> string" where
  "doc_type_label DtSummary = ''SUMMARY''"
| "doc_type_label DtLesson = ''LESSON''"
| "doc_type_label DtIssue = ''ISSUE''"
| "doc_type_label DtSpec = ''SPEC''"
| "doc_type_label DtNote = ''NOTE''"
| "doc_type_label DtSkill = ''SKILL''"
| "doc_type_label DtPlan = ''PLAN''"

definition mission_instructions :: string where
  "mission_instructions = newline @ ''## Instructions'' @ newline
     @ ''Based on the above context, take the next step toward the goal. ''
     @ ''Use tools to gather information, analyze data, or take actions. ''
     @ ''When done, call FINAL() with your response. Include:'' @ newline
     @ ''1. What you accomplished in this step'' @ newline
     @ ''2. What the next focus should be (for the next thread)'' @ newline
     @ ''3. Whether the goal has been achieved (yes/no)''"

text \<open>\<open>pretty\<close> is \<open>serde_json::to_string_pretty\<close>.\<close>

definition build_meta_prompt ::
    "(json \<Rightarrow> string) \<Rightarrow> mission \<Rightarrow> memory_doc list \<Rightarrow> json option \<Rightarrow> string" where
  "build_meta_prompt pretty m docs payload =
     join_with newline
       ([''# Mission: '' @ mi_name m @ newline @ newline @ ''Goal: '' @ mi_goal m]
        @ (case mi_success_criteria m of Some c \<Rightarrow> [''Success criteria: '' @ c] | None \<Rightarrow> [])
        @ (case mi_current_focus m of
             Some focus \<Rightarrow> [newline @ ''## Current Focus'' @ newline @ focus]
           | None \<Rightarrow>
               if mi_thread_history m = []
               then [newline @ ''## Current Focus'' @ newline @ ''This is the first run. ''
                     @ ''Start by understanding the goal and determining the first step.'']
               else [])
        @ (if mi_approach_history m \<noteq> []
           then (newline @ ''## Previous Approaches'')
                # map (\<lambda>(i, a). show_nat (i + 1) @ ''. '' @ a) (enumerate 0 (mi_approach_history m))
           else [])
        @ (if docs \<noteq> []
           then (newline @ ''## Knowledge from Prior Threads'')
                # map (\<lambda>d. ''['' @ doc_type_label (md_doc_type d) @ ''] '' @ md_title d @ '': ''
                            @ preview 500 (md_content d)) docs
           else [])
        @ (case payload of
             Some p \<Rightarrow> [newline @ ''## Trigger Payload'' @ newline @ ''```json'' @ newline
                        @ take 1000 (pretty p) @ newline @ ''```'']
           | None \<Rightarrow> [])
        @ [newline @ ''This is thread #'' @ show_nat (length (mi_thread_history m) + 1)
           @ '' for this mission.'', mission_instructions])"

text \<open>The identifiers that a spawned thread draws.\<close>

record spawn_ids =
  si_thread :: thread_id
  si_lease :: "nat \<Rightarrow> lease_id"
  si_event :: event_id

text \<open>
  The three phases: the mission is loaded and the guards are tested; the prompt is built from the
  documents and a thread is spawned; the copy of the mission that was loaded is stored with the thread.
\<close>

definition fire_begin :: "mission_id \<Rightarrow> string \<Rightarrow> mission_manager \<Rightarrow> engine_error + mission option" where
  "fire_begin mid uid mm =
     (case load_mission mid mm of
        None \<Rightarrow> Inl (mission_not_found mid)
      | Some m \<Rightarrow>
          if \<not> mission_is_shared m \<and> \<not> mission_is_owned_by m uid then Inl (mission_denied uid mid)
          else if mission_is_terminal m then Inr None
          else if mi_max_threads_per_day m > 0 \<and> mi_threads_today m \<ge> mi_max_threads_per_day m
          then Inr None
          else Inr (Some m))"

definition fire_spawn ::
    "(json \<Rightarrow> string) \<Rightarrow> spawn_ids \<Rightarrow> time \<Rightarrow> mission \<Rightarrow> string \<Rightarrow> json option \<Rightarrow> mission_manager \<Rightarrow>
     (engine_error + thread_id) \<times> mission_manager" where
  "fire_spawn pretty ids now m uid payload mm =
     (let docs = retrieve_context (mi_project_id m) (mi_user_id m) (mi_goal m) 10 (mm_docs mm);
          (r, tm) = spawn_thread (si_thread ids) (si_lease ids) (si_event ids) now
                      (build_meta_prompt pretty m docs payload) MissionThread (mi_project_id m)
                      default_thread_config None uid (mm_threads mm)
      in (r, mm\<lparr>mm_threads := tm\<rparr>))"

definition fire_record :: "time \<Rightarrow> mission_id \<Rightarrow> mission \<Rightarrow> thread_id \<Rightarrow> json option \<Rightarrow> mission_manager \<Rightarrow> mission_manager" where
  "fire_record now mid m tid payload mm =
     (let m' = (record_thread now tid m)
                 \<lparr>mi_threads_today := mi_threads_today m + 1, mi_last_trigger_payload := payload\<rparr>;
          mm1 = save_mission m' mm
      in mm1\<lparr>mm_watchers := mm_watchers mm1 @ [(mid, tid)]\<rparr>)"

definition fire_mission ::
    "(json \<Rightarrow> string) \<Rightarrow> spawn_ids \<Rightarrow> time \<Rightarrow> mission_id \<Rightarrow> string \<Rightarrow> json option \<Rightarrow> mission_manager \<Rightarrow>
     (engine_error + thread_id option) \<times> mission_manager" where
  "fire_mission pretty ids now mid uid payload mm =
     (case fire_begin mid uid mm of
        Inl e \<Rightarrow> (Inl e, mm)
      | Inr None \<Rightarrow> (Inr None, mm)
      | Inr (Some m) \<Rightarrow>
          (case fire_spawn pretty ids now m uid payload mm of
             (Inl e, mm1) \<Rightarrow> (Inl e, mm1)
           | (Inr tid, mm1) \<Rightarrow> (Inr (Some tid), fire_record now mid m tid payload mm1)))"

section \<open>Triggers\<close>

text \<open>The loops over the active missions; an error ends them.\<close>

fun fire_each ::
    "(json \<Rightarrow> string) \<Rightarrow> (nat \<Rightarrow> spawn_ids) \<Rightarrow> nat \<Rightarrow> time \<Rightarrow> (mission \<Rightarrow> string option) \<Rightarrow> json option \<Rightarrow>
     mission_id list \<Rightarrow> thread_id list \<Rightarrow> mission_manager \<Rightarrow> (engine_error + thread_id list) \<times> mission_manager"
    where
  "fire_each pretty ids n now sel payload [] spawned mm = (Inr spawned, mm)"
| "fire_each pretty ids n now sel payload (mid # mids) spawned mm =
     (case load_mission mid mm of
        None \<Rightarrow> fire_each pretty ids (Suc n) now sel payload mids spawned mm
      | Some m \<Rightarrow>
          (case (if mi_status m = MsActive then sel m else None) of
             None \<Rightarrow> fire_each pretty ids (Suc n) now sel payload mids spawned mm
           | Some uid \<Rightarrow>
               (case fire_mission pretty (ids n) now mid uid payload mm of
                  (Inl e, mm1) \<Rightarrow> (Inl e, mm1)
                | (Inr None, mm1) \<Rightarrow> fire_each pretty ids (Suc n) now sel payload mids spawned mm1
                | (Inr (Some tid), mm1) \<Rightarrow>
                    fire_each pretty ids (Suc n) now sel payload mids (spawned @ [tid]) mm1)))"

definition system_event_selects :: "string \<Rightarrow> string \<Rightarrow> string \<Rightarrow> mission \<Rightarrow> string option" where
  "system_event_selects source event_type uid m =
     (if \<not> mission_is_owned_by m uid \<and> \<not> mission_is_shared m then None
      else case mi_cadence m of
        OnSystemEvent s et \<Rightarrow> if s = source \<and> et = event_type then Some uid else None
      | _ \<Rightarrow> None)"

definition fire_on_system_event ::
    "(json \<Rightarrow> string) \<Rightarrow> (nat \<Rightarrow> spawn_ids) \<Rightarrow> time \<Rightarrow> string \<Rightarrow> string \<Rightarrow> string \<Rightarrow> json option \<Rightarrow> mission_manager \<Rightarrow>
     (engine_error + thread_id list) \<times> mission_manager" where
  "fire_on_system_event pretty ids now source event_type uid payload mm =
     fire_each pretty ids 0 now (system_event_selects source event_type uid) payload (mm_active mm) [] mm"

definition tick_selects :: "time \<Rightarrow> mission \<Rightarrow> string option" where
  "tick_selects now m =
     (case mi_cadence m of
        Cron _ _ \<Rightarrow>
          (case mi_next_fire_at m of
             Some next \<Rightarrow> if next \<le> now then Some (mi_user_id m) else None | None \<Rightarrow> None)
      | _ \<Rightarrow> None)"

definition mission_tick ::
    "(json \<Rightarrow> string) \<Rightarrow> (nat \<Rightarrow> spawn_ids) \<Rightarrow> time \<Rightarrow> mission_manager \<Rightarrow>
     (engine_error + thread_id list) \<times> mission_manager" where
  "mission_tick pretty ids now mm = fire_each pretty ids 0 now (tick_selects now) None (mm_active mm) [] mm"

text \<open>\<open>resume_recoverable_threads\<close>: the threads of a mission from the latest to the first.\<close>

definition recoverable_thread :: "thread \<Rightarrow> bool" where
  "recoverable_thread th \<longleftrightarrow>
     th_type th = MissionThread \<and> th_state th = ThSuspended \<and>
     json_get ''runtime_checkpoint'' (th_metadata th) \<noteq> None"

fun resume_history ::
    "event_id \<Rightarrow> time \<Rightarrow> string \<Rightarrow> mission_id \<Rightarrow> thread_id list \<Rightarrow> thread_id list \<Rightarrow> mission_manager \<Rightarrow>
     (engine_error + thread_id list) \<times> mission_manager" where
  "resume_history eid now uid mid [] resumed mm = (Inr resumed, mm)"
| "resume_history eid now uid mid (tid # tids) resumed mm =
     (let (loaded, s) = load_thread tid (mg_store (mm_threads mm));
          mm1 = mm\<lparr>mm_threads := (mm_threads mm)\<lparr>mg_store := s\<rparr>\<rparr>
      in case loaded of
           None \<Rightarrow> resume_history eid now uid mid tids resumed mm1
         | Some th \<Rightarrow>
             if \<not> recoverable_thread th then resume_history eid now uid mid tids resumed mm1
             else
               (case resume_thread eid now tid uid None None None (mm_threads mm1) of
                  (Inl e, tm) \<Rightarrow> (Inl e, mm1\<lparr>mm_threads := tm\<rparr>)
                | (Inr _, tm) \<Rightarrow>
                    resume_history eid now uid mid tids (resumed @ [tid])
                      (mm1\<lparr>mm_threads := tm, mm_watchers := mm_watchers mm1 @ [(mid, tid)]\<rparr>)))"

fun resume_missions ::
    "event_id \<Rightarrow> time \<Rightarrow> string \<Rightarrow> mission_id list \<Rightarrow> thread_id list \<Rightarrow> mission_manager \<Rightarrow>
     (engine_error + thread_id list) \<times> mission_manager" where
  "resume_missions eid now uid [] resumed mm = (Inr resumed, mm)"
| "resume_missions eid now uid (mid # mids) resumed mm =
     (case load_mission mid mm of
        None \<Rightarrow> resume_missions eid now uid mids resumed mm
      | Some m \<Rightarrow>
          (case resume_history eid now uid mid (rev (mi_thread_history m)) resumed mm of
             (Inl e, mm1) \<Rightarrow> (Inl e, mm1)
           | (Inr resumed', mm1) \<Rightarrow> resume_missions eid now uid mids resumed' mm1))"

definition resume_recoverable_threads ::
    "event_id \<Rightarrow> time \<Rightarrow> string \<Rightarrow> mission_manager \<Rightarrow> (engine_error + thread_id list) \<times> mission_manager" where
  "resume_recoverable_threads eid now uid mm = resume_missions eid now uid (mm_active mm) [] mm"

definition find_by_name :: "project_id \<Rightarrow> string \<Rightarrow> string \<Rightarrow> mission_manager \<Rightarrow> mission option" where
  "find_by_name pid uid name mm = List.find (\<lambda>m. mi_name m = name) (list_missions_with_shared pid uid mm)"

end
