(* ===== verification/Mission_Learning.thy ===== *)
theory Mission_Learning
  imports Mission_Manager
begin

text \<open>
  What the mission manager (\<open>runtime/mission.rs\<close>) does when threads end: the outcome of a mission
  thread updates its mission, the listener on the events of the engine fires the learning missions,
  and the learning missions of a user are created when they are missing.
\<close>

section \<open>The outcome of a mission thread\<close>

definition is_self_improvement_mission :: "mission \<Rightarrow> bool" where
  "is_self_improvement_mission m \<longleftrightarrow> json_get ''self_improvement'' (mi_metadata m) = Some (JBool True)"

text \<open>\<open>parse\<close> is \<open>serde_json::from_str\<close>.\<close>

definition is_object :: "json \<Rightarrow> bool" where
  "is_object j = (case j of JObject _ \<Rightarrow> True | _ \<Rightarrow> False)"

definition parse_object :: "(string \<Rightarrow> json option) \<Rightarrow> string \<Rightarrow> json option" where
  "parse_object parse s = (case parse s of Some v \<Rightarrow> if is_object v then Some v else None | None \<Rightarrow> None)"

definition extract_json_from_response :: "(string \<Rightarrow> json option) \<Rightarrow> string \<Rightarrow> json option" where
  "extract_json_from_response parse response =
     (case parse_object parse response of
        Some v \<Rightarrow> Some v
      | None \<Rightarrow>
          let from_brace = dropWhile (\<lambda>c. c \<noteq> CHR ''{'') response;
              candidate = rev (dropWhile (\<lambda>c. c \<noteq> CHR ''}'') (rev from_brace))
          in if candidate = [] then None else parse_object parse candidate)"

definition PREAMBLE_OVERLAY_TITLE :: string where
  "PREAMBLE_OVERLAY_TITLE = ''prompt:codeact_preamble''"

definition PROMPT_OVERLAY_TAG :: string where
  "PROMPT_OVERLAY_TAG = ''prompt_overlay''"

definition FIX_PATTERN_DB_TITLE :: string where
  "FIX_PATTERN_DB_TITLE = ''fix_pattern_database''"

definition FIX_PATTERN_DB_TAG :: string where
  "FIX_PATTERN_DB_TAG = ''fix_patterns''"

definition tagged_doc :: "string \<Rightarrow> string \<Rightarrow> project_id \<Rightarrow> doc_table \<Rightarrow> memory_doc option" where
  "tagged_doc title tag pid docs =
     List.find (\<lambda>d. md_title d = title \<and> List.member (md_tags d) tag) (list_shared_memory_docs pid docs)"

definition json_array :: "json option \<Rightarrow> json list" where
  "json_array j = (case j of Some (JArray xs) \<Rightarrow> xs | _ \<Rightarrow> [])"

definition json_str_or_empty :: "string \<Rightarrow> json \<Rightarrow> string" where
  "json_str_or_empty k j = (case Option.bind (json_get k j) json_as_str of Some s \<Rightarrow> s | None \<Rightarrow> [])"

definition append_rules :: "string list \<Rightarrow> string \<Rightarrow> string" where
  "append_rules rules content =
     fold (\<lambda>rule c. (if c \<noteq> [] then c @ newline else c) @ rule) rules content"

definition pattern_row :: "json \<Rightarrow> string" where
  "pattern_row p =
     (let pat = json_str_or_empty ''pattern'' p
      in if pat = [] then []
         else newline @ ''| '' @ pat @ '' | '' @ json_str_or_empty ''strategy'' p @ '' | ''
              @ json_str_or_empty ''location'' p @ '' |'')"

text \<open>
  \<open>allow\<close> is whether the environment enables self-modification, \<open>seed\<close> the first content of the
  table of fix patterns; a document that is created draws its identifier.
\<close>

definition update_overlay ::
    "bool \<Rightarrow> doc_id \<Rightarrow> time \<Rightarrow> project_id \<Rightarrow> string list \<Rightarrow> doc_table \<Rightarrow> engine_error + doc_table" where
  "update_overlay allow did now pid rules docs =
     (let overlay = (case tagged_doc PREAMBLE_OVERLAY_TITLE PROMPT_OVERLAY_TAG pid docs of
            Some d \<Rightarrow> d
          | None \<Rightarrow> doc_with_tags [PROMPT_OVERLAY_TAG]
                     (new_memory_doc did now pid SHARED_OWNER_ID DtNote PREAMBLE_OVERLAY_TITLE []))
      in save_memory_doc allow
           (overlay\<lparr>md_content := append_rules rules (md_content overlay), md_updated_at := now\<rparr>) docs)"

definition update_patterns ::
    "bool \<Rightarrow> string \<Rightarrow> doc_id \<Rightarrow> time \<Rightarrow> project_id \<Rightarrow> json list \<Rightarrow> doc_table \<Rightarrow> engine_error + doc_table" where
  "update_patterns allow seed did now pid patterns docs =
     (let doc = (case tagged_doc FIX_PATTERN_DB_TITLE FIX_PATTERN_DB_TAG pid docs of
            Some d \<Rightarrow> d
          | None \<Rightarrow> doc_with_tags [FIX_PATTERN_DB_TAG]
                     (new_memory_doc did now pid SHARED_OWNER_ID DtNote FIX_PATTERN_DB_TITLE seed))
      in save_memory_doc allow
           (doc\<lparr>md_content := md_content doc @ concat (map pattern_row patterns), md_updated_at := now\<rparr>) docs)"

definition process_self_improvement_output ::
    "(string \<Rightarrow> json option) \<Rightarrow> bool \<Rightarrow> string \<Rightarrow> (nat \<Rightarrow> doc_id) \<Rightarrow> time \<Rightarrow> mission \<Rightarrow> string \<Rightarrow> doc_table \<Rightarrow>
     (engine_error + unit) \<times> doc_table" where
  "process_self_improvement_output parse allow seed dids now m response docs =
     (case extract_json_from_response parse response of
        None \<Rightarrow> (Inr (), docs)
      | Some v \<Rightarrow>
          let additions = json_array (json_get ''prompt_additions'' v);
              patterns = json_array (json_get ''fix_patterns'' v);
              rules = List.map_filter json_as_str additions;
              add_patterns = (\<lambda>ds.
                if patterns = [] then (Inr (), ds)
                else case update_patterns allow seed (dids 1) now (mi_project_id m) patterns ds of
                  Inl e \<Rightarrow> (Inl e, ds) | Inr ds' \<Rightarrow> (Inr (), ds'))
          in if additions \<noteq> [] \<and> \<not> allow then (Inr (), docs)
             else if rules \<noteq> []
             then (case update_overlay allow (dids 0) now (mi_project_id m) rules docs of
                     Inl e \<Rightarrow> (Inl e, docs) | Inr docs' \<Rightarrow> add_patterns docs')
             else add_patterns docs)"

definition goal_achieved :: "string \<Rightarrow> bool" where
  "goal_achieved text =
     (let lower = to_lowercase text
      in contains_str lower ''goal has been achieved: yes'' \<or> contains_str lower ''goal achieved: yes''
         \<or> contains_str lower ''mission complete'')"

text \<open>
  The offset of the pattern in the text in small letters is applied to the text itself; the lengths
  agree for the characters of the model.
\<close>

definition extract_next_focus :: "string \<Rightarrow> string option" where
  "extract_next_focus text =
     (case after_first (to_lowercase text) ''next focus:'' of
        None \<Rightarrow> None
      | Some rest \<Rightarrow>
          let focus = str_trim (first_line (drop (length text - length rest) text))
          in if focus = [] then None else Some focus)"

text \<open>The mission, the text to notify, whether it is an error, and the documents.\<close>

definition outcome_effect ::
    "(string \<Rightarrow> json option) \<Rightarrow> bool \<Rightarrow> string \<Rightarrow> (nat \<Rightarrow> doc_id) \<Rightarrow> time \<Rightarrow> thread_outcome \<Rightarrow> mission \<Rightarrow> doc_table \<Rightarrow>
     mission \<times> string option \<times> bool \<times> doc_table" where
  "outcome_effect parse allow seed dids now outcome m docs =
     (case outcome of
        OutCompleted (Some text) \<Rightarrow>
          let m1 = (if goal_achieved text then m\<lparr>mi_status := MsCompleted\<rparr> else m);
              m2 = (case extract_next_focus text of
                      Some f \<Rightarrow> m1\<lparr>mi_current_focus := Some f\<rparr> | None \<Rightarrow> m1);
              m3 = m2\<lparr>mi_approach_history := mi_approach_history m2 @ [text]\<rparr>
          in (m3, Some text, False,
              if is_self_improvement_mission m3
              then snd (process_self_improvement_output parse allow seed dids now m3 text docs)
              else docs)
      | OutFailed err \<Rightarrow>
          (m\<lparr>mi_approach_history := mi_approach_history m @ [''FAILED: '' @ err]\<rparr>,
           Some (''Mission failed: '' @ err), True, docs)
      | OutMaxIterations \<Rightarrow>
          (m\<lparr>mi_approach_history := mi_approach_history m @ [''Hit max iterations without completing'']\<rparr>,
           Some ''Mission thread hit max iterations without completing'', True, docs)
      | _ \<Rightarrow> (m, None, False, docs))"

definition process_mission_outcome_and_notify ::
    "(string \<Rightarrow> json option) \<Rightarrow> bool \<Rightarrow> string \<Rightarrow> (nat \<Rightarrow> doc_id) \<Rightarrow> time \<Rightarrow> mission_id \<Rightarrow> thread_id \<Rightarrow>
     thread_outcome \<Rightarrow> mission_manager \<Rightarrow> mission_manager" where
  "process_mission_outcome_and_notify parse allow seed dids now mid tid outcome mm =
     (case load_mission mid mm of
        None \<Rightarrow> mm
      | Some m \<Rightarrow>
          let (m', response, is_error, docs) = outcome_effect parse allow seed dids now outcome m (mm_docs mm);
              note = (if mi_notify_channels m' \<noteq> [] \<and> response \<noteq> None
                      then [\<lparr>mn_mission_id = mid, mn_mission_name = mi_name m', mn_thread_id = tid,
                             mn_user_id = mi_user_id m', mn_notify_channels = mi_notify_channels m',
                             mn_response = response, mn_is_error = is_error\<rparr>]
                      else [])
          in save_mission (m'\<lparr>mi_updated_at := now\<rparr>)
               (mm\<lparr>mm_docs := docs, mm_notifications := mm_notifications mm @ note\<rparr>))"

text \<open>The watcher of a thread that has ended: it joins the thread and processes the outcome.\<close>

definition mission_thread_ended ::
    "(string \<Rightarrow> json option) \<Rightarrow> bool \<Rightarrow> string \<Rightarrow> (nat \<Rightarrow> doc_id) \<Rightarrow> time \<Rightarrow> mission_id \<Rightarrow> thread_id \<Rightarrow>
     mission_manager \<Rightarrow> mission_manager" where
  "mission_thread_ended parse allow seed dids now mid tid mm =
     (let (r, tm) = join_thread tid (mm_threads mm);
          mm1 = mm\<lparr>mm_threads := tm, mm_watchers := remove1 (mid, tid) (mm_watchers mm)\<rparr>
      in case r of
           JoinReady (Inr outcome) \<Rightarrow>
             process_mission_outcome_and_notify parse allow seed dids now mid tid outcome mm1
         | JoinReady (Inl _) \<Rightarrow> mm1
         | JoinWaits \<Rightarrow> mm1\<lparr>mm_watchers := mm_watchers mm\<rparr>)"

section \<open>The event listener\<close>

definition SKILL_EXTRACTION_MIN_STEPS :: nat where
  "SKILL_EXTRACTION_MIN_STEPS = 5"

definition SKILL_EXTRACTION_MIN_ACTIONS :: nat where
  "SKILL_EXTRACTION_MIN_ACTIONS = 3"

definition CONVERSATION_INSIGHTS_INTERVAL :: u32 where
  "CONVERSATION_INSIGHTS_INTERVAL = 5"

definition json_nat :: "nat \<Rightarrow> json" where
  "json_nat n = JNumber (int n)"

definition json_strings :: "string list \<Rightarrow> json" where
  "json_strings ss = JArray (map JString ss)"

fun severity_debug :: "issue_severity \<Rightarrow> string" where
  "severity_debug SevError = ''Error''"
| "severity_debug SevWarning = ''Warning''"
| "severity_debug SevInfo = ''Info''"

definition issue_json :: "trace_issue \<Rightarrow> json" where
  "issue_json i = JObject
     [(''severity'', JString (severity_debug (ti_severity i))), (''category'', JString (ti_category i)),
      (''description'', JString (ti_description i)),
      (''step'', case ti_step i of Some n \<Rightarrow> json_nat n | None \<Rightarrow> JNull)]"

definition failed_action_message :: "thread_event \<Rightarrow> string option" where
  "failed_action_message e =
     (case ev_kind e of ActionFailed _ name _ err _ \<Rightarrow> Some (name @ '': '' @ err) | _ \<Rightarrow> None)"

definition executed_action :: "thread_event \<Rightarrow> string option" where
  "executed_action e = (case ev_kind e of ActionExecuted _ name _ _ _ \<Rightarrow> Some name | _ \<Rightarrow> None)"

definition issues_payload :: "thread_event \<Rightarrow> thread \<Rightarrow> trace_issue list \<Rightarrow> json" where
  "issues_payload ev th issues = JObject
     [(''source_thread_id'', JString (show_nat (ev_thread_id ev))), (''goal'', JString (th_goal th)),
      (''issues'', JArray (map issue_json issues)),
      (''error_messages'', json_strings (take 10 (List.map_filter failed_action_message (th_events th))))]"

definition learnings_payload :: "thread_event \<Rightarrow> thread \<Rightarrow> json" where
  "learnings_payload ev th = JObject
     [(''source_thread_id'', JString (show_nat (ev_thread_id ev))), (''goal'', JString (th_goal th)),
      (''step_count'', json_nat (th_step_count th)),
      (''action_count'', json_nat (length (filter is_action_executed (th_events th)))),
      (''actions_used'', json_strings (List.map_filter executed_action (th_events th))),
      (''total_tokens'', json_nat (unat (th_total_tokens_used th)))]"

definition insights_payload :: "thread \<Rightarrow> u32 \<Rightarrow> string list \<Rightarrow> json" where
  "insights_payload th n_done goals = JObject
     [(''project_id'', JString (show_nat (th_project_id th))),
      (''completed_thread_count'', json_nat (unat n_done)), (''thread_goals'', json_strings goals),
      (''sample_user_messages'',
         json_strings (take 10 (map (\<lambda>m. take 200 (tm_content m))
           (filter (\<lambda>m. tm_role m = RoleUser) (th_messages th)))))]"

definition event_is_done :: "thread_event \<Rightarrow> bool" where
  "event_is_done ev = (case ev_kind ev of StateChanged _ ThDone _ \<Rightarrow> True | _ \<Rightarrow> False)"

definition skill_candidate :: "thread \<Rightarrow> bool" where
  "skill_candidate th \<longleftrightarrow>
     th_state th = ThDone \<and> list_all (\<lambda>i. ti_severity i \<noteq> SevError) (analyze_trace th) \<and>
     th_step_count th \<ge> SKILL_EXTRACTION_MIN_STEPS \<and>
     length (filter is_action_executed (th_events th)) \<ge> SKILL_EXTRACTION_MIN_ACTIONS"

text \<open>
  One event that the listener receives; \<open>counts\<close> is its number of finished threads per project. An
  error of a trigger is only logged. \<open>ids j\<close> are the identifiers that the \<open>j\<close>-th trigger draws.
\<close>

definition fire_trigger ::
    "(json \<Rightarrow> string) \<Rightarrow> (nat \<Rightarrow> spawn_ids) \<Rightarrow> time \<Rightarrow> string \<Rightarrow> string \<Rightarrow> json \<Rightarrow> mission_manager \<Rightarrow> mission_manager"
    where
  "fire_trigger pretty ids now event_type uid payload mm =
     snd (fire_on_system_event pretty ids now ''engine'' event_type uid (Some payload) mm)"

definition listen_event ::
    "(json \<Rightarrow> string) \<Rightarrow> (nat \<Rightarrow> nat \<Rightarrow> spawn_ids) \<Rightarrow> time \<Rightarrow> thread_event \<Rightarrow>
     (project_id, u32) hmap \<times> mission_manager \<Rightarrow> (project_id, u32) hmap \<times> mission_manager" where
  "listen_event pretty ids now ev = (\<lambda>(counts, mm).
     if \<not> event_is_done ev then (counts, mm)
     else
       let (loaded, s) = load_thread (ev_thread_id ev) (mg_store (mm_threads mm));
           mm0 = mm\<lparr>mm_threads := (mm_threads mm)\<lparr>mg_store := s\<rparr>\<rparr>
       in case loaded of
            None \<Rightarrow> (counts, mm0)
          | Some th \<Rightarrow>
              if th_type th = MissionThread then (counts, mm0)
              else
                let issues = analyze_trace th;
                    mm1 = (if issues \<noteq> []
                           then fire_trigger pretty (ids 0) now ''thread_completed_with_issues'' (th_user_id th)
                                  (issues_payload ev th issues) mm0
                           else mm0);
                    mm2 = (if skill_candidate th
                           then fire_trigger pretty (ids 1) now ''thread_completed_with_learnings'' (th_user_id th)
                                  (learnings_payload ev th) mm1
                           else mm1);
                    n_done = (case hm_get counts (th_project_id th) of Some n \<Rightarrow> n | None \<Rightarrow> 0) + 1;
                    goals = map th_goal (take (unat CONVERSATION_INSIGHTS_INTERVAL)
                              (rev (list_threads (th_project_id th) (th_user_id th) (mg_store (mm_threads mm2)))))
                in (hm_insert (th_project_id th) n_done counts,
                    if n_done mod CONVERSATION_INSIGHTS_INTERVAL = 0
                    then fire_trigger pretty (ids 2) now ''conversation_insights_due'' (th_user_id th)
                           (insights_payload th n_done goals) mm2
                    else mm2))"

section \<open>The learning missions\<close>

text \<open>The texts that the build includes.\<close>

record mission_texts =
  mt_self_improvement_goal :: string
  mt_skill_extraction_goal :: string
  mt_conversation_insights_goal :: string
  mt_expected_behavior_goal :: string
  mt_seed_fix_patterns :: string
  mt_default_orchestrator :: string

definition save_docs :: "engine_error + doc_table \<Rightarrow> mission_manager \<Rightarrow> (engine_error + unit) \<times> mission_manager" where
  "save_docs r mm = (case r of Inl e \<Rightarrow> (Inl e, mm) | Inr docs \<Rightarrow> (Inr (), mm\<lparr>mm_docs := docs\<rparr>))"

definition ensure_self_improvement_mission ::
    "mission_texts \<Rightarrow> bool \<Rightarrow> mission_id \<Rightarrow> doc_id \<Rightarrow> time \<Rightarrow> project_id \<Rightarrow> string \<Rightarrow> mission_manager \<Rightarrow>
     (engine_error + mission_id) \<times> mission_manager" where
  "ensure_self_improvement_mission txt allow mid did now pid uid mm =
     (case List.find is_self_improvement_mission (list_missions_of pid uid mm) of
        Some existing \<Rightarrow> (Inr (mi_id existing), activate_mission (mi_id existing) mm)
      | None \<Rightarrow>
          let m = (new_mission mid now pid uid ''self-improvement'' (mt_self_improvement_goal txt)
                     (OnSystemEvent ''engine'' ''thread_completed_with_issues''))
                  \<lparr>mi_success_criteria := Some
                     ''Continuously improve system prompts and fix patterns based on execution traces'',
                   mi_metadata := JObject [(''self_improvement'', JBool True)],
                   mi_max_threads_per_day := 5\<rparr>;
              mm1 = save_mission m mm;
              mm2 = mm1\<lparr>mm_active := mm_active mm1 @ [mid]\<rparr>
          in if tagged_doc FIX_PATTERN_DB_TITLE FIX_PATTERN_DB_TAG pid (mm_docs mm2) \<noteq> None
             then (Inr mid, mm2)
             else
               (case save_docs (save_memory_doc allow (doc_with_tags [FIX_PATTERN_DB_TAG]
                        (new_memory_doc did now pid SHARED_OWNER_ID DtNote FIX_PATTERN_DB_TITLE
                          (mt_seed_fix_patterns txt))) (mm_docs mm2)) mm2 of
                  (Inl e, mm3) \<Rightarrow> (Inl e, mm3) | (Inr _, mm3) \<Rightarrow> (Inr mid, mm3)))"

definition ensure_mission_by_metadata ::
    "mission_id \<Rightarrow> time \<Rightarrow> project_id \<Rightarrow> string \<Rightarrow> string \<Rightarrow> string \<Rightarrow> string \<Rightarrow> mission_cadence \<Rightarrow> string \<Rightarrow> u32 \<Rightarrow>
     mission_manager \<Rightarrow> mission_id \<times> mission_manager" where
  "ensure_mission_by_metadata mid now pid uid key name goal cadence criteria max_per_day mm =
     (case List.find (\<lambda>m. json_get key (mi_metadata m) \<noteq> None) (list_missions_of pid uid mm) of
        Some existing \<Rightarrow> (mi_id existing, activate_mission (mi_id existing) mm)
      | None \<Rightarrow>
          let m = (new_mission mid now pid uid name goal cadence)
                  \<lparr>mi_success_criteria := Some criteria, mi_metadata := JObject [(key, JBool True)],
                   mi_max_threads_per_day := max_per_day\<rparr>;
              mm1 = save_mission m mm
          in (mid, mm1\<lparr>mm_active := mm_active mm1 @ [mid]\<rparr>))"

definition ORCHESTRATOR_TITLE :: string where
  "ORCHESTRATOR_TITLE = ''orchestrator:main''"

definition ORCHESTRATOR_TAG :: string where
  "ORCHESTRATOR_TAG = ''orchestrator_code''"

definition doc_version :: "memory_doc \<Rightarrow> int" where
  "doc_version d = (case json_get ''version'' (md_metadata d) of
     Some (JNumber n) \<Rightarrow> if n \<ge> 0 then n else 0 | _ \<Rightarrow> 0)"

definition seed_orchestrator_v0 ::
    "mission_texts \<Rightarrow> bool \<Rightarrow> doc_id \<Rightarrow> time \<Rightarrow> project_id \<Rightarrow> mission_manager \<Rightarrow> (engine_error + unit) \<times> mission_manager"
    where
  "seed_orchestrator_v0 txt allow did now pid mm =
     (case List.find (\<lambda>d. md_title d = ORCHESTRATOR_TITLE \<and> List.member (md_tags d) ORCHESTRATOR_TAG
                          \<and> doc_version d = 0) (list_shared_memory_docs pid (mm_docs mm)) of
        Some d \<Rightarrow>
          if md_content d \<noteq> mt_default_orchestrator txt
          then save_docs (save_memory_doc allow
                 (d\<lparr>md_content := mt_default_orchestrator txt, md_updated_at := now\<rparr>) (mm_docs mm)) mm
          else (Inr (), mm)
      | None \<Rightarrow>
          save_docs (save_memory_doc allow
            ((doc_with_tags [ORCHESTRATOR_TAG] (new_memory_doc did now pid SHARED_OWNER_ID DtNote
                ORCHESTRATOR_TITLE (mt_default_orchestrator txt)))
             \<lparr>md_metadata := JObject [(''version'', JNumber 0), (''source'', JString ''compiled_in'')]\<rparr>)
            (mm_docs mm)) mm)"

definition ensure_learning_missions ::
    "mission_texts \<Rightarrow> bool \<Rightarrow> (nat \<Rightarrow> uuid) \<Rightarrow> time \<Rightarrow> project_id \<Rightarrow> string \<Rightarrow> mission_manager \<Rightarrow>
     (engine_error + unit) \<times> mission_manager" where
  "ensure_learning_missions txt allow ids now pid uid mm =
     (case seed_orchestrator_v0 txt allow (ids 0) now pid mm of
        (Inl e, mm1) \<Rightarrow> (Inl e, mm1)
      | (Inr _, mm1) \<Rightarrow>
          (case ensure_self_improvement_mission txt allow (ids 1) (ids 2) now pid uid mm1 of
             (Inl e, mm2) \<Rightarrow> (Inl e, mm2)
           | (Inr _, mm2) \<Rightarrow>
               let mm3 = snd (ensure_mission_by_metadata (ids 3) now pid uid ''skill_extraction''
                     ''skill-extraction'' (mt_skill_extraction_goal txt)
                     (OnSystemEvent ''engine'' ''thread_completed_with_learnings'')
                     ''Extract reusable skills from successful multi-step threads'' 3 mm2);
                   mm4 = snd (ensure_mission_by_metadata (ids 4) now pid uid ''conversation_insights''
                     ''conversation-insights'' (mt_conversation_insights_goal txt)
                     (OnSystemEvent ''engine'' ''conversation_insights_due'')
                     ''Extract user preferences, domain knowledge, and workflow patterns from conversations'' 2 mm3);
                   mm5 = snd (ensure_mission_by_metadata (ids 5) now pid uid ''expected_behavior''
                     ''expected-behavior'' (mt_expected_behavior_goal txt)
                     (OnSystemEvent ''user_feedback'' ''expected_behavior'')
                     ''Investigate user-reported expectation gaps and apply fixes'' 5 mm4)
               in (Inr (), mm5)))"

end
