(* ===== verification/Mission_Tools.thy ===== *)
theory Mission_Tools
  imports Mission_Learning
begin

text \<open>
  The mission tools that the model of an agent calls (\<open>src/bridge/effect_adapter.rs\<close>): the parameters
  are read from JSON, the mission is found by name or by identifier, and the mission manager is called
  for the user of the thread. \<open>parse_uuid\<close> is the parser of the \<open>uuid\<close> crate.
\<close>

section \<open>Parameters\<close>

definition arg_at :: "nat \<Rightarrow> json \<Rightarrow> json option" where
  "arg_at n params =
     (case json_get ''_args'' params of
        Some (JArray xs) \<Rightarrow> if n < length xs then Some (xs ! n) else None | _ \<Rightarrow> None)"

definition param_or_arg :: "string \<Rightarrow> nat \<Rightarrow> json \<Rightarrow> string option" where
  "param_or_arg k n params =
     Option.bind (case json_get k params of Some v \<Rightarrow> Some v | None \<Rightarrow> arg_at n params) json_as_str"

definition coerce_to_u64 :: "json \<Rightarrow> nat option" where
  "coerce_to_u64 v =
     (case v of JNumber n \<Rightarrow> if n \<ge> 0 then Some (nat n) else None
              | JString s \<Rightarrow> parse_u64 s | _ \<Rightarrow> None)"

definition str_items :: "json list \<Rightarrow> string list" where
  "str_items xs = List.map_filter json_as_str xs"

definition parse_cadence :: "string \<Rightarrow> mission_cadence" where
  "parse_cadence s =
     (let trimmed = to_lowercase (str_trim s)
      in if trimmed = ''manual'' then Manual
         else if List.member trimmed (CHR '' '') \<and> length (split_whitespace trimmed) \<ge> 5
         then Cron (str_trim s) None
         else if starts_with trimmed ''event:'' then OnEvent (str_trim (drop 6 trimmed))
         else if starts_with trimmed ''webhook:'' then Webhook (str_trim (drop 8 trimmed)) None
         else Manual)"

definition resolve_mission_id ::
    "(string \<Rightarrow> uuid option) \<Rightarrow> json \<Rightarrow> project_id \<Rightarrow> string \<Rightarrow> mission_manager \<Rightarrow> engine_error + mission_id" where
  "resolve_mission_id parse_uuid params pid uid mm =
     (let name = Option.bind (json_get ''name'' params) json_as_str;
          id_str = param_or_arg ''id'' 0 params
      in case Option.bind name (\<lambda>n. find_by_name pid uid n mm) of
           Some m \<Rightarrow> Inr (mi_id m)
         | None \<Rightarrow>
             (case id_str of
                None \<Rightarrow> Inl (EffectErr (''mission not found '' @ em_dash
                     @ '' provide a valid mission name or UUID (got name='' @ debug_opt_str name @ '', id=''
                     @ debug_opt_str id_str @ '')''))
              | Some s \<Rightarrow>
                  (case parse_uuid s of
                     Some u \<Rightarrow> Inr u
                   | None \<Rightarrow>
                       (case find_by_name pid uid s mm of
                          Some m \<Rightarrow> Inr (mi_id m)
                        | None \<Rightarrow> Inl (EffectErr (''mission not found '' @ em_dash
                            @ '' provide a valid mission name or UUID (got name='' @ debug_opt_str name @ '', id=''
                            @ debug_opt_str id_str @ '')''))))))"

section \<open>The tools\<close>

fun status_debug :: "mission_status \<Rightarrow> string" where
  "status_debug MsActive = ''Active''"
| "status_debug MsPaused = ''Paused''"
| "status_debug MsCompleted = ''Completed''"
| "status_debug MsFailed = ''Failed''"

definition status_json :: "string \<Rightarrow> json" where
  "status_json s = JObject [(''status'', JString s)]"

definition mission_json :: "mission \<Rightarrow> json" where
  "mission_json m = JObject
     [(''id'', JString (show_nat (mi_id m))), (''name'', JString (mi_name m)), (''goal'', JString (mi_goal m)),
      (''status'', JString (status_debug (mi_status m))),
      (''threads'', json_nat (length (mi_thread_history m))),
      (''current_focus'', case mi_current_focus m of Some f \<Rightarrow> JString f | None \<Rightarrow> JNull),
      (''notify_channels'', json_strings (mi_notify_channels m))]"

definition tool_mission_create ::
    "mission_id \<Rightarrow> time \<Rightarrow> json \<Rightarrow> project_id \<Rightarrow> string \<Rightarrow> string option \<Rightarrow> mission_manager \<Rightarrow>
     (engine_error + json) \<times> mission_manager" where
  "tool_mission_create mid now params pid uid source_channel mm =
     (let name = (case param_or_arg ''name'' 0 params of Some s \<Rightarrow> s | None \<Rightarrow> ''unnamed mission'');
          goal = (case param_or_arg ''goal'' 1 params of Some s \<Rightarrow> s | None \<Rightarrow> []);
          cadence_str = (case param_or_arg ''cadence'' 2 params of Some s \<Rightarrow> s | None \<Rightarrow> ''manual'');
          notify = (case json_get ''notify_channels'' params of
              Some (JArray xs) \<Rightarrow> str_items xs
            | _ \<Rightarrow> (case source_channel of Some ch \<Rightarrow> [ch] | None \<Rightarrow> []));
          (i, mm1) = create_mission mid now pid uid name goal (parse_cadence cadence_str) notify mm
      in (Inr (JObject [(''mission_id'', JString (show_nat i)), (''status'', JString ''created'')]), mm1))"

definition tool_mission_fire ::
    "(json \<Rightarrow> string) \<Rightarrow> spawn_ids \<Rightarrow> time \<Rightarrow> mission_id \<Rightarrow> string \<Rightarrow> mission_manager \<Rightarrow>
     (engine_error + json) \<times> mission_manager" where
  "tool_mission_fire pretty ids now mid uid mm =
     (case fire_mission pretty ids now mid uid None mm of
        (Inl e, mm1) \<Rightarrow> (Inl e, mm1)
      | (Inr (Some tid), mm1) \<Rightarrow>
          (Inr (JObject [(''thread_id'', JString (show_nat tid)), (''status'', JString ''fired'')]), mm1)
      | (Inr None, mm1) \<Rightarrow>
          (Inr (JObject [(''status'', JString ''not_fired''),
                         (''reason'', JString ''mission is terminal or budget exhausted'')]), mm1))"

definition params_update :: "json \<Rightarrow> mission_update" where
  "params_update params =
     \<lparr>mu_name = Option.bind (json_get ''new_name'' params) json_as_str,
      mu_goal = Option.bind (json_get ''goal'' params) json_as_str,
      mu_cadence = map_option parse_cadence (Option.bind (json_get ''cadence'' params) json_as_str),
      mu_notify_channels = (case json_get ''notify_channels'' params of
         Some (JArray xs) \<Rightarrow> Some (str_items xs) | _ \<Rightarrow> None),
      mu_max_threads_per_day =
         map_option word_of_nat (Option.bind (json_get ''max_threads_per_day'' params) coerce_to_u64),
      mu_success_criteria = Option.bind (json_get ''success_criteria'' params) json_as_str\<rparr>"

definition status_result :: "string \<Rightarrow> (engine_error + unit) \<times> mission_manager \<Rightarrow> (engine_error + json) \<times> mission_manager"
    where
  "status_result s r = (case r of (Inl e, mm) \<Rightarrow> (Inl e, mm) | (Inr _, mm) \<Rightarrow> (Inr (status_json s), mm))"

definition on_mission ::
    "(string \<Rightarrow> uuid option) \<Rightarrow> json \<Rightarrow> project_id \<Rightarrow> string \<Rightarrow>
     (mission_id \<Rightarrow> mission_manager \<Rightarrow> (engine_error + json) \<times> mission_manager) \<Rightarrow> mission_manager \<Rightarrow>
     (engine_error + json) \<times> mission_manager" where
  "on_mission parse_uuid params pid uid f mm =
     (case resolve_mission_id parse_uuid params pid uid mm of Inl e \<Rightarrow> (Inl e, mm) | Inr mid \<Rightarrow> f mid mm)"

text \<open>\<open>None\<close> for an action that is no mission tool. \<open>mid\<close> and \<open>ids\<close> are the identifiers it draws.\<close>

definition mission_tool ::
    "(string \<Rightarrow> uuid option) \<Rightarrow> (json \<Rightarrow> string) \<Rightarrow> mission_id \<Rightarrow> spawn_ids \<Rightarrow> time \<Rightarrow> string \<Rightarrow> json \<Rightarrow> project_id \<Rightarrow>
     string \<Rightarrow> string option \<Rightarrow> mission_manager \<Rightarrow> ((engine_error + json) \<times> mission_manager) option" where
  "mission_tool parse_uuid pretty mid ids now action_name params pid uid source_channel mm =
     (let on = on_mission parse_uuid params pid uid
      in if action_name = ''mission_create''
         then Some (tool_mission_create mid now params pid uid source_channel mm)
         else if action_name = ''mission_list''
         then Some (Inr (JArray (map mission_json (list_missions_with_shared pid uid mm))), mm)
         else if action_name = ''mission_fire''
         then Some (on (\<lambda>i. tool_mission_fire pretty ids now i uid) mm)
         else if action_name = ''mission_pause''
         then Some (on (\<lambda>i mm. status_result ''ok'' (pause_mission now i uid mm)) mm)
         else if action_name = ''mission_resume''
         then Some (on (\<lambda>i mm. status_result ''ok'' (resume_mission now i uid mm)) mm)
         else if action_name = ''mission_delete''
         then Some (on (\<lambda>i mm. status_result ''deleted'' (complete_mission now i mm)) mm)
         else if action_name = ''mission_update''
         then Some (on (\<lambda>i mm. status_result ''updated'' (update_mission now i uid (params_update params) mm)) mm)
         else None)"

definition mission_action_result :: "string \<Rightarrow> engine_error + json \<Rightarrow> action_result" where
  "mission_action_result action_name r =
     (case r of
        Inr output \<Rightarrow>
          \<lparr>ar_call_id = [], ar_action_name = action_name, ar_output = output, ar_is_error = False, ar_duration = 0\<rparr>
      | Inl e \<Rightarrow>
          \<lparr>ar_call_id = [], ar_action_name = action_name,
           ar_output = JObject [(''error'', JString (engine_error_display e))], ar_is_error = True,
           ar_duration = 0\<rparr>)"

definition handle_mission_call ::
    "(string \<Rightarrow> uuid option) \<Rightarrow> (json \<Rightarrow> string) \<Rightarrow> mission_id \<Rightarrow> spawn_ids \<Rightarrow> time \<Rightarrow> string \<Rightarrow> json \<Rightarrow> project_id \<Rightarrow>
     string \<Rightarrow> string option \<Rightarrow> mission_manager \<Rightarrow> (action_result \<times> mission_manager) option" where
  "handle_mission_call parse_uuid pretty mid ids now action_name params pid uid source_channel mm =
     map_option (\<lambda>(r, mm'). (mission_action_result action_name r, mm'))
       (mission_tool parse_uuid pretty mid ids now action_name params pid uid source_channel mm)"

end
