(* ===== verification/Mission_Runs.thy ===== *)
theory Mission_Runs
  imports Mission_Tools
begin

text \<open>
  What holds in every state that the mission manager reaches: the changes that its operations make to
  the table of missions, as a relation whose closure every operation refines, and the properties of
  missions that follow.
\<close>

section \<open>How a table of missions changes\<close>

definition within_budget :: "mission \<Rightarrow> bool" where
  "within_budget m \<longleftrightarrow> mi_max_threads_per_day m = 0 \<or> mi_threads_today m < mi_max_threads_per_day m"

text \<open>\<open>b\<close> allows a change of the limit.\<close>

definition mission_evolves :: "bool \<Rightarrow> mission \<Rightarrow> mission \<Rightarrow> bool" where
  "mission_evolves b m m' \<longleftrightarrow>
     mi_id m' = mi_id m \<and> mi_user_id m' = mi_user_id m \<and> mi_next_fire_at m' = mi_next_fire_at m \<and>
     (b \<or> mi_max_threads_per_day m' = mi_max_threads_per_day m) \<and>
     (mi_thread_history m' = mi_thread_history m \<and> mi_threads_today m' = mi_threads_today m \<or>
      within_budget m \<and> (\<exists>tid. mi_thread_history m' = mi_thread_history m @ [tid]) \<and>
      mi_threads_today m' = mi_threads_today m + 1)"

definition fresh_mission :: "mission \<Rightarrow> bool" where
  "fresh_mission m \<longleftrightarrow> mi_thread_history m = [] \<and> mi_threads_today m = 0 \<and> mi_next_fire_at m = None"

inductive missions_upd :: "bool \<Rightarrow> (mission_id, mission) hmap \<Rightarrow> (mission_id, mission) hmap \<Rightarrow> bool" for b where
  mu_put: "hm_get t (mi_id m') = Some m \<Longrightarrow> mission_evolves b m m' \<Longrightarrow> missions_upd b t (hm_insert (mi_id m') m' t)"
| mu_new: "hm_get t (mi_id m) = None \<Longrightarrow> fresh_mission m \<Longrightarrow> missions_upd b t (hm_insert (mi_id m) m t)"

lemma missions_upd_keyed: "(missions_upd b)\<^sup>*\<^sup>* t t' \<Longrightarrow> hm_keyed mi_id t \<Longrightarrow> hm_keyed mi_id t'"
  by (induction rule: rtranclp_induct) (auto elim!: missions_upd.cases)

definition mm_upd :: "bool \<Rightarrow> mission_manager \<Rightarrow> mission_manager \<Rightarrow> bool" where
  "mm_upd b mm mm' \<longleftrightarrow>
     (hm_keyed mi_id (mm_missions mm) \<longrightarrow> (missions_upd b)\<^sup>*\<^sup>* (mm_missions mm) (mm_missions mm'))"

lemma mm_upd_same: "mm_missions mm' = mm_missions mm \<Longrightarrow> mm_upd b mm mm'"
  by (simp add: mm_upd_def)

lemma mm_upd_trans: "mm_upd b mm mm' \<Longrightarrow> mm_upd b mm' mm'' \<Longrightarrow> mm_upd b mm mm''"
  unfolding mm_upd_def using missions_upd_keyed rtranclp_trans by metis

lemma mm_upd_frame: "mm_upd b mm mm' \<Longrightarrow> mm_missions mm'' = mm_missions mm' \<Longrightarrow> mm_upd b mm mm''"
  by (simp add: mm_upd_def)

lemma mm_upd_frame2: "mm_upd b mm0 mm' \<Longrightarrow> mm_missions mm0 = mm_missions mm \<Longrightarrow> mm_upd b mm mm'"
  by (simp add: mm_upd_def)

lemma mm_upd_save:
  assumes "load_mission i mm = Some m" "mission_evolves b m m'"
  shows "mm_upd b mm (save_mission m' mm)"
proof -
  have "hm_keyed mi_id (mm_missions mm) \<Longrightarrow> hm_get (mm_missions mm) (mi_id m') = Some m"
    using assms hm_keyed_get by (fastforce simp: load_mission_def mission_evolves_def)
  then show ?thesis
    using assms(2) by (auto simp: mm_upd_def save_mission_def intro!: r_into_rtranclp mu_put)
qed

lemma mm_upd_new:
  "load_mission (mi_id m) mm = None \<Longrightarrow> fresh_mission m \<Longrightarrow> mm_upd b mm (save_mission m mm)"
  by (auto simp: mm_upd_def save_mission_def load_mission_def intro!: r_into_rtranclp mu_new)

lemma hm_modify_insert:
  "hm_wf m \<Longrightarrow> hm_get m k = Some v \<Longrightarrow> hm_modify k f m = hm_insert k (f v) m"
proof (induction m)
  case (Cons p m)
  obtain k' v' where p: "p = (k', v')" by (cases p)
  show ?case
  proof (cases "k' = k")
    case True
    then have "hm_get m k = None" using Cons.prems(1) p by (simp add: map_of_eq_None_iff)
    then have "hm_modify k f m = m" by (rule hm_modify_absent)
    with True p Cons.prems(2) show ?thesis by (simp add: hm_modify_def)
  next
    case False
    with p Cons show ?thesis by (simp add: hm_modify_def)
  qed
qed simp

lemma mm_upd_status: "mm_upd b mm (update_mission_status now i st mm)"
proof (cases "load_mission i mm")
  case None
  then have "update_mission_status now i st mm = mm"
    by (simp add: update_mission_status_def load_mission_def hm_modify_absent)
  then show ?thesis by (simp add: mm_upd_same)
next
  case (Some m)
  let ?m = "m\<lparr>mi_status := st, mi_updated_at := now\<rparr>"
  have u: "mm_upd b mm (save_mission ?m mm)"
    using Some by (intro mm_upd_save) (auto simp: mission_evolves_def)
  have "hm_keyed mi_id (mm_missions mm) \<Longrightarrow>
      mm_missions (update_mission_status now i st mm) = mm_missions (save_mission ?m mm)"
    using Some hm_modify_insert [of "mm_missions mm" i m] hm_keyed_get [of mi_id "mm_missions mm" i m]
    by (simp add: update_mission_status_def save_mission_def load_mission_def hm_keyed_wf)
  with u show ?thesis by (simp add: mm_upd_def)
qed

section \<open>The operations refine the changes\<close>

lemma mm_upd_pause: "mm_upd b mm (snd (pause_mission now i uid mm))"
  using mm_upd_status [of b mm now i MsPaused]
  by (auto simp: pause_mission_def Let_def mm_upd_same elim: mm_upd_frame)

lemma mm_upd_activate [simp]: "mm_missions (activate_mission i mm) = mm_missions mm"
  by (simp add: activate_mission_def)

lemma mm_upd_resume: "mm_upd b mm (snd (resume_mission now i uid mm))"
  using mm_upd_status [of b mm now i MsActive]
  by (auto simp: resume_mission_def mm_upd_same elim: mm_upd_frame)

lemma mm_upd_complete: "mm_upd b mm (snd (complete_mission now i mm))"
  using mm_upd_status [of b mm now i MsCompleted]
  by (auto simp: complete_mission_def Let_def elim: mm_upd_frame)

lemma mm_upd_create:
  assumes "load_mission i mm = None"
  shows "mm_upd b mm (snd (create_mission i now pid uid name goal cad notify mm))"
proof -
  let ?m = "(new_mission i now pid uid name goal cad)\<lparr>mi_notify_channels := notify\<rparr>"
  have "mm_upd b mm (save_mission ?m mm)"
    using assms by (intro mm_upd_new) (simp_all add: new_mission_def fresh_mission_def)
  then show ?thesis by (auto simp: create_mission_def Let_def elim: mm_upd_frame)
qed

lemma apply_update_evolves:
  "b \<or> mu_max_threads_per_day u = None \<Longrightarrow> mission_evolves b m ((apply_update u m)\<lparr>mi_updated_at := now\<rparr>)"
  by (auto simp: mission_evolves_def apply_update_def Let_def split: option.splits)

lemma mm_upd_update:
  assumes "b \<or> mu_max_threads_per_day u = None"
  shows "mm_upd b mm (snd (update_mission now i uid u mm))"
  using apply_update_evolves [OF assms, of _ now]
  by (auto simp: update_mission_def mm_upd_same intro: mm_upd_save split: option.splits)

lemma fire_begin_Some:
  "fire_begin i uid mm = Inr (Some m) \<Longrightarrow>
     load_mission i mm = Some m \<and> (mission_is_shared m \<or> mission_is_owned_by m uid) \<and>
     \<not> mission_is_terminal m \<and> within_budget m"
  by (auto simp: fire_begin_def within_budget_def not_le not_less word_gt_0 split: option.splits if_splits)

lemma fire_record_evolves:
  "within_budget m \<Longrightarrow> mission_evolves b m ((record_thread now tid m)
     \<lparr>mi_threads_today := mi_threads_today m + 1, mi_last_trigger_payload := payload\<rparr>)"
  by (simp add: mission_evolves_def record_thread_def)

lemma fire_spawn_missions [simp]: "mm_missions (snd (fire_spawn pretty ids now m uid payload mm)) = mm_missions mm"
  by (simp add: fire_spawn_def Let_def case_prod_beta)

lemma mm_upd_fire: "mm_upd b mm (snd (fire_mission pretty ids now i uid payload mm))"
proof (cases "\<exists>m tid. fire_begin i uid mm = Inr (Some m) \<and> fst (fire_spawn pretty ids now m uid payload mm) = Inr tid")
  case True
  then obtain m tid where m: "fire_begin i uid mm = Inr (Some m)"
    "fst (fire_spawn pretty ids now m uid payload mm) = Inr tid" by blast
  obtain mm1 where s: "fire_spawn pretty ids now m uid payload mm = (Inr tid, mm1)"
    using m(2) by (metis prod.collapse)
  have eq: "mm_missions mm1 = mm_missions mm" using s fire_spawn_missions by (metis snd_conv)
  then have "load_mission i mm1 = Some m" using fire_begin_Some [OF m(1)] by (simp add: load_mission_def)
  then have "mm_upd b mm1 (save_mission ((record_thread now tid m)
     \<lparr>mi_threads_today := mi_threads_today m + 1, mi_last_trigger_payload := payload\<rparr>) mm1)"
    using fire_begin_Some [OF m(1)] fire_record_evolves by (blast intro: mm_upd_save)
  then have "mm_upd b mm (fire_record now i m tid payload mm1)"
    using eq by (simp add: mm_upd_def fire_record_def Let_def)
  then show ?thesis using m(1) s by (simp add: fire_mission_def)
next
  case False
  have "snd (fire_mission pretty ids now i uid payload mm) = mm \<or>
      (\<exists>m. snd (fire_mission pretty ids now i uid payload mm) = snd (fire_spawn pretty ids now m uid payload mm))"
  proof (cases "fire_begin i uid mm")
    case (Inr o')
    show ?thesis
    proof (cases o')
      case (Some m)
      with Inr False obtain e where "fst (fire_spawn pretty ids now m uid payload mm) = Inl e"
        by (cases "fst (fire_spawn pretty ids now m uid payload mm)") auto
      then obtain mm1 where s: "fire_spawn pretty ids now m uid payload mm = (Inl e, mm1)"
        by (metis prod.collapse)
      with Inr Some have "snd (fire_mission pretty ids now i uid payload mm) = mm1" by (simp add: fire_mission_def)
      with s show ?thesis by (metis snd_conv)
    qed (simp add: Inr fire_mission_def)
  qed (simp add: fire_mission_def)
  then show ?thesis by (auto intro: mm_upd_same)
qed

lemma mm_upd_fire_each: "mm_upd b mm (snd (fire_each pretty ids n now sel payload is spawned mm))"
proof (induction "is" arbitrary: n spawned mm)
  case (Cons i "is")
  show ?case
  proof (cases "\<exists>m uid. load_mission i mm = Some m \<and> mi_status m = MsActive \<and> sel m = Some uid")
    case True
    then obtain m uid where m: "load_mission i mm = Some m" "mi_status m = MsActive" "sel m = Some uid" by blast
    obtain r mm1 where f: "fire_mission pretty (ids n) now i uid payload mm = (r, mm1)" by fastforce
    have u: "mm_upd b mm mm1" using mm_upd_fire [of b mm pretty "ids n" now i uid payload] f by simp
    show ?thesis
    proof (cases r)
      case (Inr o')
      then show ?thesis using m f u Cons.IH by (cases o') (auto intro: mm_upd_trans)
    qed (use m f u in simp)
  next
    case False
    then have "fire_each pretty ids n now sel payload (i # is) spawned mm
        = fire_each pretty ids (Suc n) now sel payload is spawned mm"
      by (auto split: option.splits)
    then show ?thesis using Cons.IH by simp
  qed
qed (simp add: mm_upd_same)

lemma resume_history_missions [simp]:
  "mm_missions (snd (resume_history eid now uid i tids resumed mm)) = mm_missions mm"
  by (induction tids arbitrary: resumed mm) (simp_all add: case_prod_beta Let_def split: option.splits sum.splits)

lemma resume_missions_missions [simp]:
  "mm_missions (snd (resume_missions eid now uid is resumed mm)) = mm_missions mm"
proof (induction "is" arbitrary: resumed mm)
  case (Cons i "is")
  then show ?case
  proof (cases "load_mission i mm")
    case (Some m)
    obtain r mm1 where h: "resume_history eid now uid i (rev (mi_thread_history m)) resumed mm = (r, mm1)" by fastforce
    then have "mm_missions mm1 = mm_missions mm" by (metis resume_history_missions snd_conv)
    with h Some Cons.IH show ?thesis by (cases r) auto
  qed simp
qed simp

lemma outcome_effect_evolves:
  "mission_evolves b m ((fst (outcome_effect parse allow seed dids now outcome m docs))\<lparr>mi_updated_at := now\<rparr>)"
  by (cases outcome) (auto simp: outcome_effect_def mission_evolves_def Let_def split: option.splits)

lemma mm_upd_outcome:
  "mm_upd b mm (process_mission_outcome_and_notify parse allow seed dids now i tid outcome mm)"
proof (cases "load_mission i mm")
  case (Some m)
  let ?m = "(fst (outcome_effect parse allow seed dids now outcome m (mm_docs mm)))\<lparr>mi_updated_at := now\<rparr>"
  have "mm_upd b mm (save_mission ?m mm)" using Some outcome_effect_evolves by (rule mm_upd_save)
  then show ?thesis
    by (rule mm_upd_frame)
      (simp add: Some process_mission_outcome_and_notify_def save_mission_def Let_def case_prod_beta)
qed (simp add: process_mission_outcome_and_notify_def mm_upd_same)

lemma mm_upd_trigger: "mm_upd b mm (fire_trigger pretty ids now et uid payload mm)"
  by (simp add: fire_trigger_def fire_on_system_event_def mm_upd_fire_each)

lemma mm_upd_trigger_trans: "mm_upd b mm x \<Longrightarrow> mm_upd b mm (fire_trigger pretty ids now et uid payload x)"
  using mm_upd_trigger by (blast intro: mm_upd_trans)

lemma mm_upd_refl [simp]: "mm_upd b mm mm" "mm_upd b mm (mm\<lparr>mm_threads := x\<rparr>)"
  by (simp_all add: mm_upd_same)

lemma mm_upd_listen: "mm_upd b mm (snd (listen_event pretty ids now ev (counts, mm)))"
  by (auto simp: listen_event_def Let_def case_prod_beta intro!: mm_upd_trigger_trans split: option.splits)

lemma save_docs_missions [simp]: "mm_missions (snd (save_docs r mm)) = mm_missions mm"
  by (simp add: save_docs_def split: sum.splits)

lemma seed_missions [simp]: "mm_missions (snd (seed_orchestrator_v0 txt allow did now pid mm)) = mm_missions mm"
  by (simp add: seed_orchestrator_v0_def split: option.splits)

lemma load_save_other: "j \<noteq> mi_id m \<Longrightarrow> load_mission j (save_mission m mm) = load_mission j mm"
  by (simp add: load_mission_def save_mission_def)

lemma load_mission_cong: "mm_missions mm' = mm_missions mm \<Longrightarrow> load_mission j mm' = load_mission j mm"
  by (simp add: load_mission_def)

lemma ensure_metadata_upd:
  assumes "mm_upd b mm0 mm" "load_mission i mm = None"
  shows "mm_upd b mm0 (snd (ensure_mission_by_metadata i now pid uid k name goal cad crit n mm))"
proof -
  let ?m = "(new_mission i now pid uid name goal cad)\<lparr>mi_success_criteria := Some crit,
      mi_metadata := JObject [(k, JBool True)], mi_max_threads_per_day := n\<rparr>"
  have "mm_upd b mm (save_mission ?m mm)"
    using assms(2) by (intro mm_upd_new) (simp_all add: new_mission_def fresh_mission_def)
  then have "mm_upd b mm (snd (ensure_mission_by_metadata i now pid uid k name goal cad crit n mm))"
    by (auto simp: ensure_mission_by_metadata_def Let_def mm_upd_same elim: mm_upd_frame split: option.splits)
  with assms(1) show ?thesis by (rule mm_upd_trans)
qed

lemma load_ensure_metadata:
  "j \<noteq> i \<Longrightarrow> load_mission j (snd (ensure_mission_by_metadata i now pid uid k name goal cad crit n mm))
      = load_mission j mm"
  by (auto simp: ensure_mission_by_metadata_def Let_def load_mission_def save_mission_def new_mission_def
      split: option.splits)

lemma ensure_self_improvement_upd:
  assumes "load_mission i mm = None"
  shows "mm_upd b mm (snd (ensure_self_improvement_mission txt allow i did now pid uid mm))"
    and "j \<noteq> i \<Longrightarrow> load_mission j (snd (ensure_self_improvement_mission txt allow i did now pid uid mm))
      = load_mission j mm"
proof -
  let ?m = "(new_mission i now pid uid ''self-improvement'' (mt_self_improvement_goal txt)
       (OnSystemEvent ''engine'' ''thread_completed_with_issues''))
      \<lparr>mi_success_criteria := Some
         ''Continuously improve system prompts and fix patterns based on execution traces'',
       mi_metadata := JObject [(''self_improvement'', JBool True)], mi_max_threads_per_day := 5\<rparr>"
  let ?e = "ensure_self_improvement_mission txt allow i did now pid uid mm"
  have e: "mm_missions (snd ?e) = mm_missions mm \<or> mm_missions (snd ?e) = mm_missions (save_mission ?m mm)"
    by (simp add: ensure_self_improvement_mission_def Let_def save_docs_def split: option.splits sum.splits)
  have "mm_upd b mm (save_mission ?m mm)"
    using assms by (intro mm_upd_new) (simp_all add: new_mission_def fresh_mission_def)
  with e show "mm_upd b mm (snd ?e)" by (auto intro: mm_upd_same mm_upd_frame)
  show "j \<noteq> i \<Longrightarrow> load_mission j (snd ?e) = load_mission j mm"
    using e by (auto simp: load_mission_def save_mission_def new_mission_def)
qed

lemma mm_upd_learning:
  assumes "distinct [ids 1, ids 3, ids 4, ids 5]" "\<forall>j \<in> {ids 1, ids 3, ids 4, ids 5}. load_mission j mm = None"
  shows "mm_upd b mm (snd (ensure_learning_missions txt allow ids now pid uid mm))"
proof -
  obtain r1 mm1 where s1: "seed_orchestrator_v0 txt allow (ids 0) now pid mm = (r1, mm1)" by fastforce
  then have m1: "mm_missions mm1 = mm_missions mm" by (metis seed_missions snd_conv)
  obtain r2 mm2 where s2: "ensure_self_improvement_mission txt allow (ids 1) (ids 2) now pid uid mm1 = (r2, mm2)"
    by fastforce
  have l1: "load_mission j mm1 = load_mission j mm" for j by (rule load_mission_cong [OF m1])
  have u2: "mm_upd b mm mm2"
    using ensure_self_improvement_upd(1) [of "ids 1" mm1 b "txt" allow "ids 2" now pid uid] s2 assms(2) l1 m1
    by (simp add: mm_upd_def)
  have l2: "j \<noteq> ids 1 \<Longrightarrow> load_mission j mm2 = load_mission j mm" for j
    using ensure_self_improvement_upd(2) [of "ids 1" mm1 j "txt" allow "ids 2" now pid uid] s2 assms(2) l1 by simp
  show ?thesis
  proof (cases r1)
    case (Inl e)
    with s1 m1 show ?thesis by (simp add: ensure_learning_missions_def mm_upd_same)
  next
    case r1: (Inr x)
    show ?thesis
    proof (cases r2)
      case (Inl e)
      with s1 s2 r1 u2 show ?thesis by (simp add: ensure_learning_missions_def)
    next
      case (Inr y)
      have "load_mission (ids 3) mm2 = None" "load_mission (ids 4) mm2 = None" "load_mission (ids 5) mm2 = None"
        using l2 assms by auto
      then show ?thesis
        using s1 s2 r1 Inr u2 assms(1)
        by (auto simp: ensure_learning_missions_def Let_def load_ensure_metadata intro!: ensure_metadata_upd)
    qed
  qed
qed

lemma status_result_snd [simp]: "snd (status_result s r) = snd r"
  by (auto simp: status_result_def split: prod.splits sum.splits)

lemma tool_fire_snd [simp]:
  "snd (tool_mission_fire pretty ids now i uid mm) = snd (fire_mission pretty ids now i uid None mm)"
  by (auto simp: tool_mission_fire_def split: prod.splits sum.splits option.splits)

lemma mm_upd_on:
  "(\<And>i. mm_upd b mm (snd (f i mm))) \<Longrightarrow> mm_upd b mm (snd (on_mission pu params pid uid f mm))"
  by (auto simp: on_mission_def mm_upd_same split: sum.splits)

lemma mm_upd_tool:
  assumes "load_mission mid mm = None" "b \<or> json_get ''max_threads_per_day'' params = None"
    "mission_tool pu pretty mid ids now act params pid uid ch mm = Some (r, mm')"
  shows "mm_upd b mm mm'"
proof -
  have u: "b \<or> mu_max_threads_per_day (params_update params) = None"
    using assms(2) by (auto simp: params_update_def)
  have c: "mm_upd b mm (snd (tool_mission_create mid now params pid uid ch mm))"
    using mm_upd_create [OF assms(1)] by (simp add: tool_mission_create_def Let_def case_prod_beta)
  have o: "mm_upd b mm (snd (on_mission pu params pid uid (\<lambda>i. tool_mission_fire pretty ids now i uid) mm))"
    "mm_upd b mm (snd (on_mission pu params pid uid (\<lambda>i mm. status_result s (pause_mission now i uid mm)) mm))"
    "mm_upd b mm (snd (on_mission pu params pid uid (\<lambda>i mm. status_result s (resume_mission now i uid mm)) mm))"
    "mm_upd b mm (snd (on_mission pu params pid uid (\<lambda>i mm. status_result s (complete_mission now i mm)) mm))"
    "mm_upd b mm (snd (on_mission pu params pid uid
       (\<lambda>i mm. status_result s (update_mission now i uid (params_update params) mm)) mm))" for s
    by (rule mm_upd_on,
        simp add: mm_upd_fire mm_upd_pause mm_upd_resume mm_upd_complete mm_upd_update [OF u])+
  from assms(3) show ?thesis
    using c o by (auto simp: mission_tool_def Let_def mm_upd_same split: if_splits dest!: arg_cong [of _ _ snd])
qed

section \<open>Runs\<close>

text \<open>
  Steps of the manager, one operation after the other, with new identifiers for new missions. Without
  \<open>b\<close> nobody changes the limit of a mission. The rest of the engine changes the threads and documents
  in any way.
\<close>

inductive mission_step :: "bool \<Rightarrow> mission_manager \<Rightarrow> mission_manager \<Rightarrow> bool" for b where
  ms_engine: "mission_step b mm (mm\<lparr>mm_threads := tm, mm_docs := docs\<rparr>)"
| ms_bootstrap: "mission_step b mm (snd (bootstrap_project pid mm))"
| ms_create: "load_mission i mm = None \<Longrightarrow>
    mission_step b mm (snd (create_mission i now pid uid name goal cad notify mm))"
| ms_update: "b \<or> mu_max_threads_per_day u = None \<Longrightarrow> mission_step b mm (snd (update_mission now i uid u mm))"
| ms_pause: "mission_step b mm (snd (pause_mission now i uid mm))"
| ms_resume: "mission_step b mm (snd (resume_mission now i uid mm))"
| ms_complete: "mission_step b mm (snd (complete_mission now i mm))"
| ms_fire: "mission_step b mm (snd (fire_mission pretty ids now i uid payload mm))"
| ms_tick: "mission_step b mm (snd (mission_tick pretty idss now mm))"
| ms_event: "mission_step b mm (snd (fire_on_system_event pretty idss now source et uid payload mm))"
| ms_listen: "mission_step b mm (snd (listen_event pretty idsss now ev (counts, mm)))"
| ms_recover: "mission_step b mm (snd (resume_recoverable_threads eid now uid mm))"
| ms_outcome: "mission_step b mm (process_mission_outcome_and_notify parse allow seed dids now i tid outcome mm)"
| ms_ended: "mission_step b mm (mission_thread_ended parse allow seed dids now i tid mm)"
| ms_learning: "distinct [ids 1, ids 3, ids 4, ids 5] \<Longrightarrow>
    \<forall>j \<in> {ids 1, ids 3, ids 4, ids 5}. load_mission j mm = None \<Longrightarrow>
    mission_step b mm (snd (ensure_learning_missions txt allow ids now pid uid mm))"
| ms_tool: "load_mission i mm = None \<Longrightarrow> b \<or> json_get ''max_threads_per_day'' params = None \<Longrightarrow>
    handle_mission_call pu pretty i ids now act params pid uid ch mm = Some (r, mm') \<Longrightarrow> mission_step b mm mm'"

definition new_mission_manager :: "thread_manager \<Rightarrow> mission_manager" where
  "new_mission_manager tm = \<lparr>mm_threads = tm, mm_missions = [], mm_docs = [], mm_active = [],
     mm_watchers = [], mm_notifications = []\<rparr>"

definition mission_reach :: "mission_manager \<Rightarrow> bool" where
  "mission_reach mm \<longleftrightarrow> (\<exists>tm. (mission_step True)\<^sup>*\<^sup>* (new_mission_manager tm) mm)"

lemma mission_thread_ended_upd: "mm_upd b mm (mission_thread_ended parse allow seed dids now i tid mm)"
proof -
  let ?mm = "mm\<lparr>mm_threads := snd (join_thread tid (mm_threads mm)),
      mm_watchers := remove1 (i, tid) (mm_watchers mm)\<rparr>"
  have "mm_upd b mm ?mm" by (simp add: mm_upd_same)
  moreover have "mm_upd b ?mm (process_mission_outcome_and_notify parse allow seed dids now i tid out ?mm)" for out
    by (rule mm_upd_outcome)
  ultimately have "mm_upd b mm (process_mission_outcome_and_notify parse allow seed dids now i tid out ?mm)" for out
    by (rule mm_upd_trans)
  then show ?thesis
    by (auto simp: mission_thread_ended_def Let_def case_prod_beta mm_upd_same split: join_result.splits sum.splits)
qed

lemma mission_step_upd: "mission_step b mm mm' \<Longrightarrow> mm_upd b mm mm'"
proof (induction rule: mission_step.induct)
  case (ms_tool i mm params pu pretty ids now act pid uid ch r mm')
  then obtain r' where "mission_tool pu pretty i ids now act params pid uid ch mm = Some (r', mm')"
    by (auto simp: handle_mission_call_def)
  with ms_tool show ?case by (blast intro: mm_upd_tool)
qed (auto intro: mm_upd_create mm_upd_update mm_upd_pause mm_upd_resume mm_upd_complete mm_upd_fire
    mm_upd_listen mm_upd_outcome mm_upd_learning mission_thread_ended_upd mm_upd_same
    simp: mission_tick_def fire_on_system_event_def mm_upd_fire_each bootstrap_project_def Let_def
      resume_recoverable_threads_def)

lemma mission_steps_upd: "(mission_step b)\<^sup>*\<^sup>* mm mm' \<Longrightarrow> mm_upd b mm mm'"
  by (induction rule: rtranclp_induct) (auto intro: mission_step_upd mm_upd_trans)

text \<open>The counter of a mission counts all its threads, and no mission has a time to fire at.\<close>

definition missions_inv :: "(mission_id, mission) hmap \<Rightarrow> bool" where
  "missions_inv t \<longleftrightarrow> hm_keyed mi_id t \<and>
     (\<forall>i m. hm_get t i = Some m \<longrightarrow>
        mi_next_fire_at m = None \<and> mi_threads_today m = word_of_nat (length (mi_thread_history m)))"

lemma missions_upd_inv: "(missions_upd b)\<^sup>*\<^sup>* t t' \<Longrightarrow> missions_inv t \<Longrightarrow> missions_inv t'"
proof (induction rule: rtranclp_induct)
  case (step t' t'')
  then have inv: "missions_inv t'" by simp
  from step.hyps(2) show ?case
  proof cases
    case (mu_put m' m)
    then show ?thesis using inv by (auto simp: missions_inv_def mission_evolves_def)
  next
    case (mu_new m)
    then show ?thesis using inv by (auto simp: missions_inv_def fresh_mission_def)
  qed
qed

lemma mission_reach_inv: "mission_reach mm \<Longrightarrow> missions_inv (mm_missions mm)"
proof -
  assume "mission_reach mm"
  then obtain tm where "mm_upd True (new_mission_manager tm) mm"
    by (auto simp: mission_reach_def dest: mission_steps_upd)
  moreover have "missions_inv (mm_missions (new_mission_manager tm))"
    by (simp add: missions_inv_def new_mission_manager_def)
  ultimately show ?thesis unfolding mm_upd_def using missions_upd_inv missions_inv_def by metis
qed

text \<open>With a fixed limit, the threads of a mission stay within it.\<close>

lemma missions_upd_limit:
  assumes "(missions_upd False)\<^sup>*\<^sup>* t t'" "missions_inv t" "hm_get t i = Some m"
    "mi_max_threads_per_day m > 0" "length (mi_thread_history m) < 2 ^ 32"
  shows "\<exists>m'. hm_get t' i = Some m' \<and> mi_max_threads_per_day m' = mi_max_threads_per_day m \<and>
    mi_user_id m' = mi_user_id m \<and>
    length (mi_thread_history m') \<le> max (length (mi_thread_history m)) (unat (mi_max_threads_per_day m))"
  using assms(1)
proof (induction rule: rtranclp_induct)
  case (step t' t'')
  let ?max = "mi_max_threads_per_day m"
  from step.IH obtain m1 where m1: "hm_get t' i = Some m1" "mi_max_threads_per_day m1 = ?max"
    "mi_user_id m1 = mi_user_id m"
    "length (mi_thread_history m1) \<le> max (length (mi_thread_history m)) (unat ?max)" by blast
  have inv: "missions_inv t'" using missions_upd_inv [OF step.hyps(1) assms(2)] .
  have "unat ?max < 2 ^ 32" using unsigned_less [of ?max] by simp
  with m1(4) assms(5) have "length (mi_thread_history m1) < 2 ^ 32" by linarith
  then have len: "unat (word_of_nat (length (mi_thread_history m1)) :: u32) = length (mi_thread_history m1)"
    by (simp add: unat_of_nat take_bit_nat_eq_self)
  have today: "mi_threads_today m1 = word_of_nat (length (mi_thread_history m1))"
    using inv m1(1) by (simp add: missions_inv_def)
  have room: "within_budget m1 \<Longrightarrow> length (mi_thread_history m1) < unat ?max"
    using assms(4) m1(2) today len by (auto simp: within_budget_def word_less_nat_alt)
  from step.hyps(2) show ?case
  proof cases
    case (mu_put m' m0)
    show ?thesis
    proof (cases "mi_id m' = i")
      case True
      with mu_put m1(1) have "mission_evolves False m1 m'" by simp
      with True mu_put(1) m1 room show ?thesis by (auto simp: mission_evolves_def)
    qed (use mu_put m1 in auto)
  next
    case (mu_new m0)
    with m1 show ?thesis by (cases "mi_id m0 = i") auto
  qed
qed (use assms(3) in auto)

section \<open>Properties\<close>

text \<open>
  Missions are private: an operation of a user on a mission of another user, unless the mission is
  shared, is refused and changes nothing, be it an update, a pause, a resumption or firing; an event of
  the engine for a user selects only missions of that user and shared ones.
\<close>

lemma foreign_mission_untouched:
  assumes "load_mission i mm = Some m" "\<not> mission_is_owned_by m uid" "\<not> mission_is_shared m"
  shows "update_mission now i uid u mm = (Inl (mission_denied uid i), mm) \<and>
    pause_mission now i uid mm = (Inl (mission_denied uid i), mm) \<and>
    resume_mission now i uid mm = (Inl (mission_denied uid i), mm) \<and>
    fire_mission pretty ids now i uid payload mm = (Inl (mission_denied uid i), mm) \<and>
    system_event_selects source et uid m = None"
  using assms
  by (simp add: update_mission_def pause_mission_def resume_mission_def mission_foreign_def fire_mission_def
      fire_begin_def system_event_selects_def)

definition sample_missions :: mission_manager where
  "sample_missions = snd (create_mission 7 0 5 ''alice'' ''watch'' ''watch the log'' (Cron ''0 9 * * *'' None) []
     (new_mission_manager (sample_manager [] [])))"

lemma sample_missions_load:
  "load_mission 7 sample_missions =
     Some (new_mission 7 0 5 ''alice'' ''watch'' ''watch the log'' (Cron ''0 9 * * *'' None))"
  by (simp add: sample_missions_def create_mission_def load_mission_def save_mission_def new_mission_def
      new_mission_manager_def)

lemma sample_missions_reach: "mission_reach sample_missions"
proof -
  have "mission_step True (new_mission_manager (sample_manager [] [])) sample_missions"
    unfolding sample_missions_def
    by (rule ms_create) (simp add: load_mission_def new_mission_manager_def)
  then show ?thesis unfolding mission_reach_def by blast
qed

lemma sample_owner:
  "\<not> mission_is_owned_by (new_mission 7 0 5 ''alice'' ''watch'' ''watch the log'' c) ''bob''"
  "\<not> mission_is_shared (new_mission 7 0 5 ''alice'' ''watch'' ''watch the log'' c)"
  by (simp_all add: mission_is_owned_by_def mission_is_shared_def new_mission_def owner_from_user_id_def
      is_shared_owner_def SHARED_OWNER_ID_def LEGACY_SHARED_OWNER_ID_def)

lemma foreign_mission_untouched_witness:
  "pause_mission 3 7 ''bob'' sample_missions = (Inl (mission_denied ''bob'' 7), sample_missions)"
  using foreign_mission_untouched [OF sample_missions_load sample_owner(1) sample_owner(2), of 3] by blast

text \<open>
  The tool \<open>mission_delete\<close> is not private: a user who names a mission of another user by its
  identifier completes it, since \<open>complete_mission\<close> asks for no owner.
\<close>

lemma mission_delete_crosses_tenants:
  assumes "load_mission i mm = Some m" "parse_uuid s = Some i"
  shows "\<exists>mm' m'. handle_mission_call parse_uuid pretty fresh ids now ''mission_delete''
      (JObject [(''id'', JString s)]) pid uid ch mm
    = Some (mission_action_result ''mission_delete'' (Inr (status_json ''deleted'')), mm') \<and>
    load_mission i mm' = Some m' \<and> mi_status m' = MsCompleted"
  using assms
  by (simp add: handle_mission_call_def mission_tool_def on_mission_def resolve_mission_id_def param_or_arg_def
      json_get_def json_as_str_def status_result_def complete_mission_def update_mission_status_def
      load_mission_def Let_def)

lemma mission_delete_crosses_tenants_witness:
  "\<exists>mm' m'. handle_mission_call (\<lambda>s. if s = ''7'' then Some 7 else None) (\<lambda>_. []) 9
       \<lparr>si_thread = 1, si_lease = id, si_event = 2\<rparr> 3 ''mission_delete'' (JObject [(''id'', JString ''7'')]) 5 ''bob'' None
       sample_missions = Some (mission_action_result ''mission_delete'' (Inr (status_json ''deleted'')), mm') \<and>
     load_mission 7 mm' = Some m' \<and> mi_status m' = MsCompleted"
  by (rule mission_delete_crosses_tenants [OF sample_missions_load]) simp

text \<open>
  The clock never fires a mission: no operation sets the time at which a mission is due, so in every
  state that the manager reaches a tick spawns no thread and changes nothing, whatever the missions' cron
  expressions are and however late it is.
\<close>

lemma cron_missions_never_fire:
  assumes "mission_reach mm"
  shows "mission_tick pretty ids now mm = (Inr [], mm)"
proof -
  have none: "tick_selects now m = None" if "load_mission i mm = Some m" for i m
    using mission_reach_inv [OF assms] that
    by (simp add: missions_inv_def load_mission_def tick_selects_def split: mission_cadence.splits)
  have "fire_each pretty ids n now (tick_selects now) None is [] mm = (Inr [], mm)" for n "is"
  proof (induction "is" arbitrary: n)
    case (Cons i "is")
    then show ?case using none by (auto split: option.splits)
  qed simp
  then show ?thesis by (simp add: mission_tick_def)
qed

lemma cron_missions_never_fire_witness:
  "mission_tick (\<lambda>_. []) (\<lambda>n. \<lparr>si_thread = n, si_lease = id, si_event = n\<rparr>) 1000000 sample_missions
     = (Inr [], sample_missions)"
  by (rule cron_missions_never_fire [OF sample_missions_reach])

text \<open>
  The daily limit of a mission is a limit for its lifetime: nothing resets the counter of a day. As
  long as nobody changes the limit, over any further steps of the manager a mission never has more
  threads than the limit allows in one day, or than it already had; one that has used its limit up is
  never fired again.
\<close>

lemma daily_limit_lasts_forever:
  assumes "mission_reach mm" "load_mission i mm = Some m" "mi_max_threads_per_day m > 0"
    "length (mi_thread_history m) < 2 ^ 32" "(mission_step False)\<^sup>*\<^sup>* mm mm'"
  shows "\<exists>m'. load_mission i mm' = Some m' \<and>
    length (mi_thread_history m') \<le> max (length (mi_thread_history m)) (unat (mi_max_threads_per_day m))"
proof -
  have inv: "missions_inv (mm_missions mm)" by (rule mission_reach_inv [OF assms(1)])
  then have "(missions_upd False)\<^sup>*\<^sup>* (mm_missions mm) (mm_missions mm')"
    using mission_steps_upd [OF assms(5)] by (simp add: mm_upd_def missions_inv_def)
  from missions_upd_limit [OF this inv] assms(2,3,4) show ?thesis by (auto simp: load_mission_def)
qed

lemma daily_limit_lasts_forever_witness:
  "\<exists>m'. load_mission 7 (snd (pause_mission 3 7 ''alice'' sample_missions)) = Some m' \<and>
     length (mi_thread_history m') \<le> 10"
proof -
  have "(mission_step False)\<^sup>*\<^sup>* sample_missions (snd (pause_mission 3 7 ''alice'' sample_missions))"
    by (intro r_into_rtranclp ms_pause)
  from daily_limit_lasts_forever [OF sample_missions_reach sample_missions_load _ _ this] show ?thesis
    by (simp add: new_mission_def)
qed

lemma load_after_record:
  "load_mission (mi_id m) (fire_record now i m tid payload mm) =
     Some ((record_thread now tid m)
       \<lparr>mi_threads_today := mi_threads_today m + 1, mi_last_trigger_payload := payload\<rparr>)"
  by (simp add: fire_record_def load_mission_def save_mission_def Let_def record_thread_def)

lemma fire_spawn_running:
  assumes "fire_spawn pretty ids now m uid payload mm = (r, mm')"
  shows "r = Inr (si_thread ids) \<and>
    (\<exists>th. hm_get (mg_running (mm_threads mm')) (si_thread ids)
        = Some \<lparr>rt_mailbox = [], rt_thread = th, rt_finished = None\<rparr> \<and>
      th_id th = si_thread ids \<and> th_user_id th = uid \<and> th_type th = MissionThread \<and>
      th_project_id th = mi_project_id m) \<and>
    (\<forall>j. j \<noteq> si_thread ids \<longrightarrow>
       hm_get (mg_running (mm_threads mm')) j = hm_get (mg_running (mm_threads mm)) j)"
  using assms
  by (auto simp: fire_spawn_def spawn_thread_def spawn_thread_with_history_def grant_plans_total start_thread_def
      new_thread_def Let_def)


definition sample_spawn :: "nat \<Rightarrow> spawn_ids" where
  "sample_spawn n = \<lparr>si_thread = n, si_lease = (\<lambda>k. 100 * n + k), si_event = n\<rparr>"

lemma sample_missions_keyed: "hm_keyed mi_id (mm_missions sample_missions)"
  using mission_reach_inv [OF sample_missions_reach] by (simp add: missions_inv_def)

lemma sample_fireable:
  "mission_is_owned_by (new_mission 7 0 5 ''alice'' ''watch'' ''watch the log'' c) ''alice''"
  "\<not> mission_is_terminal (new_mission 7 0 5 ''alice'' ''watch'' ''watch the log'' c)"
  "within_budget (new_mission 7 0 5 ''alice'' ''watch'' ''watch the log'' c)"
  by (simp_all add: mission_is_owned_by_def mission_is_terminal_def within_budget_def new_mission_def
      owner_from_user_id_def is_shared_owner_def SHARED_OWNER_ID_def LEGACY_SHARED_OWNER_ID_def)


text \<open>
  Overlapping fires lose a thread: when two tasks fire the same mission and both load it before one of
  them stores it, both threads run, but the mission keeps the second only and counts one. In the same way
  a pause between the phases is lost: the stored mission is active again.
\<close>

lemma overlapping_fires_lose_thread:
  assumes "hm_keyed mi_id (mm_missions mm)" "fire_begin i u1 mm = Inr (Some m)" "fire_begin i u2 mm = Inr (Some m)"
    and s1: "fire_spawn pretty ids1 now1 m u1 p1 mm = (Inr t1, mmA)"
    and s2: "fire_spawn pretty ids2 now2 m u2 p2 mmA = (Inr t2, mmB)"
    and ne: "si_thread ids1 \<noteq> si_thread ids2"
  defines "mmD \<equiv> fire_record now2 i m t2 p2 (fire_record now1 i m t1 p1 mmB)"
  shows "t1 \<noteq> t2 \<and> is_running (mm_threads mmD) t1 \<and> is_running (mm_threads mmD) t2 \<and>
    (\<exists>m'. load_mission i mmD = Some m' \<and> mi_thread_history m' = mi_thread_history m @ [t2] \<and>
      mi_threads_today m' = mi_threads_today m + 1) \<and>
    (\<exists>m'. load_mission i (fire_record now1 i m t1 p1 (snd (pause_mission now i u2 mmA))) = Some m' \<and>
      mi_status m' = mi_status m)"
proof -
  have "load_mission i mm = Some m" using fire_begin_Some [OF assms(2)] by blast
  then have i: "mi_id m = i" using hm_keyed_get [OF assms(1)] by (simp add: load_mission_def)
  have t: "mm_threads mmD = mm_threads mmB" by (simp add: mmD_def fire_record_def save_mission_def Let_def)
  note r1 = fire_spawn_running [OF s1] and r2 = fire_spawn_running [OF s2]
  have "is_running (mm_threads mmD) t1" "is_running (mm_threads mmD) t2" "t1 \<noteq> t2"
    using r1 r2 ne by (auto simp: is_running_def t)
  then show ?thesis
    using load_after_record [of m] i by (simp add: mmD_def record_thread_def)
qed

lemma overlapping_fires_lose_thread_witness:
  "\<exists>mm' m'. is_running (mm_threads mm') 1 \<and> is_running (mm_threads mm') 2 \<and>
     load_mission 7 mm' = Some m' \<and> mi_thread_history m' = [2]"
proof -
  let ?m = "new_mission 7 0 5 ''alice'' ''watch'' ''watch the log'' (Cron ''0 9 * * *'' None)"
  have b: "fire_begin 7 ''alice'' sample_missions = Inr (Some ?m)"
    using sample_fireable [of "Cron ''0 9 * * *'' None"]
    by (auto simp: fire_begin_def sample_missions_load within_budget_def not_le)
  obtain r1 mmA where s1: "fire_spawn (\<lambda>_. []) (sample_spawn 1) 3 ?m ''alice'' None sample_missions = (r1, mmA)"
    by fastforce
  obtain r2 mmB where s2: "fire_spawn (\<lambda>_. []) (sample_spawn 2) 4 ?m ''alice'' None mmA = (r2, mmB)" by fastforce
  have r: "r1 = Inr 1" "r2 = Inr 2"
    using fire_spawn_running [OF s1] fire_spawn_running [OF s2] by (simp_all add: sample_spawn_def)
  have ne: "si_thread (sample_spawn 1) \<noteq> si_thread (sample_spawn 2)" by (simp add: sample_spawn_def)
  let ?D = "fire_record 4 7 ?m 2 None (fire_record 3 7 ?m 1 None mmB)"
  have "is_running (mm_threads ?D) 1 \<and> is_running (mm_threads ?D) 2 \<and>
      (\<exists>m'. load_mission 7 ?D = Some m' \<and> mi_thread_history m' = mi_thread_history ?m @ [2])"
    using overlapping_fires_lose_thread [OF sample_missions_keyed b b s1 [unfolded r] s2 [unfolded r] ne] by blast
  moreover have "mi_thread_history ?m = []" by (simp add: new_mission_def)
  ultimately show ?thesis by (metis append_Nil)
qed

end
