(* ===== verification/Agent_Session.thy ===== *)
theory Agent_Session
  imports Undo_Manager Text_Ops
begin

text \<open>
  The sessions of the agent (\<open>src/agent/session.rs\<close>): a session holds threads, a thread holds
  turns with their tool calls, a queue of messages and what it waits for. The messages of a thread are
  built from its turns, and the turns are rebuilt from the messages of a checkpoint.

  A field that the code sets to the current time takes it from an argument \<open>now\<close>; where one
  operation reads the clock several times, the model reads it once.
\<close>

section \<open>Turns\<close>

datatype turn_state_kind = TurnProcessing | TurnCompleted | TurnFailed | TurnInterrupted

record turn_tool_call =
  ttc_name :: string
  ttc_parameters :: json
  ttc_result :: "json option"
  ttc_error :: "string option"

record turn =
  tn_turn_number :: nat
  tn_user_input :: string
  tn_response :: "string option"
  tn_tool_calls :: "turn_tool_call list"
  tn_state :: turn_state_kind
  tn_started_at :: time
  tn_completed_at :: "time option"
  tn_error :: "string option"
  tn_image_content_parts :: "content_part list"

definition new_turn :: "time \<Rightarrow> nat \<Rightarrow> string \<Rightarrow> turn" where
  "new_turn now turn_number user_input =
     \<lparr>tn_turn_number = turn_number, tn_user_input = user_input, tn_response = None, tn_tool_calls = [],
      tn_state = TurnProcessing, tn_started_at = now, tn_completed_at = None, tn_error = None,
      tn_image_content_parts = []\<rparr>"

definition turn_complete :: "time \<Rightarrow> string \<Rightarrow> turn \<Rightarrow> turn" where
  "turn_complete now response t =
     t\<lparr>tn_response := Some response, tn_state := TurnCompleted, tn_completed_at := Some now,
       tn_image_content_parts := []\<rparr>"

definition turn_fail :: "time \<Rightarrow> string \<Rightarrow> turn \<Rightarrow> turn" where
  "turn_fail now err t =
     t\<lparr>tn_error := Some err, tn_state := TurnFailed, tn_completed_at := Some now, tn_image_content_parts := []\<rparr>"

definition turn_interrupt :: "time \<Rightarrow> turn \<Rightarrow> turn" where
  "turn_interrupt now t =
     t\<lparr>tn_state := TurnInterrupted, tn_completed_at := Some now, tn_image_content_parts := []\<rparr>"

definition record_tool_call :: "string \<Rightarrow> json \<Rightarrow> turn \<Rightarrow> turn" where
  "record_tool_call name params t =
     t\<lparr>tn_tool_calls := tn_tool_calls t
         @ [\<lparr>ttc_name = name, ttc_parameters = params, ttc_result = None, ttc_error = None\<rparr>]\<rparr>"

text \<open>\<open>last_mut()\<close> with an update of what it finds.\<close>

definition update_last :: "('a \<Rightarrow> 'a) \<Rightarrow> 'a list \<Rightarrow> 'a list" where
  "update_last f xs = (if xs = [] then [] else butlast xs @ [f (last xs)])"

definition record_tool_result :: "json \<Rightarrow> turn \<Rightarrow> turn" where
  "record_tool_result result t =
     t\<lparr>tn_tool_calls := update_last (\<lambda>c. c\<lparr>ttc_result := Some result\<rparr>) (tn_tool_calls t)\<rparr>"

definition record_tool_error :: "string \<Rightarrow> turn \<Rightarrow> turn" where
  "record_tool_error err t =
     t\<lparr>tn_tool_calls := update_last (\<lambda>c. c\<lparr>ttc_error := Some err\<rparr>) (tn_tool_calls t)\<rparr>"

section \<open>Threads\<close>

datatype chat_state = ChatIdle | ChatProcessing | ChatAwaitingApproval | ChatCompleted | ChatInterrupted

record pending_auth =
  pau_extension_name :: string
  pau_created_at :: time

text \<open>Five minutes, in nanoseconds.\<close>

definition AUTH_MODE_TTL :: time where
  "AUTH_MODE_TTL = 300 * 1000000000"

definition pending_auth_is_expired :: "time \<Rightarrow> pending_auth \<Rightarrow> bool" where
  "pending_auth_is_expired now p \<longleftrightarrow> now - pau_created_at p > AUTH_MODE_TTL"

record pending_approval =
  pap_request_id :: uuid
  pap_tool_name :: string
  pap_parameters :: json
  pap_display_parameters :: json
  pap_description :: string
  pap_tool_call_id :: string
  pap_context_messages :: "chat_message list"
  pap_deferred_tool_calls :: "tool_call list"
  pap_user_timezone :: "string option"
  pap_allow_always :: bool

record chat_thread =
  ct_id :: uuid
  ct_session_id :: uuid
  ct_state :: chat_state
  ct_turns :: "turn list"
  ct_created_at :: time
  ct_updated_at :: time
  ct_metadata :: json
  ct_pending_approval :: "pending_approval option"
  ct_pending_auth :: "pending_auth option"
  ct_pending_messages :: "string list"

definition MAX_PENDING_MESSAGES :: nat where
  "MAX_PENDING_MESSAGES = 10"

text \<open>\<open>Thread::new\<close> with the identifier it draws, and \<open>Thread::with_id\<close>.\<close>

definition chat_thread_with_id :: "time \<Rightarrow> uuid \<Rightarrow> uuid \<Rightarrow> chat_thread" where
  "chat_thread_with_id now tid sid =
     \<lparr>ct_id = tid, ct_session_id = sid, ct_state = ChatIdle, ct_turns = [], ct_created_at = now,
      ct_updated_at = now, ct_metadata = JNull, ct_pending_approval = None, ct_pending_auth = None,
      ct_pending_messages = []\<rparr>"

definition turn_number :: "chat_thread \<Rightarrow> nat" where
  "turn_number th = length (ct_turns th) + 1"

definition last_turn :: "chat_thread \<Rightarrow> turn option" where
  "last_turn th = (if ct_turns th = [] then None else Some (last (ct_turns th)))"

definition queue_message :: "time \<Rightarrow> string \<Rightarrow> chat_thread \<Rightarrow> bool \<times> chat_thread" where
  "queue_message now content th =
     (if length (ct_pending_messages th) \<ge> MAX_PENDING_MESSAGES then (False, th)
      else (True, th\<lparr>ct_pending_messages := ct_pending_messages th @ [content], ct_updated_at := now\<rparr>))"

definition take_pending_message :: "chat_thread \<Rightarrow> string option \<times> chat_thread" where
  "take_pending_message th =
     (case ct_pending_messages th of
        [] \<Rightarrow> (None, th)
      | m # ms \<Rightarrow> (Some m, th\<lparr>ct_pending_messages := ms\<rparr>))"

definition drain_pending_messages :: "time \<Rightarrow> chat_thread \<Rightarrow> string option \<times> chat_thread" where
  "drain_pending_messages now th =
     (if ct_pending_messages th = [] then (None, th)
      else (Some (join_with newline (ct_pending_messages th)),
            th\<lparr>ct_pending_messages := [], ct_updated_at := now\<rparr>))"

definition requeue_drained :: "time \<Rightarrow> string \<Rightarrow> chat_thread \<Rightarrow> chat_thread" where
  "requeue_drained now content th =
     th\<lparr>ct_pending_messages := content # ct_pending_messages th, ct_updated_at := now\<rparr>"

definition start_turn :: "time \<Rightarrow> string \<Rightarrow> chat_thread \<Rightarrow> chat_thread" where
  "start_turn now user_input th =
     th\<lparr>ct_turns := ct_turns th @ [new_turn now (length (ct_turns th)) user_input],
        ct_state := ChatProcessing, ct_updated_at := now\<rparr>"

definition complete_turn :: "time \<Rightarrow> string \<Rightarrow> chat_thread \<Rightarrow> chat_thread" where
  "complete_turn now response th =
     th\<lparr>ct_turns := update_last (turn_complete now response) (ct_turns th),
        ct_state := ChatIdle, ct_updated_at := now\<rparr>"

definition fail_turn :: "time \<Rightarrow> string \<Rightarrow> chat_thread \<Rightarrow> chat_thread" where
  "fail_turn now err th =
     th\<lparr>ct_turns := update_last (turn_fail now err) (ct_turns th), ct_state := ChatIdle, ct_updated_at := now\<rparr>"

definition await_approval :: "time \<Rightarrow> pending_approval \<Rightarrow> chat_thread \<Rightarrow> chat_thread" where
  "await_approval now pending th =
     th\<lparr>ct_state := ChatAwaitingApproval, ct_pending_approval := Some pending, ct_updated_at := now\<rparr>"

definition take_pending_approval :: "chat_thread \<Rightarrow> pending_approval option \<times> chat_thread" where
  "take_pending_approval th = (ct_pending_approval th, th\<lparr>ct_pending_approval := None\<rparr>)"

definition clear_pending_approval :: "time \<Rightarrow> chat_thread \<Rightarrow> chat_thread" where
  "clear_pending_approval now th =
     th\<lparr>ct_pending_approval := None, ct_state := ChatIdle, ct_updated_at := now\<rparr>"

definition enter_auth_mode :: "time \<Rightarrow> string \<Rightarrow> chat_thread \<Rightarrow> chat_thread" where
  "enter_auth_mode now ext th =
     th\<lparr>ct_pending_auth := Some \<lparr>pau_extension_name = ext, pau_created_at = now\<rparr>, ct_updated_at := now\<rparr>"

definition take_pending_auth :: "chat_thread \<Rightarrow> pending_auth option \<times> chat_thread" where
  "take_pending_auth th = (ct_pending_auth th, th\<lparr>ct_pending_auth := None\<rparr>)"

definition thread_interrupt :: "time \<Rightarrow> chat_thread \<Rightarrow> chat_thread" where
  "thread_interrupt now th =
     th\<lparr>ct_turns := update_last (turn_interrupt now) (ct_turns th), ct_pending_messages := [],
        ct_state := ChatInterrupted, ct_updated_at := now\<rparr>"

definition thread_resume :: "time \<Rightarrow> chat_thread \<Rightarrow> chat_thread" where
  "thread_resume now th =
     (if ct_state th = ChatInterrupted then th\<lparr>ct_state := ChatIdle, ct_updated_at := now\<rparr> else th)"

section \<open>The messages of a thread\<close>

text \<open>
  \<open>truncate_preview\<close> (\<open>src/channels/web/util.rs\<close>) cuts at a character boundary and closes a tag
  that it cut off.
\<close>

definition tool_output_open :: string where
  "tool_output_open = ''<tool_output''"

definition tool_output_close :: string where
  "tool_output_close = ''</tool_output>''"

definition truncate_preview :: "string \<Rightarrow> nat \<Rightarrow> string" where
  "truncate_preview s max_bytes =
     (if byte_len s \<le> max_bytes then s
      else let result = take_bytes (floor_char_boundary s max_bytes) s @ ''...''
           in if starts_with s tool_output_open \<and> \<not> ends_with result tool_output_close
              then result @ newline @ tool_output_close else result)"

text \<open>\<open>to_str\<close> is the text of a JSON value that is no string.\<close>

definition tool_call_content :: "(json \<Rightarrow> string) \<Rightarrow> turn_tool_call \<Rightarrow> string" where
  "tool_call_content to_str c =
     (case ttc_error c of
        Some err \<Rightarrow> truncate_preview err 1000
      | None \<Rightarrow>
          (case ttc_result c of
             Some res \<Rightarrow> truncate_preview (case res of JString s \<Rightarrow> s | _ \<Rightarrow> to_str res) 1000
           | None \<Rightarrow> ''OK''))"

definition declared_call :: "nat \<Rightarrow> nat \<Rightarrow> turn_tool_call \<Rightarrow> tool_call" where
  "declared_call turn_idx tc_idx c =
     \<lparr>tcall_id = generate_tool_call_id (of_nat turn_idx) (of_nat tc_idx), tcall_name = ttc_name c,
      tcall_arguments = ttc_parameters c, tcall_reasoning = None\<rparr>"

definition call_result_message :: "(json \<Rightarrow> string) \<Rightarrow> nat \<Rightarrow> nat \<Rightarrow> turn_tool_call \<Rightarrow> chat_message" where
  "call_result_message to_str turn_idx tc_idx c =
     chat_tool_result (generate_tool_call_id (of_nat turn_idx) (of_nat tc_idx)) (ttc_name c)
       (tool_call_content to_str c)"

definition turn_messages :: "(json \<Rightarrow> string) \<Rightarrow> nat \<Rightarrow> turn \<Rightarrow> chat_message list" where
  "turn_messages to_str turn_idx t =
     (let calls = enumerate 0 (tn_tool_calls t)
      in [if tn_image_content_parts t = [] then chat_user (tn_user_input t)
          else chat_user_with_parts (tn_user_input t) (tn_image_content_parts t)]
         @ (if calls = [] then []
            else chat_assistant_with_tool_calls None (map (\<lambda>(i, c). declared_call turn_idx i c) calls)
                 # map (\<lambda>(i, c). call_result_message to_str turn_idx i c) calls)
         @ (case tn_response t of Some r \<Rightarrow> [chat_assistant r] | None \<Rightarrow> []))"

definition thread_messages :: "(json \<Rightarrow> string) \<Rightarrow> chat_thread \<Rightarrow> chat_message list" where
  "thread_messages to_str th = concat (map (\<lambda>(i, t). turn_messages to_str i t) (enumerate 0 (ct_turns th)))"

definition truncate_turns :: "nat \<Rightarrow> chat_thread \<Rightarrow> chat_thread" where
  "truncate_turns keep th =
     (if length (ct_turns th) > keep
      then th\<lparr>ct_turns := map (\<lambda>(i, t). t\<lparr>tn_turn_number := i\<rparr>)
                (enumerate 0 (drop (length (ct_turns th) - keep) (ct_turns th)))\<rparr>
      else th)"

section \<open>Restoring a thread from messages\<close>

text \<open>The results of a round, stored from a base offset; results beyond the calls are dropped.\<close>

fun store_results :: "nat \<Rightarrow> chat_message list \<Rightarrow> turn_tool_call list \<Rightarrow> turn_tool_call list" where
  "store_results idx [] calls = calls"
| "store_results idx (r # rs) calls =
     store_results (Suc idx) rs
       (if idx < length calls then calls[idx := (calls ! idx)\<lparr>ttc_result := Some (JString (cm_content r))\<rparr>]
        else calls)"

definition recorded_call :: "tool_call \<Rightarrow> turn_tool_call" where
  "recorded_call tc =
     \<lparr>ttc_name = tcall_name tc, ttc_parameters = tcall_arguments tc, ttc_result = None, ttc_error = None\<rparr>"

text \<open>The rounds of tool calls at the front of the messages, with the messages that are left.\<close>

function restore_rounds :: "turn_tool_call list \<Rightarrow> chat_message list \<Rightarrow> turn_tool_call list \<times> chat_message list" where
  "restore_rounds calls [] = (calls, [])"
| "restore_rounds calls (m # ms) =
     (case (if cm_role m = ChatAssistant then cm_tool_calls m else None) of
        Some tcs \<Rightarrow>
          restore_rounds
            (store_results (length calls) (takeWhile (\<lambda>r. cm_role r = ChatTool) ms) (calls @ map recorded_call tcs))
            (dropWhile (\<lambda>r. cm_role r = ChatTool) ms)
      | None \<Rightarrow> (calls, m # ms))"
  by pat_completeness auto
termination
  by (relation "measure (\<lambda>(calls, ms). length ms)") (auto simp: less_Suc_eq_le length_dropWhile_le)

lemma restore_rounds_shrinks: "length (snd (restore_rounds calls ms)) \<le> length ms"
proof (induction calls ms rule: restore_rounds.induct)
  case (2 calls m ms)
  then show ?case
    using length_dropWhile_le [of "\<lambda>r. cm_role r = ChatTool" ms] by (force split: option.splits)
qed simp

lemma restore_rounds_rest:
  "restore_rounds calls ms = (calls', rest) \<Longrightarrow> length rest \<le> length ms"
  using restore_rounds_shrinks [of calls ms] by simp

definition is_final_assistant :: "chat_message list \<Rightarrow> bool" where
  "is_final_assistant ms \<longleftrightarrow> (case ms of m # _ \<Rightarrow> cm_role m = ChatAssistant \<and> cm_tool_calls m = None | [] \<Rightarrow> False)"

function restore_turns :: "time \<Rightarrow> nat \<Rightarrow> chat_message list \<Rightarrow> turn list" where
  "restore_turns now n [] = []"
| "restore_turns now n (m # ms) =
     (if cm_role m = ChatUser
      then let (calls, rest) = restore_rounds [] ms;
               t = (new_turn now n (cm_content m))\<lparr>tn_tool_calls := calls\<rparr>
           in if is_final_assistant rest
              then turn_complete now (cm_content (hd rest)) t # restore_turns now (Suc n) (tl rest)
              else t # restore_turns now (Suc n) rest
      else restore_turns now n ms)"
  by pat_completeness auto
termination
  by (relation "measure (\<lambda>(now, n, ms). length ms)")
    (auto dest!: restore_rounds_rest [OF sym] simp: less_Suc_eq_le)

definition restore_from_messages :: "time \<Rightarrow> chat_message list \<Rightarrow> chat_thread \<Rightarrow> chat_thread" where
  "restore_from_messages now messages th =
     th\<lparr>ct_turns := restore_turns now 0 messages, ct_state := ChatIdle, ct_updated_at := now\<rparr>"

section \<open>Sessions\<close>

record session =
  se_id :: uuid
  se_user_id :: string
  se_active_thread :: "uuid option"
  se_threads :: "(uuid, chat_thread) hmap"
  se_created_at :: time
  se_last_active_at :: time
  se_metadata :: json
  se_auto_approved_tools :: "string list"

definition new_session :: "uuid \<Rightarrow> time \<Rightarrow> string \<Rightarrow> session" where
  "new_session sid now user_id =
     \<lparr>se_id = sid, se_user_id = user_id, se_active_thread = None, se_threads = [], se_created_at = now,
      se_last_active_at = now, se_metadata = JNull, se_auto_approved_tools = []\<rparr>"

definition session_tool_auto_approved :: "string \<Rightarrow> session \<Rightarrow> bool" where
  "session_tool_auto_approved tool s \<longleftrightarrow> tool \<in> set (se_auto_approved_tools s)"

definition session_auto_approve_tool :: "string \<Rightarrow> session \<Rightarrow> session" where
  "session_auto_approve_tool tool s = s\<lparr>se_auto_approved_tools := List.insert tool (se_auto_approved_tools s)\<rparr>"

text \<open>\<open>tid\<close> is the identifier that the new thread draws.\<close>

definition create_chat_thread :: "time \<Rightarrow> uuid \<Rightarrow> session \<Rightarrow> session" where
  "create_chat_thread now tid s =
     s\<lparr>se_active_thread := Some tid, se_last_active_at := now,
       se_threads := (case hm_get (se_threads s) tid of
          None \<Rightarrow> hm_insert tid (chat_thread_with_id now tid (se_id s)) (se_threads s)
        | Some _ \<Rightarrow> se_threads s)\<rparr>"

definition active_chat_thread :: "session \<Rightarrow> chat_thread option" where
  "active_chat_thread s = Option.bind (se_active_thread s) (hm_get (se_threads s))"

definition get_or_create_thread :: "time \<Rightarrow> uuid \<Rightarrow> session \<Rightarrow> uuid \<times> session" where
  "get_or_create_thread now tid s =
     (case se_active_thread s of
        None \<Rightarrow> (tid, create_chat_thread now tid s)
      | Some i \<Rightarrow> if hm_get (se_threads s) i \<noteq> None then (i, s) else (tid, create_chat_thread now tid s))"

definition switch_thread :: "time \<Rightarrow> uuid \<Rightarrow> session \<Rightarrow> bool \<times> session" where
  "switch_thread now tid s =
     (if hm_get (se_threads s) tid \<noteq> None
      then (True, s\<lparr>se_active_thread := Some tid, se_last_active_at := now\<rparr>) else (False, s))"

section \<open>Lemmas\<close>

subsection \<open>Restoring what was sent\<close>

definition is_ascii_text :: "string \<Rightarrow> bool" where
  "is_ascii_text s \<longleftrightarrow> list_all (\<lambda>c. (of_char c :: nat) < 128) s"

lemma is_ascii_text_simps [simp]:
  "is_ascii_text []" "is_ascii_text (c # s) \<longleftrightarrow> (of_char c :: nat) < 128 \<and> is_ascii_text s"
  "is_ascii_text (s @ t) \<longleftrightarrow> is_ascii_text s \<and> is_ascii_text t"
  by (simp_all add: is_ascii_text_def)

lemma utf8_len_ascii: "(of_char c :: nat) < 128 \<Longrightarrow> utf8_len c = 1"
  by (simp add: utf8_len_def)

lemma ascii_byte_len: "is_ascii_text s \<Longrightarrow> byte_len s = length s"
  by (induction s) (simp_all add: utf8_len_ascii)

lemma ascii_boundary: "is_ascii_text s \<Longrightarrow> is_char_boundary s n \<longleftrightarrow> n \<le> length s"
proof (induction s arbitrary: n)
  case (Cons c s)
  then show ?case by (cases n) (simp_all add: utf8_len_ascii)
qed simp

lemma ascii_floor: "is_ascii_text s \<Longrightarrow> n \<le> length s \<Longrightarrow> floor_char_boundary s n = n"
  by (cases n) (simp_all add: ascii_boundary)

lemma ascii_take_bytes: "is_ascii_text s \<Longrightarrow> take_bytes n s = take n s"
proof (induction s arbitrary: n)
  case (Cons c s)
  then show ?case by (cases n) (simp_all add: utf8_len_ascii)
qed simp

lemma truncate_preview_ascii:
  assumes "is_ascii_text s" "n < length s"
  shows "truncate_preview s n =
    take n s @ ''...'' @
      (if starts_with s tool_output_open \<and> \<not> ends_with (take n s @ ''...'') tool_output_close
       then newline @ tool_output_close else [])"
  using assms
  by (simp add: truncate_preview_def ascii_byte_len ascii_floor ascii_take_bytes Let_def)

lemma truncate_preview_short [simp]: "byte_len s \<le> n \<Longrightarrow> truncate_preview s n = s"
  by (simp add: truncate_preview_def)

lemma starts_with_take: "length p \<le> n \<Longrightarrow> take n s = take n t \<Longrightarrow> starts_with s p = starts_with t p"
  unfolding starts_with_def by (metis min.absorb1 take_take)

lemma truncate_preview_idem:
  assumes "is_ascii_text s" "length tool_output_open \<le> n"
  shows "truncate_preview (truncate_preview s n) n = truncate_preview s n"
proof (cases "length s \<le> n")
  case True
  then show ?thesis using assms by (simp add: ascii_byte_len)
next
  case False
  then have n: "n < length s" by simp
  define t where "t = truncate_preview s n"
  have t: "t = take n s @ ''...'' @
      (if starts_with s tool_output_open \<and> \<not> ends_with (take n s @ ''...'') tool_output_close
       then newline @ tool_output_close else [])"
    unfolding t_def by (rule truncate_preview_ascii [OF assms(1) n])
  have a: "is_ascii_text t"
    using assms(1) by (auto simp: t newline_def tool_output_close_def is_ascii_text_def list_all_iff dest: in_set_takeD)
  have l: "n < length t" and tk: "take n t = take n s" using n by (auto simp: t)
  have sw: "starts_with t tool_output_open = starts_with s tool_output_open"
    by (rule starts_with_take [OF assms(2) tk])
  show ?thesis
    unfolding t_def [symmetric] using truncate_preview_ascii [OF a l] by (simp only: tk sw t [symmetric])
qed

definition call_text :: "(json \<Rightarrow> string) \<Rightarrow> turn_tool_call \<Rightarrow> string" where
  "call_text to_str c =
     (case ttc_error c of
        Some err \<Rightarrow> err
      | None \<Rightarrow> (case ttc_result c of
                  Some res \<Rightarrow> (case res of JString s \<Rightarrow> s | _ \<Rightarrow> to_str res) | None \<Rightarrow> ''OK''))"

lemma tool_call_content_text: "tool_call_content to_str c = truncate_preview (call_text to_str c) 1000"
  by (simp add: tool_call_content_def call_text_def utf8_len_def split: option.split)

text \<open>What a restored call and a restored turn are.\<close>

definition restored_call :: "(json \<Rightarrow> string) \<Rightarrow> turn_tool_call \<Rightarrow> turn_tool_call" where
  "restored_call to_str c =
     \<lparr>ttc_name = ttc_name c, ttc_parameters = ttc_parameters c,
      ttc_result = Some (JString (tool_call_content to_str c)), ttc_error = None\<rparr>"

definition restored_turn :: "(json \<Rightarrow> string) \<Rightarrow> time \<Rightarrow> nat \<Rightarrow> turn \<Rightarrow> turn" where
  "restored_turn to_str now n t =
     (let r = (new_turn now n (tn_user_input t))\<lparr>tn_tool_calls := map (restored_call to_str) (tn_tool_calls t)\<rparr>
      in case tn_response t of Some x \<Rightarrow> turn_complete now x r | None \<Rightarrow> r)"

lemma store_results_round:
  "store_results (length pre) (map (\<lambda>(i, c). call_result_message to_str k i c) (enumerate j cs))
     (pre @ map (recorded_call \<circ> (\<lambda>(i, c). declared_call k i c)) (enumerate j cs))
   = pre @ map (restored_call to_str) cs"
proof (induction cs arbitrary: pre j)
  case (Cons c cs)
  have "(pre @ recorded_call (declared_call k j c) # xs)[length pre :=
      (recorded_call (declared_call k j c))\<lparr>ttc_result := Some (JString (tool_call_content to_str c))\<rparr>]
     = (pre @ [restored_call to_str c]) @ xs" for xs
    by (simp add: recorded_call_def declared_call_def restored_call_def)
  then show ?case
    using Cons.IH [of "pre @ [restored_call to_str c]" "Suc j"]
    by (simp add: call_result_message_def chat_tool_result_def nth_append)
qed simp

text \<open>What can follow the calls of a turn.\<close>

definition ends_rounds :: "chat_message list \<Rightarrow> bool" where
  "ends_rounds ms \<longleftrightarrow>
     (case ms of [] \<Rightarrow> True | m # _ \<Rightarrow> cm_role m \<noteq> ChatTool \<and> (cm_role m = ChatAssistant \<longrightarrow> cm_tool_calls m = None))"

lemma restore_rounds_none: "ends_rounds ms \<Longrightarrow> restore_rounds calls ms = (calls, ms)"
  by (cases ms) (auto simp: ends_rounds_def)

lemma enumerate_eq_Nil [simp]: "enumerate n xs = [] \<longleftrightarrow> xs = []"
  by (cases xs) simp_all

lemma result_roles:
  "\<forall>r \<in> set (map (\<lambda>(i, c). call_result_message to_str k i c) ics). cm_role r = ChatTool"
  by (auto simp: call_result_message_def chat_tool_result_def)

lemma restore_rounds_turn:
  assumes "ends_rounds rest" "cs \<noteq> []"
  shows "restore_rounds []
      (chat_assistant_with_tool_calls None (map (\<lambda>(i, c). declared_call k i c) (enumerate 0 cs))
        # map (\<lambda>(i, c). call_result_message to_str k i c) (enumerate 0 cs) @ rest)
    = (map (restored_call to_str) cs, rest)"
proof -
  let ?rs = "map (\<lambda>(i, c). call_result_message to_str k i c) (enumerate 0 cs)"
  have "takeWhile (\<lambda>r. cm_role r = ChatTool) rest = []" "dropWhile (\<lambda>r. cm_role r = ChatTool) rest = rest"
    using assms(1) by (cases rest; simp add: ends_rounds_def)+
  then have "takeWhile (\<lambda>r. cm_role r = ChatTool) (?rs @ rest) = ?rs"
    "dropWhile (\<lambda>r. cm_role r = ChatTool) (?rs @ rest) = rest"
    using result_roles by (simp_all only: takeWhile_append2 dropWhile_append2 append_Nil2)
  then show ?thesis
    using assms(2) store_results_round [of "[]" to_str k 0 cs] restore_rounds_none [OF assms(1)]
    by (simp add: chat_assistant_with_tool_calls_def)
qed

lemma ends_rounds_turns: "ends_rounds (concat (map (\<lambda>(i, t). turn_messages to_str i t) (enumerate k ts)))"
  by (cases ts)
    (simp_all add: ends_rounds_def turn_messages_def Let_def chat_user_def chat_user_with_parts_def)

lemma turns_not_final: "\<not> is_final_assistant (concat (map (\<lambda>(i, t). turn_messages to_str i t) (enumerate k ts)))"
  by (cases ts)
    (simp_all add: is_final_assistant_def turn_messages_def Let_def chat_user_def chat_user_with_parts_def)

lemma restore_turns_messages:
  "restore_turns now n (concat (map (\<lambda>(i, t). turn_messages to_str i t) (enumerate k ts)))
     = map (\<lambda>(i, t). restored_turn to_str now i t) (enumerate n ts)"
proof (induction ts arbitrary: n k)
  case (Cons t ts)
  let ?later = "concat (map (\<lambda>(i, t). turn_messages to_str i t) (enumerate (Suc k) ts))"
  let ?answer = "case tn_response t of Some r \<Rightarrow> [chat_assistant r] | None \<Rightarrow> []"
  let ?cs = "tn_tool_calls t"
  have er: "ends_rounds (?answer @ ?later)"
    using ends_rounds_turns by (auto simp: ends_rounds_def chat_assistant_def split: option.splits)
  define u where "u = (if tn_image_content_parts t = [] then chat_user (tn_user_input t)
    else chat_user_with_parts (tn_user_input t) (tn_image_content_parts t))"
  have u: "cm_role u = ChatUser" "cm_content u = tn_user_input t"
    by (simp_all add: u_def chat_user_def chat_user_with_parts_def)
  have m: "turn_messages to_str k t @ ?later = u #
      (if ?cs = [] then [] else chat_assistant_with_tool_calls None (map (\<lambda>(i, c). declared_call k i c) (enumerate 0 ?cs))
         # map (\<lambda>(i, c). call_result_message to_str k i c) (enumerate 0 ?cs)) @ ?answer @ ?later"
    by (simp add: turn_messages_def Let_def u_def)
  have r: "restore_rounds []
      ((if ?cs = [] then [] else chat_assistant_with_tool_calls None (map (\<lambda>(i, c). declared_call k i c) (enumerate 0 ?cs))
         # map (\<lambda>(i, c). call_result_message to_str k i c) (enumerate 0 ?cs)) @ ?answer @ ?later)
    = (map (restored_call to_str) ?cs, ?answer @ ?later)"
    using restore_rounds_turn [OF er, of ?cs k to_str] restore_rounds_none [OF er] by simp
  have "restore_turns now n (turn_messages to_str k t @ ?later)
      = restored_turn to_str now n t # restore_turns now (Suc n) ?later"
    unfolding m restore_turns.simps
    using u r turns_not_final
    by (cases "tn_response t") (simp_all add: restored_turn_def Let_def is_final_assistant_def chat_assistant_def)
  then show ?case using Cons.IH by simp
qed simp

lemma restored_content:
  "is_ascii_text (call_text to_str c) \<Longrightarrow>
     tool_call_content to_str (restored_call to_str c) = tool_call_content to_str c"
  by (simp add: restored_call_def tool_call_content_text call_text_def [of to_str "\<lparr>ttc_name = _, ttc_parameters = _, ttc_result = _, ttc_error = _\<rparr>"]
      truncate_preview_idem tool_output_open_def)

definition plain_turn :: "(json \<Rightarrow> string) \<Rightarrow> turn \<Rightarrow> bool" where
  "plain_turn to_str t \<longleftrightarrow>
     tn_image_content_parts t = [] \<and> list_all (\<lambda>c. is_ascii_text (call_text to_str c)) (tn_tool_calls t)"

lemma restored_turn_simps [simp]:
  "tn_tool_calls (restored_turn to_str now n t) = map (restored_call to_str) (tn_tool_calls t)"
  "tn_response (restored_turn to_str now n t) = tn_response t"
  "tn_user_input (restored_turn to_str now n t) = tn_user_input t"
  "tn_image_content_parts (restored_turn to_str now n t) = []"
  "tn_turn_number (restored_turn to_str now n t) = n"
  by (simp_all add: restored_turn_def Let_def new_turn_def turn_complete_def split: option.split)

lemma restored_turn_messages:
  assumes "plain_turn to_str t"
  shows "turn_messages to_str k (restored_turn to_str now n t) = turn_messages to_str k t"
proof -
  have "map (\<lambda>(i, c). call_result_message to_str k i c) (enumerate j (map (restored_call to_str) cs))
      = map (\<lambda>(i, c). call_result_message to_str k i c) (enumerate j cs)"
    if "list_all (\<lambda>c. is_ascii_text (call_text to_str c)) cs" for j cs
    using that
    by (induction cs arbitrary: j) (simp_all add: call_result_message_def restored_content, simp add: restored_call_def)
  moreover have "map (\<lambda>(i, c). declared_call k i c) (enumerate j (map (restored_call to_str) cs))
      = map (\<lambda>(i, c). declared_call k i c) (enumerate j cs)" for j cs
    by (induction cs arbitrary: j) (simp_all add: declared_call_def restored_call_def)
  ultimately show ?thesis
    using assms by (simp add: turn_messages_def plain_turn_def Let_def)
qed

lemma restore_messages_same:
  assumes "list_all (plain_turn to_str) (ct_turns th)"
  shows "thread_messages to_str (restore_from_messages now (thread_messages to_str th) th') = thread_messages to_str th"
proof -
  have "concat (map (\<lambda>(i, t). turn_messages to_str i t)
        (enumerate k (map (\<lambda>(i, t). restored_turn to_str now i t) (enumerate n ts))))
      = concat (map (\<lambda>(i, t). turn_messages to_str i t) (enumerate k ts))"
    if "list_all (plain_turn to_str) ts" for ts k n
    using that by (induction ts arbitrary: k n) (simp_all add: restored_turn_messages)
  then show ?thesis
    using assms by (simp add: thread_messages_def restore_from_messages_def restore_turns_messages)
qed

lemma restored_turns_keep:
  assumes "\<And>i t. f (restored_turn to_str now i t) = g t"
  shows "map f (map (\<lambda>(i, t). restored_turn to_str now i t) (enumerate n ts)) = map g ts"
  by (induction ts arbitrary: n) (simp_all add: assms)

section \<open>Properties\<close>

text \<open>
  C19. A thread survives being kept as messages: when the history of a thread without images and with tool
  results in ASCII is turned into messages and another thread is restored from them, the turns are
  numbered from zero and have the inputs, the responses and the calls with their parameters of the
  old ones, and the messages of the restored thread are the same again, so a second round changes
  nothing.
\<close>

theorem checkpoint_roundtrip:
  assumes "list_all (plain_turn to_str) (ct_turns th)"
    and "th2 = restore_from_messages now (thread_messages to_str th) th1"
  shows "map tn_user_input (ct_turns th2) = map tn_user_input (ct_turns th) \<and>
    map tn_response (ct_turns th2) = map tn_response (ct_turns th) \<and>
    map (map (\<lambda>c. (ttc_name c, ttc_parameters c)) \<circ> tn_tool_calls) (ct_turns th2)
      = map (map (\<lambda>c. (ttc_name c, ttc_parameters c)) \<circ> tn_tool_calls) (ct_turns th) \<and>
    map tn_turn_number (ct_turns th2) = [0..<length (ct_turns th)] \<and>
    thread_messages to_str th2 = thread_messages to_str th \<and> ct_state th2 = ChatIdle"
proof -
  have t: "ct_turns th2 = map (\<lambda>(i, t). restored_turn to_str now i t) (enumerate 0 (ct_turns th))"
    by (simp add: assms(2) restore_from_messages_def thread_messages_def restore_turns_messages)
  have num: "map tn_turn_number (ct_turns th2) = [0..<length (ct_turns th)]"
    using map_fst_enumerate [of 0 "ct_turns th"] by (simp add: t o_def case_prod_beta)
  have ui: "map tn_user_input (ct_turns th2) = map tn_user_input (ct_turns th)"
    and re: "map tn_response (ct_turns th2) = map tn_response (ct_turns th)"
    and ca: "map (map call_of \<circ> tn_tool_calls) (ct_turns th2) = map (map call_of \<circ> tn_tool_calls) (ct_turns th)"
    if "call_of = (\<lambda>c. (ttc_name c, ttc_parameters c))" for call_of :: "turn_tool_call \<Rightarrow> string \<times> json"
    unfolding t by (rule restored_turns_keep; simp add: that restored_call_def o_def)+
  show ?thesis
    using num ui re ca restore_messages_same [OF assms(1)] by (simp add: assms(2) restore_from_messages_def)
qed

theorem checkpoint_roundtrip_witness:
  "let th = (chat_thread_with_id 0 12 11)\<lparr>ct_turns := [turn_complete 6 ''done'' (record_tool_result (JString ''ok'')
        (record_tool_call ''run'' JNull (new_turn 5 0 ''go'')))]\<rparr>
    in map tn_response (ct_turns (restore_from_messages 9 (thread_messages (\<lambda>_. []) th) (chat_thread_with_id 8 12 11)))
         = [Some ''done'']"
proof -
  let ?t = "turn_complete 6 ''done'' (record_tool_result (JString ''ok'') (record_tool_call ''run'' JNull (new_turn 5 0 ''go'')))"
  let ?th = "(chat_thread_with_id 0 12 11)\<lparr>ct_turns := [?t]\<rparr>"
  have "list_all (plain_turn (\<lambda>_. [])) (ct_turns ?th)"
    by (simp add: plain_turn_def turn_complete_def record_tool_result_def record_tool_call_def new_turn_def
        update_last_def call_text_def)
  from checkpoint_roundtrip [OF this refl, of 9 "chat_thread_with_id 8 12 11"] show ?thesis
    by (simp add: Let_def turn_complete_def)
qed

end
