(* ===== verification/Session_Manager.thy ===== *)
theory Session_Manager
  imports Agent_Session
begin

text \<open>
  The sessions of all users (\<open>src/agent/session_manager.rs\<close>). A session is shared by every task that
  works on it and may be dropped from the table of users while a task still holds it, so the sessions
  live in a store of their own and the tables refer to them. The hooks that are told of the start and
  the end of a session are not modelled.
\<close>

section \<open>State\<close>

text \<open>User, channel and the channel's own identifier of the conversation.\<close>

type_synonym thread_key = "string \<times> string \<times> string option"

record session_manager =
  sm_store :: "(uuid, session) hmap"
  sm_sessions :: "(string, uuid) hmap"
  sm_thread_map :: "(thread_key, uuid) hmap"
  sm_undo_managers :: "(uuid, undo_manager) hmap"

definition new_session_manager :: session_manager where
  "new_session_manager = \<lparr>sm_store = [], sm_sessions = [], sm_thread_map = [], sm_undo_managers = []\<rparr>"

text \<open>Locking a session and changing it.\<close>

definition modify_session :: "uuid \<Rightarrow> (session \<Rightarrow> session) \<Rightarrow> session_manager \<Rightarrow> session_manager" where
  "modify_session sid f sm = sm\<lparr>sm_store := hm_modify sid f (sm_store sm)\<rparr>"

definition session_has_thread :: "uuid \<Rightarrow> uuid \<Rightarrow> session_manager \<Rightarrow> bool" where
  "session_has_thread sid tid sm \<longleftrightarrow>
     (case hm_get (sm_store sm) sid of None \<Rightarrow> False | Some s \<Rightarrow> hm_get (se_threads s) tid \<noteq> None)"

section \<open>Operations\<close>

text \<open>\<open>sid\<close> is the identifier that a new session draws.\<close>

definition get_or_create_session ::
    "uuid \<Rightarrow> time \<Rightarrow> string \<Rightarrow> session_manager \<Rightarrow> uuid \<times> session_manager" where
  "get_or_create_session sid now uid sm =
     (case hm_get (sm_sessions sm) uid of
        Some s \<Rightarrow> (s, sm)
      | None \<Rightarrow> (sid, sm\<lparr>sm_store := hm_insert sid (new_session sid now uid) (sm_store sm),
                       sm_sessions := hm_insert uid sid (sm_sessions sm)\<rparr>))"

definition ensure_undo_manager :: "uuid \<Rightarrow> session_manager \<Rightarrow> session_manager" where
  "ensure_undo_manager tid sm =
     (case hm_get (sm_undo_managers sm) tid of
        Some _ \<Rightarrow> sm
      | None \<Rightarrow> sm\<lparr>sm_undo_managers := hm_insert tid new_undo_manager (sm_undo_managers sm)\<rparr>)"

text \<open>
  The three phases of a resolution: the lookup under the read lock, with the thread that is known
  or else the identifier that may be adopted; the adoption under the write lock, which tests again;
  and the creation of a thread.
\<close>

definition resolve_lookup ::
    "thread_key \<Rightarrow> uuid option \<Rightarrow> uuid \<Rightarrow> session_manager \<Rightarrow> uuid option \<times> uuid option" where
  "resolve_lookup key ext_uuid sid sm =
     (let adoptable = (if snd (snd key) \<noteq> None
            then (case ext_uuid of
                    Some u \<Rightarrow> if u \<in> set (hm_values (sm_thread_map sm)) then None else Some u
                  | None \<Rightarrow> None)
            else None)
      in case hm_get (sm_thread_map sm) key of
           Some tid \<Rightarrow> if session_has_thread sid tid sm then (Some tid, None) else (None, adoptable)
         | None \<Rightarrow> (None, adoptable))"

definition resolve_adopt :: "thread_key \<Rightarrow> uuid \<Rightarrow> uuid \<Rightarrow> session_manager \<Rightarrow> session_manager option" where
  "resolve_adopt key u sid sm =
     (if session_has_thread sid u sm \<and> u \<notin> set (hm_values (sm_thread_map sm))
      then Some (ensure_undo_manager u (sm\<lparr>sm_thread_map := hm_insert key u (sm_thread_map sm)\<rparr>))
      else None)"

definition resolve_create :: "time \<Rightarrow> uuid \<Rightarrow> thread_key \<Rightarrow> uuid \<Rightarrow> session_manager \<Rightarrow> session_manager" where
  "resolve_create now tid key sid sm =
     (let sm1 = modify_session sid (create_chat_thread now tid) sm
      in sm1\<lparr>sm_thread_map := hm_insert key tid (sm_thread_map sm1),
             sm_undo_managers := hm_insert tid new_undo_manager (sm_undo_managers sm1)\<rparr>)"

definition resolve_thread_with_parsed_uuid ::
    "(string \<Rightarrow> uuid option) \<Rightarrow> uuid \<Rightarrow> uuid \<Rightarrow> time \<Rightarrow> string \<Rightarrow> string \<Rightarrow> string option \<Rightarrow> uuid option \<Rightarrow>
     session_manager \<Rightarrow> (uuid \<times> uuid) \<times> session_manager" where
  "resolve_thread_with_parsed_uuid parse_uuid new_sid new_tid now uid channel ext parsed sm =
     (let (sid, sm1) = get_or_create_session new_sid now uid sm;
          key = (uid, channel, ext);
          ext_uuid = (case parsed of Some u \<Rightarrow> Some u | None \<Rightarrow> Option.bind ext parse_uuid);
          create = ((sid, new_tid), resolve_create now new_tid key sid sm1)
      in case resolve_lookup key ext_uuid sid sm1 of
           (Some tid, _) \<Rightarrow> ((sid, tid), sm1)
         | (None, Some u) \<Rightarrow>
             (case resolve_adopt key u sid sm1 of Some sm2 \<Rightarrow> ((sid, u), sm2) | None \<Rightarrow> create)
         | (None, None) \<Rightarrow> create)"

definition resolve_thread ::
    "(string \<Rightarrow> uuid option) \<Rightarrow> uuid \<Rightarrow> uuid \<Rightarrow> time \<Rightarrow> string \<Rightarrow> string \<Rightarrow> string option \<Rightarrow>
     session_manager \<Rightarrow> (uuid \<times> uuid) \<times> session_manager" where
  "resolve_thread parse_uuid new_sid new_tid now uid channel ext sm =
     resolve_thread_with_parsed_uuid parse_uuid new_sid new_tid now uid channel ext None sm"

definition register_thread :: "string \<Rightarrow> string \<Rightarrow> uuid \<Rightarrow> uuid \<Rightarrow> session_manager \<Rightarrow> session_manager" where
  "register_thread uid channel tid sid sm =
     (let sm1 = ensure_undo_manager tid
            (sm\<lparr>sm_thread_map := hm_insert (uid, channel, Some (show_nat tid)) tid (sm_thread_map sm)\<rparr>)
      in case hm_get (sm_sessions sm1) uid of
           Some _ \<Rightarrow> sm1
         | None \<Rightarrow> sm1\<lparr>sm_sessions := hm_insert uid sid (sm_sessions sm1)\<rparr>)"

definition get_undo_manager :: "uuid \<Rightarrow> session_manager \<Rightarrow> undo_manager \<times> session_manager" where
  "get_undo_manager tid sm =
     (let sm1 = ensure_undo_manager tid sm
      in (case hm_get (sm_undo_managers sm1) tid of Some um \<Rightarrow> um | None \<Rightarrow> new_undo_manager, sm1))"

text \<open>
  Pruning. A session that another task has locked is skipped: \<open>busy\<close> tells for which sessions the
  first \<open>try_lock\<close> fails, \<open>busy2\<close> the second. Times are in nanoseconds, \<open>max_idle\<close> is in seconds.
\<close>

definition stale_users :: "(uuid \<Rightarrow> bool) \<Rightarrow> time \<Rightarrow> session_manager \<Rightarrow> string list" where
  "stale_users busy cutoff sm =
     map fst (filter (\<lambda>(uid, sid). \<not> busy sid \<and>
        (case hm_get (sm_store sm) sid of Some s \<Rightarrow> se_last_active_at s < cutoff | None \<Rightarrow> False)) (sm_sessions sm))"

definition stale_threads :: "(uuid \<Rightarrow> bool) \<Rightarrow> string list \<Rightarrow> session_manager \<Rightarrow> uuid list" where
  "stale_threads busy users sm =
     concat (map (\<lambda>uid. case hm_get (sm_sessions sm) uid of
         None \<Rightarrow> []
       | Some sid \<Rightarrow> if busy sid then []
           else (case hm_get (sm_store sm) sid of Some s \<Rightarrow> map fst (se_threads s) | None \<Rightarrow> [])) users)"

definition prune_stale_sessions ::
    "(uuid \<Rightarrow> bool) \<Rightarrow> (uuid \<Rightarrow> bool) \<Rightarrow> time \<Rightarrow> nat \<Rightarrow> session_manager \<Rightarrow> nat \<times> session_manager" where
  "prune_stale_sessions busy busy2 now max_idle sm =
     (let users = stale_users busy (now - int max_idle * 1000000000) sm
      in if users = [] then (0, sm)
         else
           let tids = stale_threads busy2 users sm;
               left_sessions = filter (\<lambda>p. fst p \<notin> set users) (sm_sessions sm)
           in (length (sm_sessions sm) - length left_sessions,
               sm\<lparr>sm_sessions := left_sessions,
                  sm_thread_map := filter (\<lambda>p. fst (fst p) \<notin> set users) (sm_thread_map sm),
                  sm_undo_managers := filter (\<lambda>p. fst p \<notin> set tids) (sm_undo_managers sm)\<rparr>))"

section \<open>Invariant\<close>

text \<open>
  Every user's session is in the store under its identifier and is the user's own, and a mapped
  conversation leads to a thread of the session of its user.
\<close>

definition user_session :: "session_manager \<Rightarrow> string \<Rightarrow> uuid \<Rightarrow> session \<Rightarrow> bool" where
  "user_session sm uid sid s \<longleftrightarrow>
     hm_get (sm_sessions sm) uid = Some sid \<and> hm_get (sm_store sm) sid = Some s \<and> se_user_id s = uid \<and> se_id s = sid"

definition sessions_ok :: "session_manager \<Rightarrow> bool" where
  "sessions_ok sm \<longleftrightarrow> hm_wf (sm_sessions sm) \<and> hm_wf (sm_thread_map sm) \<and>
     (\<forall>uid sid. hm_get (sm_sessions sm) uid = Some sid \<longrightarrow> (\<exists>s. user_session sm uid sid s)) \<and>
     (\<forall>uid ch ext tid. hm_get (sm_thread_map sm) (uid, ch, ext) = Some tid \<longrightarrow>
        (\<exists>sid s. user_session sm uid sid s \<and> hm_get (se_threads s) tid \<noteq> None))"

text \<open>What a task may do to a session that it has locked: its identity stays and no thread is lost.\<close>

definition session_keeps :: "(session \<Rightarrow> session) \<Rightarrow> bool" where
  "session_keeps f \<longleftrightarrow> (\<forall>s. se_id (f s) = se_id s \<and> se_user_id (f s) = se_user_id s \<and>
     (\<forall>tid. hm_get (se_threads s) tid \<noteq> None \<longrightarrow> hm_get (se_threads (f s)) tid \<noteq> None))"

inductive sm_step :: "session_manager \<Rightarrow> session_manager \<Rightarrow> bool" where
  sm_resolve: "hm_get (sm_store sm) nsid = None \<Longrightarrow>
     sm_step sm (snd (resolve_thread_with_parsed_uuid parse nsid ntid now uid ch ext parsed sm))"
| sm_session: "hm_get (sm_store sm) nsid = None \<Longrightarrow> sm_step sm (snd (get_or_create_session nsid now uid sm))"
| sm_register: "user_session sm uid sid s \<Longrightarrow> hm_get (se_threads s) tid \<noteq> None \<Longrightarrow>
     sm_step sm (register_thread uid ch tid sid sm)"
| sm_locked: "session_keeps f \<Longrightarrow> sm_step sm (modify_session sid f sm)"
| sm_undo: "sm_step sm (snd (get_undo_manager tid sm))"
| sm_undo_put: "sm_step sm (sm\<lparr>sm_undo_managers := ums\<rparr>)"
| sm_prune: "sm_step sm (snd (prune_stale_sessions busy busy2 now idle sm))"

definition sm_reach :: "session_manager \<Rightarrow> bool" where
  "sm_reach sm \<longleftrightarrow> sm_step\<^sup>*\<^sup>* new_session_manager sm"

lemma user_session_frame [simp]:
  "user_session (sm\<lparr>sm_thread_map := tm\<rparr>) uid sid s = user_session sm uid sid s"
  "user_session (sm\<lparr>sm_undo_managers := ums\<rparr>) uid sid s = user_session sm uid sid s"
  by (simp_all add: user_session_def)

lemma user_session_unique: "user_session sm uid sid s \<Longrightarrow> user_session sm uid sid' s' \<Longrightarrow> sid' = sid \<and> s' = s"
  by (auto simp: user_session_def)

lemma user_session_one_user: "user_session sm uid sid s \<Longrightarrow> user_session sm uid' sid s' \<Longrightarrow> uid' = uid"
  by (auto simp: user_session_def)

lemma sessions_okD:
  assumes "sessions_ok sm"
  shows "hm_wf (sm_sessions sm)" "hm_wf (sm_thread_map sm)"
    "hm_get (sm_sessions sm) uid = Some sid \<Longrightarrow> \<exists>s. user_session sm uid sid s"
    "hm_get (sm_thread_map sm) (uid, ch, ext) = Some tid \<Longrightarrow>
       \<exists>sid s. user_session sm uid sid s \<and> hm_get (se_threads s) tid \<noteq> None"
  using assms by (auto simp: sessions_ok_def)

lemma sessions_ok_new: "sessions_ok new_session_manager"
  by (simp add: sessions_ok_def new_session_manager_def)

lemma ensure_undo_frame [simp]:
  "sm_store (ensure_undo_manager tid sm) = sm_store sm"
  "sm_sessions (ensure_undo_manager tid sm) = sm_sessions sm"
  "sm_thread_map (ensure_undo_manager tid sm) = sm_thread_map sm"
  by (simp_all add: ensure_undo_manager_def split: option.split)

lemma sessions_ok_undo:
  "sm_store sm' = sm_store sm \<Longrightarrow> sm_sessions sm' = sm_sessions sm \<Longrightarrow> sm_thread_map sm' = sm_thread_map sm \<Longrightarrow>
     sessions_ok sm \<Longrightarrow> sessions_ok sm'"
  by (simp add: sessions_ok_def user_session_def)

lemma user_session_locked:
  "session_keeps f \<Longrightarrow> user_session sm uid sid s \<Longrightarrow>
     user_session (modify_session sid' f sm) uid sid (if sid = sid' then f s else s)"
  by (auto simp: user_session_def modify_session_def session_keeps_def)

lemma sessions_ok_locked:
  assumes "sessions_ok sm" "session_keeps f"
  shows "sessions_ok (modify_session sid f sm)"
proof -
  have 1: "\<exists>s'. user_session (modify_session sid f sm) uid i s' \<and>
      (\<forall>tid. hm_get (se_threads s) tid \<noteq> None \<longrightarrow> hm_get (se_threads s') tid \<noteq> None)"
    if "user_session sm uid i s" for uid i s
    using user_session_locked [OF assms(2) that, of sid] assms(2) by (auto simp: session_keeps_def)
  show ?thesis
    using assms(1) 1 unfolding sessions_ok_def by (simp add: modify_session_def) (metis (no_types, lifting))
qed

lemma session_keeps_create: "session_keeps (create_chat_thread now tid)"
  by (auto simp: session_keeps_def create_chat_thread_def split: option.splits)

lemma get_or_create_session_ok:
  assumes "sessions_ok sm" "hm_get (sm_store sm) nsid = None"
    "get_or_create_session nsid now uid sm = (sid, sm')"
  shows "sessions_ok sm' \<and> (\<exists>s. user_session sm' uid sid s) \<and> sm_thread_map sm' = sm_thread_map sm"
proof (cases "hm_get (sm_sessions sm) uid")
  case (Some i)
  then show ?thesis
    using assms sessions_okD(3) [OF assms(1), of uid i] by (auto simp: get_or_create_session_def)
next
  case None
  have sm': "sm' = sm\<lparr>sm_store := hm_insert nsid (new_session nsid now uid) (sm_store sm),
      sm_sessions := hm_insert uid nsid (sm_sessions sm)\<rparr>" "sid = nsid"
    using assms(3) None by (auto simp: get_or_create_session_def)
  have old: "user_session sm' u i s" if "user_session sm u i s" for u i s
    using that assms(2) None by (auto simp: user_session_def sm'(1))
  have new: "user_session sm' uid nsid (new_session nsid now uid)"
    by (simp add: user_session_def sm'(1) new_session_def)
  have "sessions_ok sm'"
    unfolding sessions_ok_def
  proof (intro conjI allI impI)
    show "hm_wf (sm_sessions sm')" "hm_wf (sm_thread_map sm')"
      using sessions_okD(1,2) [OF assms(1)] by (simp_all add: sm'(1) hm_wf_insert)
    show "\<exists>s. user_session sm' u i s" if "hm_get (sm_sessions sm') u = Some i" for u i
      using that new old sessions_okD(3) [OF assms(1), of u i] by (cases "u = uid") (auto simp: sm'(1))
    show "\<exists>i s. user_session sm' u i s \<and> hm_get (se_threads s) tid \<noteq> None"
      if "hm_get (sm_thread_map sm') (u, ch, ext) = Some tid" for u ch ext tid
    proof -
      have "hm_get (sm_thread_map sm) (u, ch, ext) = Some tid" using that by (simp add: sm'(1))
      from sessions_okD(4) [OF assms(1) this] old show ?thesis by blast
    qed
  qed
  with new sm' show ?thesis by auto
qed

lemma sessions_ok_map:
  assumes ok: "sessions_ok sm" and s: "user_session sm uid sid s" "hm_get (se_threads s) tid \<noteq> None"
  shows "sessions_ok (sm\<lparr>sm_thread_map := hm_insert (uid, ch, ext) tid (sm_thread_map sm)\<rparr>)" (is "sessions_ok ?sm")
  unfolding sessions_ok_def user_session_frame
proof (intro conjI allI impI)
  show "hm_wf (sm_sessions ?sm)" "hm_wf (sm_thread_map ?sm)"
    using sessions_okD(1,2) [OF ok] by (simp_all add: hm_wf_insert)
  show "\<exists>s. user_session sm u i s" if "hm_get (sm_sessions ?sm) u = Some i" for u i
    using that sessions_okD(3) [OF ok, of u i] by simp
  show "\<exists>i s. user_session sm u i s \<and> hm_get (se_threads s) tid' \<noteq> None"
    if "hm_get (sm_thread_map ?sm) (u, c, e) = Some tid'" for u c e tid'
  proof (cases "(u, c, e) = (uid, ch, ext)")
    case True
    with that s show ?thesis by auto
  next
    case False
    with that have "hm_get (sm_thread_map sm) (u, c, e) = Some tid'" by (auto split: if_splits)
    from sessions_okD(4) [OF ok this] show ?thesis .
  qed
qed

text \<open>The outcome of a resolution: the thread is in the user's session and the conversation leads to it.\<close>

definition leads_to :: "session_manager \<Rightarrow> string \<Rightarrow> string \<Rightarrow> string option \<Rightarrow> uuid \<Rightarrow> uuid \<Rightarrow> bool" where
  "leads_to sm uid ch ext sid tid \<longleftrightarrow>
     hm_get (sm_thread_map sm) (uid, ch, ext) = Some tid \<and>
     (\<exists>s. user_session sm uid sid s \<and> hm_get (se_threads s) tid \<noteq> None)"

lemma leads_to_fast:
  assumes "leads_to sm uid ch ext sid tid"
  shows "resolve_thread_with_parsed_uuid parse nsid ntid now uid ch ext parsed sm = ((sid, tid), sm)"
  using assms
  by (auto simp: leads_to_def user_session_def resolve_thread_with_parsed_uuid_def get_or_create_session_def
      resolve_lookup_def session_has_thread_def Let_def)

lemma leads_to_insert:
  assumes "user_session sm uid sid s" "hm_get (se_threads s) tid \<noteq> None"
  shows "leads_to (sm\<lparr>sm_thread_map := hm_insert (uid, ch, ext) tid (sm_thread_map sm)\<rparr>) uid ch ext sid tid"
  using assms by (auto simp: leads_to_def)

lemma leads_to_undo:
  "sm_store sm' = sm_store sm \<Longrightarrow> sm_sessions sm' = sm_sessions sm \<Longrightarrow> sm_thread_map sm' = sm_thread_map sm \<Longrightarrow>
     leads_to sm' uid ch ext sid tid = leads_to sm uid ch ext sid tid"
  by (simp add: leads_to_def user_session_def)

lemma resolve_create_ok:
  assumes "sessions_ok sm" "user_session sm uid sid s"
  shows "sessions_ok (resolve_create now tid (uid, ch, ext) sid sm) \<and>
    leads_to (resolve_create now tid (uid, ch, ext) sid sm) uid ch ext sid tid"
proof -
  let ?sm1 = "modify_session sid (create_chat_thread now tid) sm"
  let ?sm2 = "?sm1\<lparr>sm_thread_map := hm_insert (uid, ch, ext) tid (sm_thread_map ?sm1)\<rparr>"
  have ok: "sessions_ok ?sm1" by (rule sessions_ok_locked [OF assms(1) session_keeps_create])
  have us: "user_session ?sm1 uid sid (create_chat_thread now tid s)"
    using user_session_locked [OF session_keeps_create assms(2), of sid] by simp
  have has: "hm_get (se_threads (create_chat_thread now tid s)) tid \<noteq> None"
    by (auto simp: create_chat_thread_def split: option.split)
  have eq: "sm_store (resolve_create now tid (uid, ch, ext) sid sm) = sm_store ?sm2"
    "sm_sessions (resolve_create now tid (uid, ch, ext) sid sm) = sm_sessions ?sm2"
    "sm_thread_map (resolve_create now tid (uid, ch, ext) sid sm) = sm_thread_map ?sm2"
    by (simp_all add: resolve_create_def Let_def)
  show ?thesis
    using sessions_ok_undo [OF eq sessions_ok_map [OF ok us has]] leads_to_undo [OF eq]
      leads_to_insert [OF us has] by blast
qed

lemma resolve_adopt_ok:
  assumes "sessions_ok sm" "user_session sm uid sid s" "resolve_adopt (uid, ch, ext) u sid sm = Some sm'"
  shows "sessions_ok sm' \<and> leads_to sm' uid ch ext sid u"
proof -
  let ?sm2 = "sm\<lparr>sm_thread_map := hm_insert (uid, ch, ext) u (sm_thread_map sm)\<rparr>"
  have has: "hm_get (se_threads s) u \<noteq> None" and sm': "sm' = ensure_undo_manager u ?sm2"
    using assms(2,3) by (auto simp: resolve_adopt_def session_has_thread_def user_session_def split: if_splits)
  then have eq: "sm_store sm' = sm_store ?sm2" "sm_sessions sm' = sm_sessions ?sm2"
    "sm_thread_map sm' = sm_thread_map ?sm2" by simp_all
  show ?thesis
    using sessions_ok_undo [OF eq sessions_ok_map [OF assms(1,2) has]] leads_to_undo [OF eq]
      leads_to_insert [OF assms(2) has] by blast
qed

lemma resolve_thread_ok:
  assumes "sessions_ok sm" "hm_get (sm_store sm) nsid = None"
    "resolve_thread_with_parsed_uuid parse nsid ntid now uid ch ext parsed sm = ((sid, tid), sm')"
  shows "sessions_ok sm' \<and> leads_to sm' uid ch ext sid tid"
proof -
  obtain i sm1 where g: "get_or_create_session nsid now uid sm = (i, sm1)" by fastforce
  obtain s where ok1: "sessions_ok sm1" and us: "user_session sm1 uid i s"
    using get_or_create_session_ok [OF assms(1,2) g] by blast
  note c = resolve_create_ok [OF ok1 us, of now ntid ch ext]
  obtain found adopt where l:
    "resolve_lookup (uid, ch, ext) (case parsed of Some u \<Rightarrow> Some u | None \<Rightarrow> Option.bind ext parse) i sm1 = (found, adopt)"
    by fastforce
  note r = assms(3) [unfolded resolve_thread_with_parsed_uuid_def g Let_def prod.case l]
  show ?thesis
  proof (cases found)
    case (Some t)
    then have "hm_get (sm_thread_map sm1) (uid, ch, ext) = Some t" "session_has_thread i t sm1"
      using l by (auto simp: resolve_lookup_def Let_def split: option.splits if_splits)
    then have "leads_to sm1 uid ch ext i t"
      using us by (auto simp: leads_to_def session_has_thread_def user_session_def)
    with r Some ok1 show ?thesis by simp
  next
    case None
    show ?thesis
    proof (cases "Option.bind adopt (\<lambda>u. resolve_adopt (uid, ch, ext) u i sm1)")
      case None
      with r c \<open>found = None\<close> show ?thesis by (auto split: option.splits)
    next
      case (Some sm2)
      then obtain u where u: "adopt = Some u" "resolve_adopt (uid, ch, ext) u i sm1 = Some sm2"
        by (cases adopt) auto
      with r \<open>found = None\<close> resolve_adopt_ok [OF ok1 us u(2)] show ?thesis by auto
    qed
  qed
qed

lemma register_thread_ok:
  assumes "sessions_ok sm" "user_session sm uid sid s" "hm_get (se_threads s) tid \<noteq> None"
  shows "sessions_ok (register_thread uid ch tid sid sm)"
proof -
  let ?sm2 = "sm\<lparr>sm_thread_map := hm_insert (uid, ch, Some (show_nat tid)) tid (sm_thread_map sm)\<rparr>"
  have "hm_get (sm_sessions sm) uid = Some sid" using assms(2) by (simp add: user_session_def)
  then have eq: "sm_store (register_thread uid ch tid sid sm) = sm_store ?sm2"
    "sm_sessions (register_thread uid ch tid sid sm) = sm_sessions ?sm2"
    "sm_thread_map (register_thread uid ch tid sid sm) = sm_thread_map ?sm2"
    by (simp_all add: register_thread_def Let_def)
  show ?thesis by (rule sessions_ok_undo [OF eq sessions_ok_map [OF assms]])
qed

lemma hm_get_filter_key:
  "hm_wf m \<Longrightarrow> hm_get (filter (\<lambda>p. P (fst p)) m) k = (if P k then hm_get m k else None)"
  by (induction m) (auto simp: map_of_eq_None_iff)

lemma prune_ok:
  assumes "sessions_ok sm"
  shows "sessions_ok (snd (prune_stale_sessions busy busy2 now idle sm))"
proof -
  let ?users = "stale_users busy (now - int idle * 1000000000) sm"
  let ?sm = "snd (prune_stale_sessions busy busy2 now idle sm)"
  note wf = sessions_okD(1,2) [OF assms]
  have g: "hm_get (sm_sessions ?sm) u = (if u \<in> set ?users then None else hm_get (sm_sessions sm) u)"
    "hm_get (sm_thread_map ?sm) (u, c, e)
       = (if u \<in> set ?users then None else hm_get (sm_thread_map sm) (u, c, e))" for u c e
    using wf
    by (simp_all add: prune_stale_sessions_def Let_def hm_get_filter_key [of _ "\<lambda>u. u \<notin> set ?users"]
        hm_get_filter_key [of _ "\<lambda>k. fst k \<notin> set ?users"])
  have w: "hm_wf (sm_sessions ?sm)" "hm_wf (sm_thread_map ?sm)" "sm_store ?sm = sm_store sm"
    using wf by (simp_all add: prune_stale_sessions_def Let_def)
  have us: "user_session ?sm u i s" if "user_session sm u i s" "u \<notin> set ?users" for u i s
    using that by (simp add: user_session_def g w)
  show ?thesis
    unfolding sessions_ok_def
  proof (intro conjI allI impI)
    show "\<exists>s. user_session ?sm u i s" if "hm_get (sm_sessions ?sm) u = Some i" for u i
      using that us sessions_okD(3) [OF assms, of u i] by (auto simp: g split: if_splits)
    show "\<exists>i s. user_session ?sm u i s \<and> hm_get (se_threads s) tid \<noteq> None"
      if "hm_get (sm_thread_map ?sm) (u, c, e) = Some tid" for u c e tid
    proof -
      from that have u: "u \<notin> set ?users" and "hm_get (sm_thread_map sm) (u, c, e) = Some tid"
        by (auto simp: g split: if_splits)
      from sessions_okD(4) [OF assms this(2)] us u show ?thesis by blast
    qed
  qed (rule w)+
qed

lemma sm_step_ok: "sm_step sm sm' \<Longrightarrow> sessions_ok sm \<Longrightarrow> sessions_ok sm'"
proof (induction rule: sm_step.induct)
  case (sm_resolve sm nsid parse ntid now uid ch ext parsed)
  then show ?case
    using resolve_thread_ok [OF _ sm_resolve(1)] by (metis prod.exhaust snd_conv)
next
  case (sm_session sm nsid now uid)
  then show ?case using get_or_create_session_ok [OF _ sm_session(1)] by (metis prod.exhaust snd_conv)
next
  case (sm_undo sm tid)
  then show ?case
    by (elim sessions_ok_undo [rotated 3]) (simp_all add: get_undo_manager_def Let_def)
next
  case (sm_undo_put sm ums)
  then show ?case by (elim sessions_ok_undo [rotated 3]) simp_all
qed (simp_all add: register_thread_ok sessions_ok_locked prune_ok)

lemma sm_reach_ok: "sm_reach sm \<Longrightarrow> sessions_ok sm"
  unfolding sm_reach_def by (induction rule: rtranclp_induct) (auto simp: sessions_ok_new intro: sm_step_ok)

section \<open>Properties\<close>



text \<open>What the messages of users do once their conversations are known: lookups and work on threads.\<close>

definition update_thread :: "uuid \<Rightarrow> (chat_thread \<Rightarrow> chat_thread) \<Rightarrow> session \<Rightarrow> session" where
  "update_thread tid f s = s\<lparr>se_threads := hm_modify tid f (se_threads s)\<rparr>"

inductive sm_chat :: "session_manager \<Rightarrow> session_manager \<Rightarrow> bool" where
  chat_message: "leads_to sm uid ch ext sid tid \<Longrightarrow>
     sm_chat sm (snd (resolve_thread parse nsid ntid now uid ch ext sm))"
| chat_work: "sm_chat sm (modify_session sid (update_thread tid f) sm)"
| chat_approve: "sm_chat sm (modify_session sid (session_auto_approve_tool tool) sm)"
| chat_history: "sm_chat sm (sm\<lparr>sm_undo_managers := ums\<rparr>)"

lemma sm_chat_idle:
  assumes "sm_chat sm sm'" "user_session sm uid sid s"
  shows "\<exists>s'. user_session sm' uid sid s' \<and> se_last_active_at s' = se_last_active_at s"
proof -
  have work: "\<exists>s'. user_session (modify_session i f sm) uid sid s' \<and> se_last_active_at s' = se_last_active_at s"
    if "session_keeps f" "\<And>s. se_last_active_at (f s) = se_last_active_at s" for i f
    using user_session_locked [OF that(1) assms(2), of i] that(2) by (cases "sid = i") auto
  have k: "session_keeps (update_thread tid f)" "session_keeps (session_auto_approve_tool tool)" for tid f tool
    by (auto simp: session_keeps_def update_thread_def session_auto_approve_tool_def)
  show ?thesis
    using assms(1)
  proof cases
    case (chat_message u ch ext i tid parse nsid ntid now)
    then show ?thesis using assms(2) by (auto simp: resolve_thread_def leads_to_fast)
  next
    case (chat_work i tid f)
    then show ?thesis using work [OF k(1), of tid f i] by (simp add: update_thread_def)
  next
    case (chat_approve i tool)
    then show ?thesis using work [OF k(2), of tool i] by (simp add: session_auto_approve_tool_def)
  next
    case (chat_history ums)
    then show ?thesis using assms(2) by auto
  qed
qed

lemma sm_chats_idle:
  assumes "sm_chat\<^sup>*\<^sup>* sm sm'" "user_session sm uid sid s"
  shows "\<exists>s'. user_session sm' uid sid s' \<and> se_last_active_at s' = se_last_active_at s"
  using assms
proof (induction rule: rtranclp_induct)
  case (step y z)
  then obtain s' where "user_session y uid sid s'" "se_last_active_at s' = se_last_active_at s" by blast
  with sm_chat_idle [OF step(2)] show ?case by metis
qed blast

lemma sm_chat_step: "sm_chat sm sm' \<Longrightarrow> sessions_ok sm \<Longrightarrow> sessions_ok sm'"
proof (induction rule: sm_chat.induct)
  case (chat_message sm uid ch ext sid tid parse nsid ntid now)
  then show ?case by (simp add: resolve_thread_def leads_to_fast)
next
  case (chat_work sm sid tid f)
  then show ?case by (rule sessions_ok_locked) (auto simp: session_keeps_def update_thread_def)
next
  case (chat_approve sm sid tool)
  then show ?case by (rule sessions_ok_locked) (simp add: session_keeps_def session_auto_approve_tool_def)
next
  case (chat_history sm ums)
  then show ?case by (elim sessions_ok_undo [rotated 3]) simp_all
qed

text \<open>
  A session in use is pruned: the time of its last activity is that of its last new thread or switch,
  since messages and turns on a thread that exists do not move it. However much is said in between, once
  the idle time has passed since then the pruning drops the session of a user who is chatting, unless a
  task holds its lock at that very moment; the next message of the same conversation starts with a new
  session and an empty thread.
\<close>

lemma active_session_pruned:
  assumes "sm_reach sm" "user_session sm uid sid s" "sm_chat\<^sup>*\<^sup>* sm sm'"
    "se_last_active_at s < now - int idle * 1000000000" "\<not> busy sid"
  shows "let sm2 = snd (prune_stale_sessions busy busy2 now idle sm')
    in hm_get (sm_sessions sm2) uid = None \<and>
       (\<forall>ch ext. hm_get (sm_thread_map sm2) (uid, ch, ext) = None) \<and>
       fst (resolve_thread parse nsid ntid now2 uid ch None sm2) = (nsid, ntid)"
proof -
  have ok: "sessions_ok sm'"
    using assms(3) sm_reach_ok [OF assms(1)] by (induction rule: rtranclp_induct) (auto intro: sm_chat_step)
  obtain s' where s': "user_session sm' uid sid s'" "se_last_active_at s' = se_last_active_at s"
    using sm_chats_idle [OF assms(3,2)] by blast
  let ?users = "stale_users busy (now - int idle * 1000000000) sm'"
  define sm2 where "sm2 = snd (prune_stale_sessions busy busy2 now idle sm')"
  have "(uid, sid) \<in> set (sm_sessions sm')"
    using s'(1) by (auto simp: user_session_def intro: map_of_SomeD)
  then have u: "uid \<in> set ?users"
    using s' assms(4,5) by (force simp: stale_users_def user_session_def)
  then have "?users \<noteq> []" by auto
  then have g: "hm_get (sm_sessions sm2) uid = None" "hm_get (sm_thread_map sm2) (uid, c, e) = None" for c e
    using u sessions_okD(1,2) [OF ok]
    by (simp_all add: sm2_def prune_stale_sessions_def Let_def hm_get_filter_key [of _ "\<lambda>u. u \<notin> set ?users"]
        hm_get_filter_key [of _ "\<lambda>k. fst k \<notin> set ?users"])
  then show ?thesis
    unfolding sm2_def [symmetric]
    by (simp add: resolve_thread_def resolve_thread_with_parsed_uuid_def get_or_create_session_def
        resolve_lookup_def Let_def)
qed

lemma active_session_pruned_witness:
  "let sm = snd (resolve_thread (\<lambda>_. None) 1 2 0 ''alice'' ''http'' None new_session_manager);
       sm' = modify_session 1 (update_thread 2 (start_turn 4000000000000 ''hello'')) sm
   in hm_get (sm_sessions (snd (prune_stale_sessions (\<lambda>_. False) (\<lambda>_. False) 4000000000001 3600 sm'))) ''alice'' = None"
proof -
  let ?sm = "snd (resolve_thread (\<lambda>_. None) 1 2 0 ''alice'' ''http'' None new_session_manager)"
  let ?sm' = "modify_session 1 (update_thread 2 (start_turn 4000000000000 ''hello'')) ?sm"
  have "sm_step new_session_manager ?sm"
    unfolding resolve_thread_def by (rule sm_resolve) (simp add: new_session_manager_def)
  then have r: "sm_reach ?sm" unfolding sm_reach_def by blast
  have us: "user_session ?sm ''alice'' 1 (create_chat_thread 0 2 (new_session 1 0 ''alice''))"
    by (simp add: user_session_def resolve_thread_def resolve_thread_with_parsed_uuid_def get_or_create_session_def
        new_session_manager_def resolve_lookup_def resolve_create_def modify_session_def new_session_def
        create_chat_thread_def Let_def hm_modify_def)
  have "sm_chat\<^sup>*\<^sup>* ?sm ?sm'" by (intro r_into_rtranclp chat_work)
  from active_session_pruned [OF r us this, of 4000000000001 3600 "\<lambda>_. False"] show ?thesis
    by (simp add: create_chat_thread_def new_session_def Let_def)
qed

end
