(* ===== verification/Agent_Submission.thy ===== *)
theory Agent_Submission
  imports Text_Ops
begin

text \<open>
  What a user can submit to the agent and how a text becomes a submission
  (\<open>src/agent/submission.rs\<close>). The parsers of identifiers and of the JSON form of a submission are
  arguments; the parser of the code tries its cases from top to bottom, and so does the model.
\<close>

section \<open>Submissions and their results\<close>

datatype submission =
    UserInput string
  | ExecApproval uuid bool bool
  | ApprovalResponse bool bool
  | SubInterrupt
  | SubCompact
  | SubUndo
  | SubRedo
  | SubResume uuid
  | SubClear
  | SwitchThread uuid
  | NewThread
  | Heartbeat
  | Summarize
  | Suggest
  | JobStatus "string option"
  | JobCancel string
  | Quit
  | SystemCommand string "string list"

definition is_control :: "submission \<Rightarrow> bool" where
  "is_control s =
     (case s of SubInterrupt \<Rightarrow> True | SubCompact \<Rightarrow> True | SubUndo \<Rightarrow> True | SubRedo \<Rightarrow> True | SubClear \<Rightarrow> True
      | NewThread \<Rightarrow> True | Heartbeat \<Rightarrow> True | Summarize \<Rightarrow> True | Suggest \<Rightarrow> True | JobStatus _ \<Rightarrow> True
      | JobCancel _ \<Rightarrow> True | SystemCommand _ _ \<Rightarrow> True | _ \<Rightarrow> False)"

datatype submission_result =
    SrResponse string
  | SrNeedApproval uuid string string json bool
  | SrOk "string option"
  | SrError string
  | SrInterrupted

definition ok_with_message :: "string \<Rightarrow> submission_result" where
  "ok_with_message m = SrOk (Some m)"

definition result_pending :: "string \<Rightarrow> submission_result" where
  "result_pending m = SrOk (Some m)"

section \<open>The parser\<close>

definition command_args :: "string \<Rightarrow> string list" where
  "command_args trimmed = drop 1 (split_whitespace trimmed)"

definition parse_control :: "string \<Rightarrow> submission option" where
  "parse_control lower =
     (if lower = ''/undo'' then Some SubUndo
      else if lower = ''/redo'' then Some SubRedo
      else if lower = ''/interrupt'' \<or> lower = ''/stop'' then Some SubInterrupt
      else if lower = ''/compact'' then Some SubCompact
      else if lower = ''/clear'' then Some SubClear
      else if lower = ''/heartbeat'' then Some Heartbeat
      else if lower = ''/summarize'' \<or> lower = ''/summary'' then Some Summarize
      else if lower = ''/suggest'' then Some Suggest
      else if lower = ''/thread new'' \<or> lower = ''/new'' then Some NewThread
      else None)"

definition parse_system :: "string \<Rightarrow> string \<Rightarrow> submission option" where
  "parse_system trimmed lower =
     (if lower = ''/help'' \<or> lower = ''/?'' then Some (SystemCommand ''help'' [])
      else if lower = ''/version'' then Some (SystemCommand ''version'' [])
      else if lower = ''/tools'' then Some (SystemCommand ''tools'' [])
      else if lower = ''/skills'' then Some (SystemCommand ''skills'' [])
      else if starts_with lower ''/skills '' then Some (SystemCommand ''skills'' (command_args trimmed))
      else if lower = ''/ping'' then Some (SystemCommand ''ping'' [])
      else if lower = ''/debug'' then Some (SystemCommand ''debug'' [])
      else if lower = ''/restart'' then Some (SystemCommand ''restart'' [])
      else if starts_with lower ''/model'' then Some (SystemCommand ''model'' (command_args trimmed))
      else None)"

definition parse_quit :: "string \<Rightarrow> submission option" where
  "parse_quit lower =
     (if lower = ''/quit'' \<or> lower = ''/exit'' \<or> lower = ''/shutdown'' then Some Quit else None)"

text \<open>The rest of a command with an argument, when it is not empty.\<close>

definition non_empty_rest :: "string option \<Rightarrow> string option" where
  "non_empty_rest rest =
     (case rest of None \<Rightarrow> None | Some r \<Rightarrow> if str_trim r = [] then None else Some (str_trim r))"

definition parse_job :: "string \<Rightarrow> submission option" where
  "parse_job lower =
     (if lower = ''/status'' \<or> lower = ''/progress'' then Some (JobStatus None)
      else
        case non_empty_rest (case strip_prefix lower ''/status '' of
               Some r \<Rightarrow> Some r | None \<Rightarrow> strip_prefix lower ''/progress '') of
          Some i \<Rightarrow> Some (JobStatus (Some i))
        | None \<Rightarrow>
            if lower = ''/list'' then Some (JobStatus None)
            else map_option JobCancel (non_empty_rest (strip_prefix lower ''/cancel '')))"

definition parse_thread_commands :: "(string \<Rightarrow> uuid option) \<Rightarrow> string \<Rightarrow> submission option" where
  "parse_thread_commands parse_uuid lower =
     (case Option.bind (strip_prefix lower ''/thread '') (\<lambda>r. if str_trim r \<noteq> ''new'' then parse_uuid (str_trim r) else None) of
        Some i \<Rightarrow> Some (SwitchThread i)
      | None \<Rightarrow> map_option SubResume (Option.bind (strip_prefix lower ''/resume '') (\<lambda>r. parse_uuid (str_trim r))))"

definition parse_json_approval :: "(string \<Rightarrow> submission option) \<Rightarrow> string \<Rightarrow> submission option" where
  "parse_json_approval from_json trimmed =
     (if starts_with trimmed [CHR 0x7B]
      then (case from_json trimmed of Some (ExecApproval i a w) \<Rightarrow> Some (ExecApproval i a w) | _ \<Rightarrow> None)
      else None)"

definition approve_words :: "string list" where
  "approve_words = [''yes'', ''y'', ''approve'', ''ok'', ''/approve'', ''/yes'', ''/y'']"

definition always_words :: "string list" where
  "always_words = [''always'', ''a'', ''yes always'', ''approve always'', ''/always'', ''/a'']"

definition deny_words :: "string list" where
  "deny_words = [''no'', ''n'', ''deny'', ''reject'', ''cancel'', ''/deny'', ''/no'', ''/n'']"

definition parse_approval_word :: "string \<Rightarrow> submission option" where
  "parse_approval_word lower =
     (if lower \<in> set approve_words then Some (ApprovalResponse True False)
      else if lower \<in> set always_words then Some (ApprovalResponse True True)
      else if lower \<in> set deny_words then Some (ApprovalResponse False False)
      else None)"

fun first_some :: "'a option list \<Rightarrow> 'a option" where
  "first_some [] = None"
| "first_some (None # xs) = first_some xs"
| "first_some (Some x # xs) = Some x"

definition parse_submission ::
    "(string \<Rightarrow> uuid option) \<Rightarrow> (string \<Rightarrow> submission option) \<Rightarrow> string \<Rightarrow> submission" where
  "parse_submission parse_uuid from_json content =
     (let trimmed = str_trim content; lower = to_lowercase trimmed
      in case first_some [parse_control lower, parse_system trimmed lower, parse_quit lower, parse_job lower,
                          parse_thread_commands parse_uuid lower, parse_json_approval from_json trimmed,
                          parse_approval_word lower] of
           Some s \<Rightarrow> s
         | None \<Rightarrow> UserInput content)"

section \<open>Lemmas\<close>

lemma first_some_Some: "first_some xs = Some x \<Longrightarrow> Some x \<in> set xs"
  by (induction xs rule: first_some.induct) auto

lemma command_cases:
  "parse_control l = Some s \<Longrightarrow> is_control s"
  "parse_system t l = Some s \<Longrightarrow> is_control s"
  "parse_quit l = Some s \<Longrightarrow> s = Quit"
  "parse_job l = Some s \<Longrightarrow> is_control s"
  "parse_thread_commands p l = Some s \<Longrightarrow> (\<exists>i. s = SwitchThread i \<or> s = SubResume i)"
  "parse_json_approval j t = Some s \<Longrightarrow>
     (\<exists>i a w. s = ExecApproval i a w \<and> starts_with t [CHR 0x7B] \<and> j t = Some (ExecApproval i a w))"
  by (auto simp: parse_control_def parse_system_def parse_quit_def parse_job_def parse_thread_commands_def
      parse_json_approval_def is_control_def split: if_splits option.splits submission.splits)

text \<open>No word of an approval is a command or opens an object.\<close>

definition plain_word :: "(string \<Rightarrow> uuid option) \<Rightarrow> string \<Rightarrow> bool" where
  "plain_word p l \<longleftrightarrow>
     parse_control l = None \<and> (\<forall>t. parse_system t l = None) \<and> parse_quit l = None \<and> parse_job l = None \<and>
     parse_thread_commands p l = None \<and> \<not> starts_with l [CHR 0x7B]"

lemmas command_defs = parse_control_def parse_system_def parse_quit_def parse_job_def
  parse_thread_commands_def strip_prefix_def non_empty_rest_def starts_with_simps

lemma approve_words_plain: "list_all (plain_word p) approve_words"
  by (simp add: approve_words_def plain_word_def command_defs)

lemma always_words_plain: "list_all (plain_word p) always_words"
  by (simp add: always_words_def plain_word_def command_defs)

lemma deny_words_plain: "list_all (plain_word p) deny_words"
  by (simp add: deny_words_def plain_word_def command_defs)

lemma words_disjoint:
  "set approve_words \<inter> set always_words = {}" "set approve_words \<inter> set deny_words = {}"
  "set always_words \<inter> set deny_words = {}"
  by (simp_all add: approve_words_def always_words_def deny_words_def)

lemma lower_brace: "lower_char c = CHR 0x7B \<longleftrightarrow> c = CHR 0x7B"
  by (rule lower_char_fixed) simp

lemma lower_brace_start: "starts_with (to_lowercase s) [CHR 0x7B] = starts_with s [CHR 0x7B]"
  by (cases s) (simp_all add: to_lowercase_def starts_with_simps lower_brace)

lemma parse_submission_word:
  assumes "plain_word p (to_lowercase (str_trim content))" "parse_approval_word (to_lowercase (str_trim content)) = Some s"
  shows "parse_submission p j content = s"
  using assms lower_brace_start [of "str_trim content"]
  by (simp add: parse_submission_def plain_word_def parse_json_approval_def Let_def)

lemma parse_submission_cases:
  "is_control (parse_submission p j content) \<or> parse_submission p j content = Quit \<or>
     (\<exists>i. parse_submission p j content = SwitchThread i \<or> parse_submission p j content = SubResume i) \<or>
     (\<exists>i a w. parse_submission p j content = ExecApproval i a w \<and> starts_with (str_trim content) [CHR 0x7B] \<and>
        j (str_trim content) = Some (ExecApproval i a w)) \<or>
     parse_approval_word (to_lowercase (str_trim content)) = Some (parse_submission p j content) \<or>
     parse_submission p j content = UserInput content"
proof -
  let ?t = "str_trim content"
  let ?l = "to_lowercase ?t"
  let ?os = "[parse_control ?l, parse_system ?t ?l, parse_quit ?l, parse_job ?l, parse_thread_commands p ?l,
    parse_json_approval j ?t, parse_approval_word ?l]"
  show ?thesis
  proof (cases "first_some ?os")
    case (Some s)
    then have s: "parse_submission p j content = s" by (simp add: parse_submission_def Let_def)
    have "Some s \<in> set ?os" by (rule first_some_Some [OF Some])
    then consider "parse_control ?l = Some s" | "parse_system ?t ?l = Some s" | "parse_quit ?l = Some s"
      | "parse_job ?l = Some s" | "parse_thread_commands p ?l = Some s" | "parse_json_approval j ?t = Some s"
      | "parse_approval_word ?l = Some s"
      unfolding list.set(2) insert_iff list.set(1) empty_iff by metis
    then show ?thesis
      unfolding s
      by cases (simp_all add: command_cases(1,2,3,4), use command_cases(5) in blast, use command_cases(6) in blast)
  qed (simp add: parse_submission_def Let_def)
qed

section \<open>Properties\<close>

text \<open>
  What a text can approve: a text approves the waiting action exactly when, blanks around it and
  capitals aside, it is one of the words of approval, and approves it for good exactly for the words
  of the second list; with an identifier only the JSON form does. Everything else that is no command
  is input, and input is passed on unchanged.
\<close>

lemma approval_by_word_only:
  "(parse_submission p j content = ApprovalResponse True False \<longleftrightarrow> to_lowercase (str_trim content) \<in> set approve_words) \<and>
   (parse_submission p j content = ApprovalResponse True True \<longleftrightarrow> to_lowercase (str_trim content) \<in> set always_words) \<and>
   (parse_submission p j content = ApprovalResponse False w \<longleftrightarrow>
      \<not> w \<and> to_lowercase (str_trim content) \<in> set deny_words) \<and>
   (\<forall>i a w. parse_submission p j content = ExecApproval i a w \<longrightarrow>
      starts_with (str_trim content) [CHR 0x7B] \<and> j (str_trim content) = Some (ExecApproval i a w)) \<and>
   (\<forall>c. parse_submission p j content = UserInput c \<longrightarrow> c = content)"
proof -
  let ?l = "to_lowercase (str_trim content)"
  let ?r = "parse_submission p j content"
  have word: "?l \<in> set approve_words \<Longrightarrow> ?r = ApprovalResponse True False"
    "?l \<in> set always_words \<Longrightarrow> ?r = ApprovalResponse True True"
    "?l \<in> set deny_words \<Longrightarrow> ?r = ApprovalResponse False False"
    using approve_words_plain [of p] always_words_plain [of p] deny_words_plain [of p] words_disjoint
    by (auto simp: list_all_iff parse_approval_word_def intro!: parse_submission_word)
  have resp: "parse_approval_word ?l = Some (ApprovalResponse a w)" if "?r = ApprovalResponse a w" for a w
    using parse_submission_cases [of p j content] that by (auto simp: is_control_def)
  show ?thesis
    using word resp parse_submission_cases [of p j content]
    by (auto simp: parse_approval_word_def is_control_def split: if_splits)
qed

lemma approval_by_word_only_witness:
  "parse_submission (\<lambda>_. None) (\<lambda>_. None) '' Yes'' = ApprovalResponse True False"
proof -
  have "to_lowercase (str_trim '' Yes'') \<in> set approve_words" by code_simp
  with approval_by_word_only [of "\<lambda>_. None" "\<lambda>_. None" "'' Yes''" False] show ?thesis by blast
qed

end
