(* ===== verification/Chat_Tools.thy ===== *)
theory Chat_Tools
  imports Session_Manager Agent_Submission Host_Tools
begin

text \<open>
  The tool calls of a chat turn: a batch of calls from the model (\<open>execute_tool_calls\<close> in
  \<open>src/agent/dispatcher.rs\<close>) and the answer to a request for approval
  (\<open>process_approval\<close> in \<open>src/agent/thread_ops.rs\<close>), which goes on with the calls that the
  request left over. Status messages to the channel, the copy of the conversation in the database and
  the stash of full outputs in the context of a job are not modelled.

  The tools run in parallel: what each returns is an argument, indexed by its place in the batch, with
  \<open>None\<close> for a task that panicked. The hooks, the sanitising of outputs and the parser of JSON
  texts are fields of an environment.
\<close>

section \<open>Environment\<close>

record chat_tool = tool_iface +
  tl_sensitive_params :: "string list"
  tl_description :: string

datatype hook_verdict =
    HookContinue
  | HookModified string
  | HookRejected string
  | HookError string

text \<open>What a tool returned: an error in words or its output.\<close>

type_synonym tool_outcome = "string + string"

record chat_env =
  ce_tools :: "(string, chat_tool) hmap"
  ce_auto_approve_tools :: bool
  ce_hook :: "string \<Rightarrow> json \<Rightarrow> hook_verdict"
  ce_parse_json :: "string \<Rightarrow> json option"
  ce_wrap_output :: "string \<Rightarrow> string \<Rightarrow> string"

text \<open>Whether the channel is a relay, and whether the message is a direct one.\<close>

record chat_place =
  cp_channel :: string
  cp_metadata :: json

definition in_shared_channel :: "chat_place \<Rightarrow> bool" where
  "in_shared_channel pl \<longleftrightarrow>
     ends_with (cp_channel pl) ''-relay'' \<and>
     Option.bind (json_get ''event_type'' (cp_metadata pl)) json_as_str \<noteq> Some ''direct_message''"

text \<open>Whether a call has to be approved, and whether it may be approved for good.\<close>

definition needs_approval :: "chat_env \<Rightarrow> string list \<Rightarrow> chat_tool \<Rightarrow> string \<Rightarrow> json \<Rightarrow> bool" where
  "needs_approval env approved tool name args =
     (case tl_requires_approval tool args of
        ReqNever \<Rightarrow> False
      | ReqUnlessAutoApproved \<Rightarrow> name \<notin> set approved
      | ReqAlways \<Rightarrow> True)"

definition allow_always :: "chat_tool \<Rightarrow> json \<Rightarrow> bool" where
  "allow_always tool args \<longleftrightarrow> tl_requires_approval tool args \<noteq> ReqAlways"

section \<open>A batch of calls\<close>

subsection \<open>Preflight\<close>

datatype preflight_outcome = PfRejected string | PfRunnable

text \<open>The hook before a call: a rejection, or the arguments with which to go on.\<close>

definition hook_before_call :: "chat_env \<Rightarrow> chat_tool option \<Rightarrow> tool_call \<Rightarrow> string + json" where
  "hook_before_call env tool tc =
     (let sensitive = (case tool of Some t \<Rightarrow> tl_sensitive_params t | None \<Rightarrow> [])
      in case ce_hook env (tcall_name tc) (redact_params (tcall_arguments tc) sensitive) of
           HookRejected reason \<Rightarrow> Inl (''Tool call rejected by hook: '' @ reason)
         | HookError err \<Rightarrow> Inl (''Tool call blocked by hook policy: '' @ err)
         | HookModified new_params \<Rightarrow>
             (case ce_parse_json env new_params of
                Some (JObject kvs) \<Rightarrow>
                  Inr (JObject (fold (\<lambda>key obj.
                     case json_get key (tcall_arguments tc) of
                       Some v \<Rightarrow> hm_insert key v obj | None \<Rightarrow> obj) sensitive kvs))
              | Some parsed \<Rightarrow> Inr parsed
              | None \<Rightarrow> Inr (tcall_arguments tc))
         | HookContinue \<Rightarrow> Inr (tcall_arguments tc))"

definition shared_channel_message :: "string \<Rightarrow> string" where
  "shared_channel_message name =
     ''Tool '' @ [CHR 0x27] @ name @ [CHR 0x27] @ '' requires approval and cannot run in shared channels. ''
     @ ''Ask the user to message me directly (DM) to use this tool.''"

text \<open>
  The walk over the calls: those to record, each rejected or runnable, and the index and the call at
  which it stopped for an approval.
\<close>

fun chat_preflight ::
    "chat_env \<Rightarrow> chat_place \<Rightarrow> string list \<Rightarrow> nat \<Rightarrow> tool_call list \<Rightarrow>
     (tool_call \<times> preflight_outcome) list \<times> (nat \<times> tool_call \<times> chat_tool \<times> bool) option" where
  "chat_preflight env pl approved idx [] = ([], None)"
| "chat_preflight env pl approved idx (tc0 # tcs) =
     (let tool = hm_get (ce_tools env) (tcall_name tc0);
          go = (\<lambda>pf. let (pfs, stop) = chat_preflight env pl approved (Suc idx) tcs in (pf # pfs, stop))
      in case hook_before_call env tool tc0 of
           Inl msg \<Rightarrow> go (tc0, PfRejected msg)
         | Inr args \<Rightarrow>
             (let tc = tc0\<lparr>tcall_arguments := args\<rparr>
              in case (if ce_auto_approve_tools env then None else tool) of
                   Some t \<Rightarrow>
                     if needs_approval env approved t (tcall_name tc) args
                     then if in_shared_channel pl
                          then go (tc, PfRejected (shared_channel_message (tcall_name tc)))
                          else ([], Some (idx, tc, t, allow_always t args))
                     else go (tc, PfRunnable)
                 | None \<Rightarrow> go (tc, PfRunnable)))"

subsection \<open>Results\<close>

definition task_failed :: "string \<Rightarrow> tool_outcome" where
  "task_failed name = Inl (''Tool error: Tool '' @ name @ '' execution failed: Task failed during execution'')"

text \<open>\<open>outs i\<close> is what the runnable call at place \<open>i\<close> of the preflight list returned.\<close>

definition slot_result :: "(nat \<Rightarrow> tool_outcome option) \<Rightarrow> nat \<Rightarrow> tool_call \<Rightarrow> tool_outcome" where
  "slot_result outs i tc = (case outs i of Some r \<Rightarrow> r | None \<Rightarrow> task_failed (tcall_name tc))"

definition check_auth_required :: "chat_env \<Rightarrow> string \<Rightarrow> tool_outcome \<Rightarrow> (string \<times> string) option" where
  "check_auth_required env name result =
     (if name \<noteq> ''tool_auth'' \<and> name \<noteq> ''tool_activate'' then None
      else case result of
        Inl _ \<Rightarrow> None
      | Inr output \<Rightarrow>
          (case ce_parse_json env output of
             None \<Rightarrow> None
           | Some parsed \<Rightarrow>
               if json_get ''awaiting_token'' parsed \<noteq> Some (JBool True) then None
               else case Option.bind (json_get ''name'' parsed) json_as_str of
                 None \<Rightarrow> None
               | Some ext \<Rightarrow>
                   Some (ext, case Option.bind (json_get ''instructions'' parsed) json_as_str of
                                Some i \<Rightarrow> i | None \<Rightarrow> ''Please provide your API token/key.'')))"

text \<open>Recording in the last turn of a thread.\<close>

definition in_last_turn :: "(turn \<Rightarrow> turn) \<Rightarrow> chat_thread \<Rightarrow> chat_thread" where
  "in_last_turn f th = th\<lparr>ct_turns := update_last f (ct_turns th)\<rparr>"

definition record_outcome :: "bool \<Rightarrow> string \<Rightarrow> chat_thread \<Rightarrow> chat_thread" where
  "record_outcome is_error content =
     in_last_turn (if is_error then record_tool_error content else record_tool_result (JString content))"

definition batch_result_content :: "chat_env \<Rightarrow> string \<Rightarrow> tool_outcome \<Rightarrow> string" where
  "batch_result_content env name result =
     (case result of
        Inr output \<Rightarrow> ce_wrap_output env name output
      | Inl e \<Rightarrow> ''Tool '' @ [CHR 0x27] @ name @ [CHR 0x27] @ '' failed: '' @ e)"

text \<open>
  The results in their order: the thread, the messages for the model and the instructions of the first
  tool that waits for a token.
\<close>

fun chat_postflight ::
    "chat_env \<Rightarrow> time \<Rightarrow> (nat \<Rightarrow> tool_outcome option) \<Rightarrow> nat \<Rightarrow> (tool_call \<times> preflight_outcome) list \<Rightarrow>
     chat_thread \<Rightarrow> chat_message list \<Rightarrow> string option \<Rightarrow> chat_thread \<times> chat_message list \<times> string option" where
  "chat_postflight env now outs i [] th ms auth = (th, ms, auth)"
| "chat_postflight env now outs i ((tc, PfRejected msg) # pfs) th ms auth =
     chat_postflight env now outs (Suc i) pfs (in_last_turn (record_tool_error msg) th)
       (ms @ [chat_tool_result (tcall_id tc) (tcall_name tc) msg]) auth"
| "chat_postflight env now outs i ((tc, PfRunnable) # pfs) th ms auth =
     (let result = slot_result outs i tc;
          need = (if auth = None then check_auth_required env (tcall_name tc) result else None);
          th1 = (case need of Some (ext, _) \<Rightarrow> enter_auth_mode now ext th | None \<Rightarrow> th);
          auth1 = (case need of Some (_, ins) \<Rightarrow> Some ins | None \<Rightarrow> auth);
          content = batch_result_content env (tcall_name tc) result
      in chat_postflight env now outs (Suc i) pfs (record_outcome (isl result) content th1)
           (ms @ [chat_tool_result (tcall_id tc) (tcall_name tc) content]) auth1)"

text \<open>How the loop goes on after a batch.\<close>

datatype loop_outcome = LoopResponse string | LoopStopped | LoopMaxIterations | LoopNeedApproval pending_approval

definition record_calls :: "chat_env \<Rightarrow> tool_call list \<Rightarrow> turn \<Rightarrow> turn" where
  "record_calls env tcs t =
     fold (\<lambda>tc. record_tool_call (tcall_name tc)
        (case hm_get (ce_tools env) (tcall_name tc) of
           Some tool \<Rightarrow> redact_params (tcall_arguments tc) (tl_sensitive_params tool)
         | None \<Rightarrow> tcall_arguments tc)) tcs t"

definition make_pending ::
    "uuid \<Rightarrow> tool_call \<Rightarrow> chat_tool \<Rightarrow> bool \<Rightarrow> chat_message list \<Rightarrow> tool_call list \<Rightarrow> string option \<Rightarrow> pending_approval" where
  "make_pending rid tc tool always ms deferred tz =
     \<lparr>pap_request_id = rid, pap_tool_name = tcall_name tc, pap_parameters = tcall_arguments tc,
      pap_display_parameters = redact_params (tcall_arguments tc) (tl_sensitive_params tool),
      pap_description = tl_description tool, pap_tool_call_id = tcall_id tc, pap_context_messages = ms,
      pap_deferred_tool_calls = deferred, pap_user_timezone = tz, pap_allow_always = always\<rparr>"

definition execute_tool_calls ::
    "chat_env \<Rightarrow> chat_place \<Rightarrow> string list \<Rightarrow> time \<Rightarrow> uuid \<Rightarrow> string \<Rightarrow> (nat \<Rightarrow> tool_outcome option) \<Rightarrow>
     tool_call list \<Rightarrow> string option \<Rightarrow> chat_thread \<Rightarrow> chat_message list \<Rightarrow>
     loop_outcome option \<times> chat_thread \<times> chat_message list" where
  "execute_tool_calls env pl approved now rid tz outs tcs content th ms =
     (let ms1 = ms @ [chat_assistant_with_tool_calls content tcs];
          th1 = in_last_turn (record_calls env tcs) th;
          (pfs, stop) = chat_preflight env pl approved 0 tcs;
          (th2, ms2, auth) = chat_postflight env now outs 0 pfs th1 ms1 None
      in (case auth of
            Some ins \<Rightarrow> Some (LoopResponse ins)
          | None \<Rightarrow>
              (case stop of
                 Some (idx, tc, tool, always) \<Rightarrow>
                   Some (LoopNeedApproval (make_pending rid tc tool always ms2 (drop (Suc idx) tcs) (Some tz)))
               | None \<Rightarrow> None),
          th2, ms2))"

section \<open>The answer to a request for approval\<close>

datatype agent_error = JobNotFound uuid | AgentError string

text \<open>How the agentic loop ends for a chat turn.\<close>

datatype chat_loop_result = ClrResponse string | ClrNeedApproval pending_approval | ClrError string

definition session_thread :: "uuid \<Rightarrow> uuid \<Rightarrow> session_manager \<Rightarrow> chat_thread option" where
  "session_thread sid tid sm = Option.bind (hm_get (sm_store sm) sid) (\<lambda>s. hm_get (se_threads s) tid)"

definition modify_thread :: "uuid \<Rightarrow> uuid \<Rightarrow> (chat_thread \<Rightarrow> chat_thread) \<Rightarrow> session_manager \<Rightarrow> session_manager" where
  "modify_thread sid tid f = modify_session sid (update_thread tid f)"

definition session_approved :: "uuid \<Rightarrow> session_manager \<Rightarrow> string list" where
  "session_approved sid sm = (case hm_get (sm_store sm) sid of Some s \<Rightarrow> se_auto_approved_tools s | None \<Rightarrow> [])"

definition need_approval_result :: "pending_approval \<Rightarrow> submission_result" where
  "need_approval_result p =
     SrNeedApproval (pap_request_id p) (pap_tool_name p) (pap_description p) (pap_display_parameters p)
       (pap_allow_always p)"

text \<open>The first part: either the answer is settled or the pending request has been taken.\<close>

datatype approval_start = ApSettled "agent_error + submission_result" | ApTaken pending_approval

definition approval_begin ::
    "time \<Rightarrow> uuid \<Rightarrow> uuid \<Rightarrow> uuid option \<Rightarrow> session_manager \<Rightarrow> approval_start \<times> session_manager" where
  "approval_begin now sid tid request_id sm =
     (case session_thread sid tid sm of
        None \<Rightarrow> (ApSettled (Inl (JobNotFound tid)), sm)
      | Some th \<Rightarrow>
          if ct_state th \<noteq> ChatAwaitingApproval then (ApSettled (Inr (ok_with_message [])), sm)
          else
            let sm1 = modify_thread sid tid (snd \<circ> take_pending_approval) sm
            in case ct_pending_approval th of
                 None \<Rightarrow> (ApSettled (Inr (ok_with_message [])), sm1)
               | Some pending \<Rightarrow>
                   if request_id \<noteq> None \<and> request_id \<noteq> Some (pap_request_id pending)
                   then (ApSettled (Inr (SrError ''Request ID mismatch. Use the correct request ID.'')),
                         modify_thread sid tid (await_approval now pending) sm1)
                   else (ApTaken pending, sm1))"

definition approval_grant :: "bool \<Rightarrow> pending_approval \<Rightarrow> uuid \<Rightarrow> uuid \<Rightarrow> session_manager \<Rightarrow> session_manager" where
  "approval_grant always pending sid tid sm =
     (let sm1 = (if always then modify_session sid (session_auto_approve_tool (pap_tool_name pending)) sm else sm)
      in modify_thread sid tid (\<lambda>th. th\<lparr>ct_state := ChatProcessing\<rparr>) sm1)"

definition rejection_message :: "string \<Rightarrow> string" where
  "rejection_message name =
     ''Tool '' @ [CHR 0x27] @ name @ [CHR 0x27] @ '' was rejected. The agent will not execute this tool.''
     @ newline @ newline @ ''You can continue the conversation or try a different approach.''"

definition approval_reject ::
    "time \<Rightarrow> pending_approval \<Rightarrow> uuid \<Rightarrow> uuid \<Rightarrow> session_manager \<Rightarrow> submission_result \<times> session_manager" where
  "approval_reject now pending sid tid sm =
     (let msg = rejection_message (pap_tool_name pending)
      in (SrResponse msg, modify_thread sid tid (complete_turn now msg \<circ> clear_pending_approval now) sm))"

text \<open>The calls that were left over: no hook is run for them, and the channel is not looked at.\<close>

fun approval_preflight ::
    "chat_env \<Rightarrow> string list \<Rightarrow> nat \<Rightarrow> tool_call list \<Rightarrow>
     tool_call list \<times> (nat \<times> tool_call \<times> chat_tool \<times> bool) option" where
  "approval_preflight env approved idx [] = ([], None)"
| "approval_preflight env approved idx (tc # tcs) =
     (let tool = hm_get (ce_tools env) (tcall_name tc);
          stop = (case tool of
             Some t \<Rightarrow>
               if \<not> ce_auto_approve_tools env \<and> needs_approval env approved t (tcall_name tc) (tcall_arguments tc)
               then Some (idx, tc, t, allow_always t (tcall_arguments tc)) else None
           | None \<Rightarrow> None)
      in case stop of
           Some x \<Rightarrow> ([], Some x)
         | None \<Rightarrow> (let (rs, st) = approval_preflight env approved (Suc idx) tcs in (tc # rs, st)))"

definition approval_result_content :: "chat_env \<Rightarrow> string \<Rightarrow> tool_outcome \<Rightarrow> string" where
  "approval_result_content env name result =
     (case result of Inr output \<Rightarrow> ce_wrap_output env name output | Inl e \<Rightarrow> ''Error: '' @ e)"

definition auth_intercept :: "time \<Rightarrow> string \<times> string \<Rightarrow> chat_thread \<Rightarrow> chat_thread" where
  "auth_intercept now need th = complete_turn now (snd need) (enter_auth_mode now (fst need) th)"

fun approval_postflight ::
    "chat_env \<Rightarrow> time \<Rightarrow> (nat \<Rightarrow> tool_outcome option) \<Rightarrow> nat \<Rightarrow> tool_call list \<Rightarrow> chat_thread \<Rightarrow> chat_message list \<Rightarrow>
     string option \<Rightarrow> chat_thread \<times> chat_message list \<times> string option" where
  "approval_postflight env now outs i [] th ms auth = (th, ms, auth)"
| "approval_postflight env now outs i (tc # tcs) th ms auth =
     (let result = slot_result outs i tc;
          content = approval_result_content env (tcall_name tc) result;
          th1 = record_outcome (isl result) content th;
          need = (if auth = None then check_auth_required env (tcall_name tc) result else None);
          th2 = (case need of Some n \<Rightarrow> auth_intercept now n th1 | None \<Rightarrow> th1);
          auth1 = (case need of Some (_, ins) \<Rightarrow> Some ins | None \<Rightarrow> auth)
      in approval_postflight env now outs (Suc i) tcs th2
           (ms @ [chat_tool_result (tcall_id tc) (tcall_name tc) content]) auth1)"

text \<open>
  After the approved tool has returned \<open>result\<close>: the answer, or the messages with which the loop goes
  on. \<open>outs i\<close> is what the \<open>i\<close>-th of the calls that were left over and could run returned.
\<close>

definition approval_continue ::
    "chat_env \<Rightarrow> time \<Rightarrow> uuid \<Rightarrow> tool_outcome \<Rightarrow> (nat \<Rightarrow> tool_outcome option) \<Rightarrow> pending_approval \<Rightarrow> string list \<Rightarrow>
     chat_thread \<Rightarrow> (submission_result + chat_message list) \<times> chat_thread" where
  "approval_continue env now rid result outs pending approved th =
     (let name = pap_tool_name pending;
          content = approval_result_content env name result;
          th1 = record_outcome (isl result) content th
      in case check_auth_required env name result of
           Some need \<Rightarrow> (Inl (SrResponse (snd need)), auth_intercept now need th1)
         | None \<Rightarrow>
             (let ms1 = pap_context_messages pending @ [chat_tool_result (pap_tool_call_id pending) name content];
                  deferred = pap_deferred_tool_calls pending;
                  (runnable, stop) = approval_preflight env approved 0 deferred;
                  (th2, ms2, auth) = approval_postflight env now outs 0 runnable th1 ms1 None
              in case auth of
                   Some ins \<Rightarrow> (Inl (SrResponse ins), th2)
                 | None \<Rightarrow>
                     (case stop of
                        Some (idx, tc, tool, always) \<Rightarrow>
                          let p = make_pending rid tc tool always ms2 (drop (Suc idx) deferred) (pap_user_timezone pending)
                          in (Inl (need_approval_result p), await_approval now p th2)
                      | None \<Rightarrow> (Inr ms2, th2))))"

text \<open>The loop has ended; \<open>clean\<close> removes the suggestions from a response.\<close>

definition approval_finish ::
    "(string \<Rightarrow> string) \<Rightarrow> time \<Rightarrow> chat_loop_result \<Rightarrow> chat_thread \<Rightarrow> submission_result \<times> chat_thread" where
  "approval_finish clean now result th =
     (case result of
        ClrResponse r \<Rightarrow> (SrResponse (clean r), complete_turn now (clean r) th)
      | ClrNeedApproval p \<Rightarrow> (need_approval_result p, await_approval now p th)
      | ClrError e \<Rightarrow> (SrError e, fail_turn now e th))"

text \<open>
  The whole operation. While the tools run and while the loop runs other tasks may change the sessions:
  \<open>world1\<close> and \<open>world2\<close> are these changes, and \<open>loop\<close> is the end of the loop for the messages it is
  given. When a thread is gone after the loop the code reports it.
\<close>

definition process_approval ::
    "chat_env \<Rightarrow> (string \<Rightarrow> string) \<Rightarrow> time \<Rightarrow> uuid \<Rightarrow> tool_outcome \<Rightarrow> (nat \<Rightarrow> tool_outcome option) \<Rightarrow>
     (chat_message list \<Rightarrow> chat_loop_result) \<Rightarrow> (session_manager \<Rightarrow> session_manager) \<Rightarrow> (session_manager \<Rightarrow> session_manager) \<Rightarrow>
     uuid \<Rightarrow> uuid \<Rightarrow> uuid option \<Rightarrow> bool \<Rightarrow> bool \<Rightarrow> session_manager \<Rightarrow>
     (agent_error + submission_result) \<times> session_manager" where
  "process_approval env clean now rid result outs loop world1 world2 sid tid request_id approved always sm =
     (case approval_begin now sid tid request_id sm of
        (ApSettled r, sm1) \<Rightarrow> (r, sm1)
      | (ApTaken pending, sm1) \<Rightarrow>
          if \<not> approved
          then (let (r, sm2) = approval_reject now pending sid tid sm1 in (Inr r, sm2))
          else
            let sm2 = world1 (approval_grant always pending sid tid sm1)
            in case session_thread sid tid sm2 of
                 None \<Rightarrow> (Inl (JobNotFound tid), sm2)
               | Some th \<Rightarrow>
                   (case approval_continue env now rid result outs pending (session_approved sid sm2) th of
                      (Inl r, th2) \<Rightarrow> (Inr r, modify_thread sid tid (\<lambda>_. th2) sm2)
                    | (Inr ms, th2) \<Rightarrow>
                        let sm3 = world2 (modify_thread sid tid (\<lambda>_. th2) sm2)
                        in case session_thread sid tid sm3 of
                             None \<Rightarrow> (Inl (JobNotFound tid), sm3)
                           | Some th3 \<Rightarrow>
                               (let (r, th4) = approval_finish clean now (loop ms) th3
                                in (Inr r, modify_thread sid tid (\<lambda>_. th4) sm3))))"

section \<open>Lemmas\<close>

text \<open>The calls recorded for the running turn.\<close>

definition calls_of :: "chat_thread \<Rightarrow> turn_tool_call list" where
  "calls_of th = tn_tool_calls (last (ct_turns th))"

lemma update_last_simps [simp]:
  "update_last f xs = [] \<longleftrightarrow> xs = []" "length (update_last f xs) = length xs"
  "xs \<noteq> [] \<Longrightarrow> last (update_last f xs) = f (last xs)" "butlast (update_last f xs) = butlast xs"
  by (simp_all add: update_last_def)

lemma turns_in_last_turn [simp]: "ct_turns (in_last_turn f th) = update_last f (ct_turns th)"
  by (simp add: in_last_turn_def)

lemma calls_record_outcome:
  assumes "ct_turns th \<noteq> []"
  shows "calls_of (record_outcome e content th) =
    update_last (\<lambda>c. if e then c\<lparr>ttc_error := Some content\<rparr> else c\<lparr>ttc_result := Some (JString content)\<rparr>) (calls_of th)"
    "calls_of (in_last_turn (record_tool_error content) th) =
      update_last (\<lambda>c. c\<lparr>ttc_error := Some content\<rparr>) (calls_of th)"
    "ct_turns (record_outcome e content th) \<noteq> []"
  using assms by (simp_all add: record_outcome_def calls_of_def record_tool_error_def record_tool_result_def)

lemma calls_enter_auth [simp]:
  "calls_of (enter_auth_mode now ext th) = calls_of th" "ct_turns (enter_auth_mode now ext th) = ct_turns th"
  by (simp_all add: calls_of_def enter_auth_mode_def)

lemma record_calls_calls:
  "tn_tool_calls (record_calls env tcs t) = tn_tool_calls t @
     map (\<lambda>tc. \<lparr>ttc_name = tcall_name tc,
        ttc_parameters = (case hm_get (ce_tools env) (tcall_name tc) of
           Some tool \<Rightarrow> redact_params (tcall_arguments tc) (tl_sensitive_params tool) | None \<Rightarrow> tcall_arguments tc),
        ttc_result = None, ttc_error = None\<rparr>) tcs"
  by (induction tcs arbitrary: t) (simp_all add: record_calls_def record_tool_call_def)

text \<open>Storing the results of a batch touches the last call only, and an error stays.\<close>

definition last_call_only :: "chat_thread \<Rightarrow> chat_thread \<Rightarrow> bool" where
  "last_call_only th th' \<longleftrightarrow>
     ct_turns th' \<noteq> [] \<and> length (calls_of th') = length (calls_of th) \<and> butlast (calls_of th') = butlast (calls_of th) \<and>
     (calls_of th \<noteq> [] \<longrightarrow> ttc_error (last (calls_of th)) \<noteq> None \<longrightarrow> ttc_error (last (calls_of th')) \<noteq> None)"

lemma last_call_only_trans: "last_call_only th th' \<Longrightarrow> last_call_only th' th'' \<Longrightarrow> last_call_only th th''"
  unfolding last_call_only_def by (metis length_0_conv)

lemma last_call_only_outcome:
  "ct_turns th \<noteq> [] \<Longrightarrow> last_call_only th (record_outcome e content th)"
  "ct_turns th \<noteq> [] \<Longrightarrow> last_call_only th (in_last_turn (record_tool_error content) th)"
  "ct_turns th \<noteq> [] \<Longrightarrow> last_call_only th (enter_auth_mode now ext th)"
  by (auto simp: last_call_only_def calls_record_outcome)

definition pf_failed :: "(nat \<Rightarrow> tool_outcome option) \<Rightarrow> nat \<Rightarrow> tool_call \<times> preflight_outcome \<Rightarrow> bool" where
  "pf_failed outs i pf = (case snd pf of PfRejected _ \<Rightarrow> True | PfRunnable \<Rightarrow> isl (slot_result outs i (fst pf)))"

lemma chat_postflight_last:
  assumes "chat_postflight env now outs i pfs th ms auth = (th', ms', auth')" "ct_turns th \<noteq> []"
  shows "last_call_only th th' \<and>
    (calls_of th \<noteq> [] \<longrightarrow> (\<exists>k < length pfs. pf_failed outs (i + k) (pfs ! k)) \<longrightarrow> ttc_error (last (calls_of th')) \<noteq> None)"
  using assms
proof (induction env now outs i pfs th ms auth rule: chat_postflight.induct)
  case (1 env now outs i th ms auth)
  then show ?case by (simp add: last_call_only_def)
next
  case (2 env now outs i tc msg pfs th ms auth)
  let ?th1 = "in_last_turn (record_tool_error msg) th"
  have l: "last_call_only th ?th1" by (rule last_call_only_outcome(2) [OF 2(3)])
  then have "ct_turns ?th1 \<noteq> []" by (simp add: last_call_only_def)
  with 2(1) 2(2) have l2: "last_call_only ?th1 th'" by simp
  have "calls_of th \<noteq> [] \<longrightarrow> ttc_error (last (calls_of th')) \<noteq> None"
    using l2 2(3) by (auto simp: last_call_only_def calls_record_outcome)
  with last_call_only_trans [OF l l2] show ?case by blast
next
  case (3 env now outs i tc pfs th ms auth)
  define result where "result = slot_result outs i tc"
  define need where "need = (if auth = None then check_auth_required env (tcall_name tc) result else None)"
  define th1 where "th1 = (case need of Some (ext, _) \<Rightarrow> enter_auth_mode now ext th | None \<Rightarrow> th)"
  define content where "content = batch_result_content env (tcall_name tc) result"
  define th2 where "th2 = record_outcome (isl result) content th1"
  have t1: "ct_turns th1 \<noteq> []" "calls_of th1 = calls_of th" "last_call_only th th1"
    using 3(3) by (auto simp: th1_def last_call_only_def split: option.splits)
  have l: "last_call_only th th2"
    unfolding th2_def by (rule last_call_only_trans [OF t1(3) last_call_only_outcome(1) [OF t1(1)]])
  then have n2: "ct_turns th2 \<noteq> []" by (simp add: last_call_only_def)
  have step: "chat_postflight env now outs (Suc i) pfs th2
      (ms @ [chat_tool_result (tcall_id tc) (tcall_name tc) content])
      (case need of Some (_, ins) \<Rightarrow> Some ins | None \<Rightarrow> auth) = (th', ms', auth')"
    using 3(2) unfolding chat_postflight.simps(3) Let_def result_def need_def th1_def content_def th2_def .
  note ih = 3(1) [OF result_def need_def th1_def refl content_def step [unfolded th2_def] n2 [unfolded th2_def]]
  have l2: "last_call_only th2 th'" using ih by (simp add: th2_def)
  have "ttc_error (last (calls_of th')) \<noteq> None"
    if "calls_of th \<noteq> []" "k < Suc (length pfs)" "pf_failed outs (i + k) (((tc, PfRunnable) # pfs) ! k)" for k
  proof (cases k)
    case 0
    then have "isl result" using that(3) by (simp add: pf_failed_def result_def)
    then have "ttc_error (last (calls_of th2)) \<noteq> None" "calls_of th2 \<noteq> []"
      using that(1) t1 by (simp_all add: th2_def calls_record_outcome)
    then show ?thesis using l2 by (simp add: last_call_only_def)
  next
    case (Suc k')
    have "calls_of th2 \<noteq> []" using that(1) t1 by (simp add: th2_def calls_record_outcome)
    with ih Suc that(2,3) show ?thesis by (auto simp: th2_def)
  qed
  with last_call_only_trans [OF l l2] show ?case by auto
qed

lemma session_thread_modify:
  "session_thread sid tid (modify_thread sid tid f sm) = map_option f (session_thread sid tid sm)"
  by (cases "hm_get (sm_store sm) sid")
    (simp_all add: session_thread_def modify_thread_def modify_session_def update_thread_def map_option_case
      split: option.split)

lemma chat_preflight_not_forbidden:
  assumes "\<And>a. \<exists>msg. ce_hook env n a \<in> {HookRejected msg, HookError msg}"
  shows "(tc, PfRunnable) \<in> set (fst (chat_preflight env pl approved idx tcs)) \<Longrightarrow> tcall_name tc \<noteq> n"
proof (induction tcs arbitrary: idx)
  case (Cons tc0 tcs)
  obtain pfs stop where rest: "chat_preflight env pl approved (Suc idx) tcs = (pfs, stop)" by fastforce
  let ?tool = "hm_get (ce_tools env) (tcall_name tc0)"
  have ih: "(tc, PfRunnable) \<in> set pfs \<Longrightarrow> tcall_name tc \<noteq> n" using Cons.IH [of "Suc idx"] rest by simp
  show ?case
  proof (cases "hook_before_call env ?tool tc0")
    case (Inl msg)
    then show ?thesis using Cons.prems ih by (simp add: rest Let_def)
  next
    case (Inr args)
    have "tcall_name tc0 \<noteq> n"
      using assms [of "redact_params (tcall_arguments tc0) (case ?tool of Some t \<Rightarrow> tl_sensitive_params t | None \<Rightarrow> [])"] Inr
      by (auto simp: hook_before_call_def Let_def)
    then show ?thesis
      using Cons.prems ih Inr
      by (auto simp: rest Let_def split: option.splits if_splits)
  qed
qed simp

section \<open>Properties\<close>

text \<open>
  The results of a batch go astray: every call of a batch is recorded first, but each result is stored
  with the last call recorded. Whatever the tools return, the history shows ''OK'' for every call
  except the last, and the last call carries an error as soon as any call of the batch failed or was
  rejected, even if it succeeded itself.
\<close>

lemma batch_results_on_last_call:
  assumes "execute_tool_calls env pl approved now rid tz outs tcs content th ms = (r, th2, ms2)" "ct_turns th \<noteq> []"
  shows "\<exists>calls. calls_of th2 = calls_of th @ calls \<and> length calls = length tcs \<and>
    (\<forall>i. Suc i < length tcs \<longrightarrow> tool_call_content to_str (calls ! i) = ''OK'') \<and>
    (\<forall>k < length (fst (chat_preflight env pl approved 0 tcs)).
       pf_failed outs k (fst (chat_preflight env pl approved 0 tcs) ! k) \<longrightarrow> ttc_error (last calls) \<noteq> None)"
proof -
  obtain pfs stop where pf: "chat_preflight env pl approved 0 tcs = (pfs, stop)" by fastforce
  let ?th1 = "in_last_turn (record_calls env tcs) th"
  obtain ms' auth where post: "chat_postflight env now outs 0 pfs ?th1
      (ms @ [chat_assistant_with_tool_calls content tcs]) None = (th2, ms', auth)"
    using assms(1) by (auto simp: execute_tool_calls_def pf Let_def split: prod.splits)
  define new where "new = map (\<lambda>tc. \<lparr>ttc_name = tcall_name tc,
      ttc_parameters = (case hm_get (ce_tools env) (tcall_name tc) of
         Some tool \<Rightarrow> redact_params (tcall_arguments tc) (tl_sensitive_params tool) | None \<Rightarrow> tcall_arguments tc),
      ttc_result = None, ttc_error = None\<rparr>) tcs"
  have c1: "calls_of ?th1 = calls_of th @ new" "ct_turns ?th1 \<noteq> []"
    using assms(2) by (simp_all add: calls_of_def record_calls_calls new_def)
  note l = chat_postflight_last [OF post c1(2)]
  show ?thesis
  proof (cases "tcs = []")
    case True
    then have "pfs = []" "new = []" using pf by (simp_all add: new_def)
    with post c1 True pf show ?thesis by (intro exI [of _ "[]"]) simp
  next
    case False
    then have n: "new \<noteq> []" by (simp add: new_def)
    then have "calls_of th2 \<noteq> []" using l c1 by (auto simp: last_call_only_def)
    then have "calls_of th2 = calls_of th @ butlast new @ [last (calls_of th2)]"
      using l c1 n append_butlast_last_id [of "calls_of th2"] by (simp add: last_call_only_def butlast_append)
    moreover have "tool_call_content to_str ((butlast new @ [x]) ! i) = ''OK''" if "Suc i < length tcs" for i x
    proof -
      have i: "i < length (butlast new)" using that by (simp add: new_def)
      then have "(butlast new @ [x]) ! i = new ! i" by (simp add: nth_append nth_butlast)
      with that show ?thesis by (simp add: new_def tool_call_content_def)
    qed
    ultimately show ?thesis
      using l c1 n False
      by (intro exI [of _ "butlast new @ [last (calls_of th2)]"]) (auto simp: pf new_def)
  qed
qed


text \<open>A concrete environment: two tools, one of which always asks; a hook that forbids the other.\<close>

definition ask_tool :: chat_tool where
  "ask_tool = \<lparr>tl_name = ''deploy'', tl_requires_approval = (\<lambda>_. ReqAlways), tl_sensitive_params = [],
     tl_description = ''deploys''\<rparr>"

definition free_tool :: chat_tool where
  "free_tool = \<lparr>tl_name = ''wipe'', tl_requires_approval = (\<lambda>_. ReqNever), tl_sensitive_params = [],
     tl_description = ''wipes''\<rparr>"

definition sample_env :: chat_env where
  "sample_env = \<lparr>ce_tools = [(''deploy'', ask_tool), (''wipe'', free_tool)], ce_auto_approve_tools = False,
     ce_hook = (\<lambda>n _. if n = ''wipe'' then HookRejected ''no'' else HookContinue),
     ce_parse_json = (\<lambda>_. None), ce_wrap_output = (\<lambda>_ s. s)\<rparr>"

definition sample_call :: "string \<Rightarrow> tool_call" where
  "sample_call n = \<lparr>tcall_id = n, tcall_name = n, tcall_arguments = JObject [], tcall_reasoning = None\<rparr>"

definition web_place :: chat_place where
  "web_place = \<lparr>cp_channel = ''gateway'', cp_metadata = JNull\<rparr>"

definition sample_chat :: chat_thread where
  "sample_chat = start_turn 1 ''hello'' (chat_thread_with_id 0 2 1)"

lemma batch_results_on_last_call_witness:
  "\<exists>calls. calls_of (fst (snd (execute_tool_calls sample_env web_place [] 1 9 ''UTC'' (\<lambda>_. None)
       [sample_call ''a'', sample_call ''b''] None sample_chat []))) = calls_of sample_chat @ calls \<and>
     tool_call_content (\<lambda>_. []) (calls ! 0) = ''OK''"
proof -
  obtain r th2 ms2 where e: "execute_tool_calls sample_env web_place [] 1 9 ''UTC'' (\<lambda>_. None)
      [sample_call ''a'', sample_call ''b''] None sample_chat [] = (r, th2, ms2)" by (metis prod.exhaust)
  have "ct_turns sample_chat \<noteq> []" by (simp add: sample_chat_def start_turn_def)
  from batch_results_on_last_call [OF e this, of "\<lambda>_. []"] show ?thesis by (auto simp: e)
qed

definition sample_pending :: pending_approval where
  "sample_pending = make_pending 9 (sample_call ''deploy'') ask_tool False [] [sample_call ''wipe''] None"

definition waiting_manager :: session_manager where
  "waiting_manager = modify_thread 1 2 (await_approval 3 sample_pending \<circ> start_turn 2 ''go'')
     (snd (resolve_thread (\<lambda>_. None) 1 2 0 ''alice'' ''http'' None new_session_manager))"

lemma waiting_thread:
  "session_thread 1 2 waiting_manager =
     Some (await_approval 3 sample_pending (start_turn 2 ''go'' (chat_thread_with_id 0 2 1)))"
  unfolding waiting_manager_def session_thread_modify
  by (simp add: session_thread_def resolve_thread_def resolve_thread_with_parsed_uuid_def
      get_or_create_session_def new_session_manager_def resolve_lookup_def resolve_create_def modify_session_def
      new_session_def create_chat_thread_def Let_def hm_modify_def)


text \<open>
  Calls that wait behind an approval escape the hooks: a call that a hook always forbids is never run as
  part of a batch, but when a call before it needs an approval it is left over unexamined, and once
  the approval is given it runs without the hook being asked.
\<close>

lemma deferred_calls_bypass_hooks:
  assumes "\<And>a. \<exists>msg. ce_hook env (tcall_name tc) a \<in> {HookRejected msg, HookError msg}"
    and "\<And>a. ce_hook env (tcall_name ask) a = HookContinue"
    and "hm_get (ce_tools env) (tcall_name ask) = Some ta" "tl_requires_approval ta (tcall_arguments ask) = ReqAlways"
    and "hm_get (ce_tools env) (tcall_name tc) = Some t" "tl_requires_approval t (tcall_arguments tc) = ReqNever"
    and "\<not> ce_auto_approve_tools env" "\<not> in_shared_channel pl"
  shows "(\<forall>tcs idx c. (c, PfRunnable) \<in> set (fst (chat_preflight env pl approved idx tcs)) \<longrightarrow> tcall_name c \<noteq> tcall_name tc) \<and>
    (\<exists>p th2 ms2. execute_tool_calls env pl approved now rid tz outs [ask, tc] content th ms
        = (Some (LoopNeedApproval p), th2, ms2) \<and>
      pap_tool_name p = tcall_name ask \<and> pap_deferred_tool_calls p = [tc] \<and>
      approval_preflight env approved2 0 (pap_deferred_tool_calls p) = ([tc], None))"
proof -
  have "hook_before_call env (Some ta) ask = Inr (tcall_arguments ask)"
    using assms(2) by (simp add: hook_before_call_def Let_def)
  then have "chat_preflight env pl approved 0 [ask, tc] = ([], Some (0, ask, ta, False))"
    using assms(3,4,7,8) by (simp add: needs_approval_def allow_always_def Let_def)
  then show ?thesis
    using chat_preflight_not_forbidden [of env "tcall_name tc", OF assms(1)] assms(5,6)
    by (auto simp: execute_tool_calls_def make_pending_def needs_approval_def Let_def)
qed

lemma deferred_calls_bypass_hooks_witness:
  "\<exists>p. fst (execute_tool_calls sample_env web_place [] 1 9 ''UTC'' (\<lambda>_. None)
       [sample_call ''deploy'', sample_call ''wipe''] None sample_chat []) = Some (LoopNeedApproval p) \<and>
     approval_preflight sample_env [] 0 (pap_deferred_tool_calls p) = ([sample_call ''wipe''], None)"
proof -
  have h: "\<exists>msg. ce_hook sample_env (tcall_name (sample_call ''wipe'')) a \<in> {HookRejected msg, HookError msg}" for a
    by (simp add: sample_env_def sample_call_def)
  have s: "ce_hook sample_env (tcall_name (sample_call ''deploy'')) a = HookContinue" for a
    by (simp add: sample_env_def sample_call_def)
  have t: "hm_get (ce_tools sample_env) (tcall_name (sample_call ''deploy'')) = Some ask_tool"
    "tl_requires_approval ask_tool (tcall_arguments (sample_call ''deploy'')) = ReqAlways"
    "hm_get (ce_tools sample_env) (tcall_name (sample_call ''wipe'')) = Some free_tool"
    "tl_requires_approval free_tool (tcall_arguments (sample_call ''wipe'')) = ReqNever"
    "\<not> ce_auto_approve_tools sample_env" "\<not> in_shared_channel web_place"
    by (simp_all add: sample_env_def sample_call_def ask_tool_def free_tool_def in_shared_channel_def web_place_def
        ends_with_def starts_with_def)
  from deferred_calls_bypass_hooks [OF h s t, of "[]" 1 9 "''UTC''" "\<lambda>_. None" None sample_chat "[]" "[]"]
  show ?thesis by (metis fst_conv)
qed

text \<open>
  Two more consequences of the code. An answer \<open>always\<close> is honoured even when the request did not
  offer it; and, unlike a turn of the user, an approved turn that was interrupted while its loop ran is
  completed all the same.
\<close>

lemma always_not_offered_is_granted:
  assumes "hm_get (sm_store sm) sid = Some s" "\<not> pap_allow_always p"
  shows "pap_tool_name p \<in> set (session_approved sid (approval_grant True p sid tid sm))"
  using assms
  by (simp add: session_approved_def approval_grant_def modify_thread_def modify_session_def update_thread_def
      session_auto_approve_tool_def)

lemma interrupt_lost_after_approval:
  assumes "ct_turns th \<noteq> []" "approval_finish clean now (ClrResponse r) (thread_interrupt now0 th) = (res, th')"
  shows "ct_state th' = ChatIdle \<and> tn_state (last (ct_turns th')) = TurnCompleted \<and>
    tn_response (last (ct_turns th')) = Some (clean r)"
  using assms by (auto simp: approval_finish_def thread_interrupt_def complete_turn_def turn_complete_def)

end
