(* ===== verification/Thread_Ops.thy ===== *)
theory Thread_Ops
  imports Chat_Tools
begin

text \<open>
  What the agent does with a message on a thread (\<open>src/agent/thread_ops.rs\<close>, the loop over queued
  messages and the interception of tokens in \<open>src/agent/agent_loop.rs\<close>): turns of the user with
  their checkpoints, undo and redo, interruption, clearing, new threads and switches, and the
  restoration of a thread from the database. The safety layer, the router of commands, the compaction
  and the hooks are fields of an environment; the agentic loop is an argument, which also stands for
  what other tasks do to the sessions while it runs.
\<close>

section \<open>Commands on a thread\<close>

text \<open>\<open>to_str\<close> renders JSON values; \<open>cid\<close> is the identifier that a checkpoint draws.\<close>

definition put_undo_manager :: "uuid \<Rightarrow> undo_manager \<Rightarrow> session_manager \<Rightarrow> session_manager" where
  "put_undo_manager tid um sm = sm\<lparr>sm_undo_managers := hm_insert tid um (sm_undo_managers sm)\<rparr>"

definition process_undo ::
    "(json \<Rightarrow> string) \<Rightarrow> uuid \<Rightarrow> time \<Rightarrow> uuid \<Rightarrow> uuid \<Rightarrow> session_manager \<Rightarrow>
     (agent_error + submission_result) \<times> session_manager" where
  "process_undo to_str cid now sid tid sm =
     (let (um, sm1) = get_undo_manager tid sm
      in if \<not> can_undo um then (Inr (ok_with_message ''Nothing to undo.''), sm1)
         else case session_thread sid tid sm1 of
           None \<Rightarrow> (Inl (JobNotFound tid), sm1)
         | Some th \<Rightarrow>
             (case undo cid (turn_number th) (thread_messages to_str th) um of
                (None, um1) \<Rightarrow> (Inr (SrError ''Undo failed.''), put_undo_manager tid um1 sm1)
              | (Some c, um1) \<Rightarrow>
                  (Inr (ok_with_message (''Undone to turn '' @ show_nat (cpt_turn_number c) @ ''. ''
                     @ show_nat (undo_count um1) @ '' undo(s) remaining.'')),
                   modify_thread sid tid (restore_from_messages now (cpt_messages c)) (put_undo_manager tid um1 sm1))))"

definition process_redo ::
    "(json \<Rightarrow> string) \<Rightarrow> uuid \<Rightarrow> time \<Rightarrow> uuid \<Rightarrow> uuid \<Rightarrow> session_manager \<Rightarrow>
     (agent_error + submission_result) \<times> session_manager" where
  "process_redo to_str cid now sid tid sm =
     (let (um, sm1) = get_undo_manager tid sm
      in if \<not> can_redo um then (Inr (ok_with_message ''Nothing to redo.''), sm1)
         else case session_thread sid tid sm1 of
           None \<Rightarrow> (Inl (JobNotFound tid), sm1)
         | Some th \<Rightarrow>
             (case redo cid (turn_number th) (thread_messages to_str th) um of
                (None, um1) \<Rightarrow> (Inr (SrError ''Redo failed.''), put_undo_manager tid um1 sm1)
              | (Some c, um1) \<Rightarrow>
                  (Inr (ok_with_message (''Redone to turn '' @ show_nat (cpt_turn_number c) @ ''.'')),
                   modify_thread sid tid (restore_from_messages now (cpt_messages c)) (put_undo_manager tid um1 sm1))))"

definition process_interrupt ::
    "time \<Rightarrow> uuid \<Rightarrow> uuid \<Rightarrow> session_manager \<Rightarrow> (agent_error + submission_result) \<times> session_manager" where
  "process_interrupt now sid tid sm =
     (case session_thread sid tid sm of
        None \<Rightarrow> (Inl (JobNotFound tid), sm)
      | Some th \<Rightarrow>
          if ct_state th \<in> {ChatProcessing, ChatAwaitingApproval}
          then (Inr (ok_with_message ''Interrupted.''), modify_thread sid tid (thread_interrupt now) sm)
          else (Inr (ok_with_message ''Nothing to interrupt.''), sm))"

definition process_clear ::
    "uuid \<Rightarrow> uuid \<Rightarrow> session_manager \<Rightarrow> (agent_error + submission_result) \<times> session_manager" where
  "process_clear sid tid sm =
     (case session_thread sid tid sm of
        None \<Rightarrow> (Inl (JobNotFound tid), sm)
      | Some _ \<Rightarrow>
          (let sm1 = modify_thread sid tid
                 (\<lambda>th. th\<lparr>ct_turns := [], ct_pending_messages := [], ct_state := ChatIdle\<rparr>) sm;
               (um, sm2) = get_undo_manager tid sm1
           in (Inr (ok_with_message ''Thread cleared.''), put_undo_manager tid (undo_clear um) sm2)))"

text \<open>Here \<open>nsid\<close> and \<open>ntid\<close> are the identifiers that a new session and a new thread draw.\<close>

definition process_new_thread ::
    "uuid \<Rightarrow> uuid \<Rightarrow> time \<Rightarrow> string \<Rightarrow> session_manager \<Rightarrow> (agent_error + submission_result) \<times> session_manager" where
  "process_new_thread nsid ntid now uid sm =
     (let (sid, sm1) = get_or_create_session nsid now uid sm
      in (Inr (ok_with_message (''New thread: '' @ show_nat ntid)),
          modify_session sid (create_chat_thread now ntid) sm1))"

definition process_switch_thread ::
    "uuid \<Rightarrow> time \<Rightarrow> string \<Rightarrow> uuid \<Rightarrow> session_manager \<Rightarrow> (agent_error + submission_result) \<times> session_manager" where
  "process_switch_thread nsid now uid target sm =
     (let (sid, sm1) = get_or_create_session nsid now uid sm
      in if session_has_thread sid target sm1
         then (Inr (ok_with_message (''Switched to thread '' @ show_nat target)),
               modify_session sid (snd \<circ> switch_thread now target) sm1)
         else (Inr (SrError ''Thread not found.''), sm1))"

definition process_resume ::
    "time \<Rightarrow> uuid \<Rightarrow> uuid \<Rightarrow> uuid \<Rightarrow> session_manager \<Rightarrow> (agent_error + submission_result) \<times> session_manager" where
  "process_resume now sid tid checkpoint_id sm =
     (let (um, sm1) = get_undo_manager tid sm
      in case restore checkpoint_id um of
           (None, um1) \<Rightarrow> (Inr (SrError ''Checkpoint not found.''), put_undo_manager tid um1 sm1)
         | (Some c, um1) \<Rightarrow>
             (let sm2 = put_undo_manager tid um1 sm1
              in if session_thread sid tid sm2 = None then (Inl (JobNotFound tid), sm2)
                 else (Inr (ok_with_message (''Resumed from checkpoint: '' @ cpt_description c)),
                       modify_thread sid tid (restore_from_messages now (cpt_messages c)) sm2)))"

section \<open>A turn of the user\<close>

text \<open>
  The safety layer: the errors of a validation in words, whether a policy blocks a text, and the warning
  when it contains a secret.
\<close>

record input_checks =
  ic_validate :: "string \<Rightarrow> string option"
  ic_blocked :: "string \<Rightarrow> bool"
  ic_secret :: "string \<Rightarrow> string option"

definition check_input :: "input_checks \<Rightarrow> string \<Rightarrow> string \<Rightarrow> string option" where
  "check_input ic validated content =
     (case ic_validate ic validated of
        Some details \<Rightarrow> Some (''Input rejected by safety validation: '' @ details)
      | None \<Rightarrow> if ic_blocked ic content then Some ''Input rejected by safety policy.'' else ic_secret ic content)"

record input_env =
  ie_checks :: input_checks
  ie_route :: "string \<Rightarrow> (agent_error + submission_result) option"
  ie_compact :: "chat_thread \<Rightarrow> chat_thread"
  ie_augment :: "string \<Rightarrow> string \<times> content_part list"
  ie_transform :: "string \<Rightarrow> string"
  ie_to_str :: "json \<Rightarrow> string"

definition truncate_for_preview :: "string \<Rightarrow> nat \<Rightarrow> string" where
  "truncate_for_preview output max_chars =
     (let collapsed = join_with '' '' (split_whitespace
            (map (\<lambda>c. if c = CHR 0x0A then CHR 0x20 else c) (take (max_chars + 50) output)))
      in if length collapsed > max_chars then take max_chars collapsed @ ''...'' else collapsed)"

definition waiting_message :: "pending_approval option \<Rightarrow> string" where
  "waiting_message p =
     (case p of
        Some a \<Rightarrow> ''Waiting for approval: '' @ pap_tool_name a @ '' '' @ em_dash @ '' ''
                   @ truncate_for_preview (pap_description a) 80 @ ''. Use /interrupt to cancel.''
      | None \<Rightarrow> ''Waiting for approval. Use /interrupt to cancel.'')"

text \<open>
  The first part looks at the thread as it was read (\<open>seen\<close>); for a thread that was processing a turn
  the state is read again under the lock, and the message is queued or rejected. \<open>None\<close> means that the
  message goes on.
\<close>

definition queue_input ::
    "input_checks \<Rightarrow> time \<Rightarrow> bool \<Rightarrow> string \<Rightarrow> chat_thread \<Rightarrow> submission_result option \<times> chat_thread" where
  "queue_input ic now has_attachments content th =
     (if ct_state th \<noteq> ChatProcessing then (None, th)
      else if has_attachments
      then (Some (SrError (''Cannot queue messages with attachments while a turn is processing. ''
              @ ''Please resend after the current turn completes.'')), th)
      else case check_input ic content content of
        Some msg \<Rightarrow> (Some (SrError msg), th)
      | None \<Rightarrow>
          (case queue_message now content th of
             (True, th1) \<Rightarrow>
               (Some (SrOk (Some (''Message queued '' @ em_dash @ '' will be processed after the current turn.''))), th1)
           | (False, th1) \<Rightarrow>
               (Some (SrError (''Message queue full ('' @ show_nat MAX_PENDING_MESSAGES
                  @ ''). Wait for the current turn to complete.'')), th1)))"

definition input_state_check ::
    "input_checks \<Rightarrow> time \<Rightarrow> bool \<Rightarrow> string \<Rightarrow> chat_thread \<Rightarrow> uuid \<Rightarrow> uuid \<Rightarrow> session_manager \<Rightarrow>
     submission_result option \<times> session_manager" where
  "input_state_check ic now has_attachments content seen sid tid sm =
     (case ct_state seen of
        ChatProcessing \<Rightarrow>
          (case session_thread sid tid sm of
             None \<Rightarrow> (Some (SrError ''Thread no longer exists.''), sm)
           | Some th \<Rightarrow>
               (let (r, th1) = queue_input ic now has_attachments content th
                in (r, modify_thread sid tid (\<lambda>_. th1) sm)))
      | ChatAwaitingApproval \<Rightarrow> (Some (result_pending (waiting_message (ct_pending_approval seen))), sm)
      | ChatCompleted \<Rightarrow> (Some (SrError ''Thread completed. Use /thread new.''), sm)
      | _ \<Rightarrow> (None, sm))"

text \<open>Then the checks and the router, which both can answer the message.\<close>

definition input_checks_and_route ::
    "input_env \<Rightarrow> bool \<Rightarrow> string \<Rightarrow> (agent_error + submission_result) option" where
  "input_checks_and_route ie has_attachments content =
     (case check_input (ie_checks ie) (if content = [] \<and> has_attachments then ''[attachment]'' else content) content of
        Some msg \<Rightarrow> Some (Inr (SrError msg))
      | None \<Rightarrow> ie_route ie content)"

text \<open>The turn begins: the thread may be compacted, a checkpoint is taken, the turn is added.\<close>

definition begin_turn ::
    "input_env \<Rightarrow> uuid \<Rightarrow> time \<Rightarrow> string \<Rightarrow> uuid \<Rightarrow> uuid \<Rightarrow> session_manager \<Rightarrow>
     (agent_error + chat_message list) \<times> session_manager" where
  "begin_turn ie cid now content sid tid sm =
     (case session_thread sid tid sm of
        None \<Rightarrow> (Inl (JobNotFound tid), sm)
      | Some th0 \<Rightarrow>
          (let th = ie_compact ie th0;
               (um, sm1) = get_undo_manager tid (modify_thread sid tid (\<lambda>_. th) sm);
               um1 = take_checkpoint cid (turn_number th) (thread_messages (ie_to_str ie) th)
                       (''Before turn '' @ show_nat (turn_number th)) um;
               (text1, images) = ie_augment ie content;
               th1 = in_last_turn (\<lambda>t. t\<lparr>tn_image_content_parts := images\<rparr>) (start_turn now text1 th)
           in (Inr (thread_messages (ie_to_str ie) th1),
               modify_thread sid tid (\<lambda>_. th1) (put_undo_manager tid um1 sm1))))"

text \<open>The turn ends with the result of the loop, unless the thread was interrupted meanwhile.\<close>

definition finish_turn ::
    "(string \<Rightarrow> string) \<Rightarrow> time \<Rightarrow> chat_loop_result \<Rightarrow> chat_thread \<Rightarrow> submission_result \<times> chat_thread" where
  "finish_turn transform now result th =
     (if ct_state th = ChatInterrupted then (SrInterrupted, th)
      else case result of
        ClrResponse r \<Rightarrow> (SrResponse (transform r), complete_turn now (transform r) th)
      | ClrNeedApproval p \<Rightarrow> (need_approval_result p, await_approval now p th)
      | ClrError e \<Rightarrow> (SrError e, fail_turn now e th))"

definition end_turn ::
    "(string \<Rightarrow> string) \<Rightarrow> time \<Rightarrow> chat_loop_result \<Rightarrow> uuid \<Rightarrow> uuid \<Rightarrow> session_manager \<Rightarrow>
     (agent_error + submission_result) \<times> session_manager" where
  "end_turn transform now result sid tid sm =
     (case session_thread sid tid sm of
        None \<Rightarrow> (Inl (JobNotFound tid), sm)
      | Some th \<Rightarrow>
          (let (r, th1) = finish_turn transform now result th in (Inr r, modify_thread sid tid (\<lambda>_. th1) sm)))"

definition process_user_input ::
    "input_env \<Rightarrow> uuid \<Rightarrow> time \<Rightarrow> (chat_message list \<Rightarrow> session_manager \<Rightarrow> chat_loop_result \<times> session_manager) \<Rightarrow>
     bool \<Rightarrow> string \<Rightarrow> uuid \<Rightarrow> uuid \<Rightarrow> session_manager \<Rightarrow> (agent_error + submission_result) \<times> session_manager" where
  "process_user_input ie cid now loop has_attachments content sid tid sm =
     (case session_thread sid tid sm of
        None \<Rightarrow> (Inl (JobNotFound tid), sm)
      | Some seen \<Rightarrow>
          (case input_state_check (ie_checks ie) now has_attachments content seen sid tid sm of
             (Some r, sm1) \<Rightarrow> (Inr r, sm1)
           | (None, sm1) \<Rightarrow>
               (case input_checks_and_route ie has_attachments content of
                  Some r \<Rightarrow> (r, sm1)
                | None \<Rightarrow>
                    (case begin_turn ie cid now content sid tid sm1 of
                       (Inl e, sm2) \<Rightarrow> (Inl e, sm2)
                     | (Inr ms, sm2) \<Rightarrow>
                         (let (result, sm3) = loop ms sm2 in end_turn (ie_transform ie) now result sid tid sm3)))))"

section \<open>Queued messages\<close>

text \<open>
  The loop of \<open>handle_message\<close> that runs queued messages as turns after a response. \<open>run n\<close> is the
  turn of the \<open>n\<close>-th round, \<open>suppressed n\<close> whether a timeout has suppressed responses by then. Other
  tasks may queue messages in every round, so the loop need not end: the first argument bounds
  its rounds.
\<close>

fun drain_loop ::
    "nat \<Rightarrow> (nat \<Rightarrow> time) \<Rightarrow> (nat \<Rightarrow> bool) \<Rightarrow>
     (nat \<Rightarrow> string \<Rightarrow> session_manager \<Rightarrow> (agent_error + submission_result) \<times> session_manager) \<Rightarrow> nat \<Rightarrow> uuid \<Rightarrow> uuid \<Rightarrow>
     agent_error + submission_result \<Rightarrow> session_manager \<Rightarrow> ((agent_error + submission_result) \<times> session_manager) option" where
  "drain_loop 0 now suppressed run n sid tid result sm = None"
| "drain_loop (Suc fuel) now suppressed run n sid tid result sm =
     (case result of
        Inr (SrResponse outgoing) \<Rightarrow>
          (case session_thread sid tid sm of
             None \<Rightarrow> Some (result, sm)
           | Some th \<Rightarrow>
               (let (merged, th1) = drain_pending_messages (now n) th;
                    sm1 = modify_thread sid tid (\<lambda>_. th1) sm
                in case merged of
                     None \<Rightarrow> Some (result, sm1)
                   | Some content \<Rightarrow>
                       if suppressed n
                       then Some (result, modify_thread sid tid (\<lambda>t. t\<lparr>ct_pending_messages := []\<rparr>) sm1)
                       else
                         (let (result1, sm2) = run n content sm1;
                              sm3 = (case result1 of
                                 Inr (SrResponse _) \<Rightarrow> sm2
                               | _ \<Rightarrow> modify_thread sid tid (requeue_drained (now n) content) sm2)
                          in drain_loop fuel now suppressed run (Suc n) sid tid result1 sm3)))
      | _ \<Rightarrow> Some (result, sm))"

section \<open>Threads from the database\<close>

record conversation_message =
  cv_role :: string
  cv_content :: string

text \<open>
  The messages of a row of tool calls: rows without call identifiers are of an older form and are
  skipped. An index of a JSON value that is not there is \<open>null\<close>.
\<close>

definition str_field :: "string \<Rightarrow> string \<Rightarrow> json \<Rightarrow> string" where
  "str_field key dflt j = (case Option.bind (json_get key j) json_as_str of Some s \<Rightarrow> s | None \<Rightarrow> dflt)"

definition db_tool_call :: "json \<Rightarrow> tool_call" where
  "db_tool_call c =
     \<lparr>tcall_id = str_field ''call_id'' ''call_0'' c, tcall_name = str_field ''name'' ''unknown'' c,
      tcall_arguments = (case json_get ''parameters'' c of Some p \<Rightarrow> p | None \<Rightarrow> JObject []), tcall_reasoning = None\<rparr>"

definition db_call_result :: "json \<Rightarrow> chat_message" where
  "db_call_result c =
     chat_tool_result (str_field ''call_id'' ''call_0'' c) (str_field ''name'' ''unknown'' c)
       (case Option.bind (json_get ''error'' c) json_as_str of
          Some err \<Rightarrow> ''Error: '' @ err
        | None \<Rightarrow>
            (case Option.bind (json_get ''result'' c) json_as_str of
               Some res \<Rightarrow> res
             | None \<Rightarrow> str_field ''result_preview'' ''OK'' c))"

definition rebuild_row :: "(string \<Rightarrow> json option) \<Rightarrow> conversation_message \<Rightarrow> chat_message list" where
  "rebuild_row parse msg =
     (if cv_role msg = ''user'' then [chat_user (cv_content msg)]
      else if cv_role msg = ''assistant'' then [chat_assistant (cv_content msg)]
      else if cv_role msg = ''tool_calls''
      then (case parse (cv_content msg) of
              Some (JArray (c # cs)) \<Rightarrow>
                if Option.bind (json_get ''call_id'' c) json_as_str \<noteq> None
                then chat_assistant_with_tool_calls None (map db_tool_call (c # cs)) # map db_call_result (c # cs)
                else []
            | _ \<Rightarrow> [])
      else [])"

definition rebuild_chat_messages_from_db :: "(string \<Rightarrow> json option) \<Rightarrow> conversation_message list \<Rightarrow> chat_message list" where
  "rebuild_chat_messages_from_db parse rows = concat (map (rebuild_row parse) rows)"

text \<open>
  The database: whether a conversation is a user's (or an error) and its messages. Whether a
  conversation of somebody else exists only decides what is logged.
\<close>

record conversation_db =
  db_belongs :: "uuid \<Rightarrow> string \<Rightarrow> string + bool"
  db_messages :: "uuid \<Rightarrow> conversation_message list"

definition FORGED_THREAD_ID_ERROR :: string where
  "FORGED_THREAD_ID_ERROR = ''Invalid or unauthorized thread ID.''"

definition requires_preexisting_uuid_thread :: "string \<Rightarrow> bool" where
  "requires_preexisting_uuid_thread channel \<longleftrightarrow> channel = ''gateway'' \<or> channel = ''test''"

definition maybe_hydrate_thread ::
    "(string \<Rightarrow> uuid option) \<Rightarrow> (string \<Rightarrow> json option) \<Rightarrow> conversation_db option \<Rightarrow> uuid \<Rightarrow> time \<Rightarrow> string \<Rightarrow> string \<Rightarrow>
     string \<Rightarrow> session_manager \<Rightarrow> string option \<times> session_manager" where
  "maybe_hydrate_thread parse_uuid parse db nsid now uid channel ext sm =
     (case parse_uuid ext of
        None \<Rightarrow> (None, sm)
      | Some u \<Rightarrow>
          (let (sid, sm1) = get_or_create_session nsid now uid sm;
               refused = (if requires_preexisting_uuid_thread channel then Some FORGED_THREAD_ID_ERROR else None)
           in if session_has_thread sid u sm1 then (None, sm1)
              else
                let load = (\<lambda>ms.
                      let th = chat_thread_with_id now u sid;
                          th1 = (if ms = [] then th else restore_from_messages now ms th);
                          sm2 = modify_session sid (\<lambda>s. s\<lparr>se_threads := hm_insert u th1 (se_threads s),
                                  se_active_thread := Some u, se_last_active_at := now\<rparr>) sm1
                      in (None, register_thread uid channel u sid sm2))
                in case db of
                     None \<Rightarrow> load []
                   | Some d \<Rightarrow>
                       (case db_belongs d u uid of
                          Inr True \<Rightarrow> load (rebuild_chat_messages_from_db parse (db_messages d u))
                        | Inr False \<Rightarrow> (refused, sm1)
                        | Inl _ \<Rightarrow> (refused, sm1))))"

section \<open>Tokens\<close>

text \<open>What the extension manager makes of a token.\<close>

datatype token_result = TokenActivated string | TokenPending string | TokenInvalid string | TokenFailed string

definition process_auth_token ::
    "(string \<Rightarrow> string \<Rightarrow> token_result) option \<Rightarrow> time \<Rightarrow> pending_auth \<Rightarrow> string \<Rightarrow> uuid \<Rightarrow> uuid \<Rightarrow> session_manager \<Rightarrow>
     string option \<times> session_manager" where
  "process_auth_token ext_mgr now pending token sid tid sm =
     (let sm1 = modify_thread sid tid (\<lambda>th. th\<lparr>ct_pending_auth := None\<rparr>) sm;
          again = modify_thread sid tid (enter_auth_mode now (pau_extension_name pending)) sm1
      in case ext_mgr of
           None \<Rightarrow> (Some ''Extension manager not available.'', sm1)
         | Some configure \<Rightarrow>
             (case configure (pau_extension_name pending) (str_trim token) of
                TokenActivated msg \<Rightarrow> (Some msg, sm1)
              | TokenPending msg \<Rightarrow> (Some msg, again)
              | TokenInvalid msg \<Rightarrow> (Some msg, again)
              | TokenFailed msg \<Rightarrow> (Some msg, sm1)))"

text \<open>
  The interception: an answer to the message, or \<open>None\<close> when the submission goes on. Any command ends the
  wait for a token.
\<close>

definition auth_mode_step ::
    "(string \<Rightarrow> string \<Rightarrow> token_result) option \<Rightarrow> time \<Rightarrow> submission \<Rightarrow> uuid \<Rightarrow> uuid \<Rightarrow> session_manager \<Rightarrow>
     string option option \<times> session_manager" where
  "auth_mode_step ext_mgr now sub sid tid sm =
     (case Option.bind (session_thread sid tid sm) ct_pending_auth of
        None \<Rightarrow> (None, sm)
      | Some pending \<Rightarrow>
          (let cleared = modify_thread sid tid (\<lambda>th. th\<lparr>ct_pending_auth := None\<rparr>) sm
           in case sub of
                UserInput content \<Rightarrow>
                  if pending_auth_is_expired now pending
                  then (Some (Some (''Authentication for **'' @ pau_extension_name pending
                          @ ''** expired. Please try again.'')), cleared)
                  else (let (r, sm1) = process_auth_token ext_mgr now pending content sid tid sm in (Some r, sm1))
              | _ \<Rightarrow> (None, cleared)))"

end
