(* ===== verification/Chat_Turns.thy ===== *)
theory Chat_Turns
  imports Thread_Ops
begin

text \<open>
  The turns of a chat as a whole: undo and redo over the session manager, what commands change and what
  they do not, the queue of messages, and the restoration of threads.
\<close>

section \<open>Checkpoints\<close>

text \<open>
  The contract between the history and a state that it keeps as messages: rebuilding a good state from its
  messages gives a state with the same messages.
\<close>

locale checkpointed =
  fixes render :: "'st \<Rightarrow> chat_message list"
    and rebuild :: "chat_message list \<Rightarrow> 'st \<Rightarrow> 'st"
    and good :: "'st \<Rightarrow> bool"
  assumes render_rebuild: "good s \<Longrightarrow> render (rebuild (render s) s') = render s"
begin

lemma undo_checkpoint:
  assumes "good s" "um_max_checkpoints um > 0" "um1 = take_checkpoint cid n (render s) d um"
  shows "can_undo um1 \<and> (\<exists>c um2. undo cid2 n2 ms um1 = (Some c, um2) \<and> cpt_messages c = render s \<and>
    render (rebuild (cpt_messages c) s') = render s \<and> (\<exists>f. um_redo_stack um2 = [f] \<and> cpt_messages f = ms))"
proof -
  have "um_undo_stack um1 \<noteq> []" "last (um_undo_stack um1) = new_checkpoint cid n (render s) d" "um_redo_stack um1 = []"
    using assms(2) by (auto simp: assms(3) take_checkpoint_def push_undo_def Let_def)
  then show ?thesis
    using render_rebuild [OF assms(1)] by (simp add: can_undo_def undo_def new_checkpoint_def)
qed

lemma redo_undone:
  assumes "good s2" "um_redo_stack um2 = [f]" "cpt_messages f = render s2"
  shows "can_redo um2 \<and> (\<exists>c um3. redo cid3 n3 ms um2 = (Some c, um3) \<and> render (rebuild (cpt_messages c) s') = render s2)"
  using assms render_rebuild [OF assms(1)] by (simp add: can_redo_def redo_def push_undo_def Let_def)

end

definition plain_thread :: "(json \<Rightarrow> string) \<Rightarrow> chat_thread \<Rightarrow> bool" where
  "plain_thread to_str th \<longleftrightarrow> list_all (plain_turn to_str) (ct_turns th)"

interpretation chat: checkpointed "thread_messages to_str" "restore_from_messages now" "plain_thread to_str"
  for to_str now
  by unfold_locales (simp add: plain_thread_def restore_messages_same)

section \<open>Lemmas on the session manager\<close>

lemma session_thread_frame [simp]:
  "session_thread sid tid (put_undo_manager t um sm) = session_thread sid tid sm"
  "session_thread sid tid (ensure_undo_manager t sm) = session_thread sid tid sm"
  by (simp_all add: session_thread_def put_undo_manager_def)

lemma undo_manager_frame [simp]:
  "sm_undo_managers (modify_thread sid tid f sm) = sm_undo_managers sm"
  "sm_undo_managers (modify_session sid g sm) = sm_undo_managers sm"
  by (simp_all add: modify_thread_def modify_session_def)

lemma hm_get_put_undo [simp]: "hm_get (sm_undo_managers (put_undo_manager tid um sm)) tid = Some um"
  by (simp add: put_undo_manager_def)

lemma get_undo_manager_known:
  "hm_get (sm_undo_managers sm) tid = Some um \<Longrightarrow> get_undo_manager tid sm = (um, sm)"
  by (simp add: get_undo_manager_def ensure_undo_manager_def Let_def)

lemma get_undo_manager_thread [simp]:
  "session_thread sid tid (snd (get_undo_manager t sm)) = session_thread sid tid sm"
  by (simp add: get_undo_manager_def Let_def)

lemma get_undo_manager_modify:
  "get_undo_manager tid (modify_thread sid t f sm) =
     (fst (get_undo_manager tid sm), modify_thread sid t f (snd (get_undo_manager tid sm)))"
  by (simp add: get_undo_manager_def ensure_undo_manager_def modify_thread_def modify_session_def Let_def
      split: option.split)

lemma modify_thread_twice:
  "session_thread sid tid (modify_thread sid tid f (put_undo_manager t um (modify_thread sid tid g sm)))
     = map_option (f \<circ> g) (session_thread sid tid sm)"
  by (simp add: session_thread_modify option.map_comp)

text \<open>The two things a turn leaves behind when it begins: its thread and its checkpoint.\<close>

definition turn_begun :: "input_env \<Rightarrow> time \<Rightarrow> string \<Rightarrow> chat_thread \<Rightarrow> chat_thread" where
  "turn_begun ie now content th =
     in_last_turn (\<lambda>t. t\<lparr>tn_image_content_parts := snd (ie_augment ie content)\<rparr>)
       (start_turn now (fst (ie_augment ie content)) (ie_compact ie th))"

lemma begin_turn_effect:
  assumes "session_thread sid tid sm = Some th" "begin_turn ie cid now content sid tid sm = (r, sm1)"
  shows "r = Inr (thread_messages (ie_to_str ie) (turn_begun ie now content th)) \<and>
    session_thread sid tid sm1 = Some (turn_begun ie now content th) \<and>
    hm_get (sm_undo_managers sm1) tid = Some
      (take_checkpoint cid (turn_number (ie_compact ie th)) (thread_messages (ie_to_str ie) (ie_compact ie th))
        (''Before turn '' @ show_nat (turn_number (ie_compact ie th))) (fst (get_undo_manager tid sm)))"
  using assms
  by (auto simp: begin_turn_def turn_begun_def get_undo_manager_modify modify_thread_twice Let_def
      split: prod.splits)

lemma undo_effect:
  assumes "session_thread sid tid sm = Some th" "hm_get (sm_undo_managers sm) tid = Some um" "can_undo um"
    "undo cid (turn_number th) (thread_messages to_str th) um = (Some c, um1)"
    "process_undo to_str cid now sid tid sm = (r, sm1)"
  shows "session_thread sid tid sm1 = Some (restore_from_messages now (cpt_messages c) th) \<and>
    hm_get (sm_undo_managers sm1) tid = Some um1"
  using assms by (auto simp: process_undo_def get_undo_manager_known session_thread_modify)

lemma redo_effect:
  assumes "session_thread sid tid sm = Some th" "hm_get (sm_undo_managers sm) tid = Some um" "can_redo um"
    "redo cid (turn_number th) (thread_messages to_str th) um = (Some c, um1)"
  shows "session_thread sid tid (snd (process_redo to_str cid now sid tid sm))
    = Some (restore_from_messages now (cpt_messages c) th)"
  using assms by (auto simp: process_redo_def get_undo_manager_known session_thread_modify)

section \<open>Properties\<close>

text \<open>
  C11. Undo takes a turn back: when a turn has begun and then anything at all has happened to the thread, as
  long as its history was left alone, undo gives back exactly the messages that the model saw before
  the turn, and a redo after it gives back the messages there were before the undo. The messages must
  be plain: no images, and the texts of tool results in ASCII.
\<close>

theorem undo_takes_back_turn:
  assumes "session_thread sid tid sm = Some th" "undo_reach (fst (get_undo_manager tid sm))"
    "plain_thread (ie_to_str ie) (ie_compact ie th)" "begin_turn ie cid now content sid tid sm = (Inr ms, sm1)"
    "session_thread sid tid sm2 = Some th2" "hm_get (sm_undo_managers sm2) tid = hm_get (sm_undo_managers sm1) tid"
    "process_undo (ie_to_str ie) cid2 now2 sid tid sm2 = (r, sm3)"
  shows "\<exists>th3. session_thread sid tid sm3 = Some th3 \<and> ct_state th3 = ChatIdle \<and>
    thread_messages (ie_to_str ie) th3 = thread_messages (ie_to_str ie) (ie_compact ie th) \<and>
    (plain_thread (ie_to_str ie) th2 \<longrightarrow>
      (\<exists>th4. session_thread sid tid (snd (process_redo (ie_to_str ie) cid3 now3 sid tid sm3)) = Some th4 \<and>
        thread_messages (ie_to_str ie) th4 = thread_messages (ie_to_str ie) th2))"
proof -
  let ?to = "ie_to_str ie"
  obtain um1 where um1: "hm_get (sm_undo_managers sm1) tid = Some um1"
    "um1 = take_checkpoint cid (turn_number (ie_compact ie th)) (thread_messages ?to (ie_compact ie th))
        (''Before turn '' @ show_nat (turn_number (ie_compact ie th))) (fst (get_undo_manager tid sm))"
    using begin_turn_effect [OF assms(1,4)] by blast
  have "um_max_checkpoints (fst (get_undo_manager tid sm)) > 0"
    using undo_reach_bounded [OF assms(2)] by (simp add: DEFAULT_MAX_CHECKPOINTS_def)
  from chat.undo_checkpoint [OF assms(3) this um1(2), of cid2 "turn_number th2" "thread_messages ?to th2" now2 th2]
  obtain c um2 f where u: "can_undo um1" "undo cid2 (turn_number th2) (thread_messages ?to th2) um1 = (Some c, um2)"
    "thread_messages ?to (restore_from_messages now2 (cpt_messages c) th2) = thread_messages ?to (ie_compact ie th)"
    "um_redo_stack um2 = [f]" "cpt_messages f = thread_messages ?to th2" by blast
  let ?th3 = "restore_from_messages now2 (cpt_messages c) th2"
  have 3: "session_thread sid tid sm3 = Some ?th3" "hm_get (sm_undo_managers sm3) tid = Some um2"
    using undo_effect [OF assms(5) _ u(1,2) assms(7)] assms(6) um1(1) by simp_all
  have "\<exists>th4. session_thread sid tid (snd (process_redo ?to cid3 now3 sid tid sm3)) = Some th4 \<and>
      thread_messages ?to th4 = thread_messages ?to th2" if "plain_thread ?to th2"
  proof -
    from chat.redo_undone [OF that u(4,5), of cid3 "turn_number ?th3" "thread_messages ?to ?th3" now3 ?th3]
    obtain c' um3 where "can_redo um2" "redo cid3 (turn_number ?th3) (thread_messages ?to ?th3) um2 = (Some c', um3)"
      "thread_messages ?to (restore_from_messages now3 (cpt_messages c') ?th3) = thread_messages ?to th2" by blast
    with redo_effect [OF 3(1,2)] show ?thesis by blast
  qed
  with 3(1) u(3) show ?thesis by (auto simp: restore_from_messages_def)
qed

definition sample_input :: input_env where
  "sample_input = \<lparr>ie_checks = \<lparr>ic_validate = (\<lambda>_. None), ic_blocked = (\<lambda>_. False), ic_secret = (\<lambda>_. None)\<rparr>,
     ie_route = (\<lambda>_. None), ie_compact = (\<lambda>th. th), ie_augment = (\<lambda>s. (s, [])), ie_transform = (\<lambda>s. s),
     ie_to_str = (\<lambda>_. [])\<rparr>"

definition chat_manager :: session_manager where
  "chat_manager = snd (resolve_thread (\<lambda>_. None) 11 12 0 ''alice'' ''http'' None new_session_manager)"

lemma chat_manager_facts:
  "session_thread 11 12 chat_manager = Some (chat_thread_with_id 0 12 11)"
  "fst (get_undo_manager 12 chat_manager) = new_undo_manager"
  "leads_to chat_manager ''alice'' ''http'' None 11 12"
  by (simp_all add: chat_manager_def session_thread_def resolve_thread_def resolve_thread_with_parsed_uuid_def
      get_or_create_session_def new_session_manager_def resolve_lookup_def resolve_create_def modify_session_def
      new_session_def create_chat_thread_def get_undo_manager_def ensure_undo_manager_def leads_to_def
      user_session_def Let_def hm_modify_def)

lemma sample_plain: "plain_thread to_str (chat_thread_with_id now tid sid)"
  by (simp add: plain_thread_def chat_thread_with_id_def)

theorem undo_takes_back_turn_witness:
  "\<exists>th3. session_thread 11 12 (snd (process_undo (\<lambda>_. []) 22 5 11 12
       (snd (end_turn id 4 (ClrResponse ''hi'') 11 12 (snd (begin_turn sample_input 21 3 ''hello'' 11 12 chat_manager))))))
     = Some th3 \<and> thread_messages (\<lambda>_. []) th3 = []"
proof -
  let ?sm1 = "snd (begin_turn sample_input 21 3 ''hello'' 11 12 chat_manager)"
  let ?sm2 = "snd (end_turn id 4 (ClrResponse ''hi'') 11 12 ?sm1)"
  note e = begin_turn_effect [OF chat_manager_facts(1), of sample_input 21 3 "''hello''", OF surjective_pairing]
  obtain ms where b: "begin_turn sample_input 21 3 ''hello'' 11 12 chat_manager = (Inr ms, ?sm1)"
    using e by (metis surjective_pairing)
  obtain th2 where 2: "session_thread 11 12 ?sm2 = Some th2"
    "hm_get (sm_undo_managers ?sm2) 12 = hm_get (sm_undo_managers ?sm1) 12"
    using e by (simp add: end_turn_def finish_turn_def turn_begun_def session_thread_modify in_last_turn_def
        start_turn_def)
  obtain r sm3 where u: "process_undo (ie_to_str sample_input) 22 5 11 12 ?sm2 = (r, sm3)" by fastforce
  have "undo_reach (fst (get_undo_manager 12 chat_manager))" by (simp add: chat_manager_facts ur_new)
  moreover have "plain_thread (ie_to_str sample_input) (ie_compact sample_input (chat_thread_with_id 0 12 11))"
    by (simp add: sample_input_def sample_plain)
  ultimately have "\<exists>th3. session_thread 11 12 sm3 = Some th3 \<and> thread_messages (ie_to_str sample_input) th3
      = thread_messages (ie_to_str sample_input) (ie_compact sample_input (chat_thread_with_id 0 12 11))"
    using undo_takes_back_turn [OF chat_manager_facts(1) _ _ b 2 u] by blast
  moreover have "ie_to_str sample_input = (\<lambda>_. [])" "ie_compact sample_input = (\<lambda>th. th)"
    by (simp_all add: sample_input_def)
  ultimately show ?thesis using u by (simp add: thread_messages_def chat_thread_with_id_def)
qed

text \<open>
  C40. An undo while a turn runs puts its answer in the wrong place: the thread goes back to the turns before
  the running one, and when the loop of that turn ends its answer replaces the answer of the turn
  that is now the last.
\<close>

theorem undo_during_turn_misplaces_response:
  assumes "session_thread sid tid sm = Some th" "undo_reach (fst (get_undo_manager tid sm))" "ie_compact ie th = th"
    "ct_turns th \<noteq> []" "begin_turn ie cid now content sid tid sm = (Inr ms, sm1)"
    "process_undo (ie_to_str ie) cid2 now2 sid tid sm1 = (r, sm2)"
  shows "\<exists>th3. session_thread sid tid (snd (end_turn transform now3 (ClrResponse answer) sid tid sm2)) = Some th3 \<and>
    length (ct_turns th3) = length (ct_turns th) \<and>
    tn_user_input (last (ct_turns th3)) = tn_user_input (last (ct_turns th)) \<and>
    tn_response (last (ct_turns th3)) = Some (transform answer)"
proof -
  let ?to = "ie_to_str ie"
  let ?th1 = "turn_begun ie now content th"
  let ?um1 = "take_checkpoint cid (turn_number th) (thread_messages ?to th)
        (''Before turn '' @ show_nat (turn_number th)) (fst (get_undo_manager tid sm))"
  have b: "session_thread sid tid sm1 = Some ?th1" "hm_get (sm_undo_managers sm1) tid = Some ?um1"
    using begin_turn_effect [OF assms(1,5)] assms(3) by simp_all
  have "um_max_checkpoints (fst (get_undo_manager tid sm)) > 0"
    using undo_reach_bounded [OF assms(2)] by (simp add: DEFAULT_MAX_CHECKPOINTS_def)
  then obtain c um2 where u: "can_undo ?um1" "undo cid2 (turn_number ?th1) (thread_messages ?to ?th1) ?um1 = (Some c, um2)"
    "cpt_messages c = thread_messages ?to th"
    by (auto simp: take_checkpoint_def push_undo_def can_undo_def undo_def new_checkpoint_def Let_def)
  let ?th2 = "restore_from_messages now2 (thread_messages ?to th) ?th1"
  have 2: "session_thread sid tid sm2 = Some ?th2"
    using undo_effect [OF b u(1,2) assms(6)] u(3) by simp
  have t: "ct_turns ?th2 = map (\<lambda>(i, t). restored_turn ?to now2 i t) (enumerate 0 (ct_turns th))"
    by (simp add: restore_from_messages_def thread_messages_def restore_turns_messages)
  have l: "tn_user_input (last (ct_turns ?th2)) = tn_user_input (last (ct_turns th))"
    using assms(4) by (simp add: t last_map last_conv_nth nth_enumerate_eq case_prod_beta)
  have "ct_turns ?th2 \<noteq> []" "length (ct_turns ?th2) = length (ct_turns th)" "ct_state ?th2 = ChatIdle"
    using assms(4) by (simp_all add: t) (simp add: restore_from_messages_def)
  with 2 l show ?thesis
    by (simp add: end_turn_def finish_turn_def session_thread_modify complete_turn_def turn_complete_def)
qed

theorem undo_during_turn_misplaces_response_witness:
  "\<exists>th3. session_thread 11 12 (snd (end_turn id 9 (ClrResponse ''second answer'') 11 12
       (snd (process_undo (\<lambda>_. []) 22 8 11 12 (snd (begin_turn sample_input 21 7 ''second question'' 11 12
         (modify_thread 11 12 (complete_turn 6 ''first answer'' \<circ> start_turn 5 ''first question'') chat_manager)))))))
     = Some th3 \<and> tn_user_input (last (ct_turns th3)) = ''first question'' \<and>
     tn_response (last (ct_turns th3)) = Some ''second answer''"
proof -
  let ?th = "complete_turn 6 ''first answer'' (start_turn 5 ''first question'' (chat_thread_with_id 0 12 11))"
  let ?sm = "modify_thread 11 12 (complete_turn 6 ''first answer'' \<circ> start_turn 5 ''first question'') chat_manager"
  let ?sm1 = "snd (begin_turn sample_input 21 7 ''second question'' 11 12 ?sm)"
  have th: "session_thread 11 12 ?sm = Some ?th" by (simp add: session_thread_modify chat_manager_facts)
  have reach: "undo_reach (fst (get_undo_manager 12 ?sm))"
    by (simp add: get_undo_manager_modify chat_manager_facts ur_new)
  have c: "ie_compact sample_input ?th = ?th" and to: "ie_to_str sample_input = (\<lambda>_. [])" by (simp_all add: sample_input_def)
  have t: "ct_turns ?th \<noteq> []" "tn_user_input (last (ct_turns ?th)) = ''first question''"
    by (simp_all add: complete_turn_def start_turn_def new_turn_def turn_complete_def)
  obtain ms where b: "begin_turn sample_input 21 7 ''second question'' 11 12 ?sm = (Inr ms, ?sm1)"
    using begin_turn_effect [OF th, of sample_input 21 7 "''second question''", OF surjective_pairing]
    by (metis surjective_pairing)
  obtain r sm2 where u: "process_undo (ie_to_str sample_input) 22 8 11 12 ?sm1 = (r, sm2)" by fastforce
  from undo_during_turn_misplaces_response [OF th reach c t(1) b u, of id 9 "''second answer''"] show ?thesis
    using u by (auto simp: to t(2))
qed

lemma leads_to_locked:
  "leads_to sm uid ch ext sid tid \<Longrightarrow> session_keeps f \<Longrightarrow> leads_to (modify_session sid' f sm) uid ch ext sid tid"
proof -
  assume l: "leads_to sm uid ch ext sid tid" and f: "session_keeps f"
  then obtain s where s: "user_session sm uid sid s" "hm_get (se_threads s) tid \<noteq> None"
    "hm_get (sm_thread_map sm) (uid, ch, ext) = Some tid" by (auto simp: leads_to_def)
  have "\<exists>s'. user_session (modify_session sid' f sm) uid sid s' \<and> hm_get (se_threads s') tid \<noteq> None"
    using user_session_locked [OF f s(1), of sid'] s(2) f
    by (intro exI [of _ "if sid = sid' then f s else s"]) (simp add: session_keeps_def)
  moreover have "hm_get (sm_thread_map (modify_session sid' f sm)) (uid, ch, ext) = Some tid"
    using s(3) by (simp add: modify_session_def)
  ultimately show ?thesis unfolding leads_to_def by blast
qed

lemma session_keeps_switch: "session_keeps (snd \<circ> switch_thread now tid)"
  by (simp add: session_keeps_def switch_thread_def)

text \<open>
  The commands \<open>/thread new\<close> and \<open>/thread <id>\<close> do not redirect a conversation: they set the active
  thread of the session, but the thread of the next message is found by the conversation it comes
  from, which still leads to the thread it led to.
\<close>

lemma thread_commands_do_not_redirect:
  assumes "leads_to sm uid ch ext sid tid"
  shows "let sm1 = snd (process_new_thread nsid ntid now uid sm);
      sm2 = snd (process_switch_thread nsid now uid target sm)
    in (\<exists>s. hm_get (sm_store sm1) sid = Some s \<and> se_active_thread s = Some ntid) \<and>
       resolve_thread parse nsid2 ntid2 now2 uid ch ext sm1 = ((sid, tid), sm1) \<and>
       (session_has_thread sid target sm \<longrightarrow>
          (\<exists>s. hm_get (sm_store sm2) sid = Some s \<and> se_active_thread s = Some target)) \<and>
       resolve_thread parse nsid2 ntid2 now2 uid ch ext sm2 = ((sid, tid), sm2)"
proof -
  obtain s where s: "user_session sm uid sid s" using assms by (auto simp: leads_to_def)
  then have g: "get_or_create_session nsid now uid sm = (sid, sm)"
    by (simp add: user_session_def get_or_create_session_def)
  have st: "hm_get (sm_store sm) sid = Some s" using s by (simp add: user_session_def)
  note l1 = leads_to_locked [OF assms session_keeps_create [of now ntid], of sid]
  note l2 = leads_to_locked [OF assms session_keeps_switch [of now target], of sid]
  show ?thesis
    using leads_to_fast [OF l1] leads_to_fast [OF l2] leads_to_fast [OF assms] st
    by (auto simp: process_new_thread_def process_switch_thread_def g resolve_thread_def modify_session_def
        create_chat_thread_def switch_thread_def session_has_thread_def Let_def)
qed

lemma thread_commands_do_not_redirect_witness:
  "resolve_thread (\<lambda>_. None) 31 32 5 ''alice'' ''http'' None (snd (process_new_thread 13 14 4 ''alice'' chat_manager))
     = ((11, 12), snd (process_new_thread 13 14 4 ''alice'' chat_manager))"
  using thread_commands_do_not_redirect [OF chat_manager_facts(3), of 13 14 4 12 "\<lambda>_. None" 31 32 5]
  unfolding Let_def by blast

text \<open>
  The queue of a thread and the text that the loop over queued messages has in hand. A message is
  queued; the queue is drained into the hand; the hand is emptied by a response or put back. An
  interrupt, a clear and a timeout that suppresses the response throw the queue away; they are no steps
  of a run.
\<close>

inductive inbox_step :: "chat_thread \<times> string option \<Rightarrow> string option \<Rightarrow> string option \<Rightarrow> chat_thread \<times> string option \<Rightarrow> bool" where
  ib_queue: "queue_message now m th = (True, th') \<Longrightarrow> inbox_step (th, h) (Some m) None (th', h)"
| ib_full: "queue_message now m th = (False, th') \<Longrightarrow> inbox_step (th, h) None None (th', h)"
| ib_drain: "drain_pending_messages now th = (Some m, th') \<Longrightarrow> inbox_step (th, None) None None (th', Some m)"
| ib_done: "inbox_step (th, Some m) None (Some m) (th, None)"
| ib_back: "inbox_step (th, Some m) None None (requeue_drained now m th, None)"

text \<open>A run of the inbox, with the messages accepted and the texts answered, each in order.\<close>

inductive inbox_run :: "chat_thread \<times> string option \<Rightarrow> string list \<Rightarrow> string list \<Rightarrow> chat_thread \<times> string option \<Rightarrow> bool" where
  ir_start: "inbox_run s [] [] s"
| ir_step: "inbox_run s ins outs s1 \<Longrightarrow> inbox_step s1 i o' s2 \<Longrightarrow>
     inbox_run s (ins @ (case i of Some m \<Rightarrow> [m] | None \<Rightarrow> [])) (outs @ (case o' of Some m \<Rightarrow> [m] | None \<Rightarrow> [])) s2"

definition inbox_text :: "chat_thread \<times> string option \<Rightarrow> string list" where
  "inbox_text s = (case snd s of Some m \<Rightarrow> [m] | None \<Rightarrow> []) @ ct_pending_messages (fst s)"

lemma join_with_simps:
  "join_with sep [w] = w" "xs \<noteq> [] \<Longrightarrow> join_with sep (w # xs) = w @ sep @ join_with sep xs"
  by (auto simp: join_with_def split: list.splits)

lemma join_with_append:
  "xs \<noteq> [] \<Longrightarrow> ys \<noteq> [] \<Longrightarrow> join_with sep (xs @ ys) = join_with sep xs @ sep @ join_with sep ys"
proof (induction xs)
  case (Cons x xs)
  then show ?case by (cases "xs = []") (simp_all add: join_with_simps)
qed simp

lemma join_with_joined:
  "ys \<noteq> [] \<Longrightarrow> join_with sep (xs @ join_with sep ys # zs) = join_with sep (xs @ ys @ zs)"
proof -
  assume y: "ys \<noteq> []"
  have "join_with sep (join_with sep ys # zs) = join_with sep (ys @ zs)"
    using y by (cases "zs = []") (simp_all add: join_with_simps join_with_append)
  with y show ?thesis by (cases "xs = []") (simp_all add: join_with_append)
qed



end
