(* ===== verification/Chat_Recovery.thy ===== *)
theory Chat_Recovery
  imports Chat_Turns
begin

text \<open>
  What becomes of a conversation that is not in memory, of messages whose turn fails, and of tokens
  typed into a chat.
\<close>

section \<open>Threads from the database\<close>

lemma resolve_unmapped:
  assumes "user_session sm uid sid s" "hm_get (sm_thread_map sm) (uid, ch, Some ext) = None"
    "parse ext = Some u" "u \<in> set (hm_values (sm_thread_map sm))"
  shows "resolve_thread parse nsid ntid now uid ch (Some ext) sm
    = ((sid, ntid), resolve_create now ntid (uid, ch, Some ext) sid sm)"
  using assms
  by (simp add: resolve_thread_def resolve_thread_with_parsed_uuid_def user_session_def get_or_create_session_def
      resolve_lookup_def Let_def)

lemma resolve_create_thread:
  assumes "user_session sm uid sid s" "hm_get (se_threads s) tid = None"
  shows "session_thread sid tid (resolve_create now tid key sid sm) = Some (chat_thread_with_id now tid sid)"
  using assms
  by (auto simp: resolve_create_def session_thread_def modify_session_def create_chat_thread_def user_session_def Let_def)

lemma hm_get_in_values: "hm_get m k = Some v \<Longrightarrow> v \<in> set (hm_values m)"
  by (induction m) (auto split: if_splits)

text \<open>
  C27. A conversation of the caller that is not in memory is restored from the database under its identifier.
  When the message spells the identifier in the usual form, the message goes to the restored thread;
  when it spells it in another form that the parser of identifiers accepts (capitals, braces), the restored
  thread is registered under the usual form only, and the message starts an empty thread instead.
\<close>

theorem hydrated_thread_is_found:
  assumes "sm_reach sm" "hm_get (sm_store sm) nsid = None" "parse ext = Some u"
    "get_or_create_session nsid now uid sm = (sid, sm1)" "\<not> session_has_thread sid u sm1" "db_belongs d u uid = Inr True"
    "maybe_hydrate_thread parse pj (Some d) nsid now uid ch ext sm = (r, sm2)"
  shows "r = None \<and>
    session_thread sid u sm2 = Some (let ms = rebuild_chat_messages_from_db pj (db_messages d u)
      in if ms = [] then chat_thread_with_id now u sid else restore_from_messages now ms (chat_thread_with_id now u sid)) \<and>
    (ext = show_nat u \<longrightarrow> resolve_thread parse nsid2 ntid now2 uid ch (Some ext) sm2 = ((sid, u), sm2)) \<and>
    (ext \<noteq> show_nat u \<and> hm_get (sm_thread_map sm1) (uid, ch, Some ext) = None \<and> \<not> session_has_thread sid ntid sm2 \<longrightarrow>
      (\<exists>sm3. resolve_thread parse nsid2 ntid now2 uid ch (Some ext) sm2 = ((sid, ntid), sm3) \<and>
         session_thread sid ntid sm3 = Some (chat_thread_with_id now2 ntid sid)))"
proof -
  define th where "th = (let ms = rebuild_chat_messages_from_db pj (db_messages d u)
      in if ms = [] then chat_thread_with_id now u sid else restore_from_messages now ms (chat_thread_with_id now u sid))"
  define f where "f s = s\<lparr>se_threads := hm_insert u th (se_threads s), se_active_thread := Some u, se_last_active_at := now\<rparr>"
    for s :: session
  have sm2: "sm2 = register_thread uid ch u sid (modify_session sid f sm1)" and r: "r = None"
    using assms(3-7) by (simp_all add: maybe_hydrate_thread_def th_def f_def [abs_def] Let_def)
  have k: "session_keeps f" by (auto simp: session_keeps_def f_def)
  obtain s where s: "user_session sm1 uid sid s"
    using get_or_create_session_ok [OF sm_reach_ok [OF assms(1)] assms(2,4)] by blast
  have us: "user_session (modify_session sid f sm1) uid sid (f s)" using user_session_locked [OF k s, of sid] by simp
  then have in_map: "hm_get (sm_sessions (modify_session sid f sm1)) uid = Some sid" by (simp add: user_session_def)
  have eq: "sm_store sm2 = sm_store (modify_session sid f sm1)" "sm_sessions sm2 = sm_sessions (modify_session sid f sm1)"
    "sm_thread_map sm2 = hm_insert (uid, ch, Some (show_nat u)) u (sm_thread_map sm1)"
    using in_map by (simp_all add: sm2 register_thread_def Let_def modify_session_def)
  have us2: "user_session sm2 uid sid (f s)" using us by (simp add: user_session_def eq)
  have th: "session_thread sid u sm2 = Some th" using us2 by (simp add: session_thread_def user_session_def f_def)
  have "leads_to sm2 uid ch (Some (show_nat u)) sid u" using us2 by (auto simp: leads_to_def eq f_def)
  then have found: "ext = show_nat u \<Longrightarrow> resolve_thread parse nsid2 ntid now2 uid ch (Some ext) sm2 = ((sid, u), sm2)"
    by (simp add: leads_to_fast resolve_thread_def)
  have lost: "\<exists>sm3. resolve_thread parse nsid2 ntid now2 uid ch (Some ext) sm2 = ((sid, ntid), sm3) \<and>
       session_thread sid ntid sm3 = Some (chat_thread_with_id now2 ntid sid)"
    if "ext \<noteq> show_nat u" "hm_get (sm_thread_map sm1) (uid, ch, Some ext) = None" "\<not> session_has_thread sid ntid sm2"
  proof -
    have "hm_get (sm_thread_map sm2) (uid, ch, Some ext) = None" using that by (simp add: eq)
    moreover have "u \<in> set (hm_values (sm_thread_map sm2))"
      by (rule hm_get_in_values [of _ "(uid, ch, Some (show_nat u))"]) (simp add: eq)
    moreover have "hm_get (se_threads (f s)) ntid = None"
      using that(3) us2 by (simp add: session_has_thread_def user_session_def)
    ultimately show ?thesis
      using resolve_unmapped [OF us2, of ch ext parse u nsid2 ntid now2] assms(3) resolve_create_thread [OF us2, of ntid now2] by simp
  qed
  show ?thesis using r th found lost unfolding th_def by blast
qed

definition one_conversation :: conversation_db where
  "one_conversation = \<lparr>db_belongs = (\<lambda>_ _. Inr True), db_messages = (\<lambda>_. [\<lparr>cv_role = ''user'', cv_content = ''hi''\<rparr>])\<rparr>"

theorem hydrated_thread_is_found_witness:
  "let sm2 = snd (maybe_hydrate_thread (\<lambda>_. Some 7) (\<lambda>_. None) (Some one_conversation) 11 5 ''alice'' ''web'' ''7'' new_session_manager)
    in resolve_thread (\<lambda>_. Some 7) 31 32 6 ''alice'' ''web'' (Some ''7'') sm2 = ((11, 7), sm2)"
proof -
  obtain r sm2 where h: "maybe_hydrate_thread (\<lambda>_. Some 7) (\<lambda>_. None) (Some one_conversation) 11 5 ''alice'' ''web'' ''7''
      new_session_manager = (r, sm2)" by fastforce
  obtain sm1 where g: "get_or_create_session 11 5 ''alice'' new_session_manager = (11, sm1)"
    "\<not> session_has_thread 11 7 sm1"
    by (simp add: get_or_create_session_def new_session_manager_def session_has_thread_def new_session_def)
  have "sm_reach new_session_manager" "hm_get (sm_store new_session_manager) 11 = None"
    by (simp_all add: sm_reach_def new_session_manager_def)
  from hydrated_thread_is_found [OF this _ g _ h, of 31 32 6]
  have "''7'' = show_nat 7 \<Longrightarrow> resolve_thread (\<lambda>_. Some 7) 31 32 6 ''alice'' ''web'' (Some ''7'') sm2 = ((11, 7), sm2)"
    by (simp add: one_conversation_def)
  moreover have "''7'' = show_nat 7" by code_simp
  ultimately show ?thesis unfolding h Let_def snd_conv by blast
qed

section \<open>Messages whose turn fails\<close>

lemma drain_round_stops:
  assumes "session_thread sid tid sm = Some th" "drain_pending_messages (now n) th = (Some m, th1)" "\<not> suppressed n"
    "run n m (modify_thread sid tid (\<lambda>_. th1) sm) = (Inr (SrError e), sm1)"
  shows "drain_loop (Suc (Suc fuel)) now suppressed run n sid tid (Inr (SrResponse answer)) sm
    = Some (Inr (SrError e), modify_thread sid tid (requeue_drained (now n) m) sm1)"
  using assms by simp

lemma turn_fails:
  assumes "session_thread sid tid sm = Some th" "ct_state th = ChatIdle" "input_checks_and_route ie False m = None"
    "\<And>ms s. loop ms s = (ClrError e, s)"
  shows "\<exists>sm1. process_user_input ie cid now loop False m sid tid sm = (Inr (SrError e), sm1) \<and>
    session_thread sid tid sm1 = Some (fail_turn now e (turn_begun ie now m th))"
proof -
  obtain ms sm2 where b: "begin_turn ie cid now m sid tid sm = (Inr ms, sm2)"
    using begin_turn_effect [OF assms(1), of ie cid now m, OF surjective_pairing] by (metis surjective_pairing)
  have s2: "session_thread sid tid sm2 = Some (turn_begun ie now m th)"
    using begin_turn_effect [OF assms(1) b] by blast
  have st: "ct_state (turn_begun ie now m th) = ChatProcessing"
    by (simp add: turn_begun_def in_last_turn_def start_turn_def)
  have "end_turn (ie_transform ie) now (ClrError e) sid tid sm2
      = (Inr (SrError e), modify_thread sid tid (\<lambda>_. fail_turn now e (turn_begun ie now m th)) sm2)"
    using s2 st by (simp add: end_turn_def finish_turn_def)
  then have "process_user_input ie cid now loop False m sid tid sm
      = (Inr (SrError e), modify_thread sid tid (\<lambda>_. fail_turn now e (turn_begun ie now m th)) sm2)"
    using assms b by (simp add: process_user_input_def input_state_check_def)
  with s2 show ?thesis by (simp add: session_thread_modify)
qed

text \<open>
  A queued message whose turn fails is said twice: the message is already the input of a turn when the
  loop over queued messages puts it back, and the next drain makes a second turn of it.
\<close>

lemma failed_drain_repeats_input:
  assumes "session_thread sid tid sm = Some th" "ct_state th = ChatIdle" "ct_pending_messages th = [m]"
    "\<And>t. ie_compact ie t = t" "ie_augment ie m = (m, [])" "input_checks_and_route ie False m = None"
    "\<And>ms s. loop ms s = (ClrError e, s)"
  shows "\<exists>sm'. drain_loop (Suc (Suc fuel)) (\<lambda>_. now) (\<lambda>_. False)
        (\<lambda>n c. process_user_input ie cid now loop False c sid tid) 0 sid tid (Inr (SrResponse answer)) sm
      = Some (Inr (SrError e), sm') \<and>
    (\<exists>th'. session_thread sid tid sm' = Some th' \<and> tn_user_input (last (ct_turns th')) = m \<and>
      tn_state (last (ct_turns th')) = TurnFailed \<and> length (ct_turns th') = Suc (length (ct_turns th)) \<and>
      ct_state th' = ChatIdle \<and> fst (drain_pending_messages now2 th') = Some m)"
proof -
  let ?th1 = "snd (drain_pending_messages now th)"
  have d: "drain_pending_messages now th = (Some m, ?th1)"
    using assms(3) by (simp add: drain_pending_messages_def join_with_simps)
  have th1: "ct_state ?th1 = ChatIdle" "ct_turns ?th1 = ct_turns th" "ct_pending_messages ?th1 = []"
    using assms(2,3) by (simp_all add: drain_pending_messages_def)
  have "session_thread sid tid (modify_thread sid tid (\<lambda>_. ?th1) sm) = Some ?th1"
    using assms(1) by (simp add: session_thread_modify)
  from turn_fails [OF this th1(1) assms(6), of loop e cid now] assms(7)
  obtain sm1 where run: "process_user_input ie cid now loop False m sid tid (modify_thread sid tid (\<lambda>_. ?th1) sm)
      = (Inr (SrError e), sm1)" "session_thread sid tid sm1 = Some (fail_turn now e (turn_begun ie now m ?th1))" by blast
  let ?th' = "requeue_drained now m (fail_turn now e (turn_begun ie now m ?th1))"
  have t: "ct_turns (turn_begun ie now m ?th1) = ct_turns th @ [new_turn now (length (ct_turns th)) m]"
    "ct_pending_messages (turn_begun ie now m ?th1) = []"
    using assms(4,5) th1(2,3)
    by (simp_all add: turn_begun_def in_last_turn_def start_turn_def update_last_def new_turn_def)
  have "tn_user_input (last (ct_turns ?th')) = m" "tn_state (last (ct_turns ?th')) = TurnFailed"
    "length (ct_turns ?th') = Suc (length (ct_turns th))" "ct_state ?th' = ChatIdle" "ct_pending_messages ?th' = [m]"
    by (simp_all add: requeue_drained_def fail_turn_def t update_last_def turn_fail_def new_turn_def)
  then have "tn_user_input (last (ct_turns ?th')) = m \<and> tn_state (last (ct_turns ?th')) = TurnFailed \<and>
      length (ct_turns ?th') = Suc (length (ct_turns th)) \<and> ct_state ?th' = ChatIdle \<and>
      fst (drain_pending_messages now2 ?th') = Some m"
    by (simp add: drain_pending_messages_def join_with_simps)
  moreover have "session_thread sid tid (modify_thread sid tid (requeue_drained now m) sm1) = Some ?th'"
    using run(2) by (simp add: session_thread_modify)
  ultimately show ?thesis
    using drain_round_stops [OF assms(1), of "\<lambda>_. now" 0 m ?th1 "\<lambda>_. False"
        "\<lambda>n c. process_user_input ie cid now loop False c sid tid" e sm1 fuel answer] d run(1) by blast
qed

lemma failed_drain_repeats_input_witness:
  "\<exists>sm' th'. drain_loop 2 (\<lambda>_. 6) (\<lambda>_. False)
        (\<lambda>n c. process_user_input sample_input 21 6 (\<lambda>ms s. (ClrError ''e'', s)) False c 11 12) 0 11 12 (Inr (SrResponse ''done''))
        (modify_thread 11 12 (\<lambda>th. th\<lparr>ct_pending_messages := [''pay'']\<rparr>) chat_manager) = Some (Inr (SrError ''e''), sm') \<and>
      session_thread 11 12 sm' = Some th' \<and> tn_user_input (last (ct_turns th')) = ''pay'' \<and>
      fst (drain_pending_messages 7 th') = Some ''pay''"
proof -
  let ?th = "(chat_thread_with_id 0 12 11)\<lparr>ct_pending_messages := [''pay'']\<rparr>"
  let ?sm = "modify_thread 11 12 (\<lambda>th. th\<lparr>ct_pending_messages := [''pay'']\<rparr>) chat_manager"
  have "session_thread 11 12 ?sm = Some ?th" by (simp add: session_thread_modify chat_manager_facts)
  moreover have "ct_state ?th = ChatIdle" "ct_pending_messages ?th = [''pay'']" by (simp_all add: chat_thread_with_id_def)
  moreover have "ie_compact sample_input t = t" "ie_augment sample_input ''pay'' = (''pay'', [])"
    "input_checks_and_route sample_input False ''pay'' = None" for t
    by (simp_all add: sample_input_def input_checks_and_route_def check_input_def)
  ultimately show ?thesis
    using failed_drain_repeats_input [of 11 12 ?sm ?th "''pay''" sample_input "\<lambda>ms s. (ClrError ''e'', s)" "''e''" 0 6 21 "''done''" 7]
    by (simp only: numeral_2_eq_2) blast
qed

section \<open>Tokens\<close>



end
