(* ===== verification/Response_Text.thy ===== *)
theory Response_Text
  imports Text_Ops Llm_Types
begin

text \<open>
  What is done to the text of a model before anybody sees it (\<open>src/llm/reasoning.rs\<close>, and two helpers of
  \<open>src/agent/dispatcher.rs\<close>): the search for an intention to call a tool, the regions of code, the
  removal of thinking, of tool calls written as text and of suggestions.

  Positions are counted in characters where the code counts bytes; they are only compared with positions
  in the same text. The regular expressions of the code are matchers at a position.
\<close>

section \<open>Searching and replacing\<close>

text \<open>\<open>find\<close>: the text before and after the first occurrence.\<close>

fun split_first :: "string \<Rightarrow> string \<Rightarrow> (string \<times> string) option" where
  "split_first p [] = (if p = [] then Some ([], []) else None)"
| "split_first p (c # s) =
     (if starts_with (c # s) p then Some ([], drop (length p) (c # s))
      else map_option (\<lambda>(l, r). (c # l, r)) (split_first p s))"

text \<open>\<open>rfind\<close> of a character.\<close>

definition split_last_char :: "char \<Rightarrow> string \<Rightarrow> (string \<times> string) option" where
  "split_last_char c s =
     (if c \<in> set s
      then Some (rev (drop 1 (dropWhile (\<lambda>x. x \<noteq> c) (rev s))), rev (takeWhile (\<lambda>x. x \<noteq> c) (rev s)))
      else None)"

lemma split_first_Some: "split_first p s = Some (l, r) \<Longrightarrow> s = l @ p @ r"
proof (induction s arbitrary: l)
  case (Cons c s)
  show ?case
  proof (cases "starts_with (c # s) p")
    case True
    then obtain t where t: "c # s = p @ t" by (auto simp: starts_with_iff)
    from True Cons.prems have "l = []" "r = drop (length p) (c # s)" by simp_all
    then show ?thesis unfolding t by simp
  next
    case False
    then show ?thesis using Cons by auto
  qed
qed (auto split: if_splits)

lemma split_first_shorter: "split_first p s = Some (l, r) \<Longrightarrow> p \<noteq> [] \<Longrightarrow> length r < length s"
  by (drule split_first_Some) simp

lemma split_first_None: "split_first p s = None \<longleftrightarrow> \<not> contains_str s p"
proof -
  have "split_first p s = None \<longleftrightarrow> after_first s p = None" by (induction s) auto
  then show ?thesis by (simp add: contains_str_def)
qed

lemma split_last_char_Some: "split_last_char c s = Some (l, r) \<Longrightarrow> s = l @ c # r \<and> c \<notin> set r"
proof -
  assume "split_last_char c s = Some (l, r)"
  then have h: "c \<in> set s" "l = rev (drop 1 (dropWhile (\<lambda>x. x \<noteq> c) (rev s)))" "r = rev (takeWhile (\<lambda>x. x \<noteq> c) (rev s))"
    by (auto simp: split_last_char_def split: if_splits)
  from h(1) obtain d where d: "dropWhile (\<lambda>x. x \<noteq> c) (rev s) = c # d"
    using hd_dropWhile [of "\<lambda>x. x \<noteq> c" "rev s"] by (cases "dropWhile (\<lambda>x. x \<noteq> c) (rev s)") auto
  have "rev s = takeWhile (\<lambda>x. x \<noteq> c) (rev s) @ c # d" using takeWhile_dropWhile_id [of "\<lambda>x. x \<noteq> c" "rev s"] d by simp
  then have "s = rev d @ c # r" by (metis h(3) rev.simps(2) rev_append rev_rev_ident append.assoc append_Cons append_Nil)
  moreover have "c \<notin> set r" using h(3) by (auto dest: set_takeWhileD)
  ultimately show ?thesis using h(2) d by simp
qed

text \<open>\<open>replace\<close>, for a pattern that is not empty.\<close>

function replace_all :: "string \<Rightarrow> string \<Rightarrow> string \<Rightarrow> string" where
  "replace_all p q s =
     (if p = [] then s
      else case split_first p s of None \<Rightarrow> s | Some (l, r) \<Rightarrow> l @ q @ replace_all p q r)"
  by pat_completeness auto
termination
  by (relation "measure (\<lambda>(p, q, s). length s)") (auto dest: split_first_shorter)

declare replace_all.simps [simp del]

text \<open>\<open>match_indices\<close>: what follows each occurrence, occurrences not overlapping.\<close>

function all_after :: "string \<Rightarrow> string \<Rightarrow> string list" where
  "all_after p s =
     (if p = [] then []
      else case split_first p s of None \<Rightarrow> [] | Some (l, r) \<Rightarrow> r # all_after p r)"
  by pat_completeness auto
termination
  by (relation "measure (\<lambda>(p, s). length s)") (auto dest: split_first_shorter)

declare all_after.simps [simp del]

text \<open>\<open>lines\<close>: a carriage return before a line feed is dropped, and an empty rest is no line.\<close>

definition text_lines :: "string \<Rightarrow> string list" where
  "text_lines s =
     (let ps = split_at_chars (\<lambda>c. c = CHR 0x0A) s
      in map (\<lambda>l. if l \<noteq> [] \<and> last l = CHR 0x0D then butlast l else l) (butlast ps)
         @ (if last ps = [] then [] else [last ps]))"

definition slice :: "nat \<Rightarrow> nat \<Rightarrow> string \<Rightarrow> string" where
  "slice a b s = take (b - a) (drop a s)"

definition triple_tick :: string where
  "triple_tick = replicate 3 (CHR 0x60)"

section \<open>Intentions\<close>

definition TOOL_INTENT_NUDGE :: string where
  "TOOL_INTENT_NUDGE =
     ''You said you would perform an action, but you did not include any tool calls.'' @ newline
     @ ''Do NOT describe what you intend to do '' @ em_dash @ '' actually call the tool now.'' @ newline
     @ ''Use the tool_calls mechanism to invoke the appropriate tool.''"

text \<open>The character before a quote is the one kept as \<open>prev\<close>: quotes themselves are not.\<close>

fun strip_quoted :: "bool \<Rightarrow> char \<Rightarrow> string \<Rightarrow> string" where
  "strip_quoted in_quote prev [] = []"
| "strip_quoted in_quote prev (c # s) =
     (if c = CHR 0x22 \<and> prev \<noteq> CHR 0x5C then strip_quoted (\<not> in_quote) prev s
      else (if in_quote then [] else [c]) @ strip_quoted in_quote c s)"

definition strip_quoted_strings :: "string \<Rightarrow> string" where
  "strip_quoted_strings line = strip_quoted False (CHR 0x00) line"

fun prose_lines :: "bool \<Rightarrow> string list \<Rightarrow> string" where
  "prose_lines in_fence [] = []"
| "prose_lines in_fence (l # ls) =
     (if starts_with (dropWhile is_whitespace l) triple_tick then prose_lines (\<not> in_fence) ls
      else if in_fence \<or> starts_with l ''    '' \<or> starts_with l [CHR 0x09] then prose_lines in_fence ls
      else strip_quoted_strings l @ newline @ prose_lines in_fence ls)"

definition strip_code_blocks :: "string \<Rightarrow> string" where
  "strip_code_blocks s = prose_lines False (text_lines s)"

definition INTENT_EXCLUSIONS :: "string list" where
  "INTENT_EXCLUSIONS =
     [''let me explain'', ''let me know'', ''let me think'', ''let me summarize'', ''let me clarify'',
      ''let me describe'', ''let me help'', ''let me understand'', ''let me break'', ''let me outline'',
      ''let me walk you'', ''let me provide'', ''let me suggest'', ''let me elaborate'', ''let me start by'']"

definition INTENT_PREFIXES :: "string list" where
  "INTENT_PREFIXES =
     [''let me '', ''i'' @ [CHR 0x27] @ ''ll '', ''i will '', ''i'' @ [CHR 0x27] @ ''m going to '']"

definition ACTION_VERBS :: "string list" where
  "ACTION_VERBS =
     [''search'', ''look up'', ''check'', ''fetch'', ''find'', ''read the'', ''write the'', ''create'', ''run the'',
      ''execute'', ''query'', ''retrieve'', ''add it'', ''add the'', ''add this'', ''add that'', ''update the'',
      ''delete'', ''remove the'', ''look into'']"

definition llm_signals_tool_intent :: "string \<Rightarrow> bool" where
  "llm_signals_tool_intent response =
     (let lower = to_lowercase (strip_code_blocks response)
      in \<not> list_ex (contains_str lower) INTENT_EXCLUSIONS \<and>
         list_ex (\<lambda>prefix. list_ex (\<lambda>after.
           list_ex (\<lambda>verb. starts_with after verb \<or> contains_str after ('' '' @ verb)) ACTION_VERBS)
             (all_after prefix lower)) INTENT_PREFIXES)"

definition EXEC_PHRASES :: "string list" where
  "EXEC_PHRASES =
     [''run it'', ''run that'', ''run them'', ''run this'', ''run the '', ''execute it'', ''execute that'', ''execute them'',
      ''execute this'', ''execute the '', ''ship it'', ''deploy it'', ''deploy that'', ''deploy this'', ''deploy the '',
      ''send it'', ''send that'', ''send the '', ''fetch it'', ''fetch that'', ''fetch the '', ''please run '',
      ''please execute '', ''please fetch '', ''please send '', ''please deploy '']"

definition user_signals_execution_intent :: "string \<Rightarrow> bool" where
  "user_signals_execution_intent s = list_ex (contains_str (to_lowercase (strip_code_blocks s))) EXEC_PHRASES"

definition SILENT_REPLY_TOKEN :: string where
  "SILENT_REPLY_TOKEN = ''NO_REPLY''"

definition is_ascii_punctuation :: "char \<Rightarrow> bool" where
  "is_ascii_punctuation c =
     (let n = (of_char c :: nat) in 33 \<le> n \<and> n \<le> 126 \<and> \<not> is_ascii_alphanumeric c)"

definition is_silent_reply :: "string \<Rightarrow> bool" where
  "is_silent_reply s =
     (let t = str_trim s
      in t = SILENT_REPLY_TOKEN \<or>
         starts_with t SILENT_REPLY_TOKEN \<and> byte_len t \<le> length SILENT_REPLY_TOKEN + 4 \<and>
         list_all (\<lambda>c. is_whitespace c \<or> is_ascii_punctuation c) (drop (length SILENT_REPLY_TOKEN) t))"

section \<open>Regions of code\<close>

text \<open>A region is its first position and the one after its last.\<close>

type_synonym code_region = "nat \<times> nat"

definition is_inside_code :: "nat \<Rightarrow> code_region list \<Rightarrow> bool" where
  "is_inside_code pos regions \<longleftrightarrow> list_ex (\<lambda>(a, b). a \<le> pos \<and> pos < b) regions"

text \<open>The fence that a line begins with, and whether the line is nothing but a fence and blanks.\<close>

definition is_blank :: "char \<Rightarrow> bool" where
  "is_blank c \<longleftrightarrow> c = CHR '' '' \<or> c = CHR 0x09"

definition line_fence :: "string \<Rightarrow> (char \<times> nat) option" where
  "line_fence l =
     (case dropWhile is_blank l of
        [] \<Rightarrow> None
      | c # r \<Rightarrow>
          if c = CHR 0x60 \<or> c = CHR 0x7E
          then Some (c, Suc (length (takeWhile (\<lambda>x. x = c) r))) else None)"

definition closes_fence :: "char \<Rightarrow> nat \<Rightarrow> string \<Rightarrow> bool" where
  "closes_fence c n l =
     (let body = dropWhile is_blank l
      in length (takeWhile (\<lambda>x. x = c) body) \<ge> n \<and> list_all is_blank (dropWhile (\<lambda>x. x = c) body))"

text \<open>
  The fenced blocks, line by line; \<open>off\<close> is the position of the line, \<open>fence\<close> the open fence with the
  start of its block. The lines are those between line feeds, so the text ends with the last of them.
\<close>

fun fenced_regions :: "nat \<Rightarrow> (char \<times> nat \<times> nat) option \<Rightarrow> string list \<Rightarrow> code_region list" where
  "fenced_regions off fence [] = []"
| "fenced_regions off (Some (c, n, start)) [l] = [(start, off + length l)]"
| "fenced_regions off (Some (c, n, start)) (l # l2 # ls) =
     (let next = off + length l + 1
      in if closes_fence c n l then (start, next) # fenced_regions next None (l2 # ls)
         else fenced_regions next (Some (c, n, start)) (l2 # ls))"
| "fenced_regions off None (l # ls) =
     (case line_fence l of
        Some (c, n) \<Rightarrow>
          if n \<ge> 3
          then if ls = [] then [(off, off + length l)]
               else fenced_regions (off + length l + 1) (Some (c, n, off)) ls
          else fenced_regions (off + length l + 1) None ls
      | None \<Rightarrow> fenced_regions (off + length l + 1) None ls)"

text \<open>The end of the first run of exactly \<open>n\<close> backticks, \<open>k\<close> being the position of the text.\<close>

function find_tick_run :: "nat \<Rightarrow> nat \<Rightarrow> string \<Rightarrow> nat option" where
  "find_tick_run n k [] = None"
| "find_tick_run n k (c # s) =
     (if c \<noteq> CHR 0x60 then find_tick_run n (Suc k) s
      else let m = length (takeWhile (\<lambda>x. x = CHR 0x60) (c # s))
           in if m = n then Some (k + m) else find_tick_run n (k + m) (drop m (c # s)))"
  by pat_completeness auto
termination
  by (relation "measure (\<lambda>(n, k, s). length s)") auto

lemma find_tick_run_after: "find_tick_run n k s = Some e \<Longrightarrow> k \<le> e"
  by (induction n k s rule: find_tick_run.induct) (force simp: Let_def split: if_splits)+

function inline_regions :: "code_region list \<Rightarrow> nat \<Rightarrow> string \<Rightarrow> code_region list" where
  "inline_regions fenced j [] = []"
| "inline_regions fenced j (c # s) =
     (if c \<noteq> CHR 0x60 \<or> is_inside_code j fenced then inline_regions fenced (Suc j) s
      else let m = length (takeWhile (\<lambda>x. x = CHR 0x60) (c # s))
           in case find_tick_run m (j + m) (drop m (c # s)) of
                Some e \<Rightarrow> (j, e) # inline_regions fenced e (drop (e - j) (c # s))
              | None \<Rightarrow> inline_regions fenced (j + m) (drop m (c # s)))"
  by pat_completeness auto
termination
  by (relation "measure (\<lambda>(f, j, s). length s)") (auto dest!: find_tick_run_after)

definition find_code_regions :: "string \<Rightarrow> code_region list" where
  "find_code_regions s =
     (let fenced = fenced_regions 0 None (split_at_chars (\<lambda>c. c = CHR 0x0A) s)
      in sort_key fst (fenced @ inline_regions fenced 0 s))"

section \<open>Tags\<close>

text \<open>A character of a word, as \<open>\w\<close> has it.\<close>

definition is_word_char :: "char \<Rightarrow> bool" where
  "is_word_char c =
     (let n = (of_char c :: nat)
      in is_ascii_alphanumeric c \<or> n = 95 \<or> n \<in> {170, 181, 186} \<or> 192 \<le> n \<and> n \<noteq> 215 \<and> n \<noteq> 247)"

definition THINKING_NAMES :: "string list" where
  "THINKING_NAMES =
     [''think'', ''thinking'', ''thought'', ''thoughts'', ''antthinking'', ''reasoning'', ''reflection'', ''scratchpad'',
      ''inner_monologue'']"

text \<open>
  A tag of one of the names at the beginning of a text, blanks and attributes allowed: whether it closes,
  and its length.
\<close>

definition angle_tag :: "string list \<Rightarrow> string \<Rightarrow> (bool \<times> nat) option" where
  "angle_tag names s =
     (case s of
        [] \<Rightarrow> None
      | c # r \<Rightarrow>
          if c \<noteq> CHR ''<'' then None
          else
            let r1 = dropWhile is_whitespace r;
                close = starts_with r1 ''/'';
                r2 = dropWhile is_whitespace (if close then tl r1 else r1);
                r3 = dropWhile (\<lambda>x. x \<noteq> CHR ''<'' \<and> x \<noteq> CHR ''>'') r2
            in if list_ex (\<lambda>n. starts_with (to_lowercase r2) n \<and>
                    (case drop (length n) r2 of [] \<Rightarrow> True | x # _ \<Rightarrow> \<not> is_word_char x)) names
                  \<and> starts_with r3 ''>''
               then Some (close, Suc (length s - length r3)) else None)"

definition pipe_tag :: "string \<Rightarrow> (bool \<times> nat) option" where
  "pipe_tag s =
     (if \<not> starts_with s ''<|'' then None
      else
        let close = starts_with (drop 2 s) ''/'';
            r1 = dropWhile is_whitespace (drop (if close then 3 else 2) s)
        in map_option (\<lambda>n. (close, length s - length r1 + length n + 2))
             (find (\<lambda>n. starts_with (to_lowercase r1) (n @ ''|>'')) THINKING_NAMES))"

text \<open>The tags of a text that a matcher finds, with their positions, none inside another.\<close>

function tag_matches :: "(string \<Rightarrow> (bool \<times> nat) option) \<Rightarrow> nat \<Rightarrow> string \<Rightarrow> (nat \<times> bool \<times> nat) list" where
  "tag_matches m off [] = []"
| "tag_matches m off (c # s) =
     (case m (c # s) of
        Some (close, n) \<Rightarrow> (off, close, off + max 1 n) # tag_matches m (off + max 1 n) (drop (max 1 n) (c # s))
      | None \<Rightarrow> tag_matches m (Suc off) s)"
  by pat_completeness auto
termination
  by (relation "measure (\<lambda>(m, off, s). length s)") auto

definition prose_tags :: "(string \<Rightarrow> (bool \<times> nat) option) \<Rightarrow> code_region list \<Rightarrow> string \<Rightarrow> (nat \<times> bool \<times> nat) list" where
  "prose_tags m regions s = filter (\<lambda>(i, _). \<not> is_inside_code i regions) (tag_matches m 0 s)"

text \<open>The text outside the tags, whether a tag is open at the end, and where the last tag ended.\<close>

fun outside_tags :: "string \<Rightarrow> nat \<Rightarrow> bool \<Rightarrow> (nat \<times> bool \<times> nat) list \<Rightarrow> string \<times> bool \<times> nat" where
  "outside_tags s pos inside [] = ([], inside, pos)"
| "outside_tags s pos inside ((i, close, e) # ms) =
     (let (rest, fin) = outside_tags s e (\<not> close) ms
      in ((if inside then [] else slice pos i s) @ rest, fin))"

text \<open>The pieces inside \<open>final\<close> tags; \<open>None\<close> when no such tag opens.\<close>

fun inside_tags :: "string \<Rightarrow> nat \<Rightarrow> bool \<Rightarrow> (nat \<times> bool \<times> nat) list \<Rightarrow> string" where
  "inside_tags s pos inside [] = (if inside then drop pos s else [])"
| "inside_tags s pos inside ((i, close, e) # ms) =
     (if \<not> inside \<and> \<not> close then inside_tags s e True ms
      else if inside \<and> close then slice pos i s @ inside_tags s e False ms
      else inside_tags s pos inside ms)"

definition extract_final_content :: "string \<Rightarrow> code_region list \<Rightarrow> string option" where
  "extract_final_content s regions =
     (let ms = prose_tags (angle_tag [''final'']) regions s
      in if list_ex (\<lambda>(i, close, e). \<not> close) ms then Some (inside_tags s 0 False ms) else None)"

definition strip_thinking_tags :: "string \<Rightarrow> code_region list \<Rightarrow> string" where
  "strip_thinking_tags s regions =
     (let (out, inside, pos) = outside_tags s 0 False (prose_tags (angle_tag THINKING_NAMES) regions s);
          trailing = drop pos s
      in if \<not> inside then out @ trailing
         else out @ (case extract_final_content trailing (find_code_regions trailing) of Some f \<Rightarrow> f | None \<Rightarrow> []))"

definition strip_pipe_reasoning_tags :: "string \<Rightarrow> string" where
  "strip_pipe_reasoning_tags s =
     (if tag_matches pipe_tag 0 s = [] then s
      else let (out, inside, pos) = outside_tags s 0 False (prose_tags pipe_tag (find_code_regions s) s)
           in out @ (if inside then [] else drop pos s))"

text \<open>Whether there is any tag at all, complete or not.\<close>

fun quick_tag :: "string \<Rightarrow> bool" where
  "quick_tag [] = False"
| "quick_tag (c # s) =
     ((c = CHR ''<'' \<and>
       (let r1 = dropWhile is_whitespace s;
            r2 = dropWhile is_whitespace (if starts_with r1 ''/'' then tl r1 else r1)
        in list_ex (\<lambda>n. starts_with (to_lowercase r2) n \<and>
             (case drop (length n) r2 of [] \<Rightarrow> True | x # _ \<Rightarrow> \<not> is_word_char x)) (THINKING_NAMES @ [''final''])))
      \<or> quick_tag s)"

section \<open>Tool calls in the text\<close>

text \<open>
  An opening tag is \<open><tag>\<close> or \<open><tag \<close> with attributes, whichever comes first. A tag that never ends in
  \<open>>\<close> stops the loop: the rest of the text is kept, with what the loop has already copied before it.
\<close>

definition first_open_tag :: "string \<Rightarrow> string \<Rightarrow> (string \<times> string) option" where
  "first_open_tag tag s =
     (case (split_first (''<'' @ tag @ ''>'') s, split_first (''<'' @ tag @ '' '') s) of
        (Some (l1, _), Some (l2, _)) \<Rightarrow> let n = min (length l1) (length l2) in Some (take n s, drop n s)
      | (Some (l1, _), None) \<Rightarrow> Some (take (length l1) s, drop (length l1) s)
      | (None, Some (l2, _)) \<Rightarrow> Some (take (length l2) s, drop (length l2) s)
      | (None, None) \<Rightarrow> None)"

lemma first_open_tag_Some: "first_open_tag tag s = Some (l, r) \<Longrightarrow> s = l @ r"
  by (auto simp: first_open_tag_def Let_def split: option.splits)

lemma closing_shorter:
  "first_open_tag tag s = Some (l, after) \<Longrightarrow> split_first ''>'' after = Some (x, body) \<Longrightarrow>
     split_first close body = Some (y, rest) \<Longrightarrow> length rest < length s"
  by (drule first_open_tag_Some, drule split_first_Some, drule split_first_Some) simp

function strip_xml_tag :: "string \<Rightarrow> string \<Rightarrow> string" where
  "strip_xml_tag tag s =
     (case first_open_tag tag s of
        None \<Rightarrow> s
      | Some (l, after) \<Rightarrow>
          l @ (case split_first ''>'' after of
                 None \<Rightarrow> s
               | Some (_, body) \<Rightarrow>
                   (case split_first (''</'' @ tag @ ''>'') body of
                      None \<Rightarrow> []
                    | Some (_, rest) \<Rightarrow> strip_xml_tag tag rest)))"
  by pat_completeness auto
termination
  by (relation "measure (\<lambda>(tag, s). length s)") (auto intro: closing_shorter)

declare strip_xml_tag.simps [simp del]

function strip_pipe_tag :: "string \<Rightarrow> string \<Rightarrow> string" where
  "strip_pipe_tag tag s =
     (case split_first (''<|'' @ tag @ ''|>'') s of
        None \<Rightarrow> s
      | Some (l, _) \<Rightarrow>
          l @ (case split_first (''<|/'' @ tag @ ''|>'') (drop (length l) s) of
                 None \<Rightarrow> []
               | Some (_, rest) \<Rightarrow> strip_pipe_tag tag rest))"
  by pat_completeness auto
termination
proof (relation "measure (\<lambda>(tag, s). length s)")
  fix tag s l y rest and x p :: "string \<times> string" and r
  assume "split_first (''<|/'' @ tag @ ''|>'') (drop (length l) s) = Some p" "(y, rest) = p"
  then show "((tag, rest), tag, s) \<in> measure (\<lambda>(tag, s). length s)"
    by (auto dest!: split_first_shorter intro: less_le_trans)
qed simp

declare strip_pipe_tag.simps [simp del]

text \<open>A call in brackets ends with the line that ends in a bracket, or else with the last bracket.\<close>

definition bracket_end :: "string \<Rightarrow> string option" where
  "bracket_end after =
     (case split_first ('']'' @ newline) after of
        Some (_, r) \<Rightarrow> Some r
      | None \<Rightarrow> map_option snd (split_last_char (CHR '']'') after))"

definition called_prefix :: string where
  "called_prefix = ''[Called tool '' @ [CHR 0x60]"

lemma bracket_end_shorter: "bracket_end s = Some r \<Longrightarrow> length r < length s"
  by (auto simp: bracket_end_def dest!: split_first_Some split_last_char_Some split: option.splits)

function strip_bracket_tool_calls :: "string \<Rightarrow> string" where
  "strip_bracket_tool_calls s =
     (case split_first called_prefix s of
        None \<Rightarrow> s
      | Some (l, _) \<Rightarrow>
          l @ (case bracket_end (drop (length l) s) of
                 Some rest \<Rightarrow> strip_bracket_tool_calls rest
               | None \<Rightarrow> drop (length l) s))"
  by pat_completeness auto
termination
  by (relation "measure length") (auto dest!: bracket_end_shorter)

declare strip_bracket_tool_calls.simps [simp del]

function strip_function_xml_tags :: "string \<Rightarrow> string" where
  "strip_function_xml_tags s =
     (case split_first ''<function='' s of
        None \<Rightarrow> s
      | Some (l, _) \<Rightarrow>
          l @ (case split_first ''</function>'' (drop (length l) s) of
                 Some (_, rest) \<Rightarrow> strip_function_xml_tags rest
               | None \<Rightarrow> []))"
  by pat_completeness auto
termination
  by (relation "measure length") (auto dest!: split_first_shorter)

declare strip_function_xml_tags.simps [simp del]

definition TOOL_TAGS :: "string list" where
  "TOOL_TAGS = [''tool_call'', ''function_call'', ''tool_calls'']"

definition TOOL_TAG_PATTERNS :: "string list" where
  "TOOL_TAG_PATTERNS =
     [''<tool_call>'', ''<tool_call '', ''<function_call>'', ''<function_call '', ''<tool_calls>'', ''<tool_calls '',
      ''<|tool_call|>'', ''<|function_call|>'', ''<|tool_calls|>'']"

definition closing_tag_for :: "string \<Rightarrow> string option" where
  "closing_tag_for open_pattern =
     (case strip_prefix open_pattern ''<|'' of
        Some s \<Rightarrow>
          if ends_with s ''|>'' then Some (''<|/'' @ take (length s - 2) s @ ''|>'')
          else Some (''</'' @ str_trim (rev (dropWhile (\<lambda>c. c = CHR ''>'') (rev (''|'' @ s)))) @ ''>'')
      | None \<Rightarrow>
          map_option (\<lambda>rest. ''</'' @ str_trim (rev (dropWhile (\<lambda>c. c = CHR ''>'') (rev rest))) @ ''>'')
            (strip_prefix open_pattern ''<''))"

text \<open>The first occurrence of a pattern, outside code, that no closing tag follows.\<close>

function unclosed_at :: "code_region list \<Rightarrow> string \<Rightarrow> nat \<Rightarrow> string \<Rightarrow> nat option" where
  "unclosed_at regions p off s =
     (if p = [] then None
      else case split_first p s of
        None \<Rightarrow> None
      | Some (l, after) \<Rightarrow>
          if is_inside_code (off + length l) regions
          then unclosed_at regions p (off + length l + 1) (drop (length l + 1) s)
          else if (case closing_tag_for p of Some close \<Rightarrow> contains_str after close | None \<Rightarrow> False)
          then unclosed_at regions p (off + length l + length p) after
          else Some (off + length l))"
  by pat_completeness auto
termination
  by (relation "measure (\<lambda>(regions, p, off, s). length s)")
    (auto dest!: split_first_Some simp: neq_Nil_conv)

declare unclosed_at.simps [simp del]

definition to_ascii_lowercase :: "string \<Rightarrow> string" where
  "to_ascii_lowercase s = map (\<lambda>c. if (of_char c :: nat) < 128 then lower_char c else c) s"

definition min_position :: "nat option list \<Rightarrow> nat option" where
  "min_position os =
     (case map the (filter (\<lambda>x. x \<noteq> None) os) of [] \<Rightarrow> None | n # ns \<Rightarrow> Some (foldl min n ns))"

definition truncate_at_tool_tags :: "string \<Rightarrow> string" where
  "truncate_at_tool_tags s =
     (let regions = find_code_regions s; lower = to_ascii_lowercase s
      in case min_position (map (\<lambda>p. unclosed_at regions p 0 lower) TOOL_TAG_PATTERNS) of
           Some pos \<Rightarrow> take pos s
         | None \<Rightarrow> s)"

section \<open>The whole cleaning\<close>

lemma replace_triple_shorter:
  "contains_str s (replicate 3 (CHR 0x0A)) \<Longrightarrow>
     length (replace_all (replicate 3 (CHR 0x0A)) (replicate 2 (CHR 0x0A)) s) < length s"
proof (induction "replicate 3 (CHR 0x0A)" "replicate 2 (CHR 0x0A)" s rule: replace_all.induct)
  case (1 s)
  let ?p = "replicate 3 (CHR 0x0A)" and ?q = "replicate 2 (CHR 0x0A)"
  obtain l r where f: "split_first ?p s = Some (l, r)"
    using 1(2) split_first_None [of ?p s] by (cases "split_first ?p s") auto
  have "length (replace_all ?p ?q r) \<le> length r"
  proof (cases "contains_str r ?p")
    case True
    then show ?thesis using 1(1) f by (simp add: less_imp_le)
  next
    case False
    then show ?thesis using split_first_None [of ?p r] by (simp add: replace_all.simps)
  qed
  moreover have "replace_all ?p ?q s = l @ ?q @ replace_all ?p ?q r"
    by (subst replace_all.simps) (simp add: f)
  ultimately show ?case using split_first_Some [OF f] by simp
qed

function collapse_triples :: "string \<Rightarrow> string" where
  "collapse_triples s =
     (if contains_str s (replicate 3 (CHR 0x0A))
      then collapse_triples (replace_all (replicate 3 (CHR 0x0A)) (replicate 2 (CHR 0x0A)) s) else s)"
  by pat_completeness auto
termination
  by (relation "measure length") (auto intro: replace_triple_shorter simp del: replicate.simps)

declare collapse_triples.simps [simp del]

definition collapse_newlines :: "string \<Rightarrow> string" where
  "collapse_newlines s = str_trim (collapse_triples s)"

definition clean_response :: "string \<Rightarrow> string" where
  "clean_response s =
     (let r0 = (if \<not> quick_tag s then s
            else let after = strip_thinking_tags s (find_code_regions s)
                 in if tag_matches (angle_tag [''final'']) 0 after \<noteq> []
                    then (case extract_final_content after (find_code_regions after) of Some f \<Rightarrow> f | None \<Rightarrow> after)
                    else after);
          r1 = strip_pipe_reasoning_tags r0;
          r2 = foldl (\<lambda>r tag. strip_pipe_tag tag (strip_xml_tag tag r)) r1 TOOL_TAGS
      in collapse_newlines (strip_function_xml_tags (strip_bracket_tool_calls r2)))"

definition truncate_for_log :: "string \<Rightarrow> nat \<Rightarrow> string" where
  "truncate_for_log s max_bytes =
     (if byte_len s \<le> max_bytes then s else take_bytes (floor_char_boundary s max_bytes) s)"

section \<open>Other texts\<close>

definition merge_system_messages :: "string \<Rightarrow> chat_message list \<Rightarrow> string" where
  "merge_system_messages prim ms =
     (let extra = map cm_content (filter (\<lambda>m. cm_role m = ChatSystem) ms)
      in if extra = [] then prim
         else prim @ newline @ newline @ ''---'' @ newline @ newline @ join_with (newline @ newline) extra)"

definition extract_json :: "string \<Rightarrow> string option" where
  "extract_json s =
     (case (split_first [CHR 0x7B] s, split_last_char (CHR 0x7D) s) of
        (Some (l, _), Some (m, _)) \<Rightarrow> if length l < length m then Some (slice (length l) (length m + 1) s) else None
      | _ \<Rightarrow> None)"

definition fallback_reply :: string where
  "fallback_reply =
     ''I wasn'' @ [CHR 0x27] @ ''t able to complete that request. Could you try rephrasing or providing more details?''"

definition is_marker_line :: "string \<Rightarrow> bool" where
  "is_marker_line l =
     (let t = str_trim l
      in starts_with t ''[Called tool '' \<and> ends_with t '']''
         \<or> starts_with t ''[Tool '' \<and> contains_str t '' returned:'' \<and> ends_with t '']'')"

text \<open>Lines are joined by a line feed once there is something to join to.\<close>

definition join_lines :: "string list \<Rightarrow> string" where
  "join_lines ls = foldl (\<lambda>acc l. (if acc = [] then [] else acc @ newline) @ l) [] ls"

definition strip_internal_tool_call_text :: "string \<Rightarrow> string" where
  "strip_internal_tool_call_text s =
     (let r = str_trim (join_lines (filter (\<lambda>l. \<not> is_marker_line l) (text_lines s)))
      in if r = [] then fallback_reply else r)"

text \<open>The blocks of suggestions, as start, end and text inside.\<close>

function suggestion_blocks :: "nat \<Rightarrow> string \<Rightarrow> (nat \<times> nat \<times> string) list" where
  "suggestion_blocks off s =
     (case split_first ''<suggestions>'' s of
        None \<Rightarrow> []
      | Some (l, body) \<Rightarrow>
          (case split_first ''</suggestions>'' body of
             None \<Rightarrow> []
           | Some (inner, rest) \<Rightarrow>
               (let e = off + length l + 13 + length inner + 14
                in (off + length l, e, str_trim inner) # suggestion_blocks e rest)))"
  by pat_completeness auto
termination
  by (relation "measure (\<lambda>(off, s). length s)") (auto dest!: split_first_Some)

declare suggestion_blocks.simps [simp del]

definition extract_suggestions :: "(string \<Rightarrow> string list option) \<Rightarrow> string \<Rightarrow> string \<times> string list" where
  "extract_suggestions parse s =
     (let fences = map (\<lambda>r. length s - length r - 3) (all_after triple_tick s);
          in_fence = (\<lambda>pos. odd (length (takeWhile (\<lambda>fp. fp \<le> pos) fences)))
      in case rev (filter (\<lambda>(a, e, x). \<not> in_fence a) (suggestion_blocks 0 s)) of
           [] \<Rightarrow> (s, [])
         | (a, e, inner) # _ \<Rightarrow>
             (str_trim (take a s @ drop e s),
              take 3 (filter (\<lambda>x. str_trim x \<noteq> [] \<and> byte_len x \<le> 80)
                (case parse inner of Some xs \<Rightarrow> xs | None \<Rightarrow> []))))"

end
