(* ===== verification/Response_Cleaning.thy ===== *)
theory Response_Cleaning
  imports Response_Text
begin

text \<open>
  What the cleaning of a response does: plain text passes, thinking is never shown, blank lines are
  collapsed; and a tag in the text of an answer that never ends doubles the text before it.
\<close>

section \<open>Texts without special characters\<close>

lemma contains_str_chars: "contains_str s p \<Longrightarrow> set p \<subseteq> set s"
  by (auto simp: contains_str_iff)

lemma split_first_absent: "\<not> set p \<subseteq> set s \<Longrightarrow> split_first p s = None"
  using contains_str_chars by (auto simp: split_first_None)

lemma quick_tag_absent: "CHR ''<'' \<notin> set s \<Longrightarrow> \<not> quick_tag s"
  by (induction s) auto

lemma angle_tag_absent: "hd s \<noteq> CHR ''<'' \<Longrightarrow> angle_tag names s = None"
  by (cases s) (simp_all add: angle_tag_def)

lemma tag_matches_absent:
  "(\<And>c r. c \<noteq> CHR ''<'' \<Longrightarrow> m (c # r) = None) \<Longrightarrow> CHR ''<'' \<notin> set s \<Longrightarrow> tag_matches m off s = []"
  by (induction s arbitrary: off) auto

lemma angle_matches_absent [simp]: "CHR ''<'' \<notin> set s \<Longrightarrow> tag_matches (angle_tag names) off s = []"
  by (rule tag_matches_absent) (simp_all add: angle_tag_def)

lemma pipe_matches_absent [simp]: "CHR ''<'' \<notin> set s \<Longrightarrow> tag_matches pipe_tag off s = []"
  by (rule tag_matches_absent) (auto simp: pipe_tag_def starts_with_simps)

text \<open>The last steps of the cleaning, and texts that they leave alone.\<close>

definition strip_tool_text :: "string \<Rightarrow> string" where
  "strip_tool_text s = strip_function_xml_tags (strip_bracket_tool_calls
     (foldl (\<lambda>r tag. strip_pipe_tag tag (strip_xml_tag tag r)) s TOOL_TAGS))"

definition no_markup :: "string \<Rightarrow> bool" where
  "no_markup s \<longleftrightarrow> CHR ''<'' \<notin> set s \<and> CHR ''['' \<notin> set s"

lemma strip_tool_text_plain:
  assumes "no_markup s"
  shows "strip_tool_text s = s"
proof -
  have n: "split_first (CHR ''<'' # p) s = None" "split_first (CHR ''['' # p) s = None" for p
    using assms by (auto simp: no_markup_def intro!: split_first_absent)
  have x: "strip_xml_tag t s = s" "strip_pipe_tag t s = s" for t
    using n(1) by (simp_all add: strip_xml_tag.simps strip_pipe_tag.simps first_open_tag_def)
  have "strip_bracket_tool_calls s = s" "strip_function_xml_tags s = s"
    using n by (simp_all add: strip_bracket_tool_calls.simps strip_function_xml_tags.simps called_prefix_def)
  with x show ?thesis by (simp add: strip_tool_text_def TOOL_TAGS_def)
qed

lemma clean_response_stages:
  "clean_response s = collapse_newlines (strip_tool_text (strip_pipe_reasoning_tags
     (if \<not> quick_tag s then s
      else let after = strip_thinking_tags s (find_code_regions s)
           in if tag_matches (angle_tag [''final'']) 0 after \<noteq> []
              then (case extract_final_content after (find_code_regions after) of Some f \<Rightarrow> f | None \<Rightarrow> after)
              else after)))"
  by (simp add: clean_response_def strip_tool_text_def Let_def)

lemma clean_plain: "no_markup s \<Longrightarrow> clean_response s = collapse_newlines s"
  by (simp add: clean_response_stages quick_tag_absent strip_pipe_reasoning_tags_def strip_tool_text_plain)
    (simp add: no_markup_def quick_tag_absent strip_tool_text_plain)

section \<open>Blank lines\<close>

lemma collapse_triples_none: "\<not> contains_str (collapse_triples s) (replicate 3 (CHR 0x0A))"
proof (induction s rule: collapse_triples.induct)
  case (1 s)
  show ?case
  proof (cases "contains_str s (replicate 3 (CHR 0x0A))")
    case True
    then show ?thesis using 1 by (subst collapse_triples.simps) (simp del: replicate.simps)
  next
    case False
    then show ?thesis by (subst collapse_triples.simps) (simp del: replicate.simps)
  qed
qed

lemma str_trim_infix: "\<exists>l r. s = l @ str_trim s @ r"
proof -
  let ?d = "dropWhile is_whitespace s"
  have "s = takeWhile is_whitespace s @ ?d" by simp
  moreover have "?d = rev (dropWhile is_whitespace (rev ?d)) @ rev (takeWhile is_whitespace (rev ?d))"
    by (metis rev_append rev_rev_ident takeWhile_dropWhile_id)
  ultimately show ?thesis unfolding str_trim_def by metis
qed

lemma contains_str_infix: "contains_str s p \<Longrightarrow> contains_str (l @ s @ r) p"
  unfolding contains_str_iff by (metis append.assoc)

lemma collapse_newlines_none: "\<not> contains_str (collapse_newlines s) (replicate 3 (CHR 0x0A))"
proof
  assume "contains_str (collapse_newlines s) (replicate 3 (CHR 0x0A))"
  moreover obtain l r where "collapse_triples s = l @ collapse_newlines s @ r"
    using str_trim_infix [of "collapse_triples s"] by (auto simp: collapse_newlines_def)
  ultimately have "contains_str (collapse_triples s) (replicate 3 (CHR 0x0A))"
    using contains_str_infix by metis
  with collapse_triples_none show False by blast
qed

lemma str_trim_idem [simp]: "str_trim (str_trim s) = str_trim s"
proof -
  have d: "dropWhile is_whitespace (rev (dropWhile is_whitespace (rev t))) = rev (dropWhile is_whitespace (rev t))"
    if "t = [] \<or> \<not> is_whitespace (hd t)" for t
  proof (cases "rev (dropWhile is_whitespace (rev t))")
    case (Cons a as)
    then have "t \<noteq> []" by auto
    moreover have "rev (dropWhile is_whitespace (rev t)) = take (length (dropWhile is_whitespace (rev t))) t"
      by (metis dropWhile_eq_drop length_dropWhile_le length_rev rev_drop rev_rev_ident diff_diff_cancel length_drop)
    ultimately have "a = hd t" using Cons by (cases t; cases "length (dropWhile is_whitespace (rev t))") auto
    with that \<open>t \<noteq> []\<close> Cons show ?thesis by simp
  next
    case Nil
    then show ?thesis by (simp only: list.simps dropWhile.simps)
  qed
  have "dropWhile is_whitespace s = [] \<or> \<not> is_whitespace (hd (dropWhile is_whitespace s))"
    using hd_dropWhile by blast
  from d [OF this] show ?thesis by (simp add: str_trim_def)
qed

lemma collapse_newlines_idem: "collapse_newlines (collapse_newlines s) = collapse_newlines s"
proof -
  have "collapse_triples (collapse_newlines s) = collapse_newlines s"
    by (subst collapse_triples.simps) (simp add: collapse_newlines_none del: replicate.simps)
  then show ?thesis by (simp add: collapse_newlines_def)
qed

section \<open>Thinking\<close>

lemma set_split_at_chars: "w \<in> set (split_at_chars f s) \<Longrightarrow> set w \<subseteq> set s"
  by (induction f s arbitrary: w rule: split_at_chars.induct) (fastforce split: if_splits list.splits)+

definition no_code :: "string \<Rightarrow> bool" where
  "no_code s \<longleftrightarrow> CHR 0x60 \<notin> set s \<and> CHR 0x7E \<notin> set s"

lemma line_fence_absent: "no_code l \<Longrightarrow> line_fence l = None"
proof (cases "dropWhile is_blank l")
  case (Cons c r)
  assume "no_code l"
  moreover have "c \<in> set l" using set_dropWhileD [of c is_blank l] Cons by simp
  ultimately have "c \<noteq> CHR 0x60" "c \<noteq> CHR 0x7E" unfolding no_code_def by metis+
  with Cons show ?thesis by (simp add: line_fence_def)
next
  case Nil
  then show ?thesis by (simp only: line_fence_def list.case)
qed

lemma no_code_regions:
  assumes "no_code s"
  shows "find_code_regions s = []"
proof -
  have "list_all no_code ls \<Longrightarrow> fenced_regions off None ls = []" for off ls
    by (induction ls arbitrary: off) (simp_all add: line_fence_absent)
  moreover have "list_all no_code (split_at_chars (\<lambda>c. c = CHR 0x0A) s)"
    using set_split_at_chars [of _ "\<lambda>c. c = CHR 0x0A" s] assms by (fastforce simp: list_all_iff no_code_def)
  moreover have "CHR 0x60 \<notin> set s \<Longrightarrow> inline_regions [] off s = []" for off
    by (induction s arbitrary: off) auto
  ultimately show ?thesis using assms by (simp add: find_code_regions_def no_code_def)
qed

definition plain_name :: "string \<Rightarrow> bool" where
  "plain_name n \<longleftrightarrow> n \<noteq> [] \<and> to_lowercase n = n \<and> \<not> is_whitespace (hd n) \<and> hd n \<noteq> CHR ''/'' \<and>
     CHR ''<'' \<notin> set n \<and> CHR ''>'' \<notin> set n \<and> no_code n"

lemma thinking_names_plain: "n \<in> set THINKING_NAMES \<Longrightarrow> plain_name n"
proof -
  have "list_all plain_name THINKING_NAMES" by code_simp
  then show "n \<in> set THINKING_NAMES \<Longrightarrow> plain_name n" by (simp add: list_all_iff)
qed

lemma to_lowercase_append: "to_lowercase (s @ t) = to_lowercase s @ to_lowercase t"
  by (simp add: to_lowercase_def)

lemma dropWhile_name:
  assumes "CHR ''<'' \<notin> set n" "CHR ''>'' \<notin> set n"
  shows "dropWhile (\<lambda>x. x \<noteq> CHR ''<'' \<and> x \<noteq> CHR ''>'') (n @ CHR ''>'' # r) = CHR ''>'' # r"
  using assms by (induction n) auto

lemma angle_tag_open:
  assumes "n \<in> set names" "plain_name n"
  shows "angle_tag names (CHR ''<'' # n @ CHR ''>'' # r) = Some (False, length n + 2)"
proof -
  have n: "dropWhile is_whitespace (n @ CHR ''>'' # r) = n @ CHR ''>'' # r" "\<not> starts_with (n @ CHR ''>'' # r) ''/''"
    using assms(2) by (cases n; simp add: plain_name_def starts_with_simps)+
  have "list_ex (\<lambda>n'. starts_with (to_lowercase (n @ CHR ''>'' # r)) n' \<and>
      (case drop (length n') (n @ CHR ''>'' # r) of [] \<Rightarrow> True | x # _ \<Rightarrow> \<not> is_word_char x)) names"
    unfolding list_ex_iff
    using assms
    by (intro bexI [of _ n])
      (simp_all add: to_lowercase_append plain_name_def starts_with_iff is_word_char_def is_ascii_alphanumeric_def)
  with n dropWhile_name assms(2) show ?thesis
    by (simp add: angle_tag_def Let_def plain_name_def starts_with_simps)
qed

lemma angle_tag_close:
  assumes "n \<in> set names" "plain_name n"
  shows "angle_tag names (CHR ''<'' # CHR ''/'' # n @ CHR ''>'' # r) = Some (True, length n + 3)"
proof -
  have w: "\<not> is_whitespace (CHR ''/'')" by (simp add: is_whitespace_def)
  have n: "dropWhile is_whitespace (n @ CHR ''>'' # r) = n @ CHR ''>'' # r"
    using assms(2) by (cases n; simp add: plain_name_def)
  have "list_ex (\<lambda>n'. starts_with (to_lowercase (n @ CHR ''>'' # r)) n' \<and>
      (case drop (length n') (n @ CHR ''>'' # r) of [] \<Rightarrow> True | x # _ \<Rightarrow> \<not> is_word_char x)) names"
    unfolding list_ex_iff
    using assms
    by (intro bexI [of _ n])
      (simp_all add: to_lowercase_append plain_name_def starts_with_iff is_word_char_def is_ascii_alphanumeric_def)
  with n w dropWhile_name assms(2) show ?thesis
    by (simp add: angle_tag_def Let_def plain_name_def starts_with_simps)
qed

lemma tag_matches_skip:
  "(\<And>c r. c \<noteq> CHR ''<'' \<Longrightarrow> m (c # r) = None) \<Longrightarrow> CHR ''<'' \<notin> set a \<Longrightarrow>
     tag_matches m off (a @ t) = tag_matches m (off + length a) t"
  by (induction a arbitrary: off) auto

lemma angle_matches_skip:
  "CHR ''<'' \<notin> set a \<Longrightarrow> tag_matches (angle_tag names) off (a @ t) = tag_matches (angle_tag names) (off + length a) t"
  by (rule tag_matches_skip) (simp_all add: angle_tag_def)

lemma tag_matches_hit:
  "m (c # s) = Some (close, Suc n) \<Longrightarrow>
     tag_matches m off (c # s) = (off, close, off + Suc n) # tag_matches m (off + Suc n) (drop n s)"
  by simp

lemma quick_tag_thinking:
  assumes "n \<in> set THINKING_NAMES"
  shows "quick_tag (a @ CHR ''<'' # n @ CHR ''>'' # r)"
proof -
  have n: "dropWhile is_whitespace (n @ CHR ''>'' # r) = n @ CHR ''>'' # r" "\<not> starts_with (n @ CHR ''>'' # r) ''/''"
    using thinking_names_plain [OF assms] by (cases n; simp add: plain_name_def starts_with_simps)+
  have "list_ex (\<lambda>n'. starts_with (to_lowercase (n @ CHR ''>'' # r)) n' \<and>
      (case drop (length n') (n @ CHR ''>'' # r) of [] \<Rightarrow> True | x # _ \<Rightarrow> \<not> is_word_char x)) (THINKING_NAMES @ [''final''])"
    unfolding list_ex_iff
    using assms thinking_names_plain [OF assms]
    by (intro bexI [of _ n])
      (simp_all add: to_lowercase_append plain_name_def starts_with_iff is_word_char_def is_ascii_alphanumeric_def)
  then have "quick_tag (CHR ''<'' # n @ CHR ''>'' # r)" using n by (simp add: Let_def)
  then show ?thesis by (induction a) simp_all
qed

lemma plain_nameD:
  "plain_name n \<Longrightarrow> no_code n \<and> CHR ''<'' \<notin> set n \<and> CHR ''>'' \<notin> set n"
  by (simp add: plain_name_def)

lemma slice_prefix: "slice 0 (length a) (a @ t) = a"
  by (simp add: slice_def)

lemma strip_thinking_closed:
  assumes n: "n \<in> set THINKING_NAMES" and lt: "CHR ''<'' \<notin> set a" "CHR ''<'' \<notin> set b" "CHR ''<'' \<notin> set c"
  shows "strip_thinking_tags (a @ CHR ''<'' # n @ CHR ''>'' # b @ CHR ''<'' # CHR ''/'' # n @ CHR ''>'' # c) [] = a @ c"
proof -
  let ?m = "angle_tag THINKING_NAMES"
  let ?close = "CHR ''<'' # CHR ''/'' # n @ CHR ''>'' # c"
  let ?i = "length a + (length n + 2) + length b"
  note p = thinking_names_plain [OF n]
  have h1: "tag_matches ?m off (CHR ''<'' # n @ CHR ''>'' # b @ ?close)
      = (off, False, off + (length n + 2)) # tag_matches ?m (off + (length n + 2)) (b @ ?close)" for off
    using angle_tag_open [OF n p, of "b @ ?close"] by simp
  have h2: "tag_matches ?m off ?close = [(off, True, off + (length n + 3))]" for off
  proof -
    have "drop (length n + 3) ?close = c" by (simp add: numeral_3_eq_3)
    then show ?thesis using angle_tag_close [OF n p, of c] lt(3) by simp
  qed
  have "tag_matches ?m 0 (a @ CHR ''<'' # n @ CHR ''>'' # b @ ?close)
      = [(length a, False, length a + (length n + 2)), (?i, True, ?i + (length n + 3))]"
    by (simp only: angle_matches_skip [OF lt(1)] h1 angle_matches_skip [OF lt(2)] h2 add_0)
  then have "prose_tags ?m [] (a @ CHR ''<'' # n @ CHR ''>'' # b @ ?close)
      = [(length a, False, length a + (length n + 2)), (?i, True, ?i + (length n + 3))]"
    by (simp add: prose_tags_def is_inside_code_def)
  moreover have "drop (?i + (length n + 3)) (a @ CHR ''<'' # n @ CHR ''>'' # b @ ?close) = c"
  proof -
    define pre where "pre = a @ CHR ''<'' # n @ CHR ''>'' # b @ CHR ''<'' # CHR ''/'' # n @ [CHR ''>'']"
    have "a @ CHR ''<'' # n @ CHR ''>'' # b @ ?close = pre @ c" "?i + (length n + 3) = length pre" by (simp_all add: pre_def)
    then show ?thesis by (metis append_eq_conv_conj)
  qed
  ultimately show ?thesis
    by (simp add: strip_thinking_tags_def slice_prefix Let_def)
qed

lemma strip_thinking_open:
  assumes n: "n \<in> set THINKING_NAMES" and lt: "CHR ''<'' \<notin> set a" "CHR ''<'' \<notin> set b"
  shows "strip_thinking_tags (a @ CHR ''<'' # n @ CHR ''>'' # b) [] = a"
proof -
  let ?m = "angle_tag THINKING_NAMES"
  note p = thinking_names_plain [OF n]
  have "tag_matches ?m off (CHR ''<'' # n @ CHR ''>'' # b) = [(off, False, off + (length n + 2))]" for off
    using angle_tag_open [OF n p, of b] lt(2) by simp
  then have "prose_tags ?m [] (a @ CHR ''<'' # n @ CHR ''>'' # b) = [(length a, False, length a + (length n + 2))]"
    by (simp add: prose_tags_def is_inside_code_def angle_matches_skip [OF lt(1)])
  then show ?thesis
    using lt(2) by (simp add: strip_thinking_tags_def slice_prefix extract_final_content_def prose_tags_def Let_def)
qed

lemma clean_after_thinking:
  assumes "quick_tag s" "no_code s" "strip_thinking_tags s [] = t" "no_markup t"
  shows "clean_response s = collapse_newlines t"
proof -
  have "tag_matches m 0 t = []" if "m = angle_tag [''final''] \<or> m = pipe_tag" for m
    using assms(4) that by (auto simp: no_markup_def)
  with assms show ?thesis
    by (simp add: clean_response_stages no_code_regions strip_pipe_reasoning_tags_def strip_tool_text_plain)
qed

section \<open>Properties\<close>

text \<open>
  C23. Thinking is never shown: a response that consists of text, a block of thinking under any of the
  known names and more text is cleaned to the two texts alone, whatever the block says, and a block that
  is never closed hides everything after it; what remains has no three line feeds in a row. The texts
  hold no other markup and no code.
\<close>

theorem thinking_never_shown:
  assumes "n \<in> set THINKING_NAMES" "no_markup a" "no_markup c" "CHR ''<'' \<notin> set b" "no_code (a @ b @ c)"
  shows "clean_response (a @ CHR ''<'' # n @ CHR ''>'' # b @ CHR ''<'' # CHR ''/'' # n @ CHR ''>'' # c) = collapse_newlines (a @ c) \<and>
    clean_response (a @ CHR ''<'' # n @ CHR ''>'' # b) = collapse_newlines a \<and>
    \<not> contains_str (collapse_newlines (a @ c)) (replicate 3 (CHR 0x0A)) \<and>
    collapse_newlines (collapse_newlines (a @ c)) = collapse_newlines (a @ c)"
proof -
  note p = plain_nameD [OF thinking_names_plain [OF assms(1)]]
  have lt: "CHR ''<'' \<notin> set a" "CHR ''<'' \<notin> set c" using assms(2,3) by (simp_all add: no_markup_def)
  have nc: "no_code (a @ CHR ''<'' # n @ CHR ''>'' # b @ CHR ''<'' # CHR ''/'' # n @ CHR ''>'' # c)"
    "no_code (a @ CHR ''<'' # n @ CHR ''>'' # b)"
    using assms(5) p by (simp_all add: no_code_def)
  have ac: "no_markup (a @ c)" using assms(2,3) by (simp add: no_markup_def)
  show ?thesis
    using clean_after_thinking [OF quick_tag_thinking [OF assms(1)] nc(1) strip_thinking_closed [OF assms(1) lt(1) assms(4) lt(2)] ac]
      clean_after_thinking [OF quick_tag_thinking [OF assms(1)] nc(2) strip_thinking_open [OF assms(1) lt(1) assms(4)] assms(2)]
      collapse_newlines_none collapse_newlines_idem by simp
qed

theorem thinking_never_shown_witness:
  "clean_response (''Yes. '' @ ''<'' @ ''thinking'' @ ''>'' @ ''the key is 42'' @ ''</'' @ ''thinking'' @ ''>'' @ ''Done.'')
     = collapse_newlines (''Yes. '' @ ''Done.'')"
proof -
  have "''thinking'' \<in> set THINKING_NAMES" "no_markup ''Yes. ''" "no_markup ''Done.''"
    "CHR ''<'' \<notin> set ''the key is 42''" "no_code (''Yes. '' @ ''the key is 42'' @ ''Done.'')"
    by (simp_all add: THINKING_NAMES_def no_markup_def no_code_def)
  from thinking_never_shown [OF this] show ?thesis unfolding append.simps by (rule conjunct1)
qed

text \<open>
  A tag that never ends doubles the text before it: when a text mentions the beginning of a tool tag
  with a blank after it and no \<open>>\<close> follows, the removal of that tag copies the text before it and then
  keeps the whole text. The truncation before the cleaning does not help when the mention is in code.
\<close>

lemma unfinished_tag_doubles_text:
  assumes "CHR ''<'' \<notin> set l" "CHR ''>'' \<notin> set l" "CHR ''>'' \<notin> set r" "tag \<in> set TOOL_TAGS"
  shows "strip_xml_tag tag (l @ ''<'' @ tag @ '' '' @ r) = l @ l @ ''<'' @ tag @ '' '' @ r"
proof -
  let ?s = "l @ ''<'' @ tag @ '' '' @ r"
  have t: "CHR ''>'' \<notin> set tag" using assms(4) by (auto simp: TOOL_TAGS_def)
  have none: "split_first (''<'' @ tag @ ''>'') ?s = None" "split_first ''>'' (''<'' @ tag @ '' '' @ r) = None"
    using assms(2,3) t by (auto intro!: split_first_absent simp: starts_with_simps)
  have "split_first (''<'' @ tag @ '' '') ?s = Some (l, r)"
    using assms(1) by (induction l) (auto simp: starts_with_simps starts_with_iff)
  then have "first_open_tag tag ?s = Some (l, ''<'' @ tag @ '' '' @ r)"
    unfolding first_open_tag_def none by simp
  with none(2) show ?thesis by (subst strip_xml_tag.simps) simp
qed

lemma unfinished_tag_doubles_text_witness:
  "strip_xml_tag ''tool_call'' (''Write '' @ ''<'' @ ''tool_call'' @ '' '' @ ''first'')
     = ''Write '' @ ''Write '' @ ''<'' @ ''tool_call'' @ '' '' @ ''first''"
proof -
  have "CHR ''<'' \<notin> set ''Write ''" "CHR ''>'' \<notin> set ''Write ''" "CHR ''>'' \<notin> set ''first''"
    "''tool_call'' \<in> set TOOL_TAGS" by (simp_all add: TOOL_TAGS_def)
  from unfinished_tag_doubles_text [OF this] show ?thesis .
qed

end
