(* ===== verification/Tool_Recovery.thy ===== *)
theory Tool_Recovery
  imports Response_Cleaning
begin

text \<open>
  Tool calls that a model writes into its text (\<open>src/llm/reasoning.rs\<close>): how they are recovered, and the
  response that is made of an answer of the model. The parser of JSON is an argument, the model a
  function of the request and of the number of the attempt.
\<close>

section \<open>Recovery\<close>

definition RECOVERED_TOOL_CALL_SEED :: u64 where
  "RECOVERED_TOOL_CALL_SEED = 99"

definition empty_object :: json where
  "empty_object = JObject []"

text \<open>The texts between an opening and a closing mark, trimmed.\<close>

function tagged_texts :: "string \<Rightarrow> string \<Rightarrow> string \<Rightarrow> string list" where
  "tagged_texts op cl s =
     (if op = [] then []
      else case split_first op s of
        None \<Rightarrow> []
      | Some (_, after) \<Rightarrow>
          (case split_first cl after of
             None \<Rightarrow> []
           | Some (inner, rest) \<Rightarrow> str_trim inner # tagged_texts op cl rest))"
  by pat_completeness auto
termination
  by (relation "measure (\<lambda>(op, cl, s). length s)") (auto dest!: split_first_Some simp: neq_Nil_conv)

declare tagged_texts.simps [simp del]

text \<open>A text is a call in JSON, or the bare name of a tool.\<close>

definition tagged_call :: "(string \<Rightarrow> json option) \<Rightarrow> string list \<Rightarrow> string \<Rightarrow> (string \<times> json) option" where
  "tagged_call parse names inner =
     (if inner = [] then None
      else
        let bare = (if inner \<in> set names then Some (inner, empty_object) else None)
        in case parse inner of
             None \<Rightarrow> bare
           | Some j \<Rightarrow>
               (case Option.bind (json_get ''name'' j) json_as_str of
                  Some n \<Rightarrow>
                    if n \<in> set names
                    then Some (n, case json_get ''arguments'' j of Some a \<Rightarrow> a | None \<Rightarrow> empty_object)
                    else bare
                | None \<Rightarrow> bare))"

definition CALL_MARKS :: "(string \<times> string) list" where
  "CALL_MARKS =
     [(''<tool_call>'', ''</tool_call>''), (''<|tool_call|>'', ''<|/tool_call|>''),
      (''<function_call>'', ''</function_call>''), (''<|function_call|>'', ''<|/function_call|>'')]"

definition tagged_calls :: "(string \<Rightarrow> json option) \<Rightarrow> string list \<Rightarrow> string \<Rightarrow> (string \<times> json) list" where
  "tagged_calls parse names s =
     concat (map (\<lambda>(op, cl). List.map_filter (tagged_call parse names) (tagged_texts op cl s)) CALL_MARKS)"

text \<open>
  Calls in brackets. The arguments reach to the last bracket of the whole rest of the text, not of the
  line; when they are no JSON the call gets none.
\<close>

definition with_arguments :: string where
  "with_arguments = '' with arguments: ''"

function bracket_calls :: "(string \<Rightarrow> json option) \<Rightarrow> string list \<Rightarrow> string \<Rightarrow> (string \<times> json) list" where
  "bracket_calls parse names s =
     (case split_first called_prefix s of
        None \<Rightarrow> []
      | Some (_, after) \<Rightarrow>
          (case split_first [CHR 0x60] after of
             None \<Rightarrow> []
           | Some (name, after_name) \<Rightarrow>
               if name \<notin> set names then bracket_calls parse names after_name
               else
                 (case Option.bind (strip_prefix after_name with_arguments) (split_last_char (CHR '']'')) of
                    Some (args, rest) \<Rightarrow>
                      (name, case parse args of Some j \<Rightarrow> j | None \<Rightarrow> empty_object) # bracket_calls parse names rest
                  | None \<Rightarrow> (name, empty_object) # bracket_calls parse names after_name)))"
  by pat_completeness auto
termination
proof (relation "measure (\<lambda>(parse, names, s). length s)")
  fix parse :: "string \<Rightarrow> json option" and names s x l after y name after_name z args rest
  assume "split_first called_prefix s = Some x" "(l, after) = x" "split_first [CHR 0x60] after = Some y"
    "(name, after_name) = y" "Option.bind (strip_prefix after_name with_arguments) (split_last_char (CHR '']'')) = Some z"
    "(args, rest) = z"
  then show "((parse, names, rest), parse, names, s) \<in> measure (\<lambda>(parse, names, s). length s)"
    by (auto simp: Option.bind_eq_Some_conv strip_prefix_def starts_with_iff
        dest!: split_first_Some split_last_char_Some split: if_splits)
qed (auto dest!: split_first_Some)

declare bracket_calls.simps [simp del]

text \<open>The dialect \<open><function=NAME><parameter=KEY>VALUE</parameter></function>\<close>.\<close>

function function_params :: "(string \<Rightarrow> json option) \<Rightarrow> string \<Rightarrow> (string \<times> json) list \<Rightarrow> (string \<times> json) list" where
  "function_params parse s args =
     (case split_first ''<parameter='' s of
        None \<Rightarrow> args
      | Some (_, after) \<Rightarrow>
          (case split_first ''>'' after of
             None \<Rightarrow> args
           | Some (key, body) \<Rightarrow>
               (case split_first ''</parameter>'' body of
                  None \<Rightarrow> args
                | Some (val, rest) \<Rightarrow>
                    function_params parse rest
                      (if str_trim key = [] then args
                       else hm_insert (str_trim key)
                         (case parse (str_trim val) of Some j \<Rightarrow> j | None \<Rightarrow> JString (str_trim val)) args))))"
  by pat_completeness auto
termination
  by (relation "measure (\<lambda>(parse, s, args). length s)") (auto dest!: split_first_Some)

declare function_params.simps [simp del]

function function_calls :: "(string \<Rightarrow> json option) \<Rightarrow> string list \<Rightarrow> string \<Rightarrow> (string \<times> json) list" where
  "function_calls parse names s =
     (case split_first ''<function='' s of
        None \<Rightarrow> []
      | Some (_, after) \<Rightarrow>
          (case split_first ''>'' after of
             None \<Rightarrow> []
           | Some (name, body_rest) \<Rightarrow>
               (case split_first ''</function>'' body_rest of
                  None \<Rightarrow> []
                | Some (body, rest) \<Rightarrow>
                    (if str_trim name \<noteq> [] \<and> str_trim name \<in> set names
                     then [(str_trim name, JObject (function_params parse body []))] else [])
                    @ function_calls parse names rest)))"
  by pat_completeness auto
termination
  by (relation "measure (\<lambda>(parse, names, s). length s)") (auto dest!: split_first_Some)

declare function_calls.simps [simp del]

text \<open>All formats one after the other; the identifier of a call is made of its place.\<close>

definition recovered_tool_call :: "nat \<Rightarrow> string \<times> json \<Rightarrow> tool_call" where
  "recovered_tool_call i c =
     \<lparr>tcall_id = generate_tool_call_id (of_nat i) RECOVERED_TOOL_CALL_SEED, tcall_name = fst c,
      tcall_arguments = snd c, tcall_reasoning = None\<rparr>"

definition recover_tool_calls_from_content :: "(string \<Rightarrow> json option) \<Rightarrow> string list \<Rightarrow> string \<Rightarrow> tool_call list" where
  "recover_tool_calls_from_content parse names s =
     map (\<lambda>(i, c). recovered_tool_call i c)
       (enumerate 0 (tagged_calls parse names s @ bracket_calls parse names s @ function_calls parse names s))"

section \<open>Responses\<close>

record tool_definition =
  td_name :: string
  td_description :: string
  td_parameters :: json

record token_usage =
  tu_input_tokens :: u32
  tu_output_tokens :: u32
  tu_cache_read_input_tokens :: u32
  tu_cache_creation_input_tokens :: u32

definition no_usage :: token_usage where
  "no_usage = \<lparr>tu_input_tokens = 0, tu_output_tokens = 0, tu_cache_read_input_tokens = 0, tu_cache_creation_input_tokens = 0\<rparr>"

text \<open>The sums wrap around, as they do in a release build.\<close>

definition add_usage :: "token_usage \<Rightarrow> token_usage \<Rightarrow> token_usage" where
  "add_usage a b =
     \<lparr>tu_input_tokens = tu_input_tokens a + tu_input_tokens b,
      tu_output_tokens = tu_output_tokens a + tu_output_tokens b,
      tu_cache_read_input_tokens = tu_cache_read_input_tokens a + tu_cache_read_input_tokens b,
      tu_cache_creation_input_tokens = tu_cache_creation_input_tokens a + tu_cache_creation_input_tokens b\<rparr>"

datatype respond_result = RespText string | RespToolCalls "tool_call list" "string option"

record respond_output =
  ro_result :: respond_result
  ro_usage :: token_usage

record reasoning_context =
  rc_messages :: "chat_message list"
  rc_available_tools :: "tool_definition list"
  rc_force_text :: bool
  rc_system_prompt :: "string option"

text \<open>A request to the model: a completion with tools, or a plain one when there are none.\<close>

record model_request =
  mq_messages :: "chat_message list"
  mq_tools :: "tool_definition list"

record model_reply =
  mr_content :: "string option"
  mr_tool_calls :: "tool_call list"
  mr_usage :: token_usage

text \<open>What the reasoning engine has around the model: the prompt for a set of tools, the parser, the model.\<close>

record reasoning =
  re_prompt :: "tool_definition list \<Rightarrow> string"
  re_parse :: "string \<Rightarrow> json option"
  re_model :: "model_request \<Rightarrow> nat \<Rightarrow> llm_error + model_reply"

definition unsure_reply :: string where
  "unsure_reply = ''I'' @ [CHR 0x27] @ ''m not sure how to respond to that.''"

definition clean_text :: "string \<Rightarrow> string" where
  "clean_text s = clean_response (truncate_at_tool_tags s)"

definition reply_text :: "model_reply \<Rightarrow> string" where
  "reply_text r = (case mr_content r of Some c \<Rightarrow> c | None \<Rightarrow> [])"

definition MAX_EMPTY_RESPONSE_RETRIES :: nat where
  "MAX_EMPTY_RESPONSE_RETRIES = 1"

text \<open>
  The attempts, \<open>left\<close> of them after this one: calls of the model, calls recovered from its text, or a
  text; an empty text is tried again and in the end replaced. Without tools only the text counts.
\<close>

fun respond_attempts ::
    "reasoning \<Rightarrow> model_request \<Rightarrow> string list \<Rightarrow> nat \<Rightarrow> nat \<Rightarrow> token_usage \<Rightarrow> llm_error + respond_output" where
  "respond_attempts re rq names left attempt usage =
     (case re_model re rq attempt of
        Inl e \<Rightarrow> Inl e
      | Inr reply \<Rightarrow>
          let u = add_usage usage (mr_usage reply);
              content = reply_text reply;
              cleaned = clean_text content;
              recovered = recover_tool_calls_from_content (re_parse re) names content
          in if mq_tools rq \<noteq> [] \<and> mr_tool_calls reply \<noteq> []
             then Inr \<lparr>ro_result = RespToolCalls (mr_tool_calls reply) (map_option clean_text (mr_content reply)), ro_usage = u\<rparr>
             else if mq_tools rq \<noteq> [] \<and> recovered \<noteq> []
             then Inr \<lparr>ro_result = RespToolCalls recovered (if cleaned = [] then None else Some cleaned), ro_usage = u\<rparr>
             else if str_trim cleaned \<noteq> [] then Inr \<lparr>ro_result = RespText cleaned, ro_usage = u\<rparr>
             else case left of
               Suc n \<Rightarrow> respond_attempts re rq names n (Suc attempt) u
             | 0 \<Rightarrow> Inr \<lparr>ro_result = RespText unsure_reply, ro_usage = u\<rparr>)"

declare respond_attempts.simps [simp del]

definition respond_request :: "reasoning \<Rightarrow> reasoning_context \<Rightarrow> model_request" where
  "respond_request re ctx =
     (let prompt = (case rc_system_prompt ctx of Some p \<Rightarrow> p | None \<Rightarrow> re_prompt re (rc_available_tools ctx))
      in \<lparr>mq_messages = chat_system (merge_system_messages prompt (rc_messages ctx))
            # filter (\<lambda>m. cm_role m \<noteq> ChatSystem) (rc_messages ctx),
          mq_tools = (if rc_force_text ctx then [] else rc_available_tools ctx)\<rparr>)"

definition respond_with_tools :: "reasoning \<Rightarrow> reasoning_context \<Rightarrow> llm_error + respond_output" where
  "respond_with_tools re ctx =
     respond_attempts re (respond_request re ctx) (map td_name (rc_available_tools ctx))
       MAX_EMPTY_RESPONSE_RETRIES 0 no_usage"

definition reasoning_complete :: "reasoning \<Rightarrow> chat_message list \<Rightarrow> llm_error + string \<times> token_usage" where
  "reasoning_complete re ms =
     (case re_model re \<lparr>mq_messages = ms, mq_tools = []\<rparr> 0 of
        Inl e \<Rightarrow> Inl e
      | Inr reply \<Rightarrow> Inr (clean_text (reply_text reply), add_usage no_usage (mr_usage reply)))"

section \<open>Lemmas\<close>

lemma tagged_call_known: "tagged_call parse names s = Some c \<Longrightarrow> fst c \<in> set names"
  by (auto simp: tagged_call_def Let_def split: if_splits option.splits)

lemma tagged_calls_known: "c \<in> set (tagged_calls parse names s) \<Longrightarrow> fst c \<in> set names"
  by (force simp: tagged_calls_def List.map_filter_def dest: tagged_call_known)

lemma bracket_calls_known: "c \<in> set (bracket_calls parse names s) \<Longrightarrow> fst c \<in> set names"
proof (induction parse names s rule: bracket_calls.induct)
  case (1 parse names s)
  show ?case
  proof (cases "Option.bind (split_first called_prefix s) (\<lambda>x. split_first [CHR 0x60] (snd x))")
    case None
    then have "bracket_calls parse names s = []"
      by (cases "split_first called_prefix s") (auto simp: bracket_calls.simps [of parse names s])
    with 1(4) show ?thesis by simp
  next
    case (Some y)
    then obtain l after name rest where f: "split_first called_prefix s = Some (l, after)"
      "split_first [CHR 0x60] after = Some (name, rest)" by (cases y) (auto simp: Option.bind_eq_Some_conv)
    show ?thesis
    proof (cases "name \<in> set names")
      case False
      with f 1(4) have "c \<in> set (bracket_calls parse names rest)" by (subst (asm) bracket_calls.simps) simp
      then show ?thesis by (rule 1(1) [OF f(1) refl f(2) refl False])
    next
      case True
      show ?thesis
      proof (cases "Option.bind (strip_prefix rest with_arguments) (split_last_char (CHR '']''))")
        case None
        with f True 1(4) have "c \<in> set ((name, empty_object) # bracket_calls parse names rest)"
          by (subst (asm) bracket_calls.simps) simp
        then consider "c = (name, empty_object)" | "c \<in> set (bracket_calls parse names rest)" by auto
        then show ?thesis
        proof cases
          case 2
          show ?thesis by (rule 1(2) [OF f(1) refl f(2) refl _ None 2]) (simp add: True)
        qed (simp add: True)
      next
        case (Some z)
        obtain args r where z: "z = (args, r)" by (cases z)
        from f True 1(4) Some z have "c \<in> set ((name, case parse args of Some j \<Rightarrow> j | None \<Rightarrow> empty_object)
            # bracket_calls parse names r)" by (subst (asm) bracket_calls.simps) simp
        then consider "fst c = name" | "c \<in> set (bracket_calls parse names r)" by auto
        then show ?thesis
        proof cases
          case 2
          show ?thesis by (rule 1(3) [OF f(1) refl f(2) refl _ Some _ 2]) (simp_all add: True z)
        qed (simp add: True)
      qed
    qed
  qed
qed

lemma function_calls_known: "c \<in> set (function_calls parse names s) \<Longrightarrow> fst c \<in> set names"
proof (induction parse names s rule: function_calls.induct)
  case (1 parse names s)
  from 1(2) show ?case
    by (subst (asm) function_calls.simps)
      (auto split: option.splits if_splits dest: 1(1) [OF sym refl sym refl sym refl])
qed

lemma in_enumerate: "(i, c) \<in> set (enumerate n xs) \<Longrightarrow> c \<in> set xs"
  by (auto simp: enumerate_eq_zip dest: set_zip_rightD)

lemma recovered_known:
  assumes "tc \<in> set (recover_tool_calls_from_content parse names s)"
  shows "tcall_name tc \<in> set names"
proof -
  let ?cs = "tagged_calls parse names s @ bracket_calls parse names s @ function_calls parse names s"
  from assms obtain i c where "tc = recovered_tool_call i c" "(i, c) \<in> set (enumerate 0 ?cs)"
    unfolding recover_tool_calls_from_content_def by auto
  then have "tcall_name tc = fst c" "c \<in> set ?cs" by (auto simp: recovered_tool_call_def dest: in_enumerate)
  then show ?thesis
    by (auto dest: tagged_calls_known bracket_calls_known function_calls_known)
qed

lemma recovered_ids:
  "map tcall_id (recover_tool_calls_from_content parse names s)
    = map (\<lambda>i. generate_tool_call_id (of_nat i) RECOVERED_TOOL_CALL_SEED)
        [0..<length (recover_tool_calls_from_content parse names s)]"
proof -
  let ?g = "\<lambda>i. generate_tool_call_id (of_nat i) RECOVERED_TOOL_CALL_SEED"
  have "map tcall_id (map (\<lambda>(i, c). recovered_tool_call i c) xs) = map ?g (map fst xs)" for xs
    by (induction xs) (auto simp: recovered_tool_call_def)
  then show ?thesis by (simp only: recover_tool_calls_from_content_def map_fst_enumerate length_map length_enumerate add_0)
qed

text \<open>An answer to a request: text that is not blank, or calls when calls were asked for.\<close>

definition good_result :: "bool \<Rightarrow> respond_result \<Rightarrow> bool" where
  "good_result tools r = (case r of RespText t \<Rightarrow> str_trim t \<noteq> [] | RespToolCalls cs _ \<Rightarrow> tools \<and> cs \<noteq> [])"

lemma unsure_not_blank: "str_trim unsure_reply \<noteq> []"
  by code_simp

lemma respond_attempts_good:
  "respond_attempts re rq names left attempt usage = Inr out \<Longrightarrow> good_result (mq_tools rq \<noteq> []) (ro_result out)"
proof (induction left arbitrary: attempt usage)
  case 0
  then show ?case
    by (subst (asm) respond_attempts.simps)
      (auto simp: good_result_def Let_def unsure_not_blank split: sum.splits if_splits)
next
  case (Suc n)
  show ?case
  proof (cases "respond_attempts re rq names (Suc n) attempt usage
      = respond_attempts re rq names n (Suc attempt) (case re_model re rq attempt of Inr r \<Rightarrow> add_usage usage (mr_usage r))")
    case True
    with Suc show ?thesis by metis
  next
    case False
    with Suc.prems show ?thesis
      by (subst (asm) (1 2) respond_attempts.simps)
        (auto simp: good_result_def Let_def split: sum.splits if_splits)
  qed
qed

lemma respond_attempts_bounded:
  "(\<And>i. attempt \<le> i \<Longrightarrow> i \<le> attempt + left \<Longrightarrow> m rq i = re_model re rq i) \<Longrightarrow>
     respond_attempts (re\<lparr>re_model := m\<rparr>) rq names left attempt usage = respond_attempts re rq names left attempt usage"
proof (induction left arbitrary: attempt usage)
  case 0
  then show ?case
    by (cases "re_model re rq attempt") (simp_all add: respond_attempts.simps Let_def cong: if_cong)
next
  case (Suc n)
  have "m rq attempt = re_model re rq attempt" by (rule Suc.prems) simp_all
  moreover have "respond_attempts (re\<lparr>re_model := m\<rparr>) rq names n (Suc attempt) u = respond_attempts re rq names n (Suc attempt) u" for u
    by (rule Suc.IH) (use Suc.prems in auto)
  ultimately show ?case
    by (cases "re_model re rq attempt") (simp_all add: respond_attempts.simps [of _ _ _ "Suc n"] Let_def cong: if_cong)
qed

lemma split_first_skip:
  "c \<notin> set b \<Longrightarrow> split_first (c # p) (b @ t) = map_option (\<lambda>(l, r). (b @ l, r)) (split_first (c # p) t)"
proof (induction b)
  case Nil
  then show ?case by (simp add: case_prod_beta option.map_ident)
next
  case (Cons d b)
  then show ?case by (auto simp: starts_with_simps option.map_comp o_def case_prod_beta)
qed

lemma split_first_here: "p \<noteq> [] \<Longrightarrow> split_first p (p @ t) = Some ([], t)"
  by (cases p) (simp_all add: starts_with_iff)

lemma split_last_char_here: "c \<notin> set r \<Longrightarrow> split_last_char c (y @ c # r) = Some (y, r)"
proof -
  assume c: "c \<notin> set r"
  have "c \<notin> set xs \<Longrightarrow> dropWhile (\<lambda>x. x \<noteq> c) (xs @ c # ys) = c # ys \<and> takeWhile (\<lambda>x. x \<noteq> c) (xs @ c # ys) = xs" for xs ys
    by (induction xs) auto
  from this [of "rev r" "rev y"] c show ?thesis by (simp add: split_last_char_def)
qed

section \<open>Properties\<close>

text \<open>
  C22. A response is never empty: an answer made of the replies of the model is a text that is not blank, or
  a list of calls that is not empty, and calls are answered only when tools were offered and text was
  not forced. The model is asked at most twice.
\<close>

theorem response_sound:
  assumes "respond_with_tools re ctx = Inr out"
  shows "(\<forall>t. ro_result out = RespText t \<longrightarrow> str_trim t \<noteq> []) \<and>
    (\<forall>cs c. ro_result out = RespToolCalls cs c \<longrightarrow> cs \<noteq> [] \<and> \<not> rc_force_text ctx \<and> rc_available_tools ctx \<noteq> []) \<and>
    (\<forall>m. m (respond_request re ctx) 0 = re_model re (respond_request re ctx) 0 \<and>
         m (respond_request re ctx) 1 = re_model re (respond_request re ctx) 1 \<longrightarrow>
       respond_with_tools (re\<lparr>re_model := m\<rparr>) ctx = Inr out)"
proof -
  let ?rq = "respond_request re ctx"
  have g: "good_result (mq_tools ?rq \<noteq> []) (ro_result out)"
    using assms unfolding respond_with_tools_def by (rule respond_attempts_good)
  have t: "mq_tools ?rq \<noteq> [] \<longleftrightarrow> \<not> rc_force_text ctx \<and> rc_available_tools ctx \<noteq> []"
    by (simp add: respond_request_def Let_def)
  have "respond_with_tools (re\<lparr>re_model := m\<rparr>) ctx = Inr out" if "m ?rq 0 = re_model re ?rq 0" "m ?rq 1 = re_model re ?rq 1" for m
  proof -
    have "respond_request (re\<lparr>re_model := m\<rparr>) ctx = ?rq" by (simp add: respond_request_def cong: option.case_cong)
    moreover have "m ?rq i = re_model re ?rq i" if "i \<le> 0 + MAX_EMPTY_RESPONSE_RETRIES" for i
      using that \<open>m ?rq 0 = _\<close> \<open>m ?rq 1 = _\<close> by (cases i) (simp_all add: MAX_EMPTY_RESPONSE_RETRIES_def)
    ultimately show ?thesis
      using assms respond_attempts_bounded [of 0 MAX_EMPTY_RESPONSE_RETRIES m ?rq re "map td_name (rc_available_tools ctx)" no_usage]
      by (simp add: respond_with_tools_def)
  qed
  with g t show ?thesis by (auto simp: good_result_def split: respond_result.splits)
qed

definition talking_model :: "string \<Rightarrow> reasoning" where
  "talking_model s = \<lparr>re_prompt = (\<lambda>_. []), re_parse = (\<lambda>_. None),
     re_model = (\<lambda>_ _. Inr \<lparr>mr_content = Some s, mr_tool_calls = [], mr_usage = no_usage\<rparr>)\<rparr>"

definition one_tool :: reasoning_context where
  "one_tool = \<lparr>rc_messages = [chat_user ''hi''], rc_available_tools = [\<lparr>td_name = ''shell'', td_description = [], td_parameters = JNull\<rparr>],
     rc_force_text = False, rc_system_prompt = None\<rparr>"

theorem response_sound_witness:
  "\<exists>out. respond_with_tools (talking_model []) (one_tool\<lparr>rc_force_text := True\<rparr>) = Inr out \<and>
     (case ro_result out of RespText t \<Rightarrow> str_trim t \<noteq> [] | RespToolCalls _ _ \<Rightarrow> False)"
proof -
  have "\<exists>out. respond_attempts (talking_model []) rq names n i u = Inr out" for rq names n i u
    by (induction n arbitrary: i u)
      (subst respond_attempts.simps, simp add: talking_model_def Let_def)+
  then obtain out where "respond_with_tools (talking_model []) (one_tool\<lparr>rc_force_text := True\<rparr>) = Inr out"
    unfolding respond_with_tools_def by blast
  with response_sound [OF this] show ?thesis by (cases "ro_result out") auto
qed

text \<open>
  A call that nobody sees is run: the search for calls in a text looks at the whole text, thinking and
  code included, so a model that only considers a call in its hidden thinking makes it, while the
  cleaning hides the thinking from the user.
\<close>

lemma hidden_call_is_run:
  assumes "re_model re (respond_request re ctx) 0 = Inr reply" "mr_tool_calls reply = []"
    "mr_content reply = Some (''<think>'' @ b @ ''<tool_call>'' @ n @ ''</tool_call>'' @ c)"
    "CHR ''<'' \<notin> set b" "n \<noteq> []" "CHR ''<'' \<notin> set n" "str_trim n = n" "re_parse re n = None"
    "n \<in> set (map td_name (rc_available_tools ctx))" "\<not> rc_force_text ctx"
  shows "\<exists>tcs text usage. respond_with_tools re ctx = Inr \<lparr>ro_result = RespToolCalls tcs text, ro_usage = usage\<rparr> \<and>
    tcs \<noteq> [] \<and> tcall_name (hd tcs) = n \<and> tcall_arguments (hd tcs) = JObject []"
proof -
  let ?names = "map td_name (rc_available_tools ctx)"
  let ?s = "''<think>'' @ b @ ''<tool_call>'' @ n @ ''</tool_call>'' @ c"
  have f: "split_first ''<tool_call>'' ?s = Some (''<think>'' @ b, n @ ''</tool_call>'' @ c)"
    using split_first_skip [OF assms(4), of "''tool_call>''" "''<tool_call>'' @ n @ ''</tool_call>'' @ c"]
    by (simp add: starts_with_simps)
  have g: "split_first ''</tool_call>'' (n @ ''</tool_call>'' @ c) = Some (n, c)"
    using split_first_skip [OF assms(6), of "''/tool_call>''" "''</tool_call>'' @ c"] by (simp add: starts_with_simps)
  have "tagged_texts ''<tool_call>'' ''</tool_call>'' ?s = n # tagged_texts ''<tool_call>'' ''</tool_call>'' c"
    by (subst tagged_texts.simps) (simp only: f g assms(7) option.case prod.case list.distinct simp_thms if_False)
  moreover have "tagged_call (re_parse re) ?names n = Some (n, JObject [])"
    using assms(5,8,9) by (simp add: tagged_call_def empty_object_def)
  ultimately obtain rest where t: "tagged_calls (re_parse re) ?names ?s = (n, JObject []) # rest"
    by (simp add: tagged_calls_def CALL_MARKS_def List.map_filter_def)
  let ?rec = "recover_tool_calls_from_content (re_parse re) ?names ?s"
  have r: "?rec \<noteq> []" "tcall_name (hd ?rec) = n" "tcall_arguments (hd ?rec) = JObject []"
    unfolding recover_tool_calls_from_content_def t by (simp_all add: recovered_tool_call_def)
  have "mq_tools (respond_request re ctx) \<noteq> []"
    using assms(9,10) by (auto simp: respond_request_def Let_def)
  then have "respond_with_tools re ctx = Inr \<lparr>ro_result = RespToolCalls ?rec
      (if clean_text ?s = [] then None else Some (clean_text ?s)), ro_usage = add_usage no_usage (mr_usage reply)\<rparr>"
    unfolding respond_with_tools_def
    using assms(1,2,3) r(1) by (subst respond_attempts.simps) (simp add: reply_text_def Let_def)
  with r show ?thesis by blast
qed

lemma hidden_call_is_run_witness:
  "\<exists>tcs text usage. respond_with_tools (talking_model (''<think>'' @ ''not '' @ ''<tool_call>'' @ ''shell'' @ ''</tool_call>'' @ ''</think>No'')) one_tool
     = Inr \<lparr>ro_result = RespToolCalls tcs text, ro_usage = usage\<rparr> \<and> tcs \<noteq> [] \<and> tcall_name (hd tcs) = ''shell''"
proof -
  let ?re = "talking_model (''<think>'' @ ''not '' @ ''<tool_call>'' @ ''shell'' @ ''</tool_call>'' @ ''</think>No'')"
  let ?r = "\<lparr>mr_content = Some (''<think>'' @ ''not '' @ ''<tool_call>'' @ ''shell'' @ ''</tool_call>'' @ ''</think>No''),
    mr_tool_calls = [], mr_usage = no_usage\<rparr>"
  have "re_model ?re (respond_request ?re one_tool) 0 = Inr ?r" "mr_tool_calls ?r = []"
    "mr_content ?r = Some (''<think>'' @ ''not '' @ ''<tool_call>'' @ ''shell'' @ ''</tool_call>'' @ ''</think>No'')"
    "CHR ''<'' \<notin> set ''not ''" "''shell'' \<noteq> []" "CHR ''<'' \<notin> set ''shell''" "str_trim ''shell'' = ''shell''"
    "re_parse ?re ''shell'' = None" "''shell'' \<in> set (map td_name (rc_available_tools one_tool))" "\<not> rc_force_text one_tool"
    by (simp_all add: talking_model_def one_tool_def str_trim_def is_whitespace_def)
  from hidden_call_is_run [OF this] show ?thesis by blast
qed

text \<open>
  Of two calls written in brackets only the first is made, and without its arguments: the arguments of
  a call reach to the last bracket of the text, so those of the first call include the second call,
  are no JSON any more and are replaced by none.
\<close>

lemma second_bracket_call_lost:
  assumes "n \<in> set names" "CHR 0x60 \<notin> set n" "CHR '']'' \<notin> set rest" "CHR ''['' \<notin> set rest"
    "parse (args @ '']'' @ newline @ called_prefix @ n2 @ [CHR 0x60] @ with_arguments @ args2) = None"
  shows "bracket_calls parse names (called_prefix @ n @ [CHR 0x60] @ with_arguments @ args @ '']'' @ newline
      @ called_prefix @ n2 @ [CHR 0x60] @ with_arguments @ args2 @ '']'' @ rest) = [(n, JObject [])]"
proof -
  let ?y = "args @ '']'' @ newline @ called_prefix @ n2 @ [CHR 0x60] @ with_arguments @ args2"
  let ?s = "called_prefix @ n @ [CHR 0x60] @ with_arguments @ ?y @ '']'' @ rest"
  have p: "split_first called_prefix ?s = Some ([], n @ [CHR 0x60] @ with_arguments @ ?y @ '']'' @ rest)"
    by (rule split_first_here) (simp add: called_prefix_def)
  have q: "split_first [CHR 0x60] (n @ [CHR 0x60] @ with_arguments @ ?y @ '']'' @ rest) = Some (n, with_arguments @ ?y @ '']'' @ rest)"
    using split_first_skip [OF assms(2), of "[]" "[CHR 0x60] @ with_arguments @ ?y @ '']'' @ rest"]
    by (simp add: starts_with_simps)
  have r: "Option.bind (strip_prefix (with_arguments @ ?y @ '']'' @ rest) with_arguments) (split_last_char (CHR '']'')) = Some (?y, rest)"
    using split_last_char_here [OF assms(3), of ?y] by (simp add: strip_prefix_def starts_with_iff)
  have e: "bracket_calls parse names rest = []"
    using assms(4) by (subst bracket_calls.simps) (simp add: called_prefix_def split_first_absent)
  have "bracket_calls parse names ?s = [(n, empty_object)]"
    by (subst bracket_calls.simps) (simp only: p q r e assms(1,5) option.case prod.case if_False not_True_eq_False not_not if_not_P refl simp_thms)
  then show ?thesis by (simp add: empty_object_def)
qed

definition only_braces :: "string \<Rightarrow> json option" where
  "only_braces s = (if s = [CHR 0x7B, CHR 0x7D] then Some (JObject []) else None)"

lemma second_bracket_call_lost_witness:
  "bracket_calls only_braces [''shell'', ''read'']
     (called_prefix @ ''shell'' @ [CHR 0x60] @ with_arguments @ [CHR 0x7B, CHR 0x7D] @ '']'' @ newline
      @ called_prefix @ ''read'' @ [CHR 0x60] @ with_arguments @ [CHR 0x7B, CHR 0x7D] @ '']'' @ []) = [(''shell'', JObject [])]"
  by (rule second_bracket_call_lost) (simp_all add: only_braces_def)

end
