(* ===== verification/Agentic_Loop.thy ===== *)
theory Agentic_Loop
  imports Tool_Recovery Chat_Tools
begin

text \<open>
  The loop that asks the model and runs its calls until it has an answer
  (\<open>src/agent/agentic_loop.rs\<close>), with the trait \<open>LoopDelegate\<close> as a record of functions over
  the state of the client. Its clients are the chat (\<open>Chat_Loop\<close>), the worker of a job
  (\<open>Job_Worker\<close>) and the runtime in a container (\<open>Container_Worker\<close>).

  The loop has a bound on its iterations, so it is a structural recursion over the iterations left.
  Locale \<open>text_forcing\<close> is the contract of a client that makes the model answer in text from some
  iteration on: such a loop never runs into its bound, and a larger bound changes nothing.
\<close>

section \<open>The interface\<close>

datatype loop_signal = SigContinue | SigStop | SigInject string

datatype text_action = ActReturn loop_outcome | ActContinue

record agentic_loop_config =
  alc_max_iterations :: nat
  alc_enable_tool_intent_nudge :: bool
  alc_max_tool_intent_nudges :: nat

definition default_loop_config :: agentic_loop_config where
  "default_loop_config =
     \<lparr>alc_max_iterations = 50, alc_enable_tool_intent_nudge = True, alc_max_tool_intent_nudges = 2\<rparr>"

record ('s, 'e) loop_delegate =
  dg_check_signals :: "'s \<Rightarrow> loop_signal \<times> 's"
  dg_before_llm_call :: "nat \<Rightarrow> reasoning_context \<Rightarrow> 's \<Rightarrow> loop_outcome option \<times> reasoning_context \<times> 's"
  dg_call_llm :: "nat \<Rightarrow> reasoning_context \<Rightarrow> 's \<Rightarrow> ('e + respond_output) \<times> reasoning_context \<times> 's"
  dg_handle_text :: "string \<Rightarrow> reasoning_context \<Rightarrow> 's \<Rightarrow> text_action \<times> reasoning_context \<times> 's"
  dg_execute_tools ::
    "tool_call list \<Rightarrow> string option \<Rightarrow> reasoning_context \<Rightarrow> 's \<Rightarrow> ('e + loop_outcome option) \<times> reasoning_context \<times> 's"
  dg_on_nudge :: "string \<Rightarrow> reasoning_context \<Rightarrow> 's \<Rightarrow> reasoning_context \<times> 's"
  dg_after_iteration :: "nat \<Rightarrow> 's \<Rightarrow> 's"

definition push_message :: "chat_message \<Rightarrow> reasoning_context \<Rightarrow> reasoning_context" where
  "push_message m ctx = ctx\<lparr>rc_messages := rc_messages ctx @ [m]\<rparr>"

lemma push_message_simps [simp]:
  "rc_messages (push_message m ctx) = rc_messages ctx @ [m]"
  "rc_available_tools (push_message m ctx) = rc_available_tools ctx"
  "rc_force_text (push_message m ctx) = rc_force_text ctx"
  "rc_system_prompt (push_message m ctx) = rc_system_prompt ctx"
  by (simp_all add: push_message_def)

section \<open>The loop\<close>

text \<open>Whether a text announces a call that was not made and the model should be reminded of it.\<close>

definition wants_nudge :: "agentic_loop_config \<Rightarrow> nat \<Rightarrow> reasoning_context \<Rightarrow> string \<Rightarrow> bool" where
  "wants_nudge cfg nudges ctx t \<longleftrightarrow>
     alc_enable_tool_intent_nudge cfg \<and> rc_available_tools ctx \<noteq> [] \<and> \<not> rc_force_text ctx \<and>
     nudges < alc_max_tool_intent_nudges cfg \<and> llm_signals_tool_intent t"

text \<open>
  One iteration: how the loop ends, or the consecutive reminders so far, with the messages and the state
  of the client.
\<close>

definition loop_iteration ::
    "agentic_loop_config \<Rightarrow> ('s, 'e) loop_delegate \<Rightarrow> nat \<Rightarrow> nat \<Rightarrow> reasoning_context \<Rightarrow> 's \<Rightarrow>
     (('e + loop_outcome) + nat) \<times> reasoning_context \<times> 's" where
  "loop_iteration cfg d i nudges ctx0 s0 =
     (case dg_check_signals d s0 of
        (SigStop, s1) \<Rightarrow> (Inl (Inr LoopStopped), ctx0, s1)
      | (sig, s1) \<Rightarrow>
          let ctx1 = (case sig of SigInject msg \<Rightarrow> push_message (chat_user msg) ctx0 | _ \<Rightarrow> ctx0)
          in case dg_before_llm_call d i ctx1 s1 of
               (Some out, ctx2, s2) \<Rightarrow> (Inl (Inr out), ctx2, s2)
             | (None, ctx2, s2) \<Rightarrow>
                 (case dg_call_llm d i ctx2 s2 of
                    (Inl e, ctx3, s3) \<Rightarrow> (Inl (Inl e), ctx3, s3)
                  | (Inr output, ctx3, s3) \<Rightarrow>
                      (case ro_result output of
                         RespText t \<Rightarrow>
                           if wants_nudge cfg nudges ctx3 t
                           then let (ctx4, s4) = dg_on_nudge d t ctx3 s3
                                in (Inr (Suc nudges),
                                    push_message (chat_user TOOL_INTENT_NUDGE) (push_message (chat_assistant t) ctx4),
                                    dg_after_iteration d i s4)
                           else (case dg_handle_text d t ctx3 s3 of
                              (ActReturn out, ctx4, s4) \<Rightarrow> (Inl (Inr out), ctx4, s4)
                            | (ActContinue, ctx4, s4) \<Rightarrow>
                                (Inr (if llm_signals_tool_intent t then nudges else 0), ctx4, dg_after_iteration d i s4))
                       | RespToolCalls tcs content \<Rightarrow>
                           (case dg_execute_tools d tcs content ctx3 s3 of
                              (Inl e, ctx4, s4) \<Rightarrow> (Inl (Inl e), ctx4, s4)
                            | (Inr (Some out), ctx4, s4) \<Rightarrow> (Inl (Inr out), ctx4, s4)
                            | (Inr None, ctx4, s4) \<Rightarrow> (Inr 0, ctx4, dg_after_iteration d i s4)))))"

text \<open>\<open>left\<close> iterations are left, the next one is number \<open>i\<close>.\<close>

fun agentic_loop ::
    "agentic_loop_config \<Rightarrow> ('s, 'e) loop_delegate \<Rightarrow> nat \<Rightarrow> nat \<Rightarrow> nat \<Rightarrow> reasoning_context \<Rightarrow> 's \<Rightarrow>
     ('e + loop_outcome) \<times> reasoning_context \<times> 's" where
  "agentic_loop cfg d 0 i nudges ctx s = (Inr LoopMaxIterations, ctx, s)"
| "agentic_loop cfg d (Suc left) i nudges ctx s =
     (case loop_iteration cfg d i nudges ctx s of
        (Inl r, ctx', s') \<Rightarrow> (r, ctx', s')
      | (Inr nudges', ctx', s') \<Rightarrow> agentic_loop cfg d left (Suc i) nudges' ctx' s')"

definition run_agentic_loop ::
    "agentic_loop_config \<Rightarrow> ('s, 'e) loop_delegate \<Rightarrow> reasoning_context \<Rightarrow> 's \<Rightarrow>
     ('e + loop_outcome) \<times> reasoning_context \<times> 's" where
  "run_agentic_loop cfg d ctx s = agentic_loop cfg d (alc_max_iterations cfg) 1 0 ctx s"

section \<open>Lemmas\<close>

lemma loop_iteration_nudges:
  "loop_iteration cfg d i n ctx s = (Inr n', ctx', s') \<Longrightarrow> n \<le> alc_max_tool_intent_nudges cfg \<Longrightarrow>
     n' \<le> alc_max_tool_intent_nudges cfg"
  by (auto simp: loop_iteration_def wants_nudge_def Let_def
      split: prod.splits loop_signal.splits option.splits sum.splits respond_result.splits
        text_action.splits if_splits)

lemma iteration_config:
  "loop_iteration (cfg\<lparr>alc_max_iterations := m\<rparr>) d i n ctx s = loop_iteration cfg d i n ctx s"
proof -
  have "wants_nudge (cfg\<lparr>alc_max_iterations := m\<rparr>) = wants_nudge cfg"
    by (intro ext) (simp add: wants_nudge_def)
  then show ?thesis unfolding loop_iteration_def by (simp only:)
qed

lemma agentic_loop_config [simp]:
  "agentic_loop (cfg\<lparr>alc_max_iterations := m\<rparr>) d left i n ctx s = agentic_loop cfg d left i n ctx s"
  by (induction left arbitrary: i n ctx s) (auto simp: iteration_config split: prod.splits sum.splits)

text \<open>The bound on the iterations only cuts the loop off: an outcome before the bound is kept by larger bounds.\<close>

lemma agentic_loop_more:
  "agentic_loop cfg d left i n ctx s = (r, ctx', s') \<Longrightarrow> r \<noteq> Inr LoopMaxIterations \<Longrightarrow>
     agentic_loop cfg d (left + k) i n ctx s = (r, ctx', s')"
proof (induction left arbitrary: i n ctx s)
  case (Suc left)
  then show ?case by (auto split: prod.splits sum.splits)
qed simp

text \<open>
  What the steps of the client keep, an iteration keeps; the request to the model may weaken it, for
  instance by a bound on the requests made.
\<close>

locale loop_step =
  fixes d :: "('s, 'e) loop_delegate"
    and pre :: "'s \<Rightarrow> bool"
    and inv :: "'s \<Rightarrow> bool"
  assumes weaken: "pre s \<Longrightarrow> inv s"
    and keeps_signals: "pre s \<Longrightarrow> pre (snd (dg_check_signals d s))"
    and keeps_before: "pre s \<Longrightarrow> pre (snd (snd (dg_before_llm_call d i ctx s)))"
    and keeps_call: "pre s \<Longrightarrow> inv (snd (snd (dg_call_llm d i ctx s)))"
    and keeps_text: "inv s \<Longrightarrow> inv (snd (snd (dg_handle_text d t ctx s)))"
    and keeps_tools: "inv s \<Longrightarrow> inv (snd (snd (dg_execute_tools d tcs c ctx s)))"
    and keeps_nudge: "inv s \<Longrightarrow> inv (snd (dg_on_nudge d t ctx s))"
    and keeps_after: "inv s \<Longrightarrow> inv (dg_after_iteration d i s)"
begin

lemma reply_keeps:
  assumes "inv s"
  shows "case dg_on_nudge d t ctx s of (ctx4, s4) \<Rightarrow> inv (dg_after_iteration d i s4)"
    "case dg_handle_text d t ctx s of (act, ctx4, s4) \<Rightarrow> inv s4 \<and> inv (dg_after_iteration d i s4)"
    "case dg_execute_tools d tcs c ctx s of (res, ctx4, s4) \<Rightarrow> inv s4 \<and> inv (dg_after_iteration d i s4)"
  using keeps_nudge [OF assms, of t ctx] keeps_text [OF assms, of t ctx] keeps_tools [OF assms, of tcs c ctx]
  by (auto split: prod.splits intro: keeps_after)

lemma iteration_keeps:
  assumes "pre s"
  shows "inv (snd (snd (loop_iteration cfg d i n ctx s)))"
proof -
  obtain sig s1 where sg: "dg_check_signals d s = (sig, s1)" by fastforce
  define ctx1 where "ctx1 = (case sig of SigInject msg \<Rightarrow> push_message (chat_user msg) ctx | _ \<Rightarrow> ctx)"
  obtain b ctx2 s2 where bf: "dg_before_llm_call d i ctx1 s1 = (b, ctx2, s2)" by (metis prod_cases3)
  obtain c ctx3 s3 where cl: "dg_call_llm d i ctx2 s2 = (c, ctx3, s3)" by (metis prod_cases3)
  have "pre s1" using keeps_signals [OF assms] sg by simp
  moreover from this have "pre s2" using keeps_before [of s1 i ctx1] bf by simp
  ultimately have inv: "inv s1" "inv s2" "inv s3" using keeps_call [of s2 i ctx2] cl by (simp_all add: weaken)
  show ?thesis
  proof (cases "sig = SigStop \<or> b \<noteq> None \<or> isl c")
    case True
    with sg bf cl inv show ?thesis
      by (cases sig; cases b; cases c) (auto simp: loop_iteration_def ctx1_def)
  next
    case False
    then obtain out where out: "b = None" "c = Inr out" by (cases c) auto
    from False sg bf cl have eq: "loop_iteration cfg d i n ctx s = (case ro_result out of
        RespText t \<Rightarrow>
          if wants_nudge cfg n ctx3 t
          then let (ctx4, s4) = dg_on_nudge d t ctx3 s3
               in (Inr (Suc n), push_message (chat_user TOOL_INTENT_NUDGE) (push_message (chat_assistant t) ctx4),
                   dg_after_iteration d i s4)
          else (case dg_handle_text d t ctx3 s3 of
             (ActReturn out, ctx4, s4) \<Rightarrow> (Inl (Inr out), ctx4, s4)
           | (ActContinue, ctx4, s4) \<Rightarrow>
               (Inr (if llm_signals_tool_intent t then n else 0), ctx4, dg_after_iteration d i s4))
      | RespToolCalls tcs content \<Rightarrow>
          (case dg_execute_tools d tcs content ctx3 s3 of
             (Inl e, ctx4, s4) \<Rightarrow> (Inl (Inl e), ctx4, s4)
           | (Inr (Some out), ctx4, s4) \<Rightarrow> (Inl (Inr out), ctx4, s4)
           | (Inr None, ctx4, s4) \<Rightarrow> (Inr 0, ctx4, dg_after_iteration d i s4)))"
      unfolding out by (cases sig) (simp_all add: loop_iteration_def ctx1_def)
    show ?thesis
    proof (cases "ro_result out")
      case (RespText t)
      with reply_keeps(1,2) [OF inv(3), where t = t and ctx = ctx3 and i = i] show ?thesis
        unfolding eq by (auto split: prod.splits text_action.splits)
    next
      case (RespToolCalls tcs content)
      with reply_keeps(3) [OF inv(3), where tcs = tcs and c = content and ctx = ctx3 and i = i] show ?thesis
        unfolding eq by (auto split: prod.splits sum.splits option.splits)
    qed
  qed
qed

end

locale loop_invariant = loop_step d inv inv
  for d :: "('s, 'e) loop_delegate" and inv
begin

lemma loop_keeps: "inv s \<Longrightarrow> inv (snd (snd (agentic_loop cfg d left i n ctx s)))"
proof (induction left arbitrary: i n ctx s)
  case (Suc left)
  from iteration_keeps [OF Suc.prems, of cfg i n ctx] Suc.IH show ?case
    by (auto split: prod.splits sum.splits)
qed simp

end

text \<open>Steps that cost at most \<open>c\<close> per request: a loop costs at most \<open>c\<close> per iteration.\<close>

lemma loop_budget:
  assumes "\<And>N. loop_step d (\<lambda>s. f s \<le> N) (\<lambda>s. f s \<le> N + c)"
  shows "f (snd (snd (agentic_loop cfg d left i n ctx s))) \<le> f s + c * (left :: nat)"
proof (induction left arbitrary: i n ctx s)
  case (Suc left)
  have step: "f (snd (snd (loop_iteration cfg d i n ctx s))) \<le> f s + c"
    using loop_step.iteration_keeps [OF assms, of s "f s"] by simp
  show ?case
  proof (cases "fst (loop_iteration cfg d i n ctx s)")
    case (Inl r)
    with step show ?thesis by (auto split: prod.splits sum.splits)
  next
    case (Inr n')
    then obtain ctx' s' where it: "loop_iteration cfg d i n ctx s = (Inr n', ctx', s')" by (metis prod.collapse)
    with step Suc.IH [of "Suc i" n' ctx' s'] show ?thesis by simp
  qed
qed simp

locale text_forcing =
  fixes d :: "('s, 'e) loop_delegate"
    and limit :: nat
  assumes before_goes_on: "dg_before_llm_call d i ctx s = (Some out, ctx', s') \<Longrightarrow> out \<noteq> LoopMaxIterations"
    and before_forces: "dg_before_llm_call d i ctx s = (r, ctx', s') \<Longrightarrow> limit \<le> i \<Longrightarrow> rc_force_text ctx'"
    and forced_text: "dg_call_llm d i ctx s = (Inr ans, ctx', s') \<Longrightarrow> rc_force_text ctx \<Longrightarrow>
        (\<exists>t. ro_result ans = RespText t) \<and> rc_force_text ctx'"
    and text_returns: "dg_handle_text d t ctx s = (a, ctx', s') \<Longrightarrow> \<exists>out. a = ActReturn out \<and> out \<noteq> LoopMaxIterations"
    and tools_go_on: "dg_execute_tools d tcs c ctx s = (Inr (Some out), ctx', s') \<Longrightarrow> out \<noteq> LoopMaxIterations"
begin

lemma iteration_outcome:
  "loop_iteration cfg d i n ctx s = (Inl r, ctx', s') \<Longrightarrow> r \<noteq> Inr LoopMaxIterations"
  by (auto simp: loop_iteration_def Let_def
      split: prod.splits loop_signal.splits option.splits sum.splits respond_result.splits
        text_action.splits if_splits
      dest: before_goes_on text_returns tools_go_on)

lemma forced_iteration:
  assumes "limit \<le> i"
  shows "\<exists>r ctx' s'. loop_iteration cfg d i n ctx s = (Inl r, ctx', s')"
proof -
  obtain sig s1 where sg: "dg_check_signals d s = (sig, s1)" by fastforce
  define ctx1 where "ctx1 = (case sig of SigInject msg \<Rightarrow> push_message (chat_user msg) ctx | _ \<Rightarrow> ctx)"
  obtain b ctx2 s2 where bf: "dg_before_llm_call d i ctx1 s1 = (b, ctx2, s2)" by (metis prod_cases3)
  obtain c ctx3 s3 where cl: "dg_call_llm d i ctx2 s2 = (c, ctx3, s3)" by (metis prod_cases3)
  have f: "rc_force_text ctx2" by (rule before_forces [OF bf assms])
  show ?thesis
  proof (cases c)
    case (Inr out)
    from forced_text [OF cl [unfolded Inr] f] obtain t where t: "ro_result out = RespText t" "rc_force_text ctx3" by blast
    obtain a ctx4 s4 where h: "dg_handle_text d t ctx3 s3 = (a, ctx4, s4)" by (metis prod_cases3)
    from text_returns [OF h] obtain o' where "a = ActReturn o'" by blast
    with sg bf cl Inr t h show ?thesis
      by (cases sig; cases b) (simp_all add: loop_iteration_def ctx1_def wants_nudge_def)
  qed (use sg bf cl in \<open>cases sig; cases b; simp add: loop_iteration_def ctx1_def\<close>)
qed

lemma loop_never_cut_off:
  "limit < i + left \<Longrightarrow> 0 < left \<Longrightarrow> fst (agentic_loop cfg d left i n ctx s) \<noteq> Inr LoopMaxIterations"
proof (induction left arbitrary: i n ctx s)
  case (Suc left)
  show ?case
  proof (cases "left = 0")
    case True
    with Suc.prems have "limit \<le> i" by simp
    from forced_iteration [OF this, of cfg n ctx s] show ?thesis
      by (auto dest: iteration_outcome)
  next
    case False
    with Suc show ?thesis by (auto split: prod.splits sum.splits dest: iteration_outcome)
  qed
qed simp

lemma loop_bound_irrelevant:
  "limit < i + left \<Longrightarrow> 0 < left \<Longrightarrow> agentic_loop cfg d (left + k) i n ctx s = agentic_loop cfg d left i n ctx s"
  using loop_never_cut_off [of i left cfg n ctx s]
    agentic_loop_more [of cfg d left i n ctx s _ _ _ k]
  by (metis fst_conv prod_cases3)

end

end
