(* ===== verification/Chat_Loop.thy ===== *)
theory Chat_Loop
  imports Agentic_Loop Thread_Ops Cost_Guard
begin

text \<open>
  The client of the agentic loop for a chat turn: \<open>ChatDelegate\<close> and \<open>Agent::run_agentic_loop\<close> of
  \<open>src/agent/dispatcher.rs\<close>. Its state is the session manager, the cost guard and the number of
  requests made so far. Other tasks change sessions while the loop waits (a user interrupts the turn):
  \<open>le_others\<close> is what they did since the last look at the thread.

  The prompt of the workspace, the selection of skills and the status messages to the channel are not
  modelled; the prompts, the definitions of the tools per iteration and the model per request are fields
  of the environment.
\<close>

section \<open>Compaction before a retry\<close>

definition compaction_note :: string where
  "compaction_note =
     ''[Note: Earlier conversation history was automatically compacted ''
     @ ''to fit within the context window. The most recent exchange is preserved below.]''"

definition compact_messages_for_retry :: "chat_message list \<Rightarrow> chat_message list" where
  "compact_messages_for_retry ms =
     (let is_system = (\<lambda>m. cm_role m = ChatSystem);
          not_user = (\<lambda>m. cm_role m \<noteq> ChatUser);
          recent = rev (takeWhile not_user (rev ms))
      in case dropWhile not_user (rev ms) of
           last_user # earlier \<Rightarrow>
             filter is_system (rev earlier) @ (if earlier \<noteq> [] then [chat_system compaction_note] else [])
             @ last_user # recent
         | [] \<Rightarrow> filter is_system ms @ filter (\<lambda>m. \<not> is_system m) ms)"

section \<open>The client\<close>

record chat_loop_env =
  le_chat :: chat_env
  le_place :: chat_place
  le_sid :: uuid
  le_tid :: uuid
  le_tool_defs :: "nat \<Rightarrow> tool_definition list"
  le_attenuate :: "tool_definition list \<Rightarrow> tool_definition list"
  le_prompt :: string
  le_prompt_no_tools :: string
  le_max_tool_iterations :: nat
  le_reasoning :: "nat \<Rightarrow> reasoning"
  le_show_limit :: "cost_limit_exceeded \<Rightarrow> string"
  le_usage :: "token_usage \<Rightarrow> llm_usage"
  le_now :: "nat \<Rightarrow> time"
  le_today :: "nat \<Rightarrow> int"
  le_outs :: "nat \<Rightarrow> nat \<Rightarrow> tool_outcome option"
  le_request_id :: "nat \<Rightarrow> uuid"
  le_timezone :: string
  le_others :: "nat \<Rightarrow> session_manager \<Rightarrow> session_manager"

record chat_loop_state =
  cl_sm :: session_manager
  cl_cost :: cost_guard
  cl_requests :: nat

definition chat_check_signals :: "chat_loop_env \<Rightarrow> chat_loop_state \<Rightarrow> loop_signal \<times> chat_loop_state" where
  "chat_check_signals le st =
     (let sm = le_others le (cl_requests st) (cl_sm st)
      in (case session_thread (le_sid le) (le_tid le) sm of
            Some th \<Rightarrow> if ct_state th = ChatInterrupted then SigStop else SigContinue
          | None \<Rightarrow> SigContinue,
          st\<lparr>cl_sm := sm\<rparr>))"

definition limit_nudge :: string where
  "limit_nudge =
     ''You are approaching the tool call limit. ''
     @ ''Provide your best final answer on the next response ''
     @ ''using the information you have gathered so far. ''
     @ ''Do not call any more tools.''"

text \<open>Subtraction on natural numbers saturates, as \<open>saturating_sub\<close> does.\<close>

definition chat_before_llm_call ::
    "chat_loop_env \<Rightarrow> nat \<Rightarrow> reasoning_context \<Rightarrow> chat_loop_state \<Rightarrow>
     loop_outcome option \<times> reasoning_context \<times> chat_loop_state" where
  "chat_before_llm_call le i ctx st =
     (let ctx1 = (if i = le_max_tool_iterations le - 1 then push_message (chat_system limit_nudge) ctx else ctx);
          force_text = (le_max_tool_iterations le \<le> i)
      in (None,
          ctx1\<lparr>rc_available_tools := le_attenuate le (le_tool_defs le i),
            rc_system_prompt := Some (if force_text then le_prompt_no_tools le else le_prompt le),
            rc_force_text := force_text\<rparr>,
          st))"

text \<open>A request to the model; the next request sees the next answer.\<close>

definition chat_respond ::
    "chat_loop_env \<Rightarrow> reasoning_context \<Rightarrow> chat_loop_state \<Rightarrow> (llm_error + respond_output) \<times> chat_loop_state" where
  "chat_respond le ctx st =
     (respond_with_tools (le_reasoning le (cl_requests st)) ctx, st\<lparr>cl_requests := Suc (cl_requests st)\<rparr>)"

definition chat_record_cost :: "chat_loop_env \<Rightarrow> respond_output \<Rightarrow> chat_loop_state \<Rightarrow> chat_loop_state" where
  "chat_record_cost le out st =
     st\<lparr>cl_cost := snd (record_llm_call (le_now le (cl_requests st)) (le_today le (cl_requests st))
          (le_usage le (ro_usage out)) (cl_cost st))\<rparr>"

definition chat_call_llm ::
    "chat_loop_env \<Rightarrow> nat \<Rightarrow> reasoning_context \<Rightarrow> chat_loop_state \<Rightarrow>
     (llm_error + respond_output) \<times> reasoning_context \<times> chat_loop_state" where
  "chat_call_llm le i ctx st =
     (case check_allowed (le_now le (cl_requests st)) (cl_cost st) of
        (Inl limit, cg) \<Rightarrow> (Inl (InvalidResponse ''agent'' (le_show_limit le limit)), ctx, st\<lparr>cl_cost := cg\<rparr>)
      | (Inr _, cg) \<Rightarrow>
          (case chat_respond le ctx (st\<lparr>cl_cost := cg\<rparr>) of
             (Inr out, st1) \<Rightarrow> (Inr out, ctx, chat_record_cost le out st1)
           | (Inl (ContextLengthExceeded used limit), st1) \<Rightarrow>
               (let ctx1 = ctx\<lparr>rc_messages := compact_messages_for_retry (rc_messages ctx)\<rparr>;
                    ctx2 = (if rc_force_text ctx1 then ctx1\<lparr>rc_available_tools := []\<rparr> else ctx1)
                in case chat_respond le ctx2 st1 of
                     (Inr out, st2) \<Rightarrow> (Inr out, ctx2, chat_record_cost le out st2)
                   | (Inl e, st2) \<Rightarrow> (Inl e, ctx2, st2))
           | (Inl e, st1) \<Rightarrow> (Inl e, ctx, st1)))"

definition chat_handle_text ::
    "string \<Rightarrow> reasoning_context \<Rightarrow> chat_loop_state \<Rightarrow> text_action \<times> reasoning_context \<times> chat_loop_state" where
  "chat_handle_text t ctx st = (ActReturn (LoopResponse (strip_internal_tool_call_text t)), ctx, st)"

text \<open>A thread that is gone is not written to; the calls run all the same.\<close>

definition chat_execute_tools ::
    "chat_loop_env \<Rightarrow> tool_call list \<Rightarrow> string option \<Rightarrow> reasoning_context \<Rightarrow> chat_loop_state \<Rightarrow>
     (llm_error + loop_outcome option) \<times> reasoning_context \<times> chat_loop_state" where
  "chat_execute_tools le tcs content ctx st =
     (let sm = cl_sm st; k = cl_requests st;
          th = (case session_thread (le_sid le) (le_tid le) sm of
                  Some th \<Rightarrow> th | None \<Rightarrow> chat_thread_with_id (le_now le k) (le_tid le) (le_sid le));
          (r, th2, ms) = execute_tool_calls (le_chat le) (le_place le) (session_approved (le_sid le) sm)
             (le_now le k) (le_request_id le k) (le_timezone le) (le_outs le k) tcs content th (rc_messages ctx)
      in (Inr r, ctx\<lparr>rc_messages := ms\<rparr>,
          st\<lparr>cl_sm := modify_thread (le_sid le) (le_tid le) (\<lambda>_. th2) sm\<rparr>))"

definition chat_delegate :: "chat_loop_env \<Rightarrow> (chat_loop_state, llm_error) loop_delegate" where
  "chat_delegate le =
     \<lparr>dg_check_signals = chat_check_signals le,
      dg_before_llm_call = chat_before_llm_call le,
      dg_call_llm = chat_call_llm le,
      dg_handle_text = chat_handle_text,
      dg_execute_tools = chat_execute_tools le,
      dg_on_nudge = (\<lambda>_ ctx st. (ctx, st)),
      dg_after_iteration = (\<lambda>_ st. st)\<rparr>"

definition chat_loop_config :: "chat_loop_env \<Rightarrow> agentic_loop_config" where
  "chat_loop_config le =
     \<lparr>alc_max_iterations = le_max_tool_iterations le + 1, alc_enable_tool_intent_nudge = True,
      alc_max_tool_intent_nudges = 2\<rparr>"

section \<open>A turn\<close>

definition chat_loop_context :: "chat_loop_env \<Rightarrow> tool_definition list \<Rightarrow> chat_message list \<Rightarrow> reasoning_context" where
  "chat_loop_context le tools ms =
     \<lparr>rc_messages = ms, rc_available_tools = tools, rc_force_text = False, rc_system_prompt = Some (le_prompt le)\<rparr>"

text \<open>How the turn ends; \<open>show_error\<close> is the text of an error of the model.\<close>

definition chat_loop_outcome ::
    "(llm_error \<Rightarrow> string) \<Rightarrow> chat_loop_env \<Rightarrow> llm_error + loop_outcome \<Rightarrow> chat_loop_result" where
  "chat_loop_outcome show_error le r =
     (case r of
        Inr (LoopResponse t) \<Rightarrow> ClrResponse t
      | Inr LoopStopped \<Rightarrow> ClrError (''Job error: Job '' @ show_nat (le_tid le) @ '' context error: Interrupted'')
      | Inr LoopMaxIterations \<Rightarrow>
          ClrError (''LLM error: '' @ show_error (InvalidResponse ''agent''
            (''Exceeded maximum tool iterations ('' @ show_nat (le_max_tool_iterations le) @ '')'')))
      | Inr (LoopNeedApproval p) \<Rightarrow> ClrNeedApproval p
      | Inl e \<Rightarrow> ClrError (''LLM error: '' @ show_error e))"

text \<open>\<open>reflex\<close> is the answer of a compiled pattern, when one matches and its tool succeeds.\<close>

definition run_chat_loop ::
    "(llm_error \<Rightarrow> string) \<Rightarrow> chat_loop_env \<Rightarrow> string option \<Rightarrow> chat_message list \<Rightarrow> chat_loop_state \<Rightarrow>
     chat_loop_result \<times> chat_loop_state" where
  "run_chat_loop show_error le reflex ms st =
     (case reflex of
        Some output \<Rightarrow> (ClrResponse output, st)
      | None \<Rightarrow>
          (let ctx = chat_loop_context le (le_attenuate le (le_tool_defs le 0)) ms;
               (r, _, st1) = run_agentic_loop (chat_loop_config le) (chat_delegate le) ctx st
           in (chat_loop_outcome show_error le r, st1)))"

section \<open>Lemmas\<close>

lemma respond_forced:
  assumes "respond_with_tools re ctx = Inr out" "rc_force_text ctx"
  shows "\<exists>t. ro_result out = RespText t"
proof -
  have "good_result (mq_tools (respond_request re ctx) \<noteq> []) (ro_result out)"
    using assms(1) unfolding respond_with_tools_def by (rule respond_attempts_good)
  with assms(2) show ?thesis
    by (cases "ro_result out") (simp_all add: good_result_def respond_request_def Let_def)
qed

lemma chat_call_forced:
  assumes "chat_call_llm le i ctx st = (Inr out, ctx', st')" "rc_force_text ctx"
  shows "(\<exists>t. ro_result out = RespText t) \<and> rc_force_text ctx'"
  using assms
  by (auto simp: chat_call_llm_def chat_respond_def Let_def
      split: prod.splits sum.splits llm_error.splits if_splits intro: respond_forced)

lemma batch_outcome_ends:
  "execute_tool_calls env pl approved now rid tz outs tcs content th ms = (Some out, th', ms') \<Longrightarrow> out \<noteq> LoopMaxIterations"
  by (auto simp: execute_tool_calls_def Let_def split: prod.splits option.splits)

interpretation chat_forcing: text_forcing "chat_delegate le" "le_max_tool_iterations le" for le
proof
  show "\<exists>out. a = ActReturn out \<and> out \<noteq> LoopMaxIterations"
    if "dg_handle_text (chat_delegate le) t ctx s = (a, ctx', s')" for t ctx s a ctx' s'
    using that by (auto simp: chat_delegate_def chat_handle_text_def)
  show "(\<exists>t. ro_result ans = RespText t) \<and> rc_force_text ctx'"
    if "dg_call_llm (chat_delegate le) i ctx s = (Inr ans, ctx', s')" "rc_force_text ctx" for i ctx s ans ctx' s'
    using that by (auto simp: chat_delegate_def dest: chat_call_forced)
  show "out \<noteq> LoopMaxIterations"
    if "dg_execute_tools (chat_delegate le) tcs c ctx s = (Inr (Some out), ctx', s')" for tcs c ctx s out ctx' s'
    using that by (auto simp: chat_delegate_def chat_execute_tools_def Let_def split: prod.splits dest: batch_outcome_ends)
qed (auto simp: chat_delegate_def chat_before_llm_call_def Let_def)

text \<open>A client that makes at most \<open>c\<close> requests in every call makes at most \<open>c\<close> in every iteration.\<close>

lemma chat_call_requests:
  "cl_requests (snd (snd (chat_call_llm le i ctx st))) \<le> cl_requests st + 2"
  by (auto simp: chat_call_llm_def chat_respond_def chat_record_cost_def Let_def
      split: prod.splits sum.splits llm_error.splits)

lemma chat_other_requests [simp]:
  "cl_requests (snd (chat_check_signals le st)) = cl_requests st"
  "cl_requests (snd (snd (chat_before_llm_call le i ctx st))) = cl_requests st"
  "cl_requests (snd (snd (chat_handle_text t ctx st))) = cl_requests st"
  "cl_requests (snd (snd (chat_execute_tools le tcs c ctx st))) = cl_requests st"
  by (simp_all add: chat_check_signals_def chat_before_llm_call_def chat_handle_text_def chat_execute_tools_def
      Let_def split: prod.splits)

interpretation chat_step: loop_step "chat_delegate le" "\<lambda>st. cl_requests st \<le> N" "\<lambda>st. cl_requests st \<le> N + 2" for le N
proof
  show "cl_requests (snd (snd (dg_call_llm (chat_delegate le) i ctx s))) \<le> N + 2" if "cl_requests s \<le> N" for s i ctx
    using chat_call_requests [of le i ctx s] that by (simp add: chat_delegate_def)
qed (simp_all add: chat_delegate_def)

lemma chat_loop_requests:
  "cl_requests (snd (snd (agentic_loop cfg (chat_delegate le) left i n ctx st))) \<le> cl_requests st + 2 * left"
  by (rule loop_budget) (rule chat_step.loop_step_axioms)

lemma compact_split:
  assumes "cm_role u = ChatUser" "\<forall>m \<in> set after. cm_role m \<noteq> ChatUser"
  shows "compact_messages_for_retry (before @ u # after)
    = filter (\<lambda>m. cm_role m = ChatSystem) before @ (if before = [] then [] else [chat_system compaction_note]) @ u # after"
proof -
  let ?P = "\<lambda>m. cm_role m \<noteq> ChatUser"
  have "takeWhile ?P (rev (before @ u # after)) = rev after" "dropWhile ?P (rev (before @ u # after)) = u # rev before"
    using assms by (simp_all add: takeWhile_append dropWhile_append)
  then show ?thesis by (simp add: compact_messages_for_retry_def)
qed

section \<open>Properties\<close>


text \<open>
  A request that is too long for the model is sent again with the instructions and the messages from the
  last message of the user on. A reminder of an announced call is such a message, so after a reminder
  the second request has lost what the user asked and what the calls of the turn returned.
\<close>

lemma retry_after_nudge_forgets_request:
  assumes "check_allowed (le_now le (cl_requests st)) (cl_cost st) = (Inr (), cg)"
    "respond_with_tools (le_reasoning le (cl_requests st)) ctx = Inl (ContextLengthExceeded used limit)"
    "rc_messages ctx = ms @ [chat_assistant t, chat_user TOOL_INTENT_NUDGE]"
  shows "\<exists>ctx2. fst (chat_call_llm le i ctx st) = respond_with_tools (le_reasoning le (Suc (cl_requests st))) ctx2 \<and>
    (\<forall>re. tl (mq_messages (respond_request re ctx2)) = [chat_user TOOL_INTENT_NUDGE])"
proof -
  define ctx2 where "ctx2 = (let c = ctx\<lparr>rc_messages := compact_messages_for_retry (rc_messages ctx)\<rparr>
      in if rc_force_text c then c\<lparr>rc_available_tools := []\<rparr> else c)"
  have "fst (chat_call_llm le i ctx st) = respond_with_tools (le_reasoning le (Suc (cl_requests st))) ctx2"
    using assms(1,2) by (auto simp: chat_call_llm_def chat_respond_def ctx2_def Let_def split: sum.splits prod.splits)
  moreover have "rc_messages ctx2 = filter (\<lambda>m. cm_role m = ChatSystem) ms @ [chat_system compaction_note, chat_user TOOL_INTENT_NUDGE]"
    using compact_split [of "chat_user TOOL_INTENT_NUDGE" "[]" "ms @ [chat_assistant t]"] assms(3)
    by (simp add: ctx2_def Let_def chat_user_def chat_assistant_def)
  then have "tl (mq_messages (respond_request re ctx2)) = [chat_user TOOL_INTENT_NUDGE]" for re
    by (simp add: respond_request_def Let_def chat_system_def chat_user_def)
  ultimately show ?thesis by blast
qed

definition sample_loop :: chat_loop_env where
  "sample_loop =
     \<lparr>le_chat = sample_env, le_place = web_place, le_sid = 1, le_tid = 2, le_tool_defs = (\<lambda>_. []), le_attenuate = (\<lambda>ts. ts),
      le_prompt = ''p'', le_prompt_no_tools = ''q'', le_max_tool_iterations = 5,
      le_reasoning = (\<lambda>k. if k = 0 then (talking_model [])\<lparr>re_model := (\<lambda>_ _. Inl (ContextLengthExceeded 9 8))\<rparr>
                          else talking_model ''yes''),
      le_show_limit = (\<lambda>_. []), le_usage = (\<lambda>_. usage_example), le_now = (\<lambda>_. 0), le_today = (\<lambda>_. 0),
      le_outs = (\<lambda>_ _. None), le_request_id = (\<lambda>k. k), le_timezone = ''UTC'', le_others = (\<lambda>_ sm. sm)\<rparr>"

definition sample_loop_state :: chat_loop_state where
  "sample_loop_state = \<lparr>cl_sm = new_session_manager, cl_cost = new_cost_guard 0 cost_example, cl_requests = 0\<rparr>"

lemma retry_after_nudge_forgets_request_witness:
  "\<exists>ctx2. fst (chat_call_llm sample_loop 2 (chat_loop_context sample_loop []
       [chat_user ''sum it up'', chat_assistant ''Let me search'', chat_user TOOL_INTENT_NUDGE]) sample_loop_state)
     = respond_with_tools (le_reasoning sample_loop 1) ctx2 \<and>
     (\<forall>re. tl (mq_messages (respond_request re ctx2)) = [chat_user TOOL_INTENT_NUDGE])"
proof -
  let ?ctx = "chat_loop_context sample_loop [] [chat_user ''sum it up'', chat_assistant ''Let me search'', chat_user TOOL_INTENT_NUDGE]"
  have "check_allowed (le_now sample_loop (cl_requests sample_loop_state)) (cl_cost sample_loop_state)
      = (Inr (), cl_cost sample_loop_state)"
    by (simp add: sample_loop_def sample_loop_state_def new_cost_guard_def cost_example_def check_allowed_def
        check_hourly_def drain_window_def to_cents_def Let_def)
  moreover have "respond_with_tools (le_reasoning sample_loop (cl_requests sample_loop_state)) ?ctx = Inl (ContextLengthExceeded 9 8)"
    by (simp add: respond_with_tools_def respond_attempts.simps sample_loop_def sample_loop_state_def talking_model_def)
  moreover have "rc_messages ?ctx = [chat_user ''sum it up''] @ [chat_assistant ''Let me search'', chat_user TOOL_INTENT_NUDGE]"
    by (simp add: chat_loop_context_def)
  ultimately show ?thesis
    using retry_after_nudge_forgets_request [of sample_loop sample_loop_state _ ?ctx 9 8 "[chat_user ''sum it up'']" "''Let me search''" 2]
    by (simp add: sample_loop_state_def)
qed

end
