(* ===== verification/Job_Worker.thy ===== *)
theory Job_Worker
  imports Agentic_Loop Job_Context Rate_Limiter
begin

text \<open>
  The worker of a job (\<open>src/worker/job.rs\<close>), with the summary that a failed job leaves
  (\<open>src/context/fallback.rs\<close>), the approval context of an autonomous run (\<open>src/tools/tool.rs\<close>),
  the processing of a result (\<open>src/tools/execute.rs\<close>) and the selection of tools
  (\<open>src/llm/reasoning.rs\<close>).

  The channel of the worker is a list of the messages that arrive before each look at it; other tasks
  change the jobs between two looks (\<open>wv_others\<close>). The tools, the hook, the validator, the model and
  the plan are fields of the environment; what the n-th tool run returns is \<open>wv_run n\<close>. Events for the
  web interface and the rows written to the database are not modelled.
\<close>

section \<open>Messages, errors, tools\<close>

datatype worker_message = WmStart | WmStop | WmPing | WmUserMessage string

datatype host_tool_error =
    TeNotFound string
  | TeExecutionFailed string string
  | TeTimeout string
  | TeInvalidParameters string string
  | TeAutonomousUnavailable string string
  | TeRateLimited string "nat option"

datatype host_error = HeTool host_tool_error | HeLlm llm_error | HeJob job_error | HeContext uuid string

text \<open>The autonomous context: the tools that may run; without one, the legacy rule.\<close>

definition is_blocked_or_default :: "string list option \<Rightarrow> string \<Rightarrow> approval_requirement \<Rightarrow> bool" where
  "is_blocked_or_default allowed name requirement =
     (case allowed of Some tools \<Rightarrow> name \<notin> set tools | None \<Rightarrow> requirement \<noteq> ReqNever)"

definition JOB_TOOL_DENYLIST :: "string list" where
  "JOB_TOOL_DENYLIST =
     [''routine_create'', ''routine_update'', ''routine_delete'', ''routine_fire'', ''event_emit'', ''create_job'',
      ''job_prompt'', ''restart'', ''tool_install'', ''tool_auth'', ''tool_activate'', ''tool_remove'', ''tool_upgrade'',
      ''skill_install'', ''skill_remove'', ''secret_list'', ''secret_delete'']"

definition autonomous_unavailable_message :: "string \<Rightarrow> string \<Rightarrow> string" where
  "autonomous_unavailable_message name owner =
     (if name \<in> set JOB_TOOL_DENYLIST
      then ''Tool '' @ [CHR 0x27] @ name @ [CHR 0x27] @ '' is not available in autonomous jobs or routines''
      else ''Tool '' @ [CHR 0x27] @ name @ [CHR 0x27] @ '' is not currently available for owner '' @ [CHR 0x27] @ owner @ [CHR 0x27])"

record job_tool = tool_iface +
  jt_sensitive_params :: "string list"
  jt_rate_limit :: "tool_rate_limit_config option"
  jt_prepare :: "json \<Rightarrow> json"

datatype tool_run = RunOutput json | RunError string | RunTimeout

section \<open>Choosing tools (reasoning.rs)\<close>

record tool_selection =
  ts_tool_name :: string
  ts_parameters :: json
  ts_reasoning :: string
  ts_alternatives :: "string list"
  ts_tool_call_id :: string

definition select_tools :: "reasoning \<Rightarrow> reasoning_context \<Rightarrow> llm_error + tool_selection list" where
  "select_tools re ctx =
     (if rc_available_tools ctx = [] then Inr []
      else case re_model re \<lparr>mq_messages = rc_messages ctx, mq_tools = rc_available_tools ctx\<rparr> 0 of
        Inl e \<Rightarrow> Inl e
      | Inr reply \<Rightarrow> Inr (map (\<lambda>tc. \<lparr>ts_tool_name = tcall_name tc, ts_parameters = tcall_arguments tc,
            ts_reasoning = reply_text reply, ts_alternatives = [], ts_tool_call_id = tcall_id tc\<rparr>) (mr_tool_calls reply)))"

definition selections_to_tool_calls :: "tool_selection list \<Rightarrow> tool_call list" where
  "selections_to_tool_calls = map (\<lambda>s.
     \<lparr>tcall_id = ts_tool_call_id s, tcall_name = ts_tool_name s, tcall_arguments = ts_parameters s, tcall_reasoning = None\<rparr>)"

definition respond :: "(json \<Rightarrow> string) \<Rightarrow> reasoning \<Rightarrow> reasoning_context \<Rightarrow> llm_error + string" where
  "respond to_str re ctx =
     map_sum (\<lambda>e. e) (\<lambda>out. case ro_result out of
         RespText t \<Rightarrow> t
       | RespToolCalls tcs _ \<Rightarrow>
           ''[Calling tools: '' @ join_with '', '' (map (\<lambda>tc. [CHR 0x60] @ tcall_name tc @ ''('' @ to_str (tcall_arguments tc) @ '')'' @ [CHR 0x60]) tcs) @ '']'')
       (respond_with_tools re ctx)"

section \<open>Signs of completion (util.rs)\<close>

definition positive_phrases :: "string list" where
  "positive_phrases =
     [''job is complete'', ''job is done'', ''job is finished'', ''task is complete'', ''task is done'', ''task is finished'',
      ''work is complete'', ''work is done'', ''work is finished'', ''successfully completed'', ''have completed the job'',
      ''have completed the task'', ''have finished the job'', ''have finished the task'', ''all steps are complete'',
      ''all steps are done'', ''i have completed'', ''i'' @ [CHR 0x27] @ ''ve completed'', ''all done'', ''all tasks complete'']"

definition negative_phrases :: "string list" where
  "negative_phrases =
     [''not complete'', ''not done'', ''not finished'', ''incomplete'', ''unfinished'', ''isn'' @ [CHR 0x27] @ ''t done'',
      ''isn'' @ [CHR 0x27] @ ''t complete'', ''isn'' @ [CHR 0x27] @ ''t finished'', ''not yet done'', ''not yet complete'',
      ''not yet finished'']"

definition llm_signals_completion :: "string \<Rightarrow> bool" where
  "llm_signals_completion response =
     (let lower = to_lowercase response
      in \<not> list_ex (\<lambda>p. contains_str lower p) negative_phrases \<and> list_ex (\<lambda>p. contains_str lower p) positive_phrases)"

section \<open>The summary of a failed job (fallback.rs)\<close>

record fallback_action =
  fa_tool_name :: string
  fa_output_preview :: string
  fa_success :: bool

record fallback_deliverable =
  fb_partial :: bool
  fb_failure_reason :: string
  fb_last_action :: "fallback_action option"
  fb_total :: u32
  fb_successful :: u32
  fb_failed :: u32
  fb_tokens_used :: u64
  fb_cost :: rat
  fb_elapsed_secs :: nat
  fb_repair_attempts :: u32

definition truncate_str :: "string \<Rightarrow> nat \<Rightarrow> string" where
  "truncate_str s n = take_bytes (floor_char_boundary s n) s"

text \<open>\<open>to_str\<close> is \<open>serde_json::to_string\<close>, which never fails on a JSON value.\<close>

definition build_fallback_deliverable ::
    "(json \<Rightarrow> string) \<Rightarrow> time \<Rightarrow> job_context \<Rightarrow> job_memory \<Rightarrow> string \<Rightarrow> fallback_deliverable" where
  "build_fallback_deliverable to_str now c m reason =
     \<lparr>fb_partial = (0 < (of_nat (successful_actions m) :: u32)),
      fb_failure_reason = truncate_str reason 1000,
      fb_last_action = map_option (\<lambda>a.
        \<lparr>fa_tool_name = arec_tool_name a,
         fa_output_preview = truncate_str
           (case arec_output_sanitized a of
              Some (JString s) \<Rightarrow> s
            | Some v \<Rightarrow> to_str v
            | None \<Rightarrow> (case arec_error a of Some e \<Rightarrow> e | None \<Rightarrow> [])) 200,
         fa_success = arec_success a\<rparr>) (last_action m),
      fb_total = of_nat (length (jm_actions m)), fb_successful = of_nat (successful_actions m),
      fb_failed = of_nat (failed_actions m), fb_tokens_used = jc_total_tokens_used c,
      fb_cost = jc_actual_cost c,
      fb_elapsed_secs = (case elapsed now c of Some n \<Rightarrow> n | None \<Rightarrow> 0),
      fb_repair_attempts = jc_repair_attempts c\<rparr>"

definition store_fallback_in_metadata :: "(fallback_deliverable \<Rightarrow> json) \<Rightarrow> fallback_deliverable option \<Rightarrow> job_context \<Rightarrow> job_context" where
  "store_fallback_in_metadata to_json fb c =
     (case fb of
        None \<Rightarrow> c
      | Some f \<Rightarrow>
          c\<lparr>jc_metadata := JObject (hm_insert ''fallback_deliverable'' (to_json f)
             (case jc_metadata c of JObject kvs \<Rightarrow> kvs | _ \<Rightarrow> []))\<rparr>)"

section \<open>The worker\<close>

record planned_action =
  pa_tool_name :: string
  pa_parameters :: json
  pa_reasoning :: string

record action_plan =
  ap_goal :: string
  ap_actions :: "planned_action list"

record worker_env =
  wv_job :: uuid
  wv_tools :: "(string, job_tool) hmap"
  wv_tool_defs :: "nat \<Rightarrow> tool_definition list"
  wv_approval :: "string list option"
  wv_hook :: "string \<Rightarrow> json \<Rightarrow> string \<Rightarrow> hook_verdict"
  wv_parse :: "string \<Rightarrow> json option"
  wv_invalid :: "json \<Rightarrow> string option"
  wv_run :: "nat \<Rightarrow> tool_run"
  wv_pretty :: "json \<Rightarrow> string"
  wv_to_str :: "json \<Rightarrow> string"
  wv_sanitize :: "string \<Rightarrow> string \<Rightarrow> string"
  wv_wrap :: "string \<Rightarrow> string \<Rightarrow> string"
  wv_show :: "host_error \<Rightarrow> string"
  wv_fallback_json :: "fallback_deliverable \<Rightarrow> json"
  wv_reasoning :: "nat \<Rightarrow> reasoning"
  wv_plan :: "(llm_error + action_plan) option"
  wv_now :: "nat \<Rightarrow> time"
  wv_rl_clock :: "nat \<Rightarrow> nat \<Rightarrow> time"
  wv_fresh :: "nat \<Rightarrow> uuid"
  wv_order :: "nat \<Rightarrow> nat list"
  wv_others :: "nat \<Rightarrow> context_manager \<Rightarrow> context_manager"

text \<open>\<open>wk_calls\<close> counts the requests to the model, \<open>wk_runs\<close> the tools run, \<open>wk_polls\<close> the looks at the channel.\<close>

record worker_state =
  wk_cm :: context_manager
  wk_rl :: rate_limiter
  wk_inbox :: "worker_message list list"
  wk_rate_limits :: nat
  wk_calls :: nat
  wk_runs :: nat
  wk_polls :: nat

definition wk_time :: "worker_env \<Rightarrow> worker_state \<Rightarrow> time" where
  "wk_time wv s = wv_now wv (wk_calls s + wk_runs s + wk_polls s)"

subsection \<open>The end of a job\<close>

definition finish_job ::
    "worker_env \<Rightarrow> (job_context \<Rightarrow> string + job_context) \<Rightarrow> worker_state \<Rightarrow> (host_error + unit) \<times> worker_state" where
  "finish_job wv f s =
     (case update_context (wv_job wv) (\<lambda>c. case f c of Inl e \<Rightarrow> (Inl e, c) | Inr c' \<Rightarrow> (Inr (), c')) (wk_cm s) of
        (Inl e, xm) \<Rightarrow> (Inl (HeJob e), s\<lparr>wk_cm := xm\<rparr>)
      | (Inr (Inl reason), xm) \<Rightarrow> (Inl (HeContext (wv_job wv) reason), s\<lparr>wk_cm := xm\<rparr>)
      | (Inr (Inr _), xm) \<Rightarrow> (Inr (), s\<lparr>wk_cm := xm\<rparr>))"

definition mark_completed :: "worker_env \<Rightarrow> worker_state \<Rightarrow> (host_error + unit) \<times> worker_state" where
  "mark_completed wv s =
     finish_job wv (job_transition_to (wk_time wv s) JCompleted (Some ''Job completed successfully'')) s"

definition build_fallback :: "worker_env \<Rightarrow> string \<Rightarrow> worker_state \<Rightarrow> fallback_deliverable option" where
  "build_fallback wv reason s =
     (case (get_memory (wv_job wv) (wk_cm s), get_context (wv_job wv) (wk_cm s)) of
        (Inr m, Inr c) \<Rightarrow> Some (build_fallback_deliverable (wv_to_str wv) (wk_time wv s) c m reason)
      | _ \<Rightarrow> None)"

definition mark_failed :: "worker_env \<Rightarrow> string \<Rightarrow> worker_state \<Rightarrow> (host_error + unit) \<times> worker_state" where
  "mark_failed wv reason s =
     finish_job wv (\<lambda>c. map_sum (\<lambda>e. e) (store_fallback_in_metadata (wv_fallback_json wv) (build_fallback wv reason s))
       (job_transition_to (wk_time wv s) JFailed (Some reason) c)) s"

definition worker_mark_stuck :: "worker_env \<Rightarrow> string \<Rightarrow> worker_state \<Rightarrow> (host_error + unit) \<times> worker_state" where
  "worker_mark_stuck wv reason s =
     finish_job wv (\<lambda>c. map_sum (\<lambda>e. e) (store_fallback_in_metadata (wv_fallback_json wv) (build_fallback wv reason s))
       (mark_stuck (wk_time wv s) reason c)) s"

subsection \<open>Running a tool\<close>

text \<open>The parameters after the hook. What the hook returns instead of the parameters it was shown is taken as it is.\<close>

definition job_hook_params :: "worker_env \<Rightarrow> string \<Rightarrow> job_tool \<Rightarrow> json \<Rightarrow> string \<Rightarrow> host_tool_error + json" where
  "job_hook_params wv name tool p user =
     (case wv_hook wv name (redact_params p (jt_sensitive_params tool)) user of
        HookRejected reason \<Rightarrow> Inl (TeExecutionFailed name (''Blocked by hook: '' @ reason))
      | HookError err \<Rightarrow> Inl (TeExecutionFailed name (''Blocked by hook failure mode: '' @ err))
      | HookModified text \<Rightarrow> Inr (case wv_parse wv text of Some parsed \<Rightarrow> jt_prepare tool parsed | None \<Rightarrow> p)
      | HookContinue \<Rightarrow> Inr p)"

text \<open>
  The checks before a run: the tool, the job, the approval, the rate limit, the hook, a cancelled job, the
  validator; the state of the rate limiter may change.
\<close>

definition job_tool_checks ::
    "worker_env \<Rightarrow> string \<Rightarrow> json \<Rightarrow> worker_state \<Rightarrow> (host_error + job_tool \<times> json) \<times> worker_state" where
  "job_tool_checks wv name params s =
     (case hm_get (wv_tools wv) name of
        None \<Rightarrow> (Inl (HeTool (TeNotFound name)), s)
      | Some tool \<Rightarrow>
          (let p = jt_prepare tool params
           in case get_context (wv_job wv) (wk_cm s) of
             Inl e \<Rightarrow> (Inl (HeJob e), s)
           | Inr c \<Rightarrow>
               if is_blocked_or_default (wv_approval wv) name (tl_requires_approval tool p)
               then (Inl (HeTool (TeAutonomousUnavailable name (autonomous_unavailable_message name (jc_user_id c)))), s)
               else
                 (let (limited, s1) = (case jt_rate_limit tool of
                     None \<Rightarrow> (None, s)
                   | Some cfg \<Rightarrow>
                       (case check_and_record cfg (wv_rl_clock wv (wk_runs s)) (jc_user_id c) name (wk_rl s) of
                          (RlLimited retry_after _, rl) \<Rightarrow> (Some retry_after, s\<lparr>wk_rl := rl\<rparr>)
                        | (RlAllowed _ _, rl) \<Rightarrow> (None, s\<lparr>wk_rl := rl\<rparr>)))
                  in case limited of
                    Some retry_after \<Rightarrow> (Inl (HeTool (TeRateLimited name (Some retry_after))), s1)
                  | None \<Rightarrow>
                      (case job_hook_params wv name tool p (jc_user_id c) of
                         Inl e \<Rightarrow> (Inl (HeTool e), s1)
                       | Inr q \<Rightarrow>
                           if jc_state c = JCancelled
                           then (Inl (HeTool (TeExecutionFailed name ''Job is cancelled'')), s1)
                           else (case wv_invalid wv q of
                             Some details \<Rightarrow>
                               (Inl (HeTool (TeInvalidParameters name (''Invalid tool parameters: '' @ details))), s1)
                           | None \<Rightarrow> (Inr (tool, q), s1))))))"

text \<open>A run leaves an action in the memory of the job, with the sensitive parameters redacted.\<close>

definition record_run :: "worker_env \<Rightarrow> string \<Rightarrow> json \<Rightarrow> tool_run \<Rightarrow> worker_state \<Rightarrow> worker_state" where
  "record_run wv name safe_params r s =
     s\<lparr>wk_runs := Suc (wk_runs s),
       wk_cm := snd (update_memory (wv_job wv) (\<lambda>m.
         let (a, m1) = create_action (wv_fresh wv (wk_runs s)) (wk_time wv s) name safe_params m;
             a1 = (case r of
               RunOutput out \<Rightarrow> action_succeed (wv_pretty wv) (Some (wv_sanitize wv name (wv_pretty wv out))) out 0 a
             | RunError e \<Rightarrow> action_fail e 0 a
             | RunTimeout \<Rightarrow> action_fail ''Execution timeout'' 0 a)
         in ((), record_action a1 m1)) (wk_cm s))\<rparr>"

definition execute_tool_inner :: "worker_env \<Rightarrow> string \<Rightarrow> json \<Rightarrow> worker_state \<Rightarrow> (host_error + string) \<times> worker_state" where
  "execute_tool_inner wv name params s =
     (case job_tool_checks wv name params s of
        (Inl e, s1) \<Rightarrow> (Inl e, s1)
      | (Inr (tool, q), s1) \<Rightarrow>
          (let r = wv_run wv (wk_runs s1);
               s2 = record_run wv name (redact_params q (jt_sensitive_params tool)) r s1
           in (case r of
                 RunOutput out \<Rightarrow> Inr (wv_pretty wv out)
               | RunError e \<Rightarrow> Inl (HeTool (TeExecutionFailed name e))
               | RunTimeout \<Rightarrow> Inl (HeTool (TeTimeout name)), s2)))"

text \<open>
  Several tools run in parallel: each run is a step, in any order, and a task that panics has no step. The
  results come in the order of the selections.
\<close>

definition run_slot ::
    "worker_env \<Rightarrow> tool_selection list \<Rightarrow> nat \<Rightarrow> (host_error + string) option list \<times> worker_state \<Rightarrow>
     (host_error + string) option list \<times> worker_state" where
  "run_slot wv sels idx acc =
     (let (slots, s) = acc;
          (r, s1) = execute_tool_inner wv (ts_tool_name (sels ! idx)) (ts_parameters (sels ! idx)) s
      in (slots[idx := Some r], s1))"

definition fill_slot :: "tool_selection \<times> (host_error + string) option \<Rightarrow> host_error + string" where
  "fill_slot p = (case snd p of
     Some r \<Rightarrow> r
   | None \<Rightarrow> Inl (HeTool (TeExecutionFailed (ts_tool_name (fst p)) ''Task failed during execution'')))"

definition execute_tools_parallel ::
    "worker_env \<Rightarrow> tool_selection list \<Rightarrow> worker_state \<Rightarrow> (host_error + string) list \<times> worker_state" where
  "execute_tools_parallel wv sels s =
     (let order = (if length sels \<le> 1 then [0..<length sels]
                   else remdups (filter (\<lambda>i. i < length sels) (wv_order wv (wk_calls s))));
          (slots, s1) = fold (run_slot wv sels) order (replicate (length sels) None, s)
      in (map fill_slot (zip sels slots), s1))"

text \<open>The content of a result and its message (\<open>src/tools/execute.rs\<close>).\<close>

definition process_tool_result ::
    "worker_env \<Rightarrow> string \<Rightarrow> string \<Rightarrow> host_error + string \<Rightarrow> string \<times> chat_message" where
  "process_tool_result wv name call_id r =
     (let content = (case r of
            Inr output \<Rightarrow> wv_wrap wv name (wv_sanitize wv name output)
          | Inl e \<Rightarrow> ''Error: '' @ wv_show wv e)
      in (content, chat_tool_result call_id name content))"

definition process_tool_result_job ::
    "worker_env \<Rightarrow> tool_selection \<Rightarrow> host_error + string \<Rightarrow> reasoning_context \<Rightarrow> (host_error + unit) \<times> reasoning_context" where
  "process_tool_result_job wv sel r ctx =
     (let ctx1 = push_message (snd (process_tool_result wv (ts_tool_name sel) (ts_tool_call_id sel) r)) ctx
      in (case r of Inl (HeTool (TeAutonomousUnavailable n reason)) \<Rightarrow> Inl (HeTool (TeAutonomousUnavailable n reason))
          | _ \<Rightarrow> Inr (), ctx1))"

fun process_results ::
    "worker_env \<Rightarrow> (tool_selection \<times> (host_error + string)) list \<Rightarrow> reasoning_context \<Rightarrow>
     (host_error + unit) \<times> reasoning_context" where
  "process_results wv [] ctx = (Inr (), ctx)"
| "process_results wv ((sel, r) # rest) ctx =
     (case process_tool_result_job wv sel r ctx of
        (Inl e, ctx1) \<Rightarrow> (Inl e, ctx1)
      | (Inr _, ctx1) \<Rightarrow> process_results wv rest ctx1)"

text \<open>The shorter path of the chat, the containers and the subtasks (\<open>src/tools/execute.rs\<close>): no approval, no limit, no hook.\<close>

definition execute_tool_with_safety :: "worker_env \<Rightarrow> nat \<Rightarrow> string \<Rightarrow> json \<Rightarrow> host_error + string" where
  "execute_tool_with_safety wv k name params =
     (if name = [] then Inl (HeTool (TeNotFound name))
      else case hm_get (wv_tools wv) name of
        None \<Rightarrow> Inl (HeTool (TeNotFound name))
      | Some tool \<Rightarrow>
          (case wv_invalid wv (jt_prepare tool params) of
             Some details \<Rightarrow> Inl (HeTool (TeInvalidParameters name (''Invalid tool parameters: '' @ details)))
           | None \<Rightarrow>
               (case wv_run wv k of
                  RunOutput out \<Rightarrow> Inr (wv_pretty wv out)
                | RunError e \<Rightarrow> Inl (HeTool (TeExecutionFailed name e))
                | RunTimeout \<Rightarrow> Inl (HeTool (TeTimeout name)))))"

section \<open>The client of the loop\<close>

definition take_inbox :: "worker_state \<Rightarrow> worker_message list \<times> worker_state" where
  "take_inbox s = (case wk_inbox s of
     [] \<Rightarrow> ([], s\<lparr>wk_polls := Suc (wk_polls s)\<rparr>)
   | ms # later \<Rightarrow> (ms, s\<lparr>wk_inbox := later, wk_polls := Suc (wk_polls s)\<rparr>))"

text \<open>The whole channel is drained; a stop wins, and only the first message of the user is kept.\<close>

fun user_messages :: "worker_message list \<Rightarrow> string list" where
  "user_messages [] = []"
| "user_messages (WmUserMessage content # ms) = content # user_messages ms"
| "user_messages (_ # ms) = user_messages ms"

definition job_check_signals :: "worker_env \<Rightarrow> worker_state \<Rightarrow> loop_signal \<times> worker_state" where
  "job_check_signals wv s =
     (let (ms, s1) = take_inbox s;
          s2 = s1\<lparr>wk_cm := wv_others wv (wk_polls s) (wk_cm s1)\<rparr>
      in (if WmStop \<in> set ms then SigStop
          else case user_messages ms of
            content # _ \<Rightarrow> SigInject content
          | [] \<Rightarrow>
              (case get_context (wv_job wv) (wk_cm s2) of
                 Inr c \<Rightarrow> if jc_state c \<in> {JCancelled, JFailed, JCompleted, JSubmitted, JAccepted} then SigStop else SigContinue
               | Inl _ \<Rightarrow> SigContinue), s2))"

definition job_before_llm_call ::
    "worker_env \<Rightarrow> nat \<Rightarrow> reasoning_context \<Rightarrow> worker_state \<Rightarrow> loop_outcome option \<times> reasoning_context \<times> worker_state" where
  "job_before_llm_call wv i ctx s = (None, ctx\<lparr>rc_available_tools := wv_tool_defs wv i\<rparr>, s)"

definition MAX_CONSECUTIVE_RATE_LIMITS :: nat where
  "MAX_CONSECUTIVE_RATE_LIMITS = 10"

definition handle_rate_limit :: "worker_env \<Rightarrow> worker_state \<Rightarrow> (host_error + respond_output) \<times> worker_state" where
  "handle_rate_limit wv s =
     (let s1 = s\<lparr>wk_rate_limits := Suc (wk_rate_limits s)\<rparr>
      in if wk_rate_limits s1 \<ge> MAX_CONSECUTIVE_RATE_LIMITS
         then (case mark_failed wv ''Persistent rate limiting: exceeded retry limit'' s1 of
                 (Inl e, s2) \<Rightarrow> (Inl e, s2)
               | (Inr _, s2) \<Rightarrow> (Inl (HeLlm (RateLimited ''rate-limit-exhausted'' None)), s2))
         else (Inr \<lparr>ro_result = RespText [], ro_usage = no_usage\<rparr>, s1))"

text \<open>The total of the tokens is on 32 bits and widened.\<close>

definition usage_total :: "token_usage \<Rightarrow> u64" where
  "usage_total u = ucast (tu_input_tokens u + tu_output_tokens u)"

definition track_tokens :: "worker_env \<Rightarrow> respond_output \<Rightarrow> worker_state \<Rightarrow> (host_error + respond_output) \<times> worker_state" where
  "track_tokens wv out s =
     (if usage_total (ro_usage out) = 0 then (Inr out, s)
      else case update_context (wv_job wv) (add_tokens (usage_total (ro_usage out))) (wk_cm s) of
        (Inl e, xm) \<Rightarrow> (Inl (HeJob e), s\<lparr>wk_cm := xm\<rparr>)
      | (Inr (Inr _), xm) \<Rightarrow> (Inr out, s\<lparr>wk_cm := xm\<rparr>)
      | (Inr (Inl (used, limit)), xm) \<Rightarrow>
          (case mark_failed wv (''Token budget exceeded: used '' @ show_nat (unat used) @ '' of '' @ show_nat (unat limit) @ '' allowed tokens'')
                  (s\<lparr>wk_cm := xm\<rparr>) of
             (Inl e, s2) \<Rightarrow> (Inl e, s2)
           | (Inr _, s2) \<Rightarrow> (Inr out, s2)))"

text \<open>Tools are selected first; without a selection the model is asked for an answer.\<close>

definition job_call_llm ::
    "worker_env \<Rightarrow> nat \<Rightarrow> reasoning_context \<Rightarrow> worker_state \<Rightarrow>
     (host_error + respond_output) \<times> reasoning_context \<times> worker_state" where
  "job_call_llm wv i ctx s =
     (let s1 = s\<lparr>wk_calls := Suc (wk_calls s)\<rparr>
      in case select_tools (wv_reasoning wv (wk_calls s)) ctx of
           Inl (RateLimited p r) \<Rightarrow> (let (res, s2) = handle_rate_limit wv s1 in (res, ctx, s2))
         | Inl e \<Rightarrow> (Inl (HeLlm e), ctx, s1)
         | Inr (sel # sels) \<Rightarrow>
             (Inr \<lparr>ro_result = RespToolCalls (selections_to_tool_calls (sel # sels))
                 (map_option ts_reasoning (find (\<lambda>x. ts_reasoning x \<noteq> []) (sel # sels))), ro_usage = no_usage\<rparr>,
              ctx, s1\<lparr>wk_rate_limits := 0\<rparr>)
         | Inr [] \<Rightarrow>
             (let s2 = s1\<lparr>wk_calls := Suc (wk_calls s1)\<rparr>
              in case respond_with_tools (wv_reasoning wv (wk_calls s1)) ctx of
                   Inr out \<Rightarrow> (let (res, s3) = track_tokens wv out (s2\<lparr>wk_rate_limits := 0\<rparr>) in (res, ctx, s3))
                 | Inl (RateLimited p r) \<Rightarrow> (let (res, s3) = handle_rate_limit wv s2 in (res, ctx, s3))
                 | Inl e \<Rightarrow> (Inl (HeLlm e), ctx, s2)))"

definition job_handle_text ::
    "worker_env \<Rightarrow> string \<Rightarrow> reasoning_context \<Rightarrow> worker_state \<Rightarrow> text_action \<times> reasoning_context \<times> worker_state" where
  "job_handle_text wv t ctx s =
     (if t = [] then (ActContinue, ctx, s)
      else if llm_signals_completion t then (ActReturn (LoopResponse t), ctx, snd (mark_completed wv s))
      else (ActContinue, push_message (chat_assistant t) ctx, s))"

definition job_execute_tools ::
    "worker_env \<Rightarrow> tool_call list \<Rightarrow> string option \<Rightarrow> reasoning_context \<Rightarrow> worker_state \<Rightarrow>
     (host_error + loop_outcome option) \<times> reasoning_context \<times> worker_state" where
  "job_execute_tools wv tcs content ctx s =
     (let ctx1 = push_message (chat_assistant_with_tool_calls content tcs) ctx;
          sels = map (\<lambda>tc. \<lparr>ts_tool_name = tcall_name tc, ts_parameters = tcall_arguments tc, ts_reasoning = [],
            ts_alternatives = [], ts_tool_call_id = tcall_id tc\<rparr>) tcs;
          (results, s1) = execute_tools_parallel wv sels s
      in case process_results wv (zip sels results) ctx1 of
           (Inl e, ctx2) \<Rightarrow> (Inl e, ctx2, s1)
         | (Inr _, ctx2) \<Rightarrow> (Inr None, ctx2, s1))"

definition job_delegate :: "worker_env \<Rightarrow> (worker_state, host_error) loop_delegate" where
  "job_delegate wv =
     \<lparr>dg_check_signals = job_check_signals wv, dg_before_llm_call = job_before_llm_call wv,
      dg_call_llm = job_call_llm wv, dg_handle_text = job_handle_text wv, dg_execute_tools = job_execute_tools wv,
      dg_on_nudge = (\<lambda>_ ctx s. (ctx, s)), dg_after_iteration = (\<lambda>_ s. s)\<rparr>"

section \<open>Plans\<close>

text \<open>A look at the channel during a plan ends at a stop or at a message of the user; what is behind it stays in the channel.\<close>

datatype plan_signal = PlanGoesOn | PlanStop | PlanUser string

fun plan_signals :: "worker_message list \<Rightarrow> plan_signal \<times> worker_message list" where
  "plan_signals [] = (PlanGoesOn, [])"
| "plan_signals (WmStop # ms) = (PlanStop, ms)"
| "plan_signals (WmUserMessage content # ms) = (PlanUser content, ms)"
| "plan_signals (_ # ms) = plan_signals ms"

definition put_back :: "worker_message list \<Rightarrow> worker_state \<Rightarrow> worker_state" where
  "put_back ms s = s\<lparr>wk_inbox := (case wk_inbox s of [] \<Rightarrow> [ms] | next # later \<Rightarrow> (ms @ next) # later)\<rparr>"

definition plan_poll :: "worker_state \<Rightarrow> plan_signal \<times> worker_state" where
  "plan_poll s =
     (let (ms, s1) = take_inbox s; (sig, rest) = plan_signals ms in (sig, put_back rest s1))"

definition plan_call :: "worker_env \<Rightarrow> nat \<Rightarrow> planned_action \<Rightarrow> tool_call" where
  "plan_call wv i a =
     \<lparr>tcall_id = ''plan_'' @ show_nat (wv_job wv) @ ''_'' @ show_nat i, tcall_name = pa_tool_name a,
      tcall_arguments = pa_parameters a, tcall_reasoning = None\<rparr>"

text \<open>The actions one by one; the result tells whether the plan ran to its end.\<close>

fun run_plan ::
    "worker_env \<Rightarrow> nat \<Rightarrow> planned_action list \<Rightarrow> reasoning_context \<Rightarrow> worker_state \<Rightarrow>
     (host_error + bool) \<times> reasoning_context \<times> worker_state" where
  "run_plan wv i [] ctx s = (Inr True, ctx, s)"
| "run_plan wv i (a # as) ctx s =
     (case plan_poll s of
        (PlanStop, s1) \<Rightarrow> (Inr False, ctx, s1)
      | (PlanUser content, s1) \<Rightarrow> (Inr False, push_message (chat_user content) ctx, s1)
      | (PlanGoesOn, s1) \<Rightarrow>
          (let tc = plan_call wv i a;
               sel = \<lparr>ts_tool_name = pa_tool_name a, ts_parameters = pa_parameters a, ts_reasoning = pa_reasoning a,
                 ts_alternatives = [], ts_tool_call_id = tcall_id tc\<rparr>;
               (r, s2) = execute_tool_inner wv (pa_tool_name a) (pa_parameters a) s1
           in case process_tool_result_job wv sel r (push_message (chat_assistant_with_tool_calls None [tc]) ctx) of
                (Inl e, ctx1) \<Rightarrow> (Inl e, ctx1, s2)
              | (Inr _, ctx1) \<Rightarrow> run_plan wv (Suc i) as ctx1 s2))"

definition plan_question :: string where
  "plan_question =
     ''All planned actions have been executed. Is the job complete? If not, what else needs to be done?''"

definition execute_plan ::
    "worker_env \<Rightarrow> action_plan \<Rightarrow> reasoning_context \<Rightarrow> worker_state \<Rightarrow>
     (host_error + unit) \<times> reasoning_context \<times> worker_state" where
  "execute_plan wv plan ctx s =
     (case run_plan wv 0 (ap_actions plan) ctx s of
        (Inl e, ctx1, s1) \<Rightarrow> (Inl e, ctx1, s1)
      | (Inr False, ctx1, s1) \<Rightarrow> (Inr (), ctx1, s1)
      | (Inr True, ctx1, s1) \<Rightarrow>
          (let ctx2 = push_message (chat_user plan_question) ctx1
           in case respond (wv_to_str wv) (wv_reasoning wv (wk_calls s1)) ctx2 of
                Inl e \<Rightarrow> (Inl (HeLlm e), ctx2, s1\<lparr>wk_calls := Suc (wk_calls s1)\<rparr>)
              | Inr response \<Rightarrow>
                  (let ctx3 = push_message (chat_assistant response) ctx2;
                       s2 = s1\<lparr>wk_calls := Suc (wk_calls s1)\<rparr>
                   in if llm_signals_completion response
                      then (let (r, s3) = mark_completed wv s2 in (r, ctx3, s3))
                      else (Inr (), ctx3, s2))))"

section \<open>A run of the worker\<close>

definition job_max_iterations :: "worker_env \<Rightarrow> worker_state \<Rightarrow> nat" where
  "job_max_iterations wv s =
     min 500 (case get_context (wv_job wv) (wk_cm s) of
        Inr c \<Rightarrow> (case json_get ''max_iterations'' (jc_metadata c) of
           Some (JNumber n) \<Rightarrow> if 0 \<le> n \<and> n < 2 ^ 64 then nat n else 50
         | _ \<Rightarrow> 50)
      | Inl _ \<Rightarrow> 50)"

definition plan_text :: "action_plan \<Rightarrow> string" where
  "plan_text plan =
     ''I'' @ [CHR 0x27] @ ''ve created a plan to accomplish this goal: '' @ ap_goal plan @ [CHR 10, CHR 10] @ ''Steps:'' @ [CHR 10]
     @ join_with [CHR 10] (map (\<lambda>(i, a). show_nat (i + 1) @ ''. '' @ pa_tool_name a @ '' - '' @ pa_reasoning a)
         (enumerate 0 (ap_actions plan)))"

definition loop_for_job ::
    "worker_env \<Rightarrow> nat \<Rightarrow> reasoning_context \<Rightarrow> worker_state \<Rightarrow> (host_error + unit) \<times> worker_state" where
  "loop_for_job wv max_iterations ctx s =
     (let cfg = \<lparr>alc_max_iterations = max_iterations, alc_enable_tool_intent_nudge = True, alc_max_tool_intent_nudges = 2\<rparr>
      in case run_agentic_loop cfg (job_delegate wv) ctx (s\<lparr>wk_rate_limits := 0\<rparr>) of
           (Inl e, _, s1) \<Rightarrow> (Inl e, s1)
         | (Inr LoopMaxIterations, _, s1) \<Rightarrow>
             mark_failed wv ''Maximum iterations exceeded: job hit the iteration cap'' s1
         | (Inr _, _, s1) \<Rightarrow> (Inr (), s1))"

definition execution_loop ::
    "worker_env \<Rightarrow> reasoning_context \<Rightarrow> worker_state \<Rightarrow> (host_error + unit) \<times> worker_state" where
  "execution_loop wv ctx0 s =
     (let n = job_max_iterations wv s;
          ctx = ctx0\<lparr>rc_available_tools := wv_tool_defs wv 0\<rparr>
      in case wv_plan wv of
           Some (Inr plan) \<Rightarrow>
             (case execute_plan wv plan (push_message (chat_assistant (plan_text plan)) ctx) s of
                (Inl e, _, s1) \<Rightarrow> (Inl e, s1)
              | (Inr _, ctx1, s1) \<Rightarrow>
                  (case get_context (wv_job wv) (wk_cm s1) of
                     Inr c \<Rightarrow>
                       if job_is_terminal (jc_state c) \<or> jc_state c = JStuck \<or> jc_state c = JCompleted
                       then (Inr (), s1) else loop_for_job wv n ctx1 s1
                   | Inl _ \<Rightarrow> loop_for_job wv n ctx1 s1))
         | _ \<Rightarrow> loop_for_job wv n ctx s)"

text \<open>The end of a run: the result of the loop, or \<open>None\<close> when the time is up, wherever the loop is then.\<close>

definition worker_finish ::
    "worker_env \<Rightarrow> (host_error + unit) option \<Rightarrow> worker_state \<Rightarrow> (host_error + unit) \<times> worker_state" where
  "worker_finish wv r s =
     (case r of
        None \<Rightarrow> worker_mark_stuck wv ''Execution timeout'' s
      | Some (Inl e) \<Rightarrow> mark_failed wv (wv_show wv e) s
      | Some (Inr _) \<Rightarrow>
          (case get_context (wv_job wv) (wk_cm s) of
             Inl _ \<Rightarrow> (Inr (), s)
           | Inr c \<Rightarrow>
               if job_is_terminal (jc_state c) \<or> jc_state c = JCompleted \<or> jc_state c = JStuck
               then (Inr (), s) else mark_completed wv s))"

definition job_system_message :: "job_context \<Rightarrow> string" where
  "job_system_message c =
     ''You are an autonomous agent working on a job.'' @ [CHR 10, CHR 10] @ ''Job: '' @ jc_title c @ [CHR 10]
     @ ''Description: '' @ jc_description c @ [CHR 10, CHR 10]
     @ ''You have access to tools to complete this job. Plan your approach and execute tools as needed.'' @ [CHR 10]
     @ ''You may request multiple tools at once if they can be executed in parallel.'' @ [CHR 10]
     @ ''Report when the job is complete or if you encounter issues you cannot resolve.''"

text \<open>\<open>first\<close> is the first message of the channel, \<open>None\<close> when it is closed.\<close>

definition worker_run ::
    "worker_env \<Rightarrow> worker_message option \<Rightarrow> worker_state \<Rightarrow> (host_error + unit) \<times> worker_state" where
  "worker_run wv first s =
     (if first = None \<or> first = Some WmStop then (Inr (), s)
      else case get_context (wv_job wv) (wk_cm s) of
        Inl e \<Rightarrow> (Inl (HeJob e), s)
      | Inr c \<Rightarrow>
          (let ctx = \<lparr>rc_messages = [chat_system (job_system_message c)], rc_available_tools = [], rc_force_text = False,
                 rc_system_prompt = None\<rparr>;
               (r, s1) = execution_loop wv ctx s
           in worker_finish wv (Some r) s1))"

end
