(* ===== verification/Job_Runs.thy ===== *)
theory Job_Runs
  imports Job_Worker
begin

text \<open>
  What holds of the runs of a worker. Locale \<open>worker_closed\<close> is the contract of a predicate on the jobs
  that the steps of a worker on its own job keep, and that the other tasks keep; a whole run keeps it.
  It is interpreted by the invariant of the context manager and by the jobs of the others.
\<close>

section \<open>Steps on one job\<close>

definition job_modify :: "uuid \<Rightarrow> (job_context \<Rightarrow> job_context) \<Rightarrow> context_manager \<Rightarrow> context_manager" where
  "job_modify jid g xm = xm\<lparr>xm_contexts := hm_modify jid g (xm_contexts xm)\<rparr>"

lemma snd_update_context: "snd (update_context jid f xm) = job_modify jid (\<lambda>c. snd (f c)) xm"
  by (simp add: update_context_def job_modify_def hm_modify_absent split: option.splits)

lemma job_modify_get:
  "hm_get (xm_contexts (job_modify jid g xm)) j
    = (if j = jid then map_option g (hm_get (xm_contexts xm) jid) else hm_get (xm_contexts xm) j)"
  by (simp add: job_modify_def)

lemma mark_steps:
  "job_transition_to now t r c = Inr c' \<Longrightarrow> job_step\<^sup>*\<^sup>* c (store_fallback_in_metadata fj fb c')"
proof -
  assume "job_transition_to now t r c = Inr c'"
  then have "job_step c c'" by (rule js_transition)
  moreover have "job_step c' (store_fallback_in_metadata fj fb c')"
    by (rule js_fields) (simp_all add: store_fallback_in_metadata_def split: option.splits)
  ultimately show ?thesis by (meson r_into_rtranclp rtranclp_trans)
qed

lemma add_tokens_step: "job_step c (snd (add_tokens n c))"
  by (rule js_fields) (simp_all add: add_tokens_def Let_def)

lemma checks_keep_jobs: "wk_cm (snd (job_tool_checks wv name params s)) = wk_cm s"
  by (auto simp: job_tool_checks_def Let_def split: option.splits sum.splits prod.splits rate_limit_result.splits if_splits)

locale worker_closed =
  fixes wv :: worker_env
    and P :: "context_manager \<Rightarrow> bool"
  assumes closed_steps: "P xm \<Longrightarrow> (\<forall>c. hm_get (xm_contexts xm) (wv_job wv) = Some c \<longrightarrow> job_step\<^sup>*\<^sup>* c (g c)) \<Longrightarrow>
      P (job_modify (wv_job wv) g xm)"
    and closed_memory: "P xm \<Longrightarrow> P (snd (update_memory (wv_job wv) (m :: job_memory \<Rightarrow> unit \<times> job_memory) xm))"
    and closed_others: "P xm \<Longrightarrow> P (wv_others wv k xm)"
begin

lemma finish_keeps:
  assumes "P (wk_cm s)" "\<And>c c'. f c = Inr c' \<Longrightarrow> job_step\<^sup>*\<^sup>* c c'"
  shows "P (wk_cm (snd (finish_job wv f s)))"
proof -
  let ?u = "\<lambda>c. case f c of Inl e \<Rightarrow> (Inl e, c) | Inr c' \<Rightarrow> (Inr (), c')"
  have "wk_cm (snd (finish_job wv f s)) = snd (update_context (wv_job wv) ?u (wk_cm s))"
    by (simp add: finish_job_def split: prod.splits sum.splits)
  moreover have "P (snd (update_context (wv_job wv) ?u (wk_cm s)))"
    unfolding snd_update_context using assms by (intro closed_steps) (auto split: sum.splits)
  ultimately show ?thesis by simp
qed

lemma marks_keep:
  assumes "P (wk_cm s)"
  shows "P (wk_cm (snd (mark_completed wv s)))" "P (wk_cm (snd (mark_failed wv reason s)))"
    "P (wk_cm (snd (worker_mark_stuck wv reason s)))"
  unfolding mark_completed_def mark_failed_def worker_mark_stuck_def mark_stuck_def
  by (rule finish_keeps [OF assms], force simp: map_sum_def split: sum.splits intro: mark_steps js_transition)+

lemma record_keeps: "P (wk_cm s) \<Longrightarrow> P (wk_cm (record_run wv name p r s))"
  by (simp add: record_run_def closed_memory)

lemma tool_keeps: "P (wk_cm s) \<Longrightarrow> P (wk_cm (snd (execute_tool_inner wv name params s)))"
  using checks_keep_jobs [of wv name params s]
  by (auto simp: execute_tool_inner_def Let_def split: prod.splits sum.splits intro: record_keeps)

lemma slots_keep: "P (wk_cm (snd acc)) \<Longrightarrow> P (wk_cm (snd (fold (run_slot wv sels) order acc)))"
proof (induction order arbitrary: acc)
  case (Cons i order)
  have "P (wk_cm (snd (run_slot wv sels i acc)))"
    using tool_keeps [OF Cons.prems, of "ts_tool_name (sels ! i)" "ts_parameters (sels ! i)"]
    by (auto simp: run_slot_def split: prod.splits)
  with Cons.IH show ?case by simp
qed simp

lemma parallel_keeps: "P (wk_cm s) \<Longrightarrow> P (wk_cm (snd (execute_tools_parallel wv sels s)))"
  using slots_keep [of "(replicate (length sels) None, s)" sels]
  by (simp add: execute_tools_parallel_def Let_def split: prod.splits) (metis snd_conv)

lemma rate_limit_keeps: "P (wk_cm s) \<Longrightarrow> P (wk_cm (snd (handle_rate_limit wv s)))"
  using marks_keep(2) [of "s\<lparr>wk_rate_limits := Suc (wk_rate_limits s)\<rparr>" "''Persistent rate limiting: exceeded retry limit''"]
  by (auto simp: handle_rate_limit_def Let_def split: prod.splits sum.splits)

lemma tokens_keep: "P (wk_cm s) \<Longrightarrow> P (wk_cm (snd (track_tokens wv out s)))"
proof -
  assume P: "P (wk_cm s)"
  let ?u = "update_context (wv_job wv) (add_tokens (usage_total (ro_usage out))) (wk_cm s)"
  have "P (snd ?u)"
    unfolding snd_update_context using P add_tokens_step by (intro closed_steps) auto
  with P marks_keep(2) [of "s\<lparr>wk_cm := snd ?u\<rparr>"] show ?thesis
    by (auto simp: track_tokens_def split: prod.splits sum.splits) (metis snd_conv)+
qed

lemma call_keeps: "P (wk_cm s) \<Longrightarrow> P (wk_cm (snd (snd (job_call_llm wv i ctx s))))"
proof -
  assume P: "P (wk_cm s)"
  have "P (wk_cm (snd (handle_rate_limit wv s')))" "P (wk_cm (snd (track_tokens wv out s')))"
    if "wk_cm s' = wk_cm s" for s' out
    using P that by (simp_all add: rate_limit_keeps tokens_keep)
  then have "handle_rate_limit wv s' = (r, s'') \<Longrightarrow> wk_cm s' = wk_cm s \<Longrightarrow> P (wk_cm s'')"
    "track_tokens wv out s' = (r, s'') \<Longrightarrow> wk_cm s' = wk_cm s \<Longrightarrow> P (wk_cm s'')" for s' out r s''
    by (metis snd_conv)+
  with P show ?thesis
    by (auto simp: job_call_llm_def Let_def split: sum.splits list.splits llm_error.splits prod.splits)
qed

lemma inbox_keeps: "P (wk_cm s) \<Longrightarrow> P (wk_cm (snd (take_inbox s)))"
  by (auto simp: take_inbox_def split: list.splits)

end

sublocale worker_closed \<subseteq> worker_loop: loop_invariant "job_delegate wv" "\<lambda>s. P (wk_cm s)"
proof
  show "P (wk_cm (snd (dg_check_signals (job_delegate wv) s)))" if "P (wk_cm s)" for s
    using closed_others [OF inbox_keeps [OF that]]
    by (auto simp: job_delegate_def job_check_signals_def Let_def split: prod.splits)
  show "P (wk_cm (snd (snd (dg_call_llm (job_delegate wv) i ctx s))))" if "P (wk_cm s)" for i ctx s
    using call_keeps [OF that] by (simp add: job_delegate_def)
  show "P (wk_cm (snd (snd (dg_handle_text (job_delegate wv) t ctx s))))" if "P (wk_cm s)" for t ctx s
    using that marks_keep(1) [OF that] by (simp add: job_delegate_def job_handle_text_def)
  show "P (wk_cm (snd (snd (dg_execute_tools (job_delegate wv) tcs c ctx s))))" if "P (wk_cm s)" for tcs c ctx s
  proof -
    have "execute_tools_parallel wv sels s = (rs, s') \<Longrightarrow> P (wk_cm s')" for sels rs s'
      using parallel_keeps [OF that, of sels] by simp
    then show ?thesis
      by (auto simp: job_delegate_def job_execute_tools_def Let_def split: prod.splits sum.splits)
  qed
qed (simp_all add: job_delegate_def job_before_llm_call_def)

context worker_closed
begin

lemma plan_poll_keeps: "P (wk_cm s) \<Longrightarrow> P (wk_cm (snd (plan_poll s)))"
  using inbox_keeps [of s] by (auto simp: plan_poll_def put_back_def split: prod.splits)

lemma run_plan_keeps: "P (wk_cm s) \<Longrightarrow> P (wk_cm (snd (snd (run_plan wv i as ctx s))))"
proof (induction as arbitrary: i ctx s)
  case (Cons a as)
  obtain sig s1 where poll: "plan_poll s = (sig, s1)" by fastforce
  with plan_poll_keeps [OF Cons.prems] have P1: "P (wk_cm s1)" by simp
  obtain r s2 where run: "execute_tool_inner wv (pa_tool_name a) (pa_parameters a) s1 = (r, s2)" by fastforce
  with tool_keeps [OF P1, of "pa_tool_name a" "pa_parameters a"] have "P (wk_cm s2)" by simp
  with P1 Cons.IH poll run show ?case
    by (auto simp: Let_def split: plan_signal.splits prod.splits sum.splits)
qed simp

lemma execute_plan_keeps: "P (wk_cm s) \<Longrightarrow> P (wk_cm (snd (snd (execute_plan wv plan ctx s))))"
proof -
  assume P: "P (wk_cm s)"
  obtain r ctx1 s1 where run: "run_plan wv 0 (ap_actions plan) ctx s = (r, ctx1, s1)" by (metis prod_cases3)
  with run_plan_keeps [OF P, of 0 "ap_actions plan" ctx] have P1: "P (wk_cm s1)" by simp
  have "P (wk_cm s'')" if "mark_completed wv (s1\<lparr>wk_calls := n\<rparr>) = (r', s'')" for n r' s''
    using marks_keep(1) [of "s1\<lparr>wk_calls := n\<rparr>"] P1 that by simp
  with P1 run show ?thesis
    by (auto simp: execute_plan_def Let_def split: prod.splits sum.splits bool.splits)
qed

lemma loop_for_job_keeps: "P (wk_cm s) \<Longrightarrow> P (wk_cm (snd (loop_for_job wv n ctx s)))"
proof -
  assume P: "P (wk_cm s)"
  let ?cfg = "\<lparr>alc_max_iterations = n, alc_enable_tool_intent_nudge = True, alc_max_tool_intent_nudges = 2\<rparr>"
  obtain r ctx1 s1 where run: "run_agentic_loop ?cfg (job_delegate wv) ctx (s\<lparr>wk_rate_limits := 0\<rparr>) = (r, ctx1, s1)"
    by (metis prod_cases3)
  with worker_loop.loop_keeps [of "s\<lparr>wk_rate_limits := 0\<rparr>" ?cfg n 1 0 ctx] P
  have "P (wk_cm s1)" by (simp add: run_agentic_loop_def)
  with run marks_keep(2) [of s1] show ?thesis
    by (auto simp: loop_for_job_def split: sum.splits loop_outcome.splits)
qed

lemma execution_loop_keeps: "P (wk_cm s) \<Longrightarrow> P (wk_cm (snd (execution_loop wv ctx s)))"
proof -
  assume P: "P (wk_cm s)"
  have "P (wk_cm s')" if "execute_plan wv plan c s = (r, c', s')" for plan c r c' s'
    using execute_plan_keeps [OF P, of plan c] that by simp
  with P show ?thesis
    by (auto simp: execution_loop_def Let_def intro!: loop_for_job_keeps split: option.splits sum.splits prod.splits if_splits)
qed

lemma worker_run_keeps: "P (wk_cm s) \<Longrightarrow> P (wk_cm (snd (worker_run wv first s)))"
proof -
  assume P: "P (wk_cm s)"
  have "P (wk_cm s')" if "execution_loop wv c s = (r, s')" for c r s'
    using execution_loop_keeps [OF P, of c] that by simp
  moreover have "P (wk_cm (snd (worker_finish wv r s')))" if "P (wk_cm s')" for r s'
    using that marks_keep [OF that] by (auto simp: worker_finish_def split: option.splits sum.splits)
  ultimately show ?thesis
    using P by (auto simp: worker_run_def Let_def split: sum.splits prod.splits)
qed

end

section \<open>Interpretations\<close>

text \<open>The invariant of the context manager, when the other tasks keep it.\<close>

definition keeps_ctx :: "nat \<Rightarrow> context_manager \<Rightarrow> bool" where
  "keeps_ctx n xm \<longleftrightarrow> ctx_ok xm \<and> xm_max_jobs xm = n"

lemma keeps_ctx_steps:
  "keeps_ctx n xm \<Longrightarrow> (\<forall>c. hm_get (xm_contexts xm) jid = Some c \<longrightarrow> job_step\<^sup>*\<^sup>* c (g c)) \<Longrightarrow>
     keeps_ctx n (job_modify jid g xm)"
  using ctx_ok_steps [of xm jid "\<lambda>c. ((), g c)"] by (simp add: keeps_ctx_def snd_update_context) (simp add: job_modify_def)

text \<open>What the worker leaves alone: the contexts and the memories of the other jobs.\<close>

definition same_elsewhere :: "uuid \<Rightarrow> context_manager \<Rightarrow> context_manager \<Rightarrow> bool" where
  "same_elsewhere jid xm xm' \<longleftrightarrow>
     (\<forall>j. j \<noteq> jid \<longrightarrow> hm_get (xm_contexts xm') j = hm_get (xm_contexts xm) j \<and>
        hm_get (xm_memories xm') j = hm_get (xm_memories xm) j) \<and> xm_max_jobs xm' = xm_max_jobs xm"

lemma same_elsewhere_steps:
  "same_elsewhere jid xm xm' \<Longrightarrow> same_elsewhere jid xm (job_modify jid g xm')"
  "same_elsewhere jid xm xm' \<Longrightarrow> same_elsewhere jid xm (snd (update_memory jid m xm'))"
  by (auto simp: same_elsewhere_def job_modify_def update_memory_def split: option.splits)

text \<open>A worker that is alone.\<close>

abbreviation alone :: "worker_env \<Rightarrow> worker_env" where
  "alone wv \<equiv> wv\<lparr>wv_others := (\<lambda>_ xm. xm)\<rparr>"

interpretation alone_ctx: worker_closed "alone wv" "keeps_ctx n" for wv n
  by unfold_locales (simp_all add: keeps_ctx_steps, simp add: keeps_ctx_def ctx_ok_memory)

interpretation alone_elsewhere: worker_closed "alone wv" "same_elsewhere (wv_job wv) xm" for wv xm
  by unfold_locales (simp_all add: same_elsewhere_steps)

section \<open>Lemmas\<close>

lemma execute_inner_run:
  assumes "execute_tool_inner wv name params s = (r, s')" "wk_runs s' \<noteq> wk_runs s"
  obtains tool q s1 where "job_tool_checks wv name params s = (Inr (tool, q), s1)"
proof -
  have "wk_runs (snd (job_tool_checks wv name params s)) = wk_runs s"
    by (auto simp: job_tool_checks_def Let_def split: option.splits sum.splits prod.splits rate_limit_result.splits if_splits)
  with assms that show thesis
    by (cases "job_tool_checks wv name params s") (auto simp: execute_tool_inner_def split: sum.splits)
qed

lemma checks_passed:
  assumes "job_tool_checks wv name params s = (Inr (tool, q), s1)"
  shows "hm_get (wv_tools wv) name = Some tool \<and>
    \<not> is_blocked_or_default (wv_approval wv) name (tl_requires_approval tool (jt_prepare tool params)) \<and>
    wv_invalid wv q = None \<and>
    (\<exists>c. get_context (wv_job wv) (wk_cm s) = Inr c \<and> jc_state c \<noteq> JCancelled \<and>
       job_hook_params wv name tool (jt_prepare tool params) (jc_user_id c) = Inr q)"
  using assms
  by (auto simp: job_tool_checks_def Let_def split: option.splits sum.splits prod.splits rate_limit_result.splits if_splits)

lemma fold_slots_length [simp]: "length (fst (fold (run_slot wv sels) order acc)) = length (fst acc)"
  by (induction order arbitrary: acc) (simp_all add: run_slot_def split: prod.splits)

lemma run_slot_other: "i \<noteq> k \<Longrightarrow> fst (run_slot wv sels k acc) ! i = fst acc ! i"
  by (simp add: run_slot_def split: prod.splits)

lemma fold_slots_unset: "i \<notin> set order \<Longrightarrow> fst (fold (run_slot wv sels) order acc) ! i = fst acc ! i"
  by (induction order arbitrary: acc) (auto simp: run_slot_other)

lemma fold_slots_set:
  "i \<in> set order \<Longrightarrow> distinct order \<Longrightarrow> i < length (fst acc) \<Longrightarrow>
     \<exists>s1. fst (fold (run_slot wv sels) order acc) ! i
       = Some (fst (execute_tool_inner wv (ts_tool_name (sels ! i)) (ts_parameters (sels ! i)) s1))"
proof (induction order arbitrary: acc)
  case (Cons k order)
  show ?case
  proof (cases "i = k")
    case True
    with Cons.prems have "fst (run_slot wv sels k acc) ! i
        = Some (fst (execute_tool_inner wv (ts_tool_name (sels ! i)) (ts_parameters (sels ! i)) (snd acc)))"
      by (auto simp: run_slot_def split: prod.splits)
    with True Cons.prems fold_slots_unset [of i order wv sels "run_slot wv sels k acc"] show ?thesis
      by auto
  next
    case False
    with Cons.prems have "i < length (fst (run_slot wv sels k acc))" by (auto simp: run_slot_def split: prod.splits)
    with Cons False show ?thesis by auto
  qed
qed simp

text \<open>Whatever the order in which parallel runs end, the i-th result belongs to the i-th selection.\<close>

lemma parallel_results_in_order:
  assumes "i < length sels"
  shows "length (fst (execute_tools_parallel wv sels s)) = length sels"
    "(\<exists>s1. fst (execute_tools_parallel wv sels s) ! i
        = fst (execute_tool_inner wv (ts_tool_name (sels ! i)) (ts_parameters (sels ! i)) s1)) \<or>
     fst (execute_tools_parallel wv sels s) ! i
       = Inl (HeTool (TeExecutionFailed (ts_tool_name (sels ! i)) ''Task failed during execution''))"
proof -
  define order where "order = (if length sels \<le> 1 then [0..<length sels]
      else remdups (filter (\<lambda>i. i < length sels) (wv_order wv (wk_calls s))))"
  let ?acc = "(replicate (length sels) None, s)"
  have eq: "fst (execute_tools_parallel wv sels s) = map fill_slot (zip sels (fst (fold (run_slot wv sels) order ?acc)))"
    by (simp add: execute_tools_parallel_def order_def Let_def split: prod.splits)
  then show "length (fst (execute_tools_parallel wv sels s)) = length sels" by simp
  have d: "distinct order" by (simp add: order_def)
  from assms have i: "fst (execute_tools_parallel wv sels s) ! i
      = fill_slot (sels ! i, fst (fold (run_slot wv sels) order ?acc) ! i)" by (simp add: eq)
  show "(\<exists>s1. fst (execute_tools_parallel wv sels s) ! i
        = fst (execute_tool_inner wv (ts_tool_name (sels ! i)) (ts_parameters (sels ! i)) s1)) \<or>
     fst (execute_tools_parallel wv sels s) ! i
       = Inl (HeTool (TeExecutionFailed (ts_tool_name (sels ! i)) ''Task failed during execution''))"
  proof (cases "i \<in> set order")
    case True
    from fold_slots_set [OF this d, of ?acc wv sels] assms i show ?thesis by (auto simp: fill_slot_def)
  next
    case False
    from fold_slots_unset [OF this, of wv sels ?acc] assms i show ?thesis by (simp add: fill_slot_def)
  qed
qed

text \<open>
  A hook that returns what it was shown changes the call: the sensitive parameters that were hidden from it
  come back as the text that hid them. The chat puts the real values back; the worker does not.
\<close>

lemma hook_echo_hides_secret:
  assumes "wv_hook wv name (redact_params (JObject kvs) (jt_sensitive_params tool)) user = HookModified t"
    "wv_parse wv t = Some (redact_params (JObject kvs) (jt_sensitive_params tool))"
    "jt_prepare tool = (\<lambda>p. p)" "(k, v) \<in> set kvs" "k \<in> set (jt_sensitive_params tool)"
  shows "\<exists>kvs'. job_hook_params wv name tool (JObject kvs) user = Inr (JObject kvs') \<and> (k, JString ''[REDACTED]'') \<in> set kvs'"
  using assms by (auto simp: job_hook_params_def redact_params_def split: if_splits intro!: rev_image_eqI)

text \<open>An answer that exceeds the token budget fails the job and is handed on all the same; its calls still run.\<close>

lemma over_budget_answer_is_used:
  assumes "get_context (wv_job wv) (wk_cm s) = Inr c" "jc_state c = JInProgress" "usage_total (ro_usage out) \<noteq> 0"
    "jc_max_tokens c > 0" "jc_total_tokens_used c + usage_total (ro_usage out) > jc_max_tokens c"
  shows "fst (track_tokens wv out s) = Inr out \<and>
    (\<exists>c'. get_context (wv_job wv) (wk_cm (snd (track_tokens wv out s))) = Inr c' \<and> jc_state c' = JFailed)"
proof -
  have get: "hm_get (xm_contexts (wk_cm s)) (wv_job wv) = Some c"
    using assms(1) by (simp add: get_context_def split: option.splits)
  let ?c = "c\<lparr>jc_total_tokens_used := jc_total_tokens_used c + usage_total (ro_usage out)\<rparr>"
  have add: "add_tokens (usage_total (ro_usage out)) c
      = (Inl (jc_total_tokens_used ?c, jc_max_tokens c), ?c)"
    using assms(4,5) by (simp add: add_tokens_def Let_def)
  show ?thesis
    using get add assms(2,3)
    by (simp add: track_tokens_def update_context_def mark_failed_def finish_job_def get_context_def
        job_transition_to_def job_can_transition_def Let_def store_fallback_in_metadata_def split: option.splits)
qed

text \<open>
  A job that is told to stop ends as a success: the loop stops, and the run, which takes a loop that
  ends without an error for a finished one, marks the job completed.
\<close>

lemma stopped_run_completes_job:
  assumes "wk_inbox s = ms # later" "WmStop \<in> set ms" "wv_plan wv = None" "wv_others wv = (\<lambda>_ xm. xm)"
    "get_context (wv_job wv) (wk_cm s) = Inr c" "jc_state c = JInProgress" "0 < job_max_iterations wv s"
  shows "\<exists>s' c'. worker_run wv (Some WmStart) s = (Inr (), s') \<and> get_context (wv_job wv) (wk_cm s') = Inr c' \<and>
    jc_state c' = JCompleted \<and> wk_calls s' = wk_calls s"
proof -
  obtain n where n: "job_max_iterations wv s = Suc n" using assms(7) by (cases "job_max_iterations wv s") auto
  define s1 where "s1 = s\<lparr>wk_rate_limits := 0, wk_inbox := later, wk_polls := Suc (wk_polls s)\<rparr>"
  have "loop_iteration cfg (job_delegate wv) 1 0 ctx (s\<lparr>wk_rate_limits := 0\<rparr>) = (Inl (Inr LoopStopped), ctx, s1)" for cfg ctx
    using assms(1,2,4)
    by (simp add: loop_iteration_def job_delegate_def job_check_signals_def take_inbox_def s1_def Let_def)
  then have "execution_loop wv ctx s = (Inr (), s1)" for ctx
    using assms(3) n by (simp add: execution_loop_def loop_for_job_def run_agentic_loop_def Let_def)
  then have run: "worker_run wv (Some WmStart) s = mark_completed wv s1"
    using assms(5,6) by (simp add: worker_run_def worker_finish_def s1_def)
  have get: "hm_get (xm_contexts (wk_cm s1)) (wv_job wv) = Some c"
    using assms(5) by (simp add: s1_def get_context_def split: option.splits)
  show ?thesis
    unfolding run using get assms(6)
    by (simp add: mark_completed_def finish_job_def update_context_def get_context_def job_transition_to_def
        job_can_transition_def Let_def s1_def)
qed

section \<open>Properties\<close>


definition quiet_worker :: worker_env where
  "quiet_worker =
     \<lparr>wv_job = 7, wv_tools = [], wv_tool_defs = (\<lambda>_. []), wv_approval = Some [], wv_hook = (\<lambda>_ _ _. HookContinue),
      wv_parse = (\<lambda>_. None), wv_invalid = (\<lambda>_. None), wv_run = (\<lambda>_. RunTimeout), wv_pretty = (\<lambda>_. []),
      wv_to_str = (\<lambda>_. []), wv_sanitize = (\<lambda>_ x. x), wv_wrap = (\<lambda>_ x. x), wv_show = (\<lambda>_. []),
      wv_fallback_json = (\<lambda>_. JNull), wv_reasoning = (\<lambda>_. talking_model ''all done''), wv_plan = None,
      wv_now = (\<lambda>n. int n), wv_rl_clock = (\<lambda>_ _. 0), wv_fresh = (\<lambda>n. n), wv_order = (\<lambda>_. []),
      wv_others = (\<lambda>_ xm. xm)\<rparr>"

definition started_jobs :: context_manager where
  "started_jobs = snd (update_context 7 (\<lambda>c. ((), case job_transition_to 5 JInProgress None c of
     Inl _ \<Rightarrow> c | Inr c' \<Rightarrow> c')) (snd (create_job_for_user 7 1 None ''u'' ''t'' ''d'' (new_context_manager 2))))"

definition started_worker :: worker_state where
  "started_worker = \<lparr>wk_cm = started_jobs, wk_rl = [], wk_inbox = [], wk_rate_limits = 0, wk_calls = 0, wk_runs = 0, wk_polls = 0\<rparr>"

lemma started_jobs_reach: "ctx_reach 2 started_jobs"
proof -
  have "job_step c (case job_transition_to 5 JInProgress None c of Inl _ \<Rightarrow> c | Inr c' \<Rightarrow> c')" for c
    by (cases "job_transition_to 5 JInProgress None c") (auto intro: job_step.intros)
  then show ?thesis unfolding started_jobs_def by (intro ctx_reach.intros) simp
qed



definition echo_worker :: worker_env where
  "echo_worker = quiet_worker\<lparr>wv_tools := [(''echo'', \<lparr>tl_name = ''echo'', tl_requires_approval = (\<lambda>_. ReqAlways),
     jt_sensitive_params = [''key''], jt_rate_limit = None, jt_prepare = (\<lambda>p. p)\<rparr>)], wv_approval := Some [''echo'']\<rparr>"

lemma started_get: "get_context 7 started_jobs = Inr (started_jobs_context)"
  if "started_jobs_context = (job_with_user 7 1 None ''u'' ''t'' ''d'')\<lparr>jc_state := JInProgress,
    jc_transitions := [\<lparr>sx_from = JPending, sx_to = JInProgress, sx_timestamp = 5, sx_reason = None\<rparr>], jc_started_at := Some 5\<rparr>"
  unfolding that by code_simp

lemma echo_runs: "wk_runs (snd (execute_tool_inner echo_worker ''echo'' JNull started_worker)) = 1"
  by code_simp


text \<open>
  Of several messages of the user that wait in the channel only the first reaches the model: one look
  takes them all out, and the others are gone, although they are meant to be picked up later.
\<close>

lemma second_user_message_lost:
  assumes "wk_inbox s = ms # later" "WmStop \<notin> set ms" "user_messages ms = first # second # rest"
  shows "\<exists>s'. job_check_signals wv s = (SigInject first, s') \<and> wk_inbox s' = later"
  using assms by (simp add: job_check_signals_def take_inbox_def)

lemma second_user_message_lost_witness:
  "\<exists>s'. job_check_signals quiet_worker (started_worker\<lparr>wk_inbox := [[WmUserMessage ''a'', WmUserMessage ''b'']]\<rparr>)
     = (SigInject ''a'', s') \<and> wk_inbox s' = []"
  by (rule second_user_message_lost [where ms = "[WmUserMessage ''a'', WmUserMessage ''b'']" and second = "''b''" and rest = "[]"])
    simp_all

text \<open>
  A stop that arrives during a plan is lost: it ends the plan and is taken out of the channel, and the
  loop over the model starts as if there had been none.
\<close>

lemma stop_during_plan_lost:
  assumes "wk_inbox s = (WmStop # ms) # later" "wv_plan wv = Some (Inr plan)" "ap_actions plan \<noteq> []"
    "get_context (wv_job wv) (wk_cm s) = Inr c" "jc_state c = JInProgress"
  shows "execution_loop wv ctx s = loop_for_job wv (job_max_iterations wv s)
     (push_message (chat_assistant (plan_text plan)) (ctx\<lparr>rc_available_tools := wv_tool_defs wv 0\<rparr>))
     (put_back ms (s\<lparr>wk_inbox := later, wk_polls := Suc (wk_polls s)\<rparr>))"
proof -
  obtain a as where acts: "ap_actions plan = a # as" using assms(3) by (cases "ap_actions plan") auto
  have poll: "plan_poll s = (PlanStop, put_back ms (s\<lparr>wk_inbox := later, wk_polls := Suc (wk_polls s)\<rparr>))"
    using assms(1) by (simp add: plan_poll_def take_inbox_def)
  then show ?thesis
    using assms(2,4,5) acts by (simp add: execution_loop_def execute_plan_def Let_def put_back_def)
qed

lemma stop_during_plan_lost_witness:
  "execution_loop (quiet_worker\<lparr>wv_plan := Some (Inr \<lparr>ap_goal = [], ap_actions = [\<lparr>pa_tool_name = ''x'', pa_parameters = JNull, pa_reasoning = []\<rparr>]\<rparr>)\<rparr>)
     one_tool (started_worker\<lparr>wk_inbox := [[WmStop]]\<rparr>)
   = loop_for_job (quiet_worker\<lparr>wv_plan := Some (Inr \<lparr>ap_goal = [], ap_actions = [\<lparr>pa_tool_name = ''x'', pa_parameters = JNull, pa_reasoning = []\<rparr>]\<rparr>)\<rparr>)
     50 (push_message (chat_assistant (plan_text \<lparr>ap_goal = [], ap_actions = [\<lparr>pa_tool_name = ''x'', pa_parameters = JNull, pa_reasoning = []\<rparr>]\<rparr>))
       (one_tool\<lparr>rc_available_tools := []\<rparr>)) (put_back [] (started_worker\<lparr>wk_inbox := [], wk_polls := 1\<rparr>))"
proof -
  let ?plan = "\<lparr>ap_goal = [], ap_actions = [\<lparr>pa_tool_name = ''x'', pa_parameters = JNull, pa_reasoning = []\<rparr>]\<rparr>"
  let ?wv = "quiet_worker\<lparr>wv_plan := Some (Inr ?plan)\<rparr>" and ?s = "started_worker\<lparr>wk_inbox := [[WmStop]]\<rparr>"
  obtain c where c: "get_context 7 started_jobs = Inr c" "jc_state c = JInProgress" "jc_metadata c = JNull"
    using started_get by (simp add: job_with_user_def)
  then have "job_max_iterations ?wv ?s = 50"
    by (simp add: job_max_iterations_def quiet_worker_def started_worker_def json_get_def)
  then show ?thesis
    using stop_during_plan_lost [of ?s "[]" "[]" ?wv ?plan c one_tool] c
    by (simp add: quiet_worker_def started_worker_def)
qed

end
