(* ===== verification/Job_Scheduler.thy ===== *)
theory Job_Scheduler
  imports Job_Runs
begin

text \<open>
  The scheduler of jobs (\<open>src/agent/scheduler.rs\<close>): dispatching a job with its budget of tokens, the
  table of running jobs with its bound, messages to a worker, stopping a job, subtasks. A stop gives the
  worker a moment between its signal and the cancellation; the two parts are separate definitions.

  A scheduled job is the messages sent to its worker and whether its task has ended. Rows written to the
  database in the background are a list in the order of the requests.
\<close>

section \<open>State\<close>

record scheduled_job =
  sj_inbox :: "worker_message list"
  sj_finished :: bool

record scheduler_config =
  sc_max_parallel_jobs :: nat
  sc_max_tokens_per_job :: u64

record scheduler =
  sch_config :: scheduler_config
  sch_cm :: context_manager
  sch_jobs :: "(uuid, scheduled_job) hmap"
  sch_rows :: "(uuid \<times> job_state) list"

datatype scheduler_error = SeJob job_error | SeContext uuid string | SeFailed uuid string

section \<open>Dispatch\<close>

definition json_as_u64 :: "json \<Rightarrow> u64 option" where
  "json_as_u64 j = (case j of JNumber n \<Rightarrow> if 0 \<le> n \<and> n < 2 ^ 64 then Some (word_of_int n) else None | _ \<Rightarrow> None)"

definition job_token_limit :: "u64 \<Rightarrow> json option \<Rightarrow> u64" where
  "job_token_limit cap metadata =
     (case Option.bind (Option.bind metadata (json_get ''max_tokens'')) json_as_u64 of
        Some user_val \<Rightarrow> if cap = 0 then user_val else min user_val cap
      | None \<Rightarrow> cap)"

definition apply_job_limits :: "u64 \<Rightarrow> json option \<Rightarrow> job_context \<Rightarrow> job_context" where
  "apply_job_limits max_tokens metadata c =
     (let c1 = (case metadata of Some m \<Rightarrow> c\<lparr>jc_metadata := m\<rparr> | None \<Rightarrow> c)
      in if max_tokens > 0 then c1\<lparr>jc_max_tokens := max_tokens\<rparr> else c1)"

definition schedule_with_context :: "time \<Rightarrow> uuid \<Rightarrow> scheduler \<Rightarrow> (scheduler_error + unit) \<times> scheduler" where
  "schedule_with_context now jid sch =
     (if hm_get (sch_jobs sch) jid \<noteq> None then (Inr (), sch)
      else if length (sch_jobs sch) \<ge> sc_max_parallel_jobs (sch_config sch)
      then (Inl (SeJob (MaxJobsExceeded (sc_max_parallel_jobs (sch_config sch)))), sch)
      else case update_context jid (\<lambda>c.
          case job_transition_to now JInProgress (Some ''Scheduled for execution'') c of
            Inl e \<Rightarrow> (Inl e, c) | Inr c' \<Rightarrow> (Inr (), c')) (sch_cm sch) of
        (Inl e, xm) \<Rightarrow> (Inl (SeJob e), sch\<lparr>sch_cm := xm\<rparr>)
      | (Inr (Inl reason), xm) \<Rightarrow> (Inl (SeContext jid reason), sch\<lparr>sch_cm := xm\<rparr>)
      | (Inr (Inr _), xm) \<Rightarrow>
          (Inr (), sch\<lparr>sch_cm := xm,
            sch_jobs := hm_insert jid \<lparr>sj_inbox = [WmStart], sj_finished = False\<rparr> (sch_jobs sch)\<rparr>))"

text \<open>\<open>save\<close> is the write of the new job to the database, an error in words when it fails.\<close>

definition dispatch_job_inner ::
    "(job_context \<Rightarrow> string + unit) \<Rightarrow> uuid \<Rightarrow> time \<Rightarrow> string option \<Rightarrow> string \<Rightarrow> string \<Rightarrow> string \<Rightarrow> json option \<Rightarrow>
     scheduler \<Rightarrow> (scheduler_error + uuid) \<times> scheduler" where
  "dispatch_job_inner save jid now vision user_id title description metadata sch =
     (case create_job_for_user jid now vision user_id title description (sch_cm sch) of
        (Inl e, xm) \<Rightarrow> (Inl (SeJob e), sch\<lparr>sch_cm := xm\<rparr>)
      | (Inr _, xm) \<Rightarrow>
          (let max_tokens = job_token_limit (sc_max_tokens_per_job (sch_config sch)) metadata;
               (r, xm1) = update_context_and_get jid (apply_job_limits max_tokens metadata) xm;
               sch1 = sch\<lparr>sch_cm := xm1\<rparr>
           in case r of
                Inl e \<Rightarrow> (Inl (SeJob e), sch1)
              | Inr c \<Rightarrow>
                  (case save c of
                     Inl e \<Rightarrow> (Inl (SeFailed jid (''failed to persist job: '' @ e)), sch1)
                   | Inr _ \<Rightarrow>
                       (case schedule_with_context now jid sch1 of
                          (Inl e, sch2) \<Rightarrow> (Inl e, sch2)
                        | (Inr _, sch2) \<Rightarrow> (Inr jid, sch2)))))"

text \<open>The tools of an autonomous run (\<open>src/tools/autonomy.rs\<close>): the built-in ones and those of active extensions of the owner.\<close>

definition autonomous_allowed_tool_names ::
    "string list \<Rightarrow> (string \<times> string list) option \<Rightarrow> string \<Rightarrow> string list" where
  "autonomous_allowed_tool_names builtin extensions owner =
     (let ok = (\<lambda>n. n \<notin> set JOB_TOOL_DENYLIST)
      in filter ok builtin @ (case extensions of
           Some (ext_owner, names) \<Rightarrow> if ext_owner = owner then filter ok names else []
         | None \<Rightarrow> []))"

section \<open>Running jobs\<close>

definition scheduler_cleanup_finished :: "scheduler \<Rightarrow> scheduler" where
  "scheduler_cleanup_finished sch = sch\<lparr>sch_jobs := filter (\<lambda>p. \<not> sj_finished (snd p)) (sch_jobs sch)\<rparr>"

text \<open>The watcher of one job looks once a second, and removes the job at the 1800th look in any case.\<close>

definition cleanup_poll :: "bool \<Rightarrow> uuid \<Rightarrow> scheduler \<Rightarrow> scheduler" where
  "cleanup_poll last_look jid sch =
     (case hm_get (sch_jobs sch) jid of
        None \<Rightarrow> sch
      | Some j \<Rightarrow> if sj_finished j \<or> last_look then sch\<lparr>sch_jobs := hm_remove jid (sch_jobs sch)\<rparr> else sch)"

definition scheduler_send_message :: "uuid \<Rightarrow> string \<Rightarrow> scheduler \<Rightarrow> (scheduler_error + unit) \<times> scheduler" where
  "scheduler_send_message jid content sch =
     (case hm_get (sch_jobs sch) jid of
        None \<Rightarrow> (Inl (SeJob (JobNotFound jid)), sch)
      | Some j \<Rightarrow>
          if sj_finished j then (Inl (SeFailed jid ''Worker channel closed''), sch)
          else (Inr (), sch\<lparr>sch_jobs := hm_modify jid (\<lambda>j. j\<lparr>sj_inbox := sj_inbox j @ [WmUserMessage content]\<rparr>) (sch_jobs sch)\<rparr>))"

text \<open>
  Stopping: the signal, with the channel as the worker sees it then; and, a moment later, the end of
  the task, the cancellation, whose failure is only logged, and the row of the database.
\<close>

definition stop_begin :: "uuid \<Rightarrow> scheduler \<Rightarrow> worker_message list option \<times> scheduler" where
  "stop_begin jid sch =
     (case hm_get (sch_jobs sch) jid of
        None \<Rightarrow> (None, sch)
      | Some j \<Rightarrow> (Some (sj_inbox j @ [WmStop]), sch\<lparr>sch_jobs := hm_remove jid (sch_jobs sch)\<rparr>))"

definition stop_end :: "time \<Rightarrow> uuid \<Rightarrow> scheduler \<Rightarrow> (scheduler_error + unit) \<times> scheduler" where
  "stop_end now jid sch =
     (case update_context jid (\<lambda>c. ((), case job_transition_to now JCancelled (Some ''Stopped by scheduler'') c of
          Inl _ \<Rightarrow> c | Inr c' \<Rightarrow> c')) (sch_cm sch) of
        (Inl e, xm) \<Rightarrow> (Inl (SeJob e), sch\<lparr>sch_cm := xm\<rparr>)
      | (Inr _, xm) \<Rightarrow> (Inr (), sch\<lparr>sch_cm := xm, sch_rows := sch_rows sch @ [(jid, JCancelled)]\<rparr>))"

definition scheduler_stop ::
    "time \<Rightarrow> (worker_message list \<Rightarrow> context_manager \<Rightarrow> context_manager) \<Rightarrow> uuid \<Rightarrow> scheduler \<Rightarrow>
     (scheduler_error + unit) \<times> scheduler" where
  "scheduler_stop now worker jid sch =
     (case stop_begin jid sch of
        (None, sch1) \<Rightarrow> (Inr (), sch1)
      | (Some inbox, sch1) \<Rightarrow> stop_end now jid (sch1\<lparr>sch_cm := worker inbox (sch_cm sch1)\<rparr>))"

section \<open>Subtasks\<close>

text \<open>A tool as a subtask: in the scheduler the approval context is always absent.\<close>

definition execute_tool_task ::
    "worker_env \<Rightarrow> nat \<Rightarrow> context_manager \<Rightarrow> uuid \<Rightarrow> string \<Rightarrow> json \<Rightarrow> host_error + json" where
  "execute_tool_task wv k xm jid name params =
     (case hm_get (wv_tools wv) name of
        None \<Rightarrow> Inl (HeTool (TeNotFound name))
      | Some tool \<Rightarrow>
          (case get_context jid xm of
             Inl e \<Rightarrow> Inl (HeJob e)
           | Inr c \<Rightarrow>
               if jc_state c = JCancelled then Inl (HeTool (TeExecutionFailed name ''Job is cancelled''))
               else if is_blocked_or_default (wv_approval wv) name (tl_requires_approval tool (jt_prepare tool params))
               then Inl (HeTool (TeAutonomousUnavailable name (autonomous_unavailable_message name (jc_user_id c))))
               else (case execute_tool_with_safety wv k name params of
                 Inl e \<Rightarrow> Inl e
               | Inr output \<Rightarrow>
                   (case wv_parse wv output of
                      Some v \<Rightarrow> Inr v
                    | None \<Rightarrow> Inl (HeTool (TeExecutionFailed name ''Failed to parse tool output as JSON''))))))"

datatype sub_task = TaskJob | TaskToolExec uuid string json | TaskBackground "host_error + json"

text \<open>The k-th task of a batch; a task for a whole job is refused, and its place holds an error.\<close>

definition run_subtask :: "worker_env \<Rightarrow> context_manager \<Rightarrow> uuid \<Rightarrow> nat \<times> sub_task \<Rightarrow> host_error + json" where
  "run_subtask wv xm parent p =
     (case snd p of
        TaskJob \<Rightarrow> Inl (HeContext parent ''Subtask failed to spawn'')
      | TaskToolExec jid name params \<Rightarrow> execute_tool_task (wv\<lparr>wv_approval := None\<rparr>) (fst p) xm jid name params
      | TaskBackground r \<Rightarrow> r)"

definition spawn_batch :: "worker_env \<Rightarrow> context_manager \<Rightarrow> uuid \<Rightarrow> sub_task list \<Rightarrow> (host_error + json) list" where
  "spawn_batch wv xm parent tasks = map (run_subtask wv xm parent) (enumerate 0 tasks)"

section \<open>Lemmas\<close>

lemma create_job_get:
  assumes "create_job_for_user jid now vision user_id title description xm = (Inr x, xm1)"
  shows "hm_get (xm_contexts xm1) jid = Some (job_with_user jid now vision user_id title description)"
  using assms by (auto simp: create_job_for_user_def insert_context_def job_with_user_def split: if_splits prod.splits)

lemma apply_limits_tokens:
  "jc_max_tokens c = 0 \<Longrightarrow> jc_max_tokens (apply_job_limits n metadata c) = n"
  "jc_state (apply_job_limits n metadata c) = jc_state c"
  "jc_job_id (apply_job_limits n metadata c) = jc_job_id c"
  by (auto simp: apply_job_limits_def Let_def word_gt_0 split: option.splits)

lemma token_limit_le: "cap \<noteq> 0 \<Longrightarrow> job_token_limit cap metadata \<le> cap"
  by (auto simp: job_token_limit_def split: option.splits)

lemma blocking_insert_fresh:
  "hm_get m k = None \<Longrightarrow> is_parallel_blocking (jc_state c) \<Longrightarrow> blocking (hm_insert k c m) = Suc (blocking m)"
  by (induction k c m rule: hm_insert.induct) (auto simp: blocking_def split: if_splits)

text \<open>The steps of the scheduler and of the workers, as far as they touch the scheduler's own state.\<close>

inductive sched_reach :: "nat \<Rightarrow> scheduler_config \<Rightarrow> scheduler \<Rightarrow> bool" where
  sr_new: "sched_reach n cfg \<lparr>sch_config = cfg, sch_cm = new_context_manager n, sch_jobs = [], sch_rows = []\<rparr>"
| sr_dispatch: "sched_reach n cfg sch \<Longrightarrow>
    sched_reach n cfg (snd (dispatch_job_inner save jid now vision user_id title description metadata sch))"
| sr_schedule: "sched_reach n cfg sch \<Longrightarrow> sched_reach n cfg (snd (schedule_with_context now jid sch))"
| sr_message: "sched_reach n cfg sch \<Longrightarrow> sched_reach n cfg (snd (scheduler_send_message jid content sch))"
| sr_cleanup: "sched_reach n cfg sch \<Longrightarrow> sched_reach n cfg (scheduler_cleanup_finished sch)"
| sr_poll: "sched_reach n cfg sch \<Longrightarrow> sched_reach n cfg (cleanup_poll last_look jid sch)"
| sr_stop: "sched_reach n cfg sch \<Longrightarrow> sched_reach n cfg (snd (stop_begin jid sch))"
| sr_cancel: "sched_reach n cfg sch \<Longrightarrow> sched_reach n cfg (snd (stop_end now jid sch))"
| sr_ended: "sched_reach n cfg sch \<Longrightarrow>
    sched_reach n cfg (sch\<lparr>sch_jobs := hm_modify jid (\<lambda>j. j\<lparr>sj_finished := True\<rparr>) (sch_jobs sch)\<rparr>)"
| sr_worker: "sched_reach n cfg sch \<Longrightarrow> wk_cm s = sch_cm sch \<Longrightarrow> wv_others wv = (\<lambda>_ xm. xm) \<Longrightarrow>
    sched_reach n cfg (sch\<lparr>sch_cm := wk_cm (snd (worker_run wv first s))\<rparr>)"

definition sched_ok :: "nat \<Rightarrow> scheduler_config \<Rightarrow> scheduler \<Rightarrow> bool" where
  "sched_ok n cfg sch \<longleftrightarrow> sch_config sch = cfg \<and> hm_wf (sch_jobs sch) \<and>
     length (sch_jobs sch) \<le> sc_max_parallel_jobs cfg \<and> keeps_ctx n (sch_cm sch)"

lemma length_modify [simp]: "length (hm_modify k f m) = length m"
  by (simp add: hm_modify_def)

lemma keeps_ctx_update:
  "keeps_ctx n xm \<Longrightarrow> (\<forall>c. hm_get (xm_contexts xm) jid = Some c \<longrightarrow> job_step\<^sup>*\<^sup>* c (snd (f c))) \<Longrightarrow>
     keeps_ctx n (snd (update_context jid f xm))"
  unfolding snd_update_context by (rule keeps_ctx_steps)

lemma schedule_ok:
  assumes "sched_ok n cfg sch"
  shows "sched_ok n cfg (snd (schedule_with_context now jid sch))"
proof -
  let ?f = "\<lambda>c. case job_transition_to now JInProgress (Some ''Scheduled for execution'') c of
      Inl e \<Rightarrow> (Inl e, c) | Inr c' \<Rightarrow> (Inr (), c')"
  have "job_step\<^sup>*\<^sup>* c (snd (?f c))" for c
    by (auto split: sum.splits intro: js_transition)
  then have k: "keeps_ctx n (snd (update_context jid ?f (sch_cm sch)))"
    using assms by (intro keeps_ctx_update) (simp_all add: sched_ok_def)
  with assms show ?thesis
    by (cases "update_context jid ?f (sch_cm sch)")
      (auto simp: schedule_with_context_def sched_ok_def length_hm_insert split: sum.splits)
qed

lemma dispatch_prepared_ok:
  assumes "sched_ok n cfg sch" "create_job_for_user jid now vision user_id title description (sch_cm sch) = (x, xm)"
  shows "sched_ok n cfg (sch\<lparr>sch_cm := xm\<rparr>)"
    "sched_ok n cfg (sch\<lparr>sch_cm := snd (update_context_and_get jid (apply_job_limits k metadata) xm)\<rparr>)"
proof -
  have "xm = snd (create_job_for_user jid now vision user_id title description (sch_cm sch))"
    by (simp add: assms(2))
  then have xm: "keeps_ctx n xm"
    using assms(1) by (simp add: sched_ok_def keeps_ctx_def create_job_snd ctx_ok_insert job_ok_fresh job_with_user_def)
  with assms(1) show "sched_ok n cfg (sch\<lparr>sch_cm := xm\<rparr>)" by (simp add: sched_ok_def)
  have "snd (update_context_and_get jid g xm) = snd (update_context jid (\<lambda>c. ((), g c)) xm)" for g
    by (simp add: update_context_and_get_def update_context_def split: option.splits)
  moreover have "job_step c (apply_job_limits k metadata c)" for c
    by (rule js_fields) (auto simp: apply_job_limits_def Let_def split: option.splits)
  ultimately have "keeps_ctx n (snd (update_context_and_get jid (apply_job_limits k metadata) xm))"
    using xm by (auto intro!: keeps_ctx_update)
  with assms(1) show "sched_ok n cfg (sch\<lparr>sch_cm := snd (update_context_and_get jid (apply_job_limits k metadata) xm)\<rparr>)"
    by (simp add: sched_ok_def)
qed

lemma dispatch_ok:
  assumes "sched_ok n cfg sch"
  shows "sched_ok n cfg (snd (dispatch_job_inner save jid now vision user_id title description metadata sch))"
proof -
  obtain x xm where create: "create_job_for_user jid now vision user_id title description (sch_cm sch) = (x, xm)" by fastforce
  let ?k = "job_token_limit (sc_max_tokens_per_job (sch_config sch)) metadata"
  let ?sch1 = "sch\<lparr>sch_cm := snd (update_context_and_get jid (apply_job_limits ?k metadata) xm)\<rparr>"
  note ok = dispatch_prepared_ok(1) [OF assms create] dispatch_prepared_ok(2) [OF assms create, of ?k metadata]
  have "schedule_with_context now jid ?sch1 = (e, sch2) \<Longrightarrow> sched_ok n cfg sch2" for e sch2
    using schedule_ok [OF ok(2), of now jid] by simp
  with ok create show ?thesis
    by (cases "update_context_and_get jid (apply_job_limits ?k metadata) xm")
      (auto simp: dispatch_job_inner_def Let_def split: sum.splits prod.splits)
qed

lemma sched_ok_filter: "sched_ok n cfg sch \<Longrightarrow> sched_ok n cfg (sch\<lparr>sch_jobs := filter Q (sch_jobs sch)\<rparr>)"
  by (auto simp: sched_ok_def intro: distinct_map_filter order_trans [OF length_filter_le])

lemma sched_reach_ok: "sched_reach n cfg sch \<Longrightarrow> sched_ok n cfg sch"
proof (induction rule: sched_reach.induct)
  case (sr_new n cfg)
  have "ctx_reach n (new_context_manager n)" by (rule xr_new)
  from ctx_reach_ok [OF this] show ?case by (simp add: sched_ok_def keeps_ctx_def)
next
  case (sr_dispatch n cfg sch save jid now vision user_id title description metadata)
  then show ?case by (simp add: dispatch_ok)
next
  case (sr_schedule n cfg sch now jid)
  then show ?case by (simp add: schedule_ok)
next
  case (sr_message n cfg sch jid content)
  then show ?case by (auto simp: scheduler_send_message_def sched_ok_def split: option.splits)
next
  case (sr_cleanup n cfg sch)
  then show ?case by (simp add: scheduler_cleanup_finished_def sched_ok_filter)
next
  case (sr_poll n cfg sch last_look jid)
  then show ?case by (auto simp: cleanup_poll_def hm_remove_def intro: sched_ok_filter split: option.splits)
next
  case (sr_stop n cfg sch jid)
  then show ?case by (auto simp: stop_begin_def hm_remove_def intro: sched_ok_filter split: option.splits)
next
  case (sr_cancel n cfg sch now jid)
  let ?f = "\<lambda>c. ((), case job_transition_to now JCancelled (Some ''Stopped by scheduler'') c of Inl _ \<Rightarrow> c | Inr c' \<Rightarrow> c')"
  have "job_step\<^sup>*\<^sup>* c (snd (?f c))" for c by (auto split: sum.splits intro: js_transition)
  then have "keeps_ctx n (snd (update_context jid ?f (sch_cm sch)))"
    using sr_cancel by (intro keeps_ctx_update) (simp_all add: sched_ok_def)
  with sr_cancel show ?case
    by (cases "update_context jid ?f (sch_cm sch)") (auto simp: stop_end_def sched_ok_def split: sum.splits)
next
  case (sr_ended n cfg sch jid)
  then show ?case by (simp add: sched_ok_def)
next
  case (sr_worker n cfg sch s wv first)
  then have alone: "alone wv = wv" by simp
  from sr_worker have "keeps_ctx n (wk_cm s)" by (simp add: sched_ok_def)
  then have "keeps_ctx n (wk_cm (snd (worker_run wv first s)))"
    using alone_ctx.worker_run_keeps [of n s wv first] by (simp only: alone)
  with sr_worker show ?case by (simp add: sched_ok_def)
qed

section \<open>Properties\<close>


definition small_scheduler :: scheduler where
  "small_scheduler = \<lparr>sch_config = \<lparr>sc_max_parallel_jobs = 2, sc_max_tokens_per_job = 100\<rparr>,
     sch_cm = new_context_manager 2, sch_jobs = [], sch_rows = []\<rparr>"


text \<open>
  A dispatched job has the limit of tokens that its metadata asks for, but not more than the
  configured one; a request for zero tokens, though, lifts the configured limit altogether, since a
  job with no limit counts as unlimited.
\<close>

lemma zero_tokens_lift_limit:
  assumes "dispatch_job_inner save jid now vision user_id title description metadata sch = (Inr x, sch')"
    "hm_get (sch_jobs sch) jid = None" "sc_max_tokens_per_job (sch_config sch) \<noteq> 0"
  shows "\<exists>c. hm_get (xm_contexts (sch_cm sch')) jid = Some c \<and>
    jc_max_tokens c = job_token_limit (sc_max_tokens_per_job (sch_config sch)) metadata \<and>
    jc_max_tokens c \<le> sc_max_tokens_per_job (sch_config sch) \<and>
    (Option.bind metadata (json_get ''max_tokens'') = Some (JNumber 0) \<longrightarrow> fst (add_tokens n c) = Inr ())"
proof -
  let ?k = "job_token_limit (sc_max_tokens_per_job (sch_config sch)) metadata"
  obtain y xm where create: "create_job_for_user jid now vision user_id title description (sch_cm sch) = (Inr y, xm)"
    using assms(1) by (cases "create_job_for_user jid now vision user_id title description (sch_cm sch)")
      (auto simp: dispatch_job_inner_def split: sum.splits)
  let ?c = "apply_job_limits ?k metadata (job_with_user jid now vision user_id title description)"
  obtain xm1 where upd: "update_context_and_get jid (apply_job_limits ?k metadata) xm = (Inr ?c, xm1)"
    "hm_get (xm_contexts xm1) jid = Some ?c"
    using create_job_get [OF create] by (simp add: update_context_and_get_def)
  have st: "jc_state ?c = JPending" by (simp add: apply_limits_tokens job_with_user_def)
  have "schedule_with_context now jid (sch\<lparr>sch_cm := xm1\<rparr>) = (Inr (), sch')"
    using assms(1) create upd(1) by (auto simp: dispatch_job_inner_def Let_def split: sum.splits prod.splits)
  then obtain c where c: "hm_get (xm_contexts (sch_cm sch')) jid = Some c" "jc_max_tokens c = jc_max_tokens ?c"
    using assms(2) upd(2) st
    by (auto simp: schedule_with_context_def update_context_def job_transition_to_def job_can_transition_def Let_def
        split: if_splits sum.splits)
  have k: "jc_max_tokens c = ?k"
    using c(2) by (simp add: apply_limits_tokens job_with_user_def)
  have "fst (add_tokens n c) = Inr ()" if "Option.bind metadata (json_get ''max_tokens'') = Some (JNumber 0)"
    using k that by (simp add: job_token_limit_def json_as_u64_def add_tokens_def Let_def)
  with c(1) k token_limit_le [OF assms(3), of metadata] show ?thesis by auto
qed

lemma zero_tokens_lift_limit_witness:
  "\<exists>c. hm_get (xm_contexts (sch_cm (snd (dispatch_job_inner (\<lambda>_. Inr ()) 7 1 None ''u'' ''t'' ''d''
       (Some (JObject [(''max_tokens'', JNumber 0)])) small_scheduler)))) 7 = Some c \<and> fst (add_tokens 5000 c) = Inr ()"
proof -
  let ?d = "dispatch_job_inner (\<lambda>_. Inr ()) 7 1 None ''u'' ''t'' ''d'' (Some (JObject [(''max_tokens'', JNumber 0)])) small_scheduler"
  have "fst ?d = Inr 7" by code_simp
  then have "?d = (Inr 7, snd ?d)" by (metis prod.collapse)
  from zero_tokens_lift_limit [OF this, of 5000] show ?thesis
    by (auto simp: small_scheduler_def json_get_def)
qed

text \<open>
  A dispatch that is refused because too many jobs are running leaves its job behind: it stays pending in
  the context manager and occupies one of the slots for parallel jobs.
\<close>

lemma refused_dispatch_keeps_slot:
  assumes "sc_max_parallel_jobs (sch_config sch) \<le> length (sch_jobs sch)" "hm_get (sch_jobs sch) jid = None"
    "hm_get (xm_contexts (sch_cm sch)) jid = None" "parallel_count (sch_cm sch) < xm_max_jobs (sch_cm sch)"
    "\<And>c. save c = Inr ()"
  shows "\<exists>sch' c. dispatch_job_inner save jid now vision user_id title description metadata sch
      = (Inl (SeJob (MaxJobsExceeded (sc_max_parallel_jobs (sch_config sch)))), sch') \<and>
    hm_get (xm_contexts (sch_cm sch')) jid = Some c \<and> jc_state c = JPending \<and>
    parallel_count (sch_cm sch') = Suc (parallel_count (sch_cm sch))"
proof -
  let ?k = "job_token_limit (sc_max_tokens_per_job (sch_config sch)) metadata"
  let ?c0 = "job_with_user jid now vision user_id title description" and ?m = "xm_contexts (sch_cm sch)"
  let ?g = "apply_job_limits ?k metadata"
  let ?xm = "(sch_cm sch)\<lparr>xm_contexts := hm_insert jid ?c0 ?m, xm_memories := hm_insert jid (new_memory jid) (xm_memories (sch_cm sch))\<rparr>"
  have create: "create_job_for_user jid now vision user_id title description (sch_cm sch) = (Inr jid, ?xm)"
    using assms(4) by (simp add: create_job_for_user_def insert_context_def job_with_user_def)
  have pending: "jc_state (?g ?c0) = JPending" by (simp add: apply_limits_tokens job_with_user_def)
  have "hm_modify jid ?g (hm_insert jid ?c0 ?m) = hm_insert jid (?g ?c0) ?m"
    using hm_insert_new [OF assms(3)] hm_modify_absent [OF assms(3)] by (simp add: hm_modify_def)
  moreover have "blocking (hm_insert jid (?g ?c0) ?m) = Suc (blocking ?m)"
    using assms(3) pending by (intro blocking_insert_fresh) simp_all
  ultimately show ?thesis
    using assms(1,2,5) create pending
    by (simp add: dispatch_job_inner_def update_context_and_get_def schedule_with_context_def parallel_count_blocking Let_def)
qed

definition full_scheduler :: scheduler where
  "full_scheduler = small_scheduler\<lparr>sch_config := \<lparr>sc_max_parallel_jobs = 0, sc_max_tokens_per_job = 0\<rparr>\<rparr>"

lemma refused_dispatch_keeps_slot_witness:
  "\<exists>sch' c. dispatch_job_inner (\<lambda>_. Inr ()) 7 2 None ''u'' ''t'' ''d'' None full_scheduler = (Inl (SeJob (MaxJobsExceeded 0)), sch') \<and>
    hm_get (xm_contexts (sch_cm sch')) 7 = Some c \<and> jc_state c = JPending \<and> parallel_count (sch_cm sch') = 1"
  using refused_dispatch_keeps_slot [of full_scheduler 7 "\<lambda>_. Inr ()" 2 None "''u''" "''t''" "''d''" None]
  by (simp add: full_scheduler_def small_scheduler_def new_context_manager_def parallel_count_def)

text \<open>
  Stopping a job races with its worker: a worker that sees the stop in the moment it is given marks the job
  completed, the cancellation then fails and is only logged, the caller is told that the job was stopped, and
  the row written last says that it was cancelled.
\<close>

lemma stop_reports_success:
  assumes "hm_get (sch_jobs sch) (wv_job wv) = Some j" "sj_inbox j = [WmStart]" "wk_inbox s = []"
    "wv_plan wv = None" "wv_others wv = (\<lambda>_ xm. xm)"
    "get_context (wv_job wv) (sch_cm sch) = Inr c" "jc_state c = JInProgress"
    "0 < job_max_iterations wv (s\<lparr>wk_cm := sch_cm sch, wk_inbox := [[WmStop]]\<rparr>)"
  shows "\<exists>sch' c'. scheduler_stop now (\<lambda>inbox xm. wk_cm (snd (worker_run wv (Some (hd inbox)) (s\<lparr>wk_cm := xm, wk_inbox := [tl inbox]\<rparr>))))
      (wv_job wv) sch = (Inr (), sch') \<and>
    get_context (wv_job wv) (sch_cm sch') = Inr c' \<and> jc_state c' = JCompleted \<and> last (sch_rows sch') = (wv_job wv, JCancelled)"
proof -
  let ?s = "s\<lparr>wk_cm := sch_cm sch, wk_inbox := [[WmStop]]\<rparr>"
  obtain s' c' where run: "worker_run wv (Some WmStart) ?s = (Inr (), s')"
    and c': "get_context (wv_job wv) (wk_cm s') = Inr c'" "jc_state c' = JCompleted"
    using stopped_run_completes_job [of ?s "[WmStop]" "[]" wv c] assms(4-8) by auto
  have started: "stop_begin (wv_job wv) sch = (Some [WmStart, WmStop], sch\<lparr>sch_jobs := hm_remove (wv_job wv) (sch_jobs sch)\<rparr>)"
    using assms(1,2) by (simp add: stop_begin_def)
  have "hm_get (xm_contexts (wk_cm s')) (wv_job wv) = Some c'"
    using c'(1) by (simp add: get_context_def split: option.splits)
  with c'(2) run started show ?thesis
    by (simp add: scheduler_stop_def stop_end_def update_context_def job_transition_to_def job_can_transition_def get_context_def)
qed

lemma stop_reports_success_witness:
  "\<exists>sch' c'. scheduler_stop 9 (\<lambda>inbox xm. wk_cm (snd (worker_run quiet_worker (Some (hd inbox)) (started_worker\<lparr>wk_cm := xm, wk_inbox := [tl inbox]\<rparr>))))
      7 (small_scheduler\<lparr>sch_cm := started_jobs, sch_jobs := [(7, \<lparr>sj_inbox = [WmStart], sj_finished = False\<rparr>)]\<rparr>) = (Inr (), sch') \<and>
    get_context 7 (sch_cm sch') = Inr c' \<and> jc_state c' = JCompleted \<and> last (sch_rows sch') = (7, JCancelled)"
proof -
  obtain c where c: "get_context 7 started_jobs = Inr c" "jc_state c = JInProgress" "jc_metadata c = JNull"
    using started_get by (simp add: job_with_user_def)
  then have "0 < job_max_iterations quiet_worker (started_worker\<lparr>wk_cm := started_jobs, wk_inbox := [[WmStop]]\<rparr>)"
    by (simp add: job_max_iterations_def quiet_worker_def json_get_def)
  with c stop_reports_success [of "small_scheduler\<lparr>sch_cm := started_jobs, sch_jobs := [(7, \<lparr>sj_inbox = [WmStart], sj_finished = False\<rparr>)]\<rparr>"
      quiet_worker _ started_worker c 9]
  show ?thesis by (simp add: quiet_worker_def started_worker_def)
qed

end
