(* ===== verification/Container_Worker.thy ===== *)
theory Container_Worker
  imports Job_Worker Thread_Ops
begin

text \<open>
  The runtime of a job inside a container (\<open>src/worker/container.rs\<close>): its client of the agentic loop and
  the report it sends to the orchestrator. Events for the web interface are not modelled; a poll for a prompt
  that fails is one without a prompt.
\<close>

section \<open>State\<close>

record container_env =
  cv_worker :: worker_env
  cv_prompts :: "nat \<Rightarrow> string option"
  cv_max_iterations :: u32

record container_state =
  cn_last_output :: string
  cn_iteration :: u32
  cn_text_only :: u32
  cn_all_failed :: u32
  cn_calls :: nat
  cn_runs :: nat

definition new_container_state :: container_state where
  "new_container_state =
     \<lparr>cn_last_output = [], cn_iteration = 0, cn_text_only = 0, cn_all_failed = 0, cn_calls = 0, cn_runs = 0\<rparr>"

definition chatter_phrases :: "string list" where
  "chatter_phrases =
     [''<suggestions'', ''<suggestion>'', ''would you like me to'', ''shall i '', ''let me know if'',
      ''here are some suggestions'', ''what would you like to do next'']"

definition is_post_work_chatter :: "string \<Rightarrow> bool" where
  "is_post_work_chatter t = list_ex (contains_str (to_lowercase t)) chatter_phrases"

section \<open>The client of the loop\<close>

definition container_before_llm_call ::
    "container_env \<Rightarrow> nat \<Rightarrow> reasoning_context \<Rightarrow> container_state \<Rightarrow>
     loop_outcome option \<times> reasoning_context \<times> container_state" where
  "container_before_llm_call cv i ctx s =
     (let ctx1 = (case cv_prompts cv i of Some p \<Rightarrow> push_message (chat_user p) ctx | None \<Rightarrow> ctx)
      in (None, ctx1\<lparr>rc_available_tools := wv_tool_defs (cv_worker cv) i\<rparr>, s\<lparr>cn_iteration := of_nat i\<rparr>))"

definition container_call_llm ::
    "container_env \<Rightarrow> nat \<Rightarrow> reasoning_context \<Rightarrow> container_state \<Rightarrow>
     (llm_error + respond_output) \<times> reasoning_context \<times> container_state" where
  "container_call_llm cv i ctx s =
     (respond_with_tools (wv_reasoning (cv_worker cv) (cn_calls s)) ctx, ctx, s\<lparr>cn_calls := Suc (cn_calls s)\<rparr>)"

definition container_handle_text ::
    "string \<Rightarrow> reasoning_context \<Rightarrow> container_state \<Rightarrow> text_action \<times> reasoning_context \<times> container_state" where
  "container_handle_text t ctx s =
     (let s1 = s\<lparr>cn_text_only := cn_text_only s + 1\<rparr>
      in if llm_signals_completion t \<or> is_post_work_chatter t \<or> cn_text_only s1 \<ge> 3
         then (ActReturn (LoopResponse (if cn_last_output s1 = [] then t else cn_last_output s1)), ctx, s1)
         else (ActContinue, push_message (chat_assistant t) ctx, s1))"

text \<open>The calls one after the other: whether one succeeded, the last error, the messages.\<close>

fun container_calls ::
    "worker_env \<Rightarrow> tool_call list \<Rightarrow> bool \<times> string \<Rightarrow> reasoning_context \<Rightarrow> container_state \<Rightarrow>
     (bool \<times> string) \<times> reasoning_context \<times> container_state" where
  "container_calls wv [] acc ctx s = (acc, ctx, s)"
| "container_calls wv (tc # tcs) acc ctx s =
     (let r = execute_tool_with_safety wv (cn_runs s) (tcall_name tc) (tcall_arguments tc);
          s1 = s\<lparr>cn_runs := Suc (cn_runs s)\<rparr>;
          ctx1 = push_message (snd (process_tool_result wv (tcall_name tc) (tcall_id tc) r)) ctx
      in case r of
           Inr output \<Rightarrow> container_calls wv tcs (True, snd acc) ctx1 (s1\<lparr>cn_last_output := output\<rparr>)
         | Inl e \<Rightarrow> container_calls wv tcs (fst acc, wv_show wv e) ctx1 s1)"

definition failed_job_message :: "string \<Rightarrow> string" where
  "failed_job_message err = ''Job failed: tool calls failed 3 consecutive times. Last error: '' @ err"

definition container_execute_tools ::
    "container_env \<Rightarrow> tool_call list \<Rightarrow> string option \<Rightarrow> reasoning_context \<Rightarrow> container_state \<Rightarrow>
     (llm_error + loop_outcome option) \<times> reasoning_context \<times> container_state" where
  "container_execute_tools cv tcs content ctx s =
     (let ((any_succeeded, last_error), ctx1, s1) = container_calls (cv_worker cv) tcs (False, [])
            (push_message (chat_assistant_with_tool_calls content tcs) ctx) (s\<lparr>cn_text_only := 0\<rparr>)
      in if any_succeeded then (Inr None, ctx1, s1\<lparr>cn_all_failed := 0\<rparr>)
         else let s2 = s1\<lparr>cn_all_failed := cn_all_failed s1 + 1\<rparr>
              in if cn_all_failed s2 \<ge> 3 then (Inr (Some (LoopResponse (failed_job_message last_error))), ctx1, s2)
                 else (Inr None, ctx1, s2))"

definition container_delegate :: "container_env \<Rightarrow> (container_state, llm_error) loop_delegate" where
  "container_delegate cv =
     \<lparr>dg_check_signals = (\<lambda>s. (SigContinue, s)), dg_before_llm_call = container_before_llm_call cv,
      dg_call_llm = container_call_llm cv, dg_handle_text = container_handle_text,
      dg_execute_tools = container_execute_tools cv, dg_on_nudge = (\<lambda>_ ctx s. (ctx, s)), dg_after_iteration = (\<lambda>_ s. s)\<rparr>"

section \<open>The report\<close>

record completion_report =
  cr_success :: bool
  cr_message :: string
  cr_iterations :: u32

text \<open>The result of the loop, \<open>None\<close> when the time is up.\<close>

definition container_report ::
    "container_env \<Rightarrow> (llm_error + loop_outcome) option \<Rightarrow> u32 \<Rightarrow> completion_report" where
  "container_report cv r iterations =
     (case r of
        Some (Inr (LoopResponse output)) \<Rightarrow> \<lparr>cr_success = True, cr_message = output, cr_iterations = iterations\<rparr>
      | Some (Inr LoopMaxIterations) \<Rightarrow>
          \<lparr>cr_success = False, cr_message = ''Execution failed: max iterations ('' @ show_nat (unat (cv_max_iterations cv)) @ '') exceeded'',
           cr_iterations = iterations\<rparr>
      | Some (Inr LoopStopped) \<Rightarrow> \<lparr>cr_success = False, cr_message = ''Execution stopped'', cr_iterations = iterations\<rparr>
      | Some (Inr (LoopNeedApproval _)) \<Rightarrow> \<lparr>cr_success = False, cr_message = ''Awaiting approval'', cr_iterations = iterations\<rparr>
      | Some (Inl e) \<Rightarrow>
          \<lparr>cr_success = False, cr_message = ''Execution failed: '' @ wv_show (cv_worker cv) (HeLlm e), cr_iterations = iterations\<rparr>
      | None \<Rightarrow> \<lparr>cr_success = False, cr_message = ''Execution timed out'', cr_iterations = iterations\<rparr>)"

definition container_system_message :: "string \<Rightarrow> string \<Rightarrow> string" where
  "container_system_message title description =
     ''You are an autonomous agent running inside a Docker container.'' @ [CHR 10, CHR 10] @ ''Job: '' @ title @ [CHR 10]
     @ ''Description: '' @ description @ [CHR 10, CHR 10]
     @ ''You have tools for shell commands, file operations, and code editing.'' @ [CHR 10]
     @ ''Work independently to complete this job. Report when done.''"

text \<open>A run that is not cut off by the clock.\<close>

definition container_run :: "container_env \<Rightarrow> string \<Rightarrow> string \<Rightarrow> completion_report" where
  "container_run cv title description =
     (let cfg = \<lparr>alc_max_iterations = unat (cv_max_iterations cv), alc_enable_tool_intent_nudge = True, alc_max_tool_intent_nudges = 2\<rparr>;
          ctx = \<lparr>rc_messages = [chat_system (container_system_message title description)],
            rc_available_tools = wv_tool_defs (cv_worker cv) 0, rc_force_text = False, rc_system_prompt = None\<rparr>;
          (r, _, s) = run_agentic_loop cfg (container_delegate cv) ctx new_container_state
      in container_report cv (Some r) (cn_iteration s))"

section \<open>Lemmas\<close>

lemma container_calls_fail:
  "\<forall>tc \<in> set tcs. \<forall>k. isl (execute_tool_with_safety wv k (tcall_name tc) (tcall_arguments tc)) \<Longrightarrow>
     fst (fst (container_calls wv tcs acc ctx s)) = fst acc \<and>
     cn_all_failed (snd (snd (container_calls wv tcs acc ctx s))) = cn_all_failed s \<and>
     cn_last_output (snd (snd (container_calls wv tcs acc ctx s))) = cn_last_output s"
proof (induction tcs arbitrary: acc ctx s)
  case (Cons tc tcs)
  then have "isl (execute_tool_with_safety wv (cn_runs s) (tcall_name tc) (tcall_arguments tc))" by simp
  then obtain e where "execute_tool_with_safety wv (cn_runs s) (tcall_name tc) (tcall_arguments tc) = Inl e" by (auto simp: isl_def)
  with Cons show ?case by (simp add: Let_def)
qed simp

section \<open>Properties\<close>

text \<open>
  A container that gives up because its calls failed three times in a row reports a success: the loop returns
  the message about the failure as its response, and every response is reported as a completed job.
\<close>

lemma failed_calls_reported_as_success:
  assumes "\<forall>tc \<in> set tcs. \<forall>k. isl (execute_tool_with_safety (cv_worker cv) k (tcall_name tc) (tcall_arguments tc))"
    "cn_all_failed s = 2"
  shows "\<exists>err ctx' s'. container_execute_tools cv tcs content ctx s = (Inr (Some (LoopResponse (failed_job_message err))), ctx', s') \<and>
    cr_success (container_report cv (Some (Inr (LoopResponse (failed_job_message err)))) n)"
proof -
  let ?ctx = "push_message (chat_assistant_with_tool_calls content tcs) ctx" and ?s = "s\<lparr>cn_text_only := 0\<rparr>"
  obtain ok err ctx1 s1 where run: "container_calls (cv_worker cv) tcs (False, []) ?ctx ?s = ((ok, err), ctx1, s1)"
    by (metis prod.collapse)
  with container_calls_fail [OF assms(1), of "(False, [])" ?ctx ?s] assms(2) have "\<not> ok" "cn_all_failed s1 = 2" by simp_all
  with run show ?thesis by (auto simp: container_execute_tools_def container_report_def)
qed

definition bare_worker :: worker_env where
  "bare_worker =
     \<lparr>wv_job = 7, wv_tools = [], wv_tool_defs = (\<lambda>_. []), wv_approval = None, wv_hook = (\<lambda>_ _ _. HookContinue),
      wv_parse = (\<lambda>_. None), wv_invalid = (\<lambda>_. None), wv_run = (\<lambda>_. RunTimeout), wv_pretty = (\<lambda>_. []),
      wv_to_str = (\<lambda>_. []), wv_sanitize = (\<lambda>_ x. x), wv_wrap = (\<lambda>_ x. x), wv_show = (\<lambda>_. ''not found''),
      wv_fallback_json = (\<lambda>_. JNull), wv_reasoning = (\<lambda>_. talking_model []), wv_plan = None,
      wv_now = (\<lambda>n. int n), wv_rl_clock = (\<lambda>_ _. 0), wv_fresh = (\<lambda>n. n), wv_order = (\<lambda>_. []),
      wv_others = (\<lambda>_ xm. xm)\<rparr>"

lemma failed_calls_reported_as_success_witness:
  "\<exists>err ctx' s'. container_execute_tools \<lparr>cv_worker = bare_worker, cv_prompts = (\<lambda>_. None), cv_max_iterations = 50\<rparr>
      [sample_call ''gone''] None one_tool (new_container_state\<lparr>cn_all_failed := 2\<rparr>)
      = (Inr (Some (LoopResponse (failed_job_message err))), ctx', s') \<and>
    cr_success (container_report \<lparr>cv_worker = bare_worker, cv_prompts = (\<lambda>_. None), cv_max_iterations = 50\<rparr>
      (Some (Inr (LoopResponse (failed_job_message err)))) 4)"
  by (rule failed_calls_reported_as_success) (simp_all add: execute_tool_with_safety_def bare_worker_def sample_call_def)

end
