(* ===== verification/Outbound_Hosts.thy ===== *)
theory Outbound_Hosts
  imports Text_Ops
begin

text \<open>
  Where requests to the network may go: the patterns of hosts (\<open>src/tools/wasm/capabilities.rs\<close>,
  \<open>src/secrets/types.rs\<close>, \<open>src/tools/wasm/credential_injector.rs\<close>, \<open>src/sandbox/proxy/allowlist.rs\<close>),
  and the validator of the requests of WASM tools (\<open>src/tools/wasm/allowlist.rs\<close>). The parser of URLs and
  the decoder of percent escapes are libraries and are arguments.
\<close>

section \<open>Texts\<close>

definition strip_suffix :: "string \<Rightarrow> string \<Rightarrow> string option" where
  "strip_suffix s p = (if ends_with s p then Some (take (length s - length p) s) else None)"

text \<open>
  The capital of a small letter; the sharp s has two letters. The two letters below 256 whose capital
  lies above stand for it, since no other letter has it.
\<close>

definition upper_chars :: "char \<Rightarrow> string" where
  "upper_chars c =
     (let n = (of_char c :: nat)
      in if n = 223 then ''SS''
         else if 97 \<le> n \<and> n \<le> 122 \<or> 224 \<le> n \<and> n \<le> 254 \<and> n \<noteq> 247 then [char_of (n - 32)] else [c])"

definition to_uppercase :: "string \<Rightarrow> string" where
  "to_uppercase s = concat (map upper_chars s)"

text \<open>The tests \<open>ends_with('.')\<close> and \<open>ends_with('/')\<close>.\<close>

definition ends_with_char :: "string \<Rightarrow> char \<Rightarrow> bool" where
  "ends_with_char s c \<longleftrightarrow> s \<noteq> [] \<and> last s = c"

section \<open>Patterns of hosts\<close>

text \<open>The test that three of the matchers share: a suffix, and a dot before it.\<close>

definition below_suffix :: "string \<Rightarrow> string \<Rightarrow> bool" where
  "below_suffix host suffix \<longleftrightarrow>
     ends_with host suffix \<and> length suffix < length host \<and>
     (let prefix = take (length host - length suffix) host in ends_with_char prefix (CHR ''.'') \<or> prefix = [])"

record endpoint_pattern =
  ep_host :: string
  ep_path_prefix :: "string option"
  ep_methods :: "string list"

definition endpoint_host_matches :: "endpoint_pattern \<Rightarrow> string \<Rightarrow> bool" where
  "endpoint_host_matches p host \<longleftrightarrow>
     ep_host p = ''*'' \<or> ep_host p = host \<or>
     (case strip_prefix (ep_host p) ''*.'' of Some suffix \<Rightarrow> below_suffix host suffix | None \<Rightarrow> False)"

definition endpoint_matches :: "endpoint_pattern \<Rightarrow> string \<Rightarrow> string \<Rightarrow> string \<Rightarrow> bool" where
  "endpoint_matches p host path method =
     (if \<not> endpoint_host_matches p host then False
      else if (case ep_path_prefix p of Some prefix \<Rightarrow> \<not> starts_with path prefix | None \<Rightarrow> False) then False
      else if ep_methods p \<noteq> [] \<and> \<not> list_ex (\<lambda>m. to_uppercase m = to_uppercase method) (ep_methods p) then False
      else True)"

text \<open>The matcher of the injector of credentials, and the one of the secrets.\<close>

definition injector_host_matches :: "string \<Rightarrow> string \<Rightarrow> bool" where
  "injector_host_matches host pattern =
     (if pattern = ''*'' then True
      else if pattern = host then True
      else case strip_prefix pattern ''*.'' of Some suffix \<Rightarrow> below_suffix host suffix | None \<Rightarrow> False)"

definition secret_host_matches :: "string \<Rightarrow> string \<Rightarrow> bool" where
  "secret_host_matches host pattern =
     (let pattern_lower = to_lowercase pattern
      in if pattern_lower = host then True
         else case strip_prefix pattern_lower ''*.'' of Some suffix \<Rightarrow> below_suffix host suffix | None \<Rightarrow> False)"

text \<open>The patterns of the sandbox.\<close>

record domain_pattern =
  dp_pattern :: string
  dp_is_wildcard :: bool
  dp_base_domain :: string

definition new_domain_pattern :: "string \<Rightarrow> domain_pattern" where
  "new_domain_pattern pattern =
     (let is_wildcard = starts_with pattern ''*.''
      in \<lparr>dp_pattern = pattern, dp_is_wildcard = is_wildcard,
          dp_base_domain = to_lowercase (if is_wildcard then drop 2 pattern else pattern)\<rparr>)"

definition domain_matches :: "domain_pattern \<Rightarrow> string \<Rightarrow> bool" where
  "domain_matches p host =
     (let host_lower = to_lowercase host
      in if dp_is_wildcard p
         then host_lower = dp_base_domain p \<or> ends_with host_lower (''.'' @ dp_base_domain p)
         else host_lower = dp_base_domain p)"

type_synonym domain_allowlist = "domain_pattern list"

text \<open>\<open>None\<close> is an allowed domain, otherwise the reason of the refusal.\<close>

definition domain_denied :: "domain_allowlist \<Rightarrow> string \<Rightarrow> string option" where
  "domain_denied patterns host =
     (if patterns = [] then Some ''empty allowlist''
      else if list_ex (\<lambda>p. domain_matches p host) patterns then None
      else Some (''host '' @ [CHR 0x27] @ host @ [CHR 0x27] @ '' not in allowlist: ['' @
        join_with '', '' (map dp_pattern patterns) @ '']''))"

definition new_domain_allowlist :: "string list \<Rightarrow> domain_allowlist" where
  "new_domain_allowlist domains = map new_domain_pattern domains"

section \<open>URLs\<close>

text \<open>What the parser of URLs gives; \<open>up_host\<close> is absent for a URL without a host.\<close>

record url_parts =
  up_scheme :: string
  up_username :: string
  up_password :: "string option"
  up_host :: "string option"
  up_path :: string

definition strip_brackets :: "string \<Rightarrow> string" where
  "strip_brackets h =
     (case Option.bind (strip_prefix h ''['') (\<lambda>r. strip_suffix r '']'') of Some r \<Rightarrow> r | None \<Rightarrow> h)"

definition extract_host :: "(string \<Rightarrow> string + url_parts) \<Rightarrow> string \<Rightarrow> string option" where
  "extract_host parse url =
     (case parse url of
        Inl _ \<Rightarrow> None
      | Inr u \<Rightarrow>
          if up_scheme u \<noteq> ''http'' \<and> up_scheme u \<noteq> ''https'' then None
          else map_option (\<lambda>h. to_lowercase (strip_brackets h)) (up_host u))"

definition is_hexdigit :: "char \<Rightarrow> bool" where
  "is_hexdigit c =
     (let n = (of_char c :: nat) in 48 \<le> n \<and> n \<le> 57 \<or> 65 \<le> n \<and> n \<le> 70 \<or> 97 \<le> n \<and> n \<le> 102)"

text \<open>The code looks at bytes; the two bytes of a scalar above 127 are no hexadecimal digits.\<close>

fun has_valid_percent_encoding :: "string \<Rightarrow> bool" where
  "has_valid_percent_encoding [] = True"
| "has_valid_percent_encoding (c # r) =
     (if c = CHR ''%''
      then (case r of
          a # b # r' \<Rightarrow> is_hexdigit a \<and> is_hexdigit b \<and> has_valid_percent_encoding r'
        | _ \<Rightarrow> False)
      else has_valid_percent_encoding r)"

definition is_slash :: "char \<Rightarrow> bool" where
  "is_slash c \<longleftrightarrow> c = CHR ''/''"

fun normalize_segments :: "(string \<Rightarrow> string option) \<Rightarrow> string list \<Rightarrow> string list \<Rightarrow> string + string list" where
  "normalize_segments decode [] segments = Inr segments"
| "normalize_segments decode (raw # rest) segments =
     (if \<not> has_valid_percent_encoding raw
      then Inl (''Invalid percent-encoding in path segment: '' @ raw)
      else case decode raw of
        None \<Rightarrow> Inl (''Invalid percent-encoding in path segment: '' @ raw)
      | Some segment \<Rightarrow>
          if CHR ''/'' \<in> set segment \<or> CHR 0x5C \<in> set segment
          then Inl ''Path segment contains encoded path separator''
          else if segment = '''' \<or> segment = ''.'' then normalize_segments decode rest segments
          else if segment = ''..'' then normalize_segments decode rest (butlast segments)
          else normalize_segments decode rest (segments @ [segment]))"

definition normalize_path :: "(string \<Rightarrow> string option) \<Rightarrow> string \<Rightarrow> string + string" where
  "normalize_path decode path =
     (case normalize_segments decode (split_at_chars is_slash path) [] of
        Inl e \<Rightarrow> Inl e
      | Inr segments \<Rightarrow>
          let result = ''/'' @ join_with ''/'' segments
          in Inr (if byte_len path > 1 \<and> ends_with_char path (CHR ''/'') \<and> \<not> ends_with_char result (CHR ''/'')
                  then result @ ''/'' else result))"

record parsed_url =
  pu_scheme :: string
  pu_host :: string
  pu_path :: string

definition parse_request_url ::
    "(string \<Rightarrow> string + url_parts) \<Rightarrow> (string \<Rightarrow> string option) \<Rightarrow> string \<Rightarrow> string + parsed_url" where
  "parse_request_url parse decode url =
     (case parse url of
        Inl e \<Rightarrow> Inl (''URL parse failed: '' @ e)
      | Inr u \<Rightarrow>
          let scheme = to_lowercase (up_scheme u)
          in if scheme \<noteq> ''http'' \<and> scheme \<noteq> ''https'' then Inl (''Unsupported scheme: '' @ scheme)
             else if up_username u \<noteq> [] \<or> up_password u \<noteq> None
             then Inl ''URL contains userinfo (@) which is not allowed''
             else case up_host u of
               None \<Rightarrow> Inl ''Empty host''
             | Some h \<Rightarrow>
                 (case normalize_path decode (up_path u) of
                    Inl e \<Rightarrow> Inl e
                  | Inr path \<Rightarrow> Inr \<lparr>pu_scheme = scheme, pu_host = to_lowercase (strip_brackets h), pu_path = path\<rparr>))"

section \<open>The validator of requests\<close>

datatype deny_reason =
    DrInvalidUrl string
  | DrHostNotAllowed string
  | DrPathNotAllowed string string
  | DrMethodNotAllowed string string
  | DrEmptyAllowlist
  | DrInsecureScheme string

datatype allowlist_result = AlAllowed | AlDenied deny_reason

record allowlist_validator =
  av_patterns :: "endpoint_pattern list"
  av_require_https :: bool

definition new_validator :: "endpoint_pattern list \<Rightarrow> allowlist_validator" where
  "new_validator patterns = \<lparr>av_patterns = patterns, av_require_https = True\<rparr>"

definition allow_http :: "allowlist_validator \<Rightarrow> allowlist_validator" where
  "allow_http av = av\<lparr>av_require_https := False\<rparr>"

definition validate_url ::
    "(string \<Rightarrow> string + url_parts) \<Rightarrow> (string \<Rightarrow> string option) \<Rightarrow> allowlist_validator \<Rightarrow> string \<Rightarrow> string \<Rightarrow>
     allowlist_result" where
  "validate_url parse decode av url method =
     (if av_patterns av = [] then AlDenied DrEmptyAllowlist
      else case parse_request_url parse decode url of
        Inl e \<Rightarrow> AlDenied (DrInvalidUrl e)
      | Inr u \<Rightarrow>
          if av_require_https av \<and> pu_scheme u \<noteq> ''https'' then AlDenied (DrInsecureScheme (pu_scheme u))
          else if list_ex (\<lambda>p. endpoint_matches p (pu_host u) (pu_path u) method) (av_patterns av) then AlAllowed
          else let host_matches = filter (\<lambda>p. endpoint_host_matches p (pu_host u)) (av_patterns av)
               in if host_matches = [] then AlDenied (DrHostNotAllowed (pu_host u))
                  else if filter (\<lambda>p. case ep_path_prefix p of None \<Rightarrow> True
                         | Some prefix \<Rightarrow> starts_with (pu_path u) prefix) host_matches = []
                  then AlDenied (DrPathNotAllowed (pu_host u) (pu_path u))
                  else AlDenied (DrMethodNotAllowed method (pu_host u)))"

definition host_allowed :: "allowlist_validator \<Rightarrow> string \<Rightarrow> bool" where
  "host_allowed av host = list_ex (\<lambda>p. endpoint_host_matches p host) (av_patterns av)"

section \<open>Lemmas on hosts\<close>

text \<open>A host below a base domain: any labels, a dot and the base domain.\<close>

definition subdomain :: "string \<Rightarrow> string \<Rightarrow> bool" where
  "subdomain host base \<longleftrightarrow> (\<exists>labels. host = labels @ ''.'' @ base)"

lemma below_suffix_iff: "below_suffix host suffix \<longleftrightarrow> subdomain host suffix"
proof
  assume a: "below_suffix host suffix"
  then obtain r where r: "host = r @ suffix" by (auto simp: below_suffix_def ends_with_iff)
  with a have "r \<noteq> []" "last r = CHR ''.''" by (auto simp: below_suffix_def ends_with_char_def Let_def)
  then have "r = butlast r @ ''.''" by (metis append_butlast_last_id)
  with r have "host = butlast r @ ''.'' @ suffix" by (metis append_assoc)
  then show "subdomain host suffix" unfolding subdomain_def by blast
next
  assume "subdomain host suffix"
  then obtain l where "host = l @ ''.'' @ suffix" by (auto simp: subdomain_def)
  then show "below_suffix host suffix"
    by (auto simp: below_suffix_def ends_with_iff ends_with_char_def Let_def intro: exI [of _ "l @ ''.''"])
qed

lemma ends_with_dot_iff: "ends_with host (''.'' @ base) \<longleftrightarrow> subdomain host base"
  by (simp add: ends_with_iff subdomain_def)

lemma strip_wildcard: "strip_prefix p ''*.'' = Some r \<longleftrightarrow> p = ''*.'' @ r"
  by (auto simp: strip_prefix_def starts_with_iff split: if_splits)

lemma no_wildcard: "strip_prefix p ''*.'' = None \<Longrightarrow> p \<noteq> ''*.'' @ base"
  using strip_wildcard [of p base] by simp

lemma wildcard_case:
  "(case strip_prefix p ''*.'' of Some base \<Rightarrow> Q base | None \<Rightarrow> False) \<longleftrightarrow> (\<exists>base. p = ''*.'' @ base \<and> Q base)"
proof (cases "strip_prefix p ''*.''")
  case None
  with no_wildcard [OF this] show ?thesis by simp
next
  case (Some b)
  then have "p = ''*.'' @ b" by (simp add: strip_wildcard)
  with Some show ?thesis by simp
qed

lemma lower_star [simp]: "lower_char c = CHR ''*'' \<longleftrightarrow> c = CHR ''*''"
  by (rule lower_char_fixed) simp

lemma lower_dot [simp]: "lower_char c = CHR ''.'' \<longleftrightarrow> c = CHR ''.''"
  by (rule lower_char_fixed) simp

lemma lower_wildcard: "strip_prefix (to_lowercase p) ''*.'' = map_option to_lowercase (strip_prefix p ''*.'')"
proof -
  have "starts_with (to_lowercase p) ''*.'' = starts_with p ''*.''"
    by (cases p; cases "tl p") (simp_all add: to_lowercase_def starts_with_simps)
  then show ?thesis by (simp add: strip_prefix_def to_lowercase_def drop_map)
qed

text \<open>What each of the four matchers means.\<close>

lemma endpoint_host_iff:
  "endpoint_host_matches p host \<longleftrightarrow>
     ep_host p = ''*'' \<or> ep_host p = host \<or> (\<exists>base. ep_host p = ''*.'' @ base \<and> subdomain host base)"
  unfolding endpoint_host_matches_def below_suffix_iff wildcard_case by blast

lemma injector_host_iff:
  "injector_host_matches host pattern \<longleftrightarrow>
     pattern = ''*'' \<or> pattern = host \<or> (\<exists>base. pattern = ''*.'' @ base \<and> subdomain host base)"
  unfolding injector_host_matches_def below_suffix_iff wildcard_case by auto

lemma secret_host_iff:
  "secret_host_matches host pattern \<longleftrightarrow>
     to_lowercase pattern = host \<or> (\<exists>base. pattern = ''*.'' @ base \<and> subdomain host (to_lowercase base))"
proof (cases "strip_prefix pattern ''*.''")
  case None
  with no_wildcard [OF this] show ?thesis by (simp add: secret_host_matches_def lower_wildcard)
next
  case (Some b)
  then have "pattern = ''*.'' @ b" by (simp add: strip_wildcard)
  with Some show ?thesis by (auto simp: secret_host_matches_def lower_wildcard below_suffix_iff)
qed

lemma domain_matches_iff:
  "domain_matches (new_domain_pattern pattern) host \<longleftrightarrow>
     (case strip_prefix pattern ''*.'' of
        Some base \<Rightarrow> to_lowercase host = to_lowercase base \<or> subdomain (to_lowercase host) (to_lowercase base)
      | None \<Rightarrow> to_lowercase host = to_lowercase pattern)"
  by (auto simp add: domain_matches_def new_domain_pattern_def strip_prefix_def ends_with_dot_iff Let_def numeral_2_eq_2
      simp del: append_Cons append_Nil)

text \<open>
  The four matchers of hosts agree where they overlap: the validator of WASM requests and the injector
  decide the same on every pattern and host; on a host in small letters the matcher of the secrets and the
  sandbox are the injector's on the pattern in small letters, except that a single star matches any host for
  the first two only, and that the sandbox lets a wildcard match its base domain too.
\<close>

lemma host_matchers_agree:
  assumes "to_lowercase host = host" "pattern \<noteq> ''*''"
  shows "endpoint_host_matches \<lparr>ep_host = pattern, ep_path_prefix = pre, ep_methods = ms\<rparr> host
      = injector_host_matches host pattern \<and>
    secret_host_matches host pattern = injector_host_matches host (to_lowercase pattern) \<and>
    domain_matches (new_domain_pattern pattern) host
      = (secret_host_matches host pattern \<or> ''*.'' @ host = to_lowercase pattern)"
proof -
  have star: "to_lowercase pattern \<noteq> ''*''" using assms(2) by (auto simp: to_lowercase_def map_eq_Cons_conv)
  have secret: "secret_host_matches host pattern = injector_host_matches host (to_lowercase pattern)"
    using star by (simp add: secret_host_matches_def injector_host_matches_def Let_def)
  have same: "endpoint_host_matches \<lparr>ep_host = pattern, ep_path_prefix = pre, ep_methods = ms\<rparr> host
      = injector_host_matches host pattern"
    by (simp add: endpoint_host_iff injector_host_iff)
  have "domain_matches (new_domain_pattern pattern) host
      = (secret_host_matches host pattern \<or> ''*.'' @ host = to_lowercase pattern)"
  proof (cases "strip_prefix pattern ''*.''")
    case None
    then have "strip_prefix (to_lowercase pattern) ''*.'' = None" by (simp add: lower_wildcard)
    from no_wildcard [OF this, of host] None show ?thesis
      using assms(1) by (auto simp: domain_matches_iff secret_host_matches_def lower_wildcard)
  next
    case (Some base)
    then have lp: "to_lowercase pattern = ''*.'' @ to_lowercase base"
      by (simp add: strip_wildcard to_lowercase_def lower_char_def)
    have "subdomain host (to_lowercase base)" if "host = ''*.'' @ to_lowercase base"
      using that by (auto simp: subdomain_def intro: exI [of _ "''*''"])
    moreover have "strip_prefix (to_lowercase pattern) ''*.'' = Some (to_lowercase base)" by (simp add: lower_wildcard Some)
    ultimately show ?thesis using Some lp assms(1)
      by (auto simp: domain_matches_iff secret_host_matches_def below_suffix_iff simp del: append_Cons append_Nil)
  qed
  with same secret show ?thesis by simp
qed

lemma host_matchers_agree_witness:
  "endpoint_host_matches \<lparr>ep_host = ''*.a.io'', ep_path_prefix = None, ep_methods = []\<rparr> ''x.a.io''
     = injector_host_matches ''x.a.io'' ''*.a.io'' \<and>
   secret_host_matches ''x.a.io'' ''*.a.io'' \<and> \<not> secret_host_matches ''a.io'' ''*.a.io'' \<and>
   domain_matches (new_domain_pattern ''*.a.io'') ''a.io''"
proof -
  have l: "to_lowercase ''x.a.io'' = ''x.a.io''" "to_lowercase ''a.io'' = ''a.io''" by (code_simp, code_simp)
  have s: "secret_host_matches ''x.a.io'' ''*.a.io''" "\<not> secret_host_matches ''a.io'' ''*.a.io''" by (code_simp, code_simp)
  have "''*.'' @ ''a.io'' = to_lowercase ''*.a.io''" by code_simp
  with s host_matchers_agree [OF l(1), of "''*.a.io''" None "[]"] host_matchers_agree [OF l(2), of "''*.a.io''" None "[]"]
  show ?thesis by simp
qed

section \<open>Lemmas on paths\<close>

definition plain_segment :: "string \<Rightarrow> bool" where
  "plain_segment s \<longleftrightarrow> s \<noteq> '''' \<and> s \<noteq> ''.'' \<and> s \<noteq> ''..'' \<and> CHR ''/'' \<notin> set s \<and> CHR 0x5C \<notin> set s"

lemma plain_segmentD: "s = '''' \<or> plain_segment s \<Longrightarrow> s \<noteq> ''..'' \<and> s \<noteq> ''.'' \<and> CHR 0x5C \<notin> set s"
  by (elim disjE) (simp_all add: plain_segment_def)

lemma normalize_segments_plain:
  "normalize_segments decode raws segs = Inr out \<Longrightarrow> \<forall>s \<in> set segs. plain_segment s \<Longrightarrow> \<forall>s \<in> set out. plain_segment s"
proof (induction decode raws segs rule: normalize_segments.induct)
  case (2 decode raw rest segs)
  obtain seg where seg: "has_valid_percent_encoding raw" "decode raw = Some seg" "\<not> (CHR ''/'' \<in> set seg \<or> CHR 0x5C \<in> set seg)"
    using "2.prems"(1) by (cases "decode raw") (auto split: if_split_asm)
  consider (skip) "seg = '''' \<or> seg = ''.''" | (up) "\<not> (seg = '''' \<or> seg = ''.'')" "seg = ''..''"
    | (push) "\<not> (seg = '''' \<or> seg = ''.'')" "seg \<noteq> ''..''" by blast
  then show ?case
  proof cases
    case skip
    with seg "2.prems" "2.IH"(1) show ?thesis by simp
  next
    case up
    moreover have "\<forall>s \<in> set (butlast segs). plain_segment s" using "2.prems"(2) by (auto dest: in_set_butlastD)
    ultimately show ?thesis using seg "2.prems"(1) "2.IH"(2) by simp
  next
    case push
    moreover from push seg(3) have "plain_segment seg" unfolding plain_segment_def by blast
    ultimately show ?thesis using seg "2.prems" "2.IH"(3) by simp
  qed
qed simp

lemma split_at_chars_append:
  "\<forall>c \<in> set s. \<not> sep c \<Longrightarrow> sep d \<Longrightarrow> split_at_chars sep (s @ d # r) = s # split_at_chars sep r"
  by (induction s) auto

lemma split_at_chars_whole: "\<forall>c \<in> set s. \<not> sep c \<Longrightarrow> split_at_chars sep s = [s]"
  by (induction s) auto

lemma split_slash:
  "CHR ''/'' \<notin> set s \<Longrightarrow> split_at_chars is_slash s = [s]"
  "CHR ''/'' \<notin> set s \<Longrightarrow> split_at_chars is_slash (s @ CHR ''/'' # r) = s # split_at_chars is_slash r"
  by (auto simp: is_slash_def intro!: split_at_chars_whole split_at_chars_append)

lemma join_with_Cons: "join_with sep (w # v # ws) = w @ sep @ join_with sep (v # ws)"
  by (simp add: join_with_def)

lemma split_join:
  assumes "\<forall>s \<in> set segs. CHR ''/'' \<notin> set s" "segs \<noteq> []"
  shows "split_at_chars is_slash (join_with ''/'' segs) = segs \<and>
    split_at_chars is_slash (join_with ''/'' segs @ ''/'') = segs @ [[]]"
  using assms
proof (induction segs rule: induct_list012)
  case (2 s)
  then show ?case
    by (simp add: join_with_def split_slash)
next
  case (3 s v segs)
  then show ?case by (simp add: join_with_Cons split_slash)
qed simp

lemma normalize_path_plain:
  assumes "normalize_path decode path = Inr p"
  shows "\<forall>s \<in> set (split_at_chars is_slash p). s = '''' \<or> plain_segment s"
proof -
  obtain segs where n: "normalize_segments decode (split_at_chars is_slash path) [] = Inr segs"
    using assms by (auto simp: normalize_path_def split: sum.splits)
  have p: "p = ''/'' @ join_with ''/'' segs \<or> p = ''/'' @ join_with ''/'' segs @ ''/'' \<and> segs \<noteq> []"
    using assms by (cases segs) (auto simp: n normalize_path_def Let_def ends_with_char_def join_with_def split: if_split_asm)
  from normalize_segments_plain [OF n] have plain: "\<forall>s \<in> set segs. plain_segment s" by simp
  then have "\<forall>s \<in> set segs. CHR ''/'' \<notin> set s" by (auto simp: plain_segment_def)
  then have s: "segs \<noteq> [] \<Longrightarrow> split_at_chars is_slash (join_with ''/'' segs) = segs"
    "segs \<noteq> [] \<Longrightarrow> split_at_chars is_slash (join_with ''/'' segs @ ''/'') = segs @ [[]]"
    using split_join [of segs] by simp_all
  have slash: "split_at_chars is_slash (''/'' @ r) = [] # split_at_chars is_slash r" for r
    by (simp add: is_slash_def)
  show ?thesis
  proof (cases "segs = []")
    case True
    with p have "p = ''/''" by (simp add: join_with_def)
    then show ?thesis by (simp add: is_slash_def)
  next
    case False
    with p s slash plain show ?thesis by auto
  qed
qed

lemma parse_request_url_Inr:
  assumes "parse_request_url parse decode url = Inr r"
  shows "\<exists>u h. parse url = Inr u \<and> up_username u = [] \<and> up_password u = None \<and> up_host u = Some h \<and>
    to_lowercase (up_scheme u) = pu_scheme r \<and> normalize_path decode (up_path u) = Inr (pu_path r) \<and>
    pu_host r = to_lowercase (strip_brackets h)"
proof -
  obtain u where u: "parse url = Inr u" using assms by (auto simp: parse_request_url_def split: sum.splits)
  obtain h where h: "up_host u = Some h"
    using assms u by (cases "up_host u") (simp_all add: parse_request_url_def Let_def split: if_split_asm)
  obtain q where q: "normalize_path decode (up_path u) = Inr q"
    using assms u h by (cases "normalize_path decode (up_path u)") (simp_all add: parse_request_url_def Let_def split: if_split_asm)
  from assms u h q have "up_username u = [] \<and> up_password u = None"
    "r = \<lparr>pu_scheme = to_lowercase (up_scheme u), pu_host = to_lowercase (strip_brackets h), pu_path = q\<rparr>"
    by (simp_all add: parse_request_url_def Let_def split: if_split_asm)
  with u h q show ?thesis by simp
qed

text \<open>
  C30. A request that the validator of WASM tools allows over HTTPS goes where an entry of the list says:
  the URL is an HTTPS URL without user or password, its host is the host of the entry or, for a
  wildcard, lies below its domain, the path begins with the prefix of the entry, and it has no segment
  that leads out of it: dots, separators and escapes are resolved before the comparison.
\<close>

theorem allowed_request_sound:
  assumes "validate_url parse decode (new_validator patterns) url method = AlAllowed"
  shows "\<exists>u h path p. parse url = Inr u \<and> to_lowercase (up_scheme u) = ''https'' \<and>
    up_username u = [] \<and> up_password u = None \<and> up_host u = Some h \<and>
    normalize_path decode (up_path u) = Inr path \<and>
    (\<forall>s \<in> set (split_at_chars is_slash path). s \<noteq> ''..'' \<and> s \<noteq> ''.'' \<and> CHR 0x5C \<notin> set s) \<and>
    p \<in> set patterns \<and>
    (ep_host p = ''*'' \<or> ep_host p = to_lowercase (strip_brackets h) \<or>
       (\<exists>base. ep_host p = ''*.'' @ base \<and> subdomain (to_lowercase (strip_brackets h)) base)) \<and>
    (\<forall>prefix. ep_path_prefix p = Some prefix \<longrightarrow> starts_with path prefix) \<and>
    (ep_methods p = [] \<or> (\<exists>m \<in> set (ep_methods p). to_uppercase m = to_uppercase method))"
proof -
  have ps: "patterns \<noteq> []" using assms by (auto simp: validate_url_def new_validator_def)
  obtain r where parsed: "parse_request_url parse decode url = Inr r"
    using assms ps by (cases "parse_request_url parse decode url") (simp_all add: validate_url_def new_validator_def)
  then have r: "pu_scheme r = ''https''" and any: "list_ex (\<lambda>p. endpoint_matches p (pu_host r) (pu_path r) method) patterns"
    using assms ps by (simp_all add: validate_url_def new_validator_def Let_def split: if_split_asm)
  from parse_request_url_Inr [OF parsed] r
  obtain u h where u: "parse url = Inr u" "up_username u = []" "up_password u = None" "up_host u = Some h"
      "to_lowercase (up_scheme u) = ''https''" "normalize_path decode (up_path u) = Inr (pu_path r)"
      "pu_host r = to_lowercase (strip_brackets h)"
    by metis
  from any obtain p where p: "p \<in> set patterns" "endpoint_matches p (pu_host r) (pu_path r) method"
    by (auto simp: list_ex_iff)
  have parts: "endpoint_host_matches p (pu_host r) \<and>
      (\<forall>prefix. ep_path_prefix p = Some prefix \<longrightarrow> starts_with (pu_path r) prefix) \<and>
      (ep_methods p = [] \<or> (\<exists>m \<in> set (ep_methods p). to_uppercase m = to_uppercase method))"
    using p(2) by (cases "ep_path_prefix p") (simp_all add: endpoint_matches_def list_ex_iff split: if_split_asm)
  have "\<forall>s \<in> set (split_at_chars is_slash (pu_path r)). s \<noteq> ''..'' \<and> s \<noteq> ''.'' \<and> CHR 0x5C \<notin> set s"
    using normalize_path_plain [OF u(6)] plain_segmentD by blast
  with u p(1) parts show ?thesis
    by (intro exI [of _ u] exI [of _ h] exI [of _ "pu_path r"] exI [of _ p]) (simp add: endpoint_host_iff)
qed

definition sample_url :: "string \<Rightarrow> string + url_parts" where
  "sample_url s = Inr \<lparr>up_scheme = ''https'', up_username = [], up_password = None, up_host = Some ''API.a.io'',
     up_path = ''/v1/x/../y/''\<rparr>"

theorem allowed_request_sound_witness:
  "\<exists>path. normalize_path Some (up_path (projr (sample_url []))) = Inr path \<and> starts_with path ''/v1'' \<and>
     ''..'' \<notin> set (split_at_chars is_slash path)"
proof -
  let ?ps = "[\<lparr>ep_host = ''*.a.io'', ep_path_prefix = Some ''/v1'', ep_methods = [''get'']\<rparr>]"
  have "validate_url sample_url Some (new_validator ?ps) [] ''GET'' = AlAllowed" by code_simp
  from allowed_request_sound [OF this] obtain u path p where "sample_url [] = Inr u" "normalize_path Some (up_path u) = Inr path"
      "\<forall>s \<in> set (split_at_chars is_slash path). s \<noteq> ''..''" "p \<in> set ?ps"
      "\<forall>prefix. ep_path_prefix p = Some prefix \<longrightarrow> starts_with path prefix" by blast
  then show ?thesis by auto
qed

text \<open>A prefix is compared as a text: it does not end at the end of a segment.\<close>

lemma prefix_crosses_segments:
  "endpoint_matches \<lparr>ep_host = ''a.io'', ep_path_prefix = Some ''/api'', ep_methods = []\<rparr> ''a.io'' ''/apiary'' ''GET''"
  by code_simp

text \<open>The host of a request is in small letters, that of an entry is taken as it is written.\<close>

lemma capital_entry_never_matches:
  assumes "to_lowercase (ep_host p) \<noteq> ep_host p" "to_lowercase host = host" "ep_host p \<noteq> ''*''"
  shows "\<not> endpoint_host_matches p host"
proof
  assume m: "endpoint_host_matches p host"
  then obtain base l where p: "ep_host p = ''*.'' @ base" and h: "host = l @ ''.'' @ base"
    using assms unfolding endpoint_host_iff subdomain_def by auto
  from assms(2) h have "to_lowercase base = base" by (auto simp: to_lowercase_def map_idI append_eq_append_conv)
  with p assms(1) show False by (simp add: to_lowercase_def lower_char_def)
qed

end
