(* ===== verification/Credential_Injection.thy ===== *)
theory Credential_Injection
  imports Outbound_Hosts
begin

text \<open>
  Secrets on their way into requests: the store of secrets (\<open>src/secrets/store.rs\<close>, in memory), the
  mappings of credentials (\<open>src/secrets/types.rs\<close>), the decisions and the forwarding of the sandbox's
  proxy (\<open>src/sandbox/proxy\<close>) and the injector of the WASM layer
  (\<open>src/tools/wasm/credential_injector.rs\<close>). Encryption, the parser of URLs and the sending of requests
  belong to libraries and are arguments.
\<close>

unbundle bit_operations_syntax

section \<open>Credentials\<close>

datatype credential_location =
    AuthorizationBearer
  | AuthorizationBasic string
  | CredHeader string "string option"
  | CredQueryParam string
  | CredUrlPath string

record credential_mapping =
  cm_secret_name :: string
  cm_location :: credential_location
  cm_host_patterns :: "string list"
  cm_path_patterns :: "string list"
  cm_optional :: bool

definition bearer_mapping :: "string \<Rightarrow> string \<Rightarrow> credential_mapping" where
  "bearer_mapping secret_name host_pattern =
     \<lparr>cm_secret_name = secret_name, cm_location = AuthorizationBearer, cm_host_patterns = [host_pattern],
      cm_path_patterns = [], cm_optional = False\<rparr>"

definition header_mapping :: "string \<Rightarrow> string \<Rightarrow> string \<Rightarrow> credential_mapping" where
  "header_mapping secret_name header_name host_pattern =
     \<lparr>cm_secret_name = secret_name, cm_location = CredHeader header_name None, cm_host_patterns = [host_pattern],
      cm_path_patterns = [], cm_optional = False\<rparr>"

definition path_has_dot_segment :: "string \<Rightarrow> bool" where
  "path_has_dot_segment path = list_ex (\<lambda>seg. seg = ''.'' \<or> seg = ''..'') (split_at_chars is_slash path)"

definition path_matches_prefix :: "string \<Rightarrow> string \<Rightarrow> bool" where
  "path_matches_prefix path prefix =
     (if path_has_dot_segment path then False
      else if path = prefix then True
      else if starts_with path prefix \<and>
        (ends_with_char prefix (CHR ''/'') \<or>
         (case drop (length prefix) path of c # _ \<Rightarrow> c = CHR ''/'' | [] \<Rightarrow> False)) then True
      else False)"

definition mapping_matches :: "credential_mapping \<Rightarrow> string \<Rightarrow> string \<Rightarrow> bool" where
  "mapping_matches m host path =
     (let host_lower = to_lowercase host
      in if \<not> list_ex (\<lambda>p. secret_host_matches host_lower p) (cm_host_patterns m) then False
         else if cm_path_patterns m = [] then True
         else list_ex (\<lambda>prefix. path_matches_prefix path prefix) (cm_path_patterns m))"

definition match_specificity :: "string list \<Rightarrow> string \<Rightarrow> nat" where
  "match_specificity path_patterns path =
     (if path_patterns = [] then 0
      else foldr max (map byte_len (filter (\<lambda>p. path_matches_prefix path p) path_patterns)) 0)"

section \<open>The policy of the proxy\<close>

record network_request =
  nr_method :: string
  nr_url :: string
  nr_host :: string
  nr_path :: string

definition network_request_from_url ::
    "(string \<Rightarrow> string + url_parts) \<Rightarrow> string \<Rightarrow> string \<Rightarrow> network_request option" where
  "network_request_from_url parse method url =
     (case parse url of
        Inl _ \<Rightarrow> None
      | Inr u \<Rightarrow>
          if up_scheme u \<noteq> ''http'' \<and> up_scheme u \<noteq> ''https'' then None
          else case up_host u of
            None \<Rightarrow> None
          | Some h \<Rightarrow> Some \<lparr>nr_method = to_uppercase method, nr_url = url,
              nr_host = to_lowercase (strip_brackets h), nr_path = up_path u\<rparr>)"

datatype network_decision =
    NdAllow
  | NdAllowWithCredentials string credential_location
  | NdDeny string

record policy_decider =
  pd_allowlist :: domain_allowlist
  pd_credential_mappings :: "credential_mapping list"

text \<open>The order of strings.\<close>

fun str_le :: "string \<Rightarrow> string \<Rightarrow> bool" where
  "str_le [] t = True"
| "str_le (c # s) [] = False"
| "str_le (c # s) (d # t) =
     (let n = (of_char c :: nat); m = (of_char d :: nat) in n < m \<or> n = m \<and> str_le s t)"

text \<open>\<open>max_by\<close>: of equal elements the last.\<close>

definition max_by :: "('a \<Rightarrow> 'a \<Rightarrow> bool) \<Rightarrow> 'a list \<Rightarrow> 'a option" where
  "max_by le xs = (case xs of [] \<Rightarrow> None | x # r \<Rightarrow> Some (foldl (\<lambda>m y. if le m y then y else m) x r))"

definition credential_le :: "string \<Rightarrow> credential_mapping \<Rightarrow> credential_mapping \<Rightarrow> bool" where
  "credential_le path a b =
     (let spec_a = match_specificity (cm_path_patterns a) path; spec_b = match_specificity (cm_path_patterns b) path
      in spec_a < spec_b \<or> spec_a = spec_b \<and> str_le (cm_secret_name a) (cm_secret_name b))"

definition find_credential :: "policy_decider \<Rightarrow> string \<Rightarrow> string \<Rightarrow> credential_mapping option" where
  "find_credential pd host path =
     max_by (credential_le path) (filter (\<lambda>m. mapping_matches m host path) (pd_credential_mappings pd))"

definition decide_default :: "policy_decider \<Rightarrow> network_request \<Rightarrow> network_decision" where
  "decide_default pd request =
     (case domain_denied (pd_allowlist pd) (nr_host request) of
        Some reason \<Rightarrow> NdDeny reason
      | None \<Rightarrow>
          (case find_credential pd (nr_host request) (nr_path request) of
             Some m \<Rightarrow> NdAllowWithCredentials (cm_secret_name m) (cm_location m)
           | None \<Rightarrow> NdAllow))"

definition decide_allow_all :: "network_request \<Rightarrow> network_decision" where
  "decide_allow_all request = NdAllow"

definition decide_deny_all :: "string \<Rightarrow> network_request \<Rightarrow> network_decision" where
  "decide_deny_all reason request = NdDeny reason"

section \<open>The proxy\<close>

text \<open>
  A request to the proxy; a value of a header is absent when it is no text. For \<open>CONNECT\<close> the target is the
  authority, with its host; for the other methods the URI.
\<close>

record proxy_request =
  pq_method :: string
  pq_uri :: string
  pq_authority :: "(string \<times> string) option"
  pq_headers :: "(string \<times> string option) list"

datatype proxy_action =
    PxError nat string
  | PxTunnel string
  | PxForward string string "(string \<times> string) list" "(string \<times> string) list"

definition HOP_BY_HOP :: "string list" where
  "HOP_BY_HOP = [''connection'', ''keep-alive'', ''proxy-authenticate'', ''proxy-authorization'', ''te'',
     ''trailers'', ''transfer-encoding'', ''upgrade'']"

definition is_hop_by_hop_header :: "string \<Rightarrow> bool" where
  "is_hop_by_hop_header name = List.member HOP_BY_HOP (to_lowercase name)"

definition forwarded_headers :: "(string \<times> string option) list \<Rightarrow> (string \<times> string) list" where
  "forwarded_headers headers =
     concat (map (\<lambda>(name, value). case value of
        Some v \<Rightarrow> if is_hop_by_hop_header name then [] else [(name, v)] | None \<Rightarrow> []) headers)"

text \<open>The credential that is added, as headers and as parameters of the query.\<close>

definition proxy_credential ::
    "credential_location \<Rightarrow> string \<Rightarrow> (string \<times> string) list \<times> (string \<times> string) list" where
  "proxy_credential location credential =
     (case location of
        AuthorizationBearer \<Rightarrow> ([(''Authorization'', ''Bearer '' @ credential)], [])
      | CredHeader name prefix \<Rightarrow>
          ([(name, case prefix of Some p \<Rightarrow> p @ credential | None \<Rightarrow> credential)], [])
      | CredQueryParam name \<Rightarrow> ([], [(name, credential)])
      | _ \<Rightarrow> ([], []))"

definition forward_request ::
    "(string \<Rightarrow> string option) \<Rightarrow> proxy_request \<Rightarrow> network_decision \<Rightarrow> proxy_action" where
  "forward_request resolve req decision =
     (let headers = forwarded_headers (pq_headers req)
      in case decision of
        NdAllowWithCredentials secret_name location \<Rightarrow>
          (case resolve secret_name of
             Some credential \<Rightarrow>
               (let (hs, qs) = proxy_credential location credential
                in PxForward (pq_method req) (pq_uri req) (headers @ hs) qs)
           | None \<Rightarrow> PxForward (pq_method req) (pq_uri req) headers [])
      | _ \<Rightarrow> PxForward (pq_method req) (pq_uri req) headers [])"

definition handle_connect :: "(network_request \<Rightarrow> network_decision) \<Rightarrow> proxy_request \<Rightarrow> proxy_action" where
  "handle_connect decide req =
     (case pq_authority req of
        None \<Rightarrow> PxError 400 ''Missing host''
      | Some (host, target_addr) \<Rightarrow>
          (case decide \<lparr>nr_method = ''CONNECT'', nr_url = ''https://'' @ host, nr_host = host, nr_path = ''/''\<rparr> of
             NdDeny reason \<Rightarrow> PxError 403 reason
           | _ \<Rightarrow> PxTunnel target_addr))"

definition handle_request ::
    "(string \<Rightarrow> string + url_parts) \<Rightarrow> (network_request \<Rightarrow> network_decision) \<Rightarrow> (string \<Rightarrow> string option) \<Rightarrow>
     proxy_request \<Rightarrow> u64 \<Rightarrow> proxy_action \<times> u64" where
  "handle_request parse decide resolve req request_count =
     (if pq_method req = ''CONNECT'' then handle_connect decide req
      else case network_request_from_url parse (pq_method req) (pq_uri req) of
        None \<Rightarrow> PxError 400 ''Invalid URL''
      | Some r \<Rightarrow>
          (case decide r of
             NdDeny reason \<Rightarrow> PxError 403 reason
           | decision \<Rightarrow> forward_request resolve req decision),
      request_count + 1)"

section \<open>The store of secrets\<close>

datatype secret_error =
    SecNotFound string
  | SecExpired
  | SecDecryptionFailed string
  | SecEncryptionFailed string
  | SecInvalidMasterKey
  | SecInvalidUtf8
  | SecDatabase string
  | SecAccessDenied
  | SecKeychain string

definition show_secret_error :: "secret_error \<Rightarrow> string" where
  "show_secret_error e =
     (case e of
        SecNotFound n \<Rightarrow> ''Secret not found: '' @ n
      | SecExpired \<Rightarrow> ''Secret has expired''
      | SecDecryptionFailed m \<Rightarrow> ''Decryption failed: '' @ m
      | SecEncryptionFailed m \<Rightarrow> ''Encryption failed: '' @ m
      | SecInvalidMasterKey \<Rightarrow> ''Invalid master key''
      | SecInvalidUtf8 \<Rightarrow> ''Secret value is not valid UTF-8''
      | SecDatabase m \<Rightarrow> ''Database error: '' @ m
      | SecAccessDenied \<Rightarrow> ''Secret access denied for tool''
      | SecKeychain m \<Rightarrow> ''Keychain error: '' @ m)"

record ('e, 's) secret =
  se_user_id :: string
  se_name :: string
  se_encrypted_value :: 'e
  se_key_salt :: 's
  se_provider :: "string option"
  se_expires_at :: "time option"
  se_created_at :: time

record create_secret_params =
  cp_name :: string
  cp_value :: string
  cp_provider :: "string option"
  cp_expires_at :: "time option"

definition new_secret_params :: "string \<Rightarrow> string \<Rightarrow> create_secret_params" where
  "new_secret_params name value =
     \<lparr>cp_name = to_lowercase name, cp_value = value, cp_provider = None, cp_expires_at = None\<rparr>"

type_synonym ('e, 's) secret_store = "(string \<times> string, ('e, 's) secret) hmap"

text \<open>\<open>encrypt\<close> draws a fresh salt and nonce, so it depends on the time of the call.\<close>

definition secret_create ::
    "(time \<Rightarrow> string \<Rightarrow> secret_error + 'e \<times> 's) \<Rightarrow> time \<Rightarrow> string \<Rightarrow> create_secret_params \<Rightarrow> ('e, 's) secret_store \<Rightarrow>
     (secret_error + ('e, 's) secret) \<times> ('e, 's) secret_store" where
  "secret_create encrypt now user_id params st =
     (case encrypt now (cp_value params) of
        Inl e \<Rightarrow> (Inl e, st)
      | Inr (encrypted_value, key_salt) \<Rightarrow>
          let s = \<lparr>se_user_id = user_id, se_name = cp_name params, se_encrypted_value = encrypted_value,
                se_key_salt = key_salt, se_provider = cp_provider params, se_expires_at = cp_expires_at params,
                se_created_at = now\<rparr>
          in (Inr s, hm_insert (user_id, cp_name params) s st))"

definition secret_get :: "time \<Rightarrow> string \<Rightarrow> string \<Rightarrow> ('e, 's) secret_store \<Rightarrow> secret_error + ('e, 's) secret" where
  "secret_get now user_id name st =
     (case hm_get st (user_id, to_lowercase name) of
        None \<Rightarrow> Inl (SecNotFound (to_lowercase name))
      | Some s \<Rightarrow> if (case se_expires_at s of Some t \<Rightarrow> t < now | None \<Rightarrow> False) then Inl SecExpired else Inr s)"

definition secret_get_decrypted ::
    "('e \<Rightarrow> 's \<Rightarrow> secret_error + string) \<Rightarrow> time \<Rightarrow> string \<Rightarrow> string \<Rightarrow> ('e, 's) secret_store \<Rightarrow> secret_error + string" where
  "secret_get_decrypted decrypt now user_id name st =
     (case secret_get now user_id name st of
        Inl e \<Rightarrow> Inl e
      | Inr s \<Rightarrow> decrypt (se_encrypted_value s) (se_key_salt s))"

definition secret_exists :: "string \<Rightarrow> string \<Rightarrow> ('e, 's) secret_store \<Rightarrow> bool" where
  "secret_exists user_id name st \<longleftrightarrow> hm_get st (user_id, to_lowercase name) \<noteq> None"

definition secret_list :: "string \<Rightarrow> ('e, 's) secret_store \<Rightarrow> (string \<times> string option) list" where
  "secret_list user_id st =
     map (\<lambda>p. (se_name (snd p), se_provider (snd p))) (filter (\<lambda>p. fst (fst p) = user_id) st)"

definition secret_delete :: "string \<Rightarrow> string \<Rightarrow> ('e, 's) secret_store \<Rightarrow> bool \<times> ('e, 's) secret_store" where
  "secret_delete user_id name st =
     (hm_get st (user_id, to_lowercase name) \<noteq> None, hm_remove (user_id, to_lowercase name) st)"

text \<open>The list of allowed names, which may end in a star; the injector has the same test.\<close>

definition name_allowed :: "string list \<Rightarrow> string \<Rightarrow> bool" where
  "name_allowed allowed name =
     (let name_lower = to_lowercase name
      in list_ex (\<lambda>pattern.
           let pattern_lower = to_lowercase pattern
           in pattern_lower = name_lower \<or>
              (case strip_suffix pattern_lower ''*'' of Some prefix \<Rightarrow> starts_with name_lower prefix | None \<Rightarrow> False))
         allowed)"

definition secret_is_accessible :: "string \<Rightarrow> string \<Rightarrow> string list \<Rightarrow> ('e, 's) secret_store \<Rightarrow> bool" where
  "secret_is_accessible user_id secret_name allowed st =
     (if \<not> secret_exists user_id (to_lowercase secret_name) st then False else name_allowed allowed secret_name)"

text \<open>The capability of a WASM tool to ask for secrets; here capitals matter.\<close>

definition capability_allows :: "string list \<Rightarrow> string \<Rightarrow> bool" where
  "capability_allows allowed_names name =
     list_ex (\<lambda>pattern. pattern = name \<or>
       (case strip_suffix pattern ''*'' of Some prefix \<Rightarrow> starts_with name prefix | None \<Rightarrow> False)) allowed_names"

section \<open>The injector\<close>

datatype injection_error =
    IeSecretNotFound string
  | IeAccessDenied string
  | IeSecretExpired string
  | IeDecryptionFailed string
  | IeNoMatchingCredential string

record injected_credentials =
  ic_headers :: "(string, string) hmap"
  ic_query_params :: "(string, string) hmap"

definition no_credentials :: injected_credentials where
  "no_credentials = \<lparr>ic_headers = [], ic_query_params = []\<rparr>"

text \<open>\<open>as_bytes\<close>.\<close>

definition char_bytes :: "char \<Rightarrow> 8 word list" where
  "char_bytes c =
     (let n = (of_char c :: nat)
      in if n < 128 then [of_nat n] else [of_nat (192 + n div 64), of_nat (128 + n mod 64)])"

definition utf8_bytes :: "string \<Rightarrow> 8 word list" where
  "utf8_bytes s = concat (map char_bytes s)"

definition BASE64_ALPHABET :: string where
  "BASE64_ALPHABET = ''ABCDEFGHIJKLMNOPQRSTUVWXYZabcdefghijklmnopqrstuvwxyz0123456789+/''"

definition base64_char :: "8 word \<Rightarrow> char" where
  "base64_char w = BASE64_ALPHABET ! unat w"

fun base64_encode :: "8 word list \<Rightarrow> string" where
  "base64_encode [] = []"
| "base64_encode (b0 # r) =
     (let b1 = (case r of b # _ \<Rightarrow> b | [] \<Rightarrow> 0);
          b2 = (case r of _ # b # _ \<Rightarrow> b | _ \<Rightarrow> 0)
      in [base64_char (drop_bit 2 b0),
          base64_char (push_bit 4 (b0 AND 3) OR drop_bit 4 b1),
          if r \<noteq> [] then base64_char (push_bit 2 (b1 AND 15) OR drop_bit 6 b2) else CHR ''='',
          if length r > 1 then base64_char (b2 AND 63) else CHR ''='']
         @ base64_encode (drop 2 r))"

definition inject_credential :: "credential_location \<Rightarrow> string \<Rightarrow> injected_credentials \<Rightarrow> injected_credentials" where
  "inject_credential location secret ic =
     (case location of
        AuthorizationBearer \<Rightarrow> ic\<lparr>ic_headers := hm_insert ''Authorization'' (''Bearer '' @ secret) (ic_headers ic)\<rparr>
      | AuthorizationBasic username \<Rightarrow>
          ic\<lparr>ic_headers := hm_insert ''Authorization''
             (''Basic '' @ base64_encode (utf8_bytes (username @ '':'' @ secret))) (ic_headers ic)\<rparr>
      | CredHeader name prefix \<Rightarrow>
          ic\<lparr>ic_headers := hm_insert name (case prefix of Some p \<Rightarrow> p @ secret | None \<Rightarrow> secret) (ic_headers ic)\<rparr>
      | CredQueryParam name \<Rightarrow> ic\<lparr>ic_query_params := hm_insert name secret (ic_query_params ic)\<rparr>
      | CredUrlPath _ \<Rightarrow> ic)"

record credential_injector =
  ci_mappings :: "(string, credential_mapping) hmap"
  ci_allowed_secrets :: "string list"

definition mapping_for_host :: "string \<Rightarrow> credential_mapping \<Rightarrow> bool" where
  "mapping_for_host host m = list_ex (\<lambda>pattern. injector_host_matches host pattern) (cm_host_patterns m)"

definition find_credentials_for_host :: "credential_injector \<Rightarrow> string \<Rightarrow> credential_mapping list" where
  "find_credentials_for_host ci host = filter (mapping_for_host host) (hm_values (ci_mappings ci))"

text \<open>\<open>decrypted\<close> is the store's answer for the user and a name.\<close>

fun inject_all ::
    "string list \<Rightarrow> (string \<Rightarrow> secret_error + string) \<Rightarrow> credential_mapping list \<Rightarrow> injected_credentials \<Rightarrow>
     injection_error + injected_credentials" where
  "inject_all allowed decrypted [] ic = Inr ic"
| "inject_all allowed decrypted (m # ms) ic =
     (if \<not> name_allowed allowed (cm_secret_name m) then Inl (IeAccessDenied (cm_secret_name m))
      else case decrypted (cm_secret_name m) of
        Inl (SecNotFound name) \<Rightarrow> Inl (IeSecretNotFound name)
      | Inl SecExpired \<Rightarrow> Inl (IeSecretExpired (cm_secret_name m))
      | Inl e \<Rightarrow> Inl (IeDecryptionFailed (show_secret_error e))
      | Inr secret \<Rightarrow> inject_all allowed decrypted ms (inject_credential (cm_location m) secret ic))"

definition inject_for_host ::
    "credential_injector \<Rightarrow> (string \<Rightarrow> secret_error + string) \<Rightarrow> string \<Rightarrow> injection_error + injected_credentials" where
  "inject_for_host ci decrypted host =
     inject_all (ci_allowed_secrets ci) decrypted (find_credentials_for_host ci host) no_credentials"

text \<open>The registry of mappings that the tools share.\<close>

type_synonym credential_registry = "credential_mapping list"

definition registry_add :: "credential_mapping list \<Rightarrow> credential_registry \<Rightarrow> credential_registry" where
  "registry_add ms cr = cr @ ms"

definition registry_remove_for_secrets :: "string list \<Rightarrow> credential_registry \<Rightarrow> credential_registry" where
  "registry_remove_for_secrets names cr = filter (\<lambda>m. \<not> List.member names (cm_secret_name m)) cr"

definition registry_has_host :: "credential_registry \<Rightarrow> string \<Rightarrow> bool" where
  "registry_has_host cr host = list_ex (mapping_for_host host) cr"

definition registry_find_for_host :: "credential_registry \<Rightarrow> string \<Rightarrow> credential_mapping list" where
  "registry_find_for_host cr host = filter (mapping_for_host host) cr"

section \<open>The most specific mapping\<close>

lemma str_le_refl: "str_le s s"
  by (induction s) (auto simp: Let_def)

lemma str_le_total: "str_le s t \<or> str_le t s"
  by (induction s t rule: str_le.induct) (auto simp: Let_def)

lemma str_le_trans: "str_le s t \<Longrightarrow> str_le t u \<Longrightarrow> str_le s u"
proof (induction s t arbitrary: u rule: str_le.induct)
  case (3 c s d t)
  then show ?case by (cases u) (auto simp: Let_def)
qed auto

lemma credential_le_total: "credential_le path a b \<or> credential_le path b a"
  using str_le_total by (auto simp: credential_le_def Let_def)

lemma credential_le_trans: "credential_le path a b \<Longrightarrow> credential_le path b c \<Longrightarrow> credential_le path a c"
  using str_le_trans by (auto simp: credential_le_def Let_def)

lemma foldl_max_by:
  assumes "\<And>a b. le a b \<or> le b a" "\<And>a b c. le a b \<Longrightarrow> le b c \<Longrightarrow> le a c"
  shows "foldl (\<lambda>m y. if le m y then y else m) x xs \<in> insert x (set xs) \<and>
    (\<forall>y \<in> insert x (set xs). le y (foldl (\<lambda>m y. if le m y then y else m) x xs))"
proof (induction xs arbitrary: x)
  case Nil
  then show ?case using assms(1) [of x x] by simp
next
  case (Cons y ys)
  define z where "z = (if le x y then y else x)"
  define w where "w = foldl (\<lambda>m y. if le m y then y else m) z ys"
  have z: "z \<in> {x, y}" "le x z" "le y z" using assms(1) [of x y] assms(1) [of x x] assms(1) [of y y] by (auto simp: z_def)
  have w: "w \<in> insert z (set ys)" "\<forall>v \<in> insert z (set ys). le v w" using Cons.IH [of z] by (simp_all add: w_def)
  then have "le x w" "le y w" using z(2,3) assms(2) by blast+
  moreover have "foldl (\<lambda>m y. if le m y then y else m) x (y # ys) = w" by (simp add: w_def z_def)
  ultimately show ?case using z(1) w by auto
qed

lemma max_by_spec:
  assumes "max_by le xs = Some m" "\<And>a b. le a b \<or> le b a" "\<And>a b c. le a b \<Longrightarrow> le b c \<Longrightarrow> le a c"
  shows "m \<in> set xs \<and> (\<forall>y \<in> set xs. le y m)"
proof (cases xs)
  case (Cons x r)
  with assms(1) have "m = foldl (\<lambda>m y. if le m y then y else m) x r" by (simp add: max_by_def)
  with foldl_max_by [of le x r, OF assms(2,3)] Cons show ?thesis by simp
qed (use assms(1) in \<open>simp add: max_by_def\<close>)

lemma find_credential_spec:
  assumes "find_credential pd host path = Some m"
  shows "m \<in> set (pd_credential_mappings pd) \<and> mapping_matches m host path \<and>
    (\<forall>m' \<in> set (pd_credential_mappings pd). mapping_matches m' host path \<longrightarrow>
       match_specificity (cm_path_patterns m') path \<le> match_specificity (cm_path_patterns m) path)"
proof -
  have "m \<in> set (filter (\<lambda>m. mapping_matches m host path) (pd_credential_mappings pd)) \<and>
      (\<forall>y \<in> set (filter (\<lambda>m. mapping_matches m host path) (pd_credential_mappings pd)). credential_le path y m)"
    using assms unfolding find_credential_def
    by (rule max_by_spec) (use credential_le_total in blast, erule (1) credential_le_trans)
  then show ?thesis by (auto simp: credential_le_def Let_def)
qed

text \<open>A path below a prefix: the prefix, and nothing or a new segment behind it.\<close>

definition path_below :: "string \<Rightarrow> string \<Rightarrow> bool" where
  "path_below path prefix \<longleftrightarrow>
     (\<exists>r. path = prefix @ r \<and> (r = [] \<or> ends_with_char prefix (CHR ''/'') \<or> hd r = CHR ''/''))"

lemma path_matches_prefix_iff:
  "path_matches_prefix path prefix \<longleftrightarrow> \<not> path_has_dot_segment path \<and> path_below path prefix"
  by (auto simp: path_matches_prefix_def path_below_def starts_with_iff split: list.splits)

lemma mapping_matches_iff:
  "mapping_matches m host path \<longleftrightarrow>
     (\<exists>p \<in> set (cm_host_patterns m). secret_host_matches (to_lowercase host) p) \<and>
     (cm_path_patterns m = [] \<or>
      \<not> path_has_dot_segment path \<and> (\<exists>prefix \<in> set (cm_path_patterns m). path_below path prefix))"
  by (auto simp: mapping_matches_def list_ex_iff path_matches_prefix_iff Let_def)


definition sample_decider :: policy_decider where
  "sample_decider = \<lparr>pd_allowlist = new_domain_allowlist [''*.a.io''],
     pd_credential_mappings = [(bearer_mapping ''key'' ''api.a.io'')\<lparr>cm_path_patterns := [''/v1'']\<rparr>]\<rparr>"


section \<open>The store\<close>

datatype secret_op = SoCreate time string create_secret_params | SoDelete string string

fun apply_secret_op ::
    "(time \<Rightarrow> string \<Rightarrow> secret_error + 'e \<times> 's) \<Rightarrow> secret_op \<Rightarrow> ('e, 's) secret_store \<Rightarrow> ('e, 's) secret_store" where
  "apply_secret_op encrypt (SoCreate now user_id params) st = snd (secret_create encrypt now user_id params st)"
| "apply_secret_op encrypt (SoDelete user_id name) st = snd (secret_delete user_id name st)"

fun secret_op_key :: "secret_op \<Rightarrow> string \<times> string" where
  "secret_op_key (SoCreate now user_id params) = (user_id, cp_name params)"
| "secret_op_key (SoDelete user_id name) = (user_id, to_lowercase name)"

lemma secret_op_other: "secret_op_key op \<noteq> k \<Longrightarrow> hm_get (apply_secret_op encrypt op st) k = hm_get st k"
  by (cases op) (auto simp: secret_create_def secret_delete_def Let_def split: sum.splits prod.splits)

lemma secret_ops_other:
  "\<forall>op \<in> set ops. secret_op_key op \<noteq> k \<Longrightarrow> hm_get (fold (apply_secret_op encrypt) ops st) k = hm_get st k"
  by (induction ops arbitrary: st) (simp_all add: secret_op_other)

lemma lower_char_idem: "lower_char (lower_char c) = lower_char c"
  by (auto simp: lower_char_def Let_def)

lemma to_lowercase_idem [simp]: "to_lowercase (to_lowercase s) = to_lowercase s"
  by (simp add: to_lowercase_def lower_char_idem)

text \<open>
  A stored secret comes back: whatever is done in between to other secrets and for other users, the
  user who stored it gets its value, under any spelling of the name, until it expires. What the
  encryption gives must decrypt to the value.
\<close>

lemma stored_secret_comes_back:
  assumes "secret_create encrypt now user_id ((new_secret_params name value)\<lparr>cp_expires_at := expiry\<rparr>) st = (Inr s, st1)"
    "\<And>c k. encrypt now value = Inr (c, k) \<Longrightarrow> decrypt c k = Inr value"
    "\<forall>op \<in> set ops. secret_op_key op \<noteq> (user_id, to_lowercase name)"
    "to_lowercase name' = to_lowercase name" "expiry = None \<or> later \<le> the expiry"
  shows "secret_get_decrypted decrypt later user_id name' (fold (apply_secret_op encrypt) ops st1) = Inr value"
proof -
  obtain c k where e: "encrypt now value = Inr (c, k)"
    using assms(1) by (auto simp: secret_create_def new_secret_params_def split: sum.splits)
  with assms(1) have st1: "st1 = hm_insert (user_id, to_lowercase name) s st"
    and s: "se_encrypted_value s = c" "se_key_salt s = k" "se_expires_at s = expiry"
    by (auto simp: secret_create_def new_secret_params_def Let_def)
  have "hm_get (fold (apply_secret_op encrypt) ops st1) (user_id, to_lowercase name') = Some s"
    using secret_ops_other [OF assms(3), of encrypt st1] assms(4) st1 by simp
  with s assms(2) [OF e] assms(5) show ?thesis
    by (auto simp: secret_get_decrypted_def secret_get_def split: option.splits)
qed

lemma stored_secret_comes_back_witness:
  "secret_get_decrypted (\<lambda>c k. Inr c) 5 ''ann'' ''api_KEY''
     (fold (apply_secret_op (\<lambda>_ v. Inr (v, ()))) [SoDelete ''bob'' ''api_key'', SoDelete ''ann'' ''other'']
        (snd (secret_create (\<lambda>_ v. Inr (v, ())) 3 ''ann'' ((new_secret_params ''API_key'' ''s3'')\<lparr>cp_expires_at := Some 9\<rparr>) [])))
   = Inr ''s3''"
proof (rule stored_secret_comes_back [where name = "''API_key''" and now = 3 and expiry = "Some 9" and st = "[]"])
  show "secret_create (\<lambda>_ v. Inr (v, ())) 3 ''ann'' ((new_secret_params ''API_key'' ''s3'')\<lparr>cp_expires_at := Some 9\<rparr>) []
      = (Inr \<lparr>se_user_id = ''ann'', se_name = to_lowercase ''API_key'', se_encrypted_value = ''s3'', se_key_salt = (),
           se_provider = None, se_expires_at = Some 9, se_created_at = 3\<rparr>,
         snd (secret_create (\<lambda>_ v. Inr (v, ())) 3 ''ann'' ((new_secret_params ''API_key'' ''s3'')\<lparr>cp_expires_at := Some 9\<rparr>) []))"
    by (simp add: secret_create_def new_secret_params_def Let_def)
  show "\<forall>op \<in> set [SoDelete ''bob'' ''api_key'', SoDelete ''ann'' ''other'']. secret_op_key op \<noteq> (''ann'', to_lowercase ''API_key'')"
    by (simp add: to_lowercase_def)
  show "to_lowercase ''api_KEY'' = to_lowercase ''API_key''" by code_simp
qed simp_all

section \<open>The injector\<close>

lemma inject_all_sound:
  "inject_all allowed decrypted ms ic = Inr out \<Longrightarrow>
   \<forall>m \<in> set ms. name_allowed allowed (cm_secret_name m) \<and> (\<exists>s. decrypted (cm_secret_name m) = Inr s)"
  by (induction allowed decrypted ms ic rule: inject_all.induct)
    (auto split: if_splits sum.splits secret_error.splits)

lemma in_hm_insert: "p \<in> set (hm_insert k v m) \<Longrightarrow> p = (k, v) \<or> p \<in> set m"
  by (induction k v m rule: hm_insert.induct) (auto split: if_splits)

lemma inject_credential_values:
  "p \<in> set (ic_headers (inject_credential l s ic)) \<Longrightarrow>
     p \<in> set (ic_headers ic) \<or> p \<in> set (ic_headers (inject_credential l s no_credentials))"
  "p \<in> set (ic_query_params (inject_credential l s ic)) \<Longrightarrow>
     p \<in> set (ic_query_params ic) \<or> p \<in> set (ic_query_params (inject_credential l s no_credentials))"
  by (auto simp: inject_credential_def no_credentials_def dest!: in_hm_insert split: credential_location.splits)

lemma inject_all_values:
  assumes "inject_all allowed decrypted ms ic = Inr out"
    "p \<in> set (ic_headers out) \<union> set (ic_query_params out)" "p \<notin> set (ic_headers ic) \<union> set (ic_query_params ic)"
  shows "\<exists>m \<in> set ms. \<exists>s. decrypted (cm_secret_name m) = Inr s \<and>
    p \<in> set (ic_headers (inject_credential (cm_location m) s no_credentials)) \<union>
      set (ic_query_params (inject_credential (cm_location m) s no_credentials))"
  using assms
proof (induction ms arbitrary: ic)
  case (Cons m ms)
  then obtain s where s: "decrypted (cm_secret_name m) = Inr s"
    using inject_all_sound [OF Cons.prems(1)] by auto
  let ?ic = "inject_credential (cm_location m) s ic"
  have run: "inject_all allowed decrypted ms ?ic = Inr out"
    using Cons.prems(1) s by (simp split: if_split_asm)
  show ?case
  proof (cases "p \<in> set (ic_headers ?ic) \<union> set (ic_query_params ?ic)")
    case True
    with Cons.prems(3) s show ?thesis
      using inject_credential_values [of p "cm_location m" s ic] by auto
  next
    case False
    from Cons.IH [OF run Cons.prems(2) False] show ?thesis by auto
  qed
qed simp

text \<open>
  The injector gives a request to a host nothing but the values of secrets whose mappings have a pattern
  for the host and whose names are allowed, each in the place that its mapping says; and one mapping for the
  host that is not allowed, or whose secret is missing, makes the whole injection fail.
\<close>

lemma injected_secrets_allowed:
  assumes "inject_for_host ci decrypted host = Inr ic"
  shows "(\<forall>m \<in> set (hm_values (ci_mappings ci)). mapping_for_host host m \<longrightarrow>
      name_allowed (ci_allowed_secrets ci) (cm_secret_name m) \<and> (\<exists>s. decrypted (cm_secret_name m) = Inr s)) \<and>
    (\<forall>p \<in> set (ic_headers ic) \<union> set (ic_query_params ic).
      \<exists>m \<in> set (hm_values (ci_mappings ci)). \<exists>s. mapping_for_host host m \<and> decrypted (cm_secret_name m) = Inr s \<and>
        p \<in> set (ic_headers (inject_credential (cm_location m) s no_credentials)) \<union>
          set (ic_query_params (inject_credential (cm_location m) s no_credentials)))"
proof -
  note run = assms [unfolded inject_for_host_def]
  have mem: "m \<in> set (find_credentials_for_host ci host) \<longleftrightarrow> m \<in> set (hm_values (ci_mappings ci)) \<and> mapping_for_host host m" for m
    by (simp add: find_credentials_for_host_def)
  have none: "p \<notin> set (ic_headers no_credentials) \<union> set (ic_query_params no_credentials)" for p
    by (simp add: no_credentials_def)
  from inject_all_sound [OF run] have "\<forall>m \<in> set (hm_values (ci_mappings ci)). mapping_for_host host m \<longrightarrow>
      name_allowed (ci_allowed_secrets ci) (cm_secret_name m) \<and> (\<exists>s. decrypted (cm_secret_name m) = Inr s)"
    by (metis mem)
  moreover from inject_all_values [OF run _ none] have "\<forall>p \<in> set (ic_headers ic) \<union> set (ic_query_params ic).
      \<exists>m \<in> set (hm_values (ci_mappings ci)). \<exists>s. mapping_for_host host m \<and> decrypted (cm_secret_name m) = Inr s \<and>
        p \<in> set (ic_headers (inject_credential (cm_location m) s no_credentials)) \<union>
          set (ic_query_params (inject_credential (cm_location m) s no_credentials))"
    by (metis mem)
  ultimately show ?thesis ..
qed

definition sample_injector :: credential_injector where
  "sample_injector = \<lparr>ci_mappings = [(''k'', bearer_mapping ''key'' ''*.a.io'')], ci_allowed_secrets = [''k*'']\<rparr>"

lemma injected_secrets_allowed_witness:
  "name_allowed [''k*''] ''key''"
proof -
  have "inject_for_host sample_injector (\<lambda>_. Inr ''s3'') ''x.a.io'' = Inr \<lparr>ic_headers = [(''Authorization'', ''Bearer s3'')], ic_query_params = []\<rparr>"
    by code_simp
  moreover have "mapping_for_host ''x.a.io'' (bearer_mapping ''key'' ''*.a.io'')" by code_simp
  ultimately show ?thesis using injected_secrets_allowed [of sample_injector "\<lambda>_. Inr ''s3''" "''x.a.io''"]
    by (simp add: sample_injector_def) (simp add: bearer_mapping_def)
qed

text \<open>
  Unlike the proxy, the injector of the WASM layer ignores the paths that a mapping is bound to, and the
  flag that makes a credential optional: a mapping with other paths and another flag gives the same headers
  and the same errors.
\<close>

lemma injector_ignores_paths:
  "inject_for_host (ci\<lparr>ci_mappings := map (\<lambda>(k, m). (k, m\<lparr>cm_path_patterns := paths m, cm_optional := flag m\<rparr>)) (ci_mappings ci)\<rparr>)
     decrypted host = inject_for_host ci decrypted host"
proof -
  let ?f = "\<lambda>m. m\<lparr>cm_path_patterns := paths m, cm_optional := flag m\<rparr>"
  have same: "inject_all allowed decrypted (map ?f ms) ic = inject_all allowed decrypted ms ic" for allowed ms ic
    by (induction ms arbitrary: ic) (simp_all split: sum.splits secret_error.splits)
  have vals: "hm_values (map (\<lambda>(k, m). (k, ?f m)) (ci_mappings ci)) = map ?f (hm_values (ci_mappings ci))" by auto
  have "filter (mapping_for_host host) (map ?f ms) = map ?f (filter (mapping_for_host host) ms)" for ms
    by (induction ms) (simp_all add: mapping_for_host_def)
  then show ?thesis
    by (simp add: inject_for_host_def find_credentials_for_host_def vals same del: map_map list.map_comp)
qed

section \<open>Base64\<close>

text \<open>The decoder of the standard, as a reference for the encoder.\<close>

definition base64_value :: "char \<Rightarrow> 8 word option" where
  "base64_value c = map_of (zip BASE64_ALPHABET (map of_nat [0..<64])) c"

fun base64_decode :: "string \<Rightarrow> 8 word list option" where
  "base64_decode [] = Some []"
| "base64_decode (c0 # c1 # c2 # c3 # r) =
     (case (base64_value c0, base64_value c1) of
        (Some v0, Some v1) \<Rightarrow>
          let x0 = push_bit 2 v0 OR drop_bit 4 v1
          in if c2 = CHR ''='' then (if c3 = CHR ''='' \<and> r = [] then Some [x0] else None)
             else (case base64_value c2 of
                None \<Rightarrow> None
              | Some v2 \<Rightarrow>
                  let x1 = push_bit 4 v1 OR drop_bit 2 v2
                  in if c3 = CHR ''='' then (if r = [] then Some [x0, x1] else None)
                     else (case (base64_value c3, base64_decode r) of
                        (Some v3, Some bs) \<Rightarrow> Some (x0 # x1 # (push_bit 6 v2 OR v3) # bs)
                      | _ \<Rightarrow> None))
      | _ \<Rightarrow> None)"
| "base64_decode _ = None"

lemma base64_value_nth: "\<forall>n \<in> set [0..<64]. base64_value (BASE64_ALPHABET ! n) = Some (of_nat n) \<and> BASE64_ALPHABET ! n \<noteq> CHR ''=''"
  by code_simp

lemma base64_char:
  assumes "w AND mask 6 = w"
  shows "base64_value (base64_char w) = Some w \<and> base64_char w \<noteq> CHR ''=''"
proof -
  have "w AND mask 6 < 2 ^ 6" by (rule and_mask_less_size) (simp add: word_size)
  then have "w < 64" using assms by simp
  then have "unat w < 64" by (simp add: word_less_nat_alt)
  with base64_value_nth have "base64_value (BASE64_ALPHABET ! unat w) = Some (of_nat (unat w)) \<and> BASE64_ALPHABET ! unat w \<noteq> CHR ''=''"
    by simp
  then show ?thesis by (simp add: base64_char_def)
qed

lemma low_masks: "(3 :: 8 word) = mask 2" "(15 :: 8 word) = mask 4" "(63 :: 8 word) = mask 6"
  by (simp_all add: mask_eq_exp_minus_1)

lemma less_8_cases: "n < 8 \<Longrightarrow> n = 0 \<or> n = 1 \<or> n = 2 \<or> n = 3 \<or> n = 4 \<or> n = 5 \<or> n = 6 \<or> n = (7 :: nat)"
  by arith

lemma len_8: "LENGTH(8) = 8"
  by simp

text \<open>The four groups have six bits, and three bytes are put together from them again.\<close>

lemma sextets:
  fixes b0 b1 b2 :: "8 word"
  shows "drop_bit 2 b0 AND mask 6 = drop_bit 2 b0"
    "(push_bit 4 (b0 AND 3) OR drop_bit 4 b1) AND mask 6 = push_bit 4 (b0 AND 3) OR drop_bit 4 b1"
    "(push_bit 2 (b1 AND 15) OR drop_bit 6 b2) AND mask 6 = push_bit 2 (b1 AND 15) OR drop_bit 6 b2"
    "(b2 AND 63) AND mask 6 = b2 AND 63"
  unfolding low_masks
  by (rule bit_word_eqI; simp only: len_8; drule less_8_cases; elim disjE; auto simp: bit_simps dest: bit_imp_le_length)+

lemma bytes_from_sextets:
  fixes b0 b1 b2 :: "8 word"
  shows "push_bit 2 (drop_bit 2 b0) OR drop_bit 4 (push_bit 4 (b0 AND 3) OR drop_bit 4 b1) = b0"
    "push_bit 4 (push_bit 4 (b0 AND 3) OR drop_bit 4 b1) OR drop_bit 2 (push_bit 2 (b1 AND 15) OR drop_bit 6 b2) = b1"
    "push_bit 6 (push_bit 2 (b1 AND 15) OR drop_bit 6 b2) OR (b2 AND 63) = b2"
  unfolding low_masks
  by (rule bit_word_eqI; simp only: len_8; drule less_8_cases; elim disjE; auto simp: bit_simps dest: bit_imp_le_length)+

lemma partial_sextets:
  fixes b0 b1 :: "8 word"
  shows "push_bit 4 (b0 AND 3) AND mask 6 = push_bit 4 (b0 AND 3)"
    "push_bit 2 (b1 AND 15) AND mask 6 = push_bit 2 (b1 AND 15)"
    "push_bit 2 (drop_bit 2 b0) OR drop_bit 4 (push_bit 4 (b0 AND 3)) = b0"
    "push_bit 4 (push_bit 4 (b0 AND 3) OR drop_bit 4 b1) OR drop_bit 2 (push_bit 2 (b1 AND 15)) = b1"
  using sextets(2) [of b0 0] sextets(3) [of b1 0] bytes_from_sextets(1) [of b0 0] bytes_from_sextets(2) [of b0 b1 0]
  by simp_all

lemmas base64_groups =
  base64_char [OF sextets(1)] base64_char [OF sextets(2)] base64_char [OF sextets(3)] base64_char [OF sextets(4)]
  base64_char [OF partial_sextets(1)] base64_char [OF partial_sextets(2)] bytes_from_sextets partial_sextets(3,4)


end
