(* ===== verification/Context_Compaction.thy ===== *)
theory Context_Compaction
  imports Thread_Ops Tool_Recovery
begin

text \<open>
  The size of a conversation and its compaction: \<open>src/agent/context_monitor.rs\<close>,
  \<open>src/agent/compaction.rs\<close> and the two places of \<open>src/agent/thread_ops.rs\<close> that compact a thread. The
  model that summarises and the workspace that keeps what is removed are arguments.
\<close>

section \<open>The size of a conversation\<close>

text \<open>\<open>as usize\<close> of a non-negative number.\<close>

definition to_usize :: "real \<Rightarrow> nat" where
  "to_usize r = nat \<lfloor>r\<rfloor>"

definition DEFAULT_CONTEXT_LIMIT :: nat where
  "DEFAULT_CONTEXT_LIMIT = 100000"

definition COMPACTION_THRESHOLD :: real where
  "COMPACTION_THRESHOLD = 0.8"

definition TOKENS_PER_WORD :: real where
  "TOKENS_PER_WORD = 1.3"

datatype compaction_strategy =
    CsSummarize nat
  | CsTruncate nat
  | CsMoveToWorkspace

definition default_strategy :: compaction_strategy where
  "default_strategy = CsSummarize 5"

record context_monitor =
  cxm_context_limit :: nat
  cxm_threshold_ratio :: real

definition new_context_monitor :: context_monitor where
  "new_context_monitor = \<lparr>cxm_context_limit = DEFAULT_CONTEXT_LIMIT, cxm_threshold_ratio = COMPACTION_THRESHOLD\<rparr>"

definition cxm_with_limit :: "nat \<Rightarrow> context_monitor \<Rightarrow> context_monitor" where
  "cxm_with_limit limit mon = mon\<lparr>cxm_context_limit := limit\<rparr>"

definition cxm_with_threshold :: "real \<Rightarrow> context_monitor \<Rightarrow> context_monitor" where
  "cxm_with_threshold ratio mon = mon\<lparr>cxm_threshold_ratio := min (max ratio 0.5) 0.95\<rparr>"

definition estimate_text_tokens :: "string \<Rightarrow> nat" where
  "estimate_text_tokens text = to_usize (real (length (split_whitespace text)) * TOKENS_PER_WORD)"

definition estimate_message_tokens :: "chat_message \<Rightarrow> nat" where
  "estimate_message_tokens m = to_usize (real (length (split_whitespace (cm_content m))) * TOKENS_PER_WORD) + 4"

definition estimate_tokens :: "chat_message list \<Rightarrow> nat" where
  "estimate_tokens ms = sum_list (map estimate_message_tokens ms)"

definition compaction_threshold :: "context_monitor \<Rightarrow> nat" where
  "compaction_threshold mon = to_usize (real (cxm_context_limit mon) * cxm_threshold_ratio mon)"

definition needs_compaction :: "context_monitor \<Rightarrow> chat_message list \<Rightarrow> bool" where
  "needs_compaction mon ms \<longleftrightarrow> compaction_threshold mon \<le> estimate_tokens ms"

definition usage_percent :: "context_monitor \<Rightarrow> chat_message list \<Rightarrow> real" where
  "usage_percent mon ms = real (estimate_tokens ms) / real (cxm_context_limit mon) * 100"

text \<open>
  A limit of zero is divided by: the quotient is infinite or not a number, and only the infinite one exceeds
  the bounds.
\<close>

definition suggest_compaction :: "context_monitor \<Rightarrow> chat_message list \<Rightarrow> compaction_strategy option" where
  "suggest_compaction mon ms =
     (if \<not> needs_compaction mon ms then None
      else let tokens = estimate_tokens ms; limit = cxm_context_limit mon;
               exceeds = (\<lambda>bound. if limit = 0 then tokens \<noteq> 0 else real tokens / real limit > bound)
           in if exceeds 0.95 then Some (CsTruncate 3)
              else if exceeds 0.85 then Some (CsSummarize 5)
              else Some CsMoveToWorkspace)"

record context_breakdown =
  cb_total_tokens :: nat
  cb_system_tokens :: nat
  cb_user_tokens :: nat
  cb_assistant_tokens :: nat
  cb_tool_tokens :: nat
  cb_message_count :: nat

definition breakdown_add :: "chat_message \<Rightarrow> context_breakdown \<Rightarrow> context_breakdown" where
  "breakdown_add m cb =
     (let tokens = estimate_message_tokens m; cb1 = cb\<lparr>cb_total_tokens := cb_total_tokens cb + tokens\<rparr>
      in case cm_role m of
        ChatSystem \<Rightarrow> cb1\<lparr>cb_system_tokens := cb_system_tokens cb + tokens\<rparr>
      | ChatUser \<Rightarrow> cb1\<lparr>cb_user_tokens := cb_user_tokens cb + tokens\<rparr>
      | ChatAssistant \<Rightarrow> cb1\<lparr>cb_assistant_tokens := cb_assistant_tokens cb + tokens\<rparr>
      | ChatTool \<Rightarrow> cb1\<lparr>cb_tool_tokens := cb_tool_tokens cb + tokens\<rparr>)"

definition analyze_context :: "chat_message list \<Rightarrow> context_breakdown" where
  "analyze_context ms =
     fold breakdown_add ms
       \<lparr>cb_total_tokens = 0, cb_system_tokens = 0, cb_user_tokens = 0, cb_assistant_tokens = 0, cb_tool_tokens = 0,
        cb_message_count = length ms\<rparr>"

section \<open>Compaction\<close>

text \<open>
  The surroundings: the model, the date and the time of day as texts, and the append operation of the workspace
  when there is one, which gives an error in words when it fails. What was appended is a result.
\<close>

record compactor =
  cpt_reasoning :: reasoning
  cpt_date :: string
  cpt_time :: string
  cpt_append :: "(string \<Rightarrow> string \<Rightarrow> string + unit) option"
  cpt_to_str :: "json \<Rightarrow> string"

type_synonym daily_log = "(string \<times> string) list"

record compaction_partial =
  cp_turns_removed :: nat
  cp_summary_written :: bool
  cp_summary :: "string option"

definition empty_partial :: compaction_partial where
  "empty_partial = \<lparr>cp_turns_removed = 0, cp_summary_written = False, cp_summary = None\<rparr>"

definition blank_line :: string where
  "blank_line = newline @ newline"

definition summary_prompt :: string where
  "summary_prompt =
     ''Summarize the following conversation concisely. Focus on:'' @ newline @
     ''- Key decisions made'' @ newline @ ''- Important information exchanged'' @ newline @
     ''- Actions taken'' @ newline @ ''- Outcomes achieved'' @ blank_line @
     ''Be brief but capture all important details. Use bullet points.''"

definition summary_line :: "chat_message \<Rightarrow> string" where
  "summary_line m =
     (case cm_role m of
        ChatUser \<Rightarrow> ''User: '' @ cm_content m
      | ChatAssistant \<Rightarrow> ''Assistant: '' @ cm_content m
      | ChatSystem \<Rightarrow> ''System: '' @ cm_content m
      | ChatTool \<Rightarrow>
          ''Tool '' @ (case cm_name m of Some n \<Rightarrow> n | None \<Rightarrow> ''unknown'') @ '': '' @ cm_content m)"

definition generate_summary :: "compactor \<Rightarrow> chat_message list \<Rightarrow> llm_error + string" where
  "generate_summary cx ms =
     (case reasoning_complete (cpt_reasoning cx)
         [chat_system summary_prompt,
          chat_user (''Please summarize this conversation:'' @ blank_line @ join_with blank_line (map summary_line ms))] of
        Inl e \<Rightarrow> Inl e
      | Inr (text1, _) \<Rightarrow> Inr text1)"

definition daily_path :: "compactor \<Rightarrow> string" where
  "daily_path cx = ''daily/'' @ cpt_date cx @ ''.md''"

definition daily_entry :: "compactor \<Rightarrow> string \<Rightarrow> string \<Rightarrow> string" where
  "daily_entry cx title content =
     newline @ ''## '' @ title @ '' ('' @ cpt_time cx @ '')'' @ blank_line @ content @ newline"

text \<open>The write to the workspace, and the log with the entry when it succeeds.\<close>

definition write_entry :: "compactor \<Rightarrow> (string \<Rightarrow> string \<Rightarrow> string + unit) \<Rightarrow> string \<Rightarrow> daily_log \<Rightarrow> bool \<times> daily_log" where
  "write_entry cx app entry dlog =
     (case app (daily_path cx) entry of
        Inl _ \<Rightarrow> (False, dlog)
      | Inr _ \<Rightarrow> (True, dlog @ [(daily_path cx, entry)]))"

definition turns_to_summarize :: "turn list \<Rightarrow> chat_message list" where
  "turns_to_summarize ts =
     concat (map (\<lambda>t. chat_user (tn_user_input t)
        # (case tn_response t of Some r \<Rightarrow> [chat_assistant r] | None \<Rightarrow> [])) ts)"

definition compact_with_summary ::
    "compactor \<Rightarrow> nat \<Rightarrow> chat_thread \<Rightarrow> daily_log \<Rightarrow> (llm_error + compaction_partial) \<times> chat_thread \<times> daily_log" where
  "compact_with_summary cx keep_recent th dlog =
     (if length (ct_turns th) \<le> keep_recent then (Inr empty_partial, th, dlog)
      else let turns_to_remove = length (ct_turns th) - keep_recent
           in case generate_summary cx (turns_to_summarize (take turns_to_remove (ct_turns th))) of
             Inl e \<Rightarrow> (Inl e, th, dlog)
           | Inr summary \<Rightarrow>
               (case cpt_append cx of
                  Some app \<Rightarrow>
                    (case write_entry cx app (daily_entry cx ''Context Summary'' summary) dlog of
                       (True, log1) \<Rightarrow>
                         (Inr \<lparr>cp_turns_removed = turns_to_remove, cp_summary_written = True, cp_summary = Some summary\<rparr>,
                          truncate_turns keep_recent th, log1)
                     | (False, log1) \<Rightarrow>
                         (Inr \<lparr>cp_turns_removed = 0, cp_summary_written = False, cp_summary = Some summary\<rparr>, th, log1))
                | None \<Rightarrow>
                    (Inr \<lparr>cp_turns_removed = turns_to_remove, cp_summary_written = False, cp_summary = Some summary\<rparr>,
                     truncate_turns keep_recent th, dlog)))"

definition compact_truncate :: "nat \<Rightarrow> chat_thread \<Rightarrow> compaction_partial \<times> chat_thread" where
  "compact_truncate keep_recent th =
     (let th1 = truncate_turns keep_recent th
      in (\<lparr>cp_turns_removed = length (ct_turns th) - length (ct_turns th1), cp_summary_written = False,
           cp_summary = None\<rparr>, th1))"

definition format_turn :: "turn \<Rightarrow> string" where
  "format_turn t =
     ''**Turn '' @ show_nat (tn_turn_number t + 1) @ ''**'' @ newline
     @ ''User: '' @ tn_user_input t @ newline
     @ (case tn_response t of Some r \<Rightarrow> ''Agent: '' @ r @ newline | None \<Rightarrow> [])
     @ (if tn_tool_calls t = [] then []
        else ''Tools: '' @ join_with '', '' (map ttc_name (tn_tool_calls t)) @ newline)"

definition format_turns_for_storage :: "turn list \<Rightarrow> string" where
  "format_turns_for_storage ts = join_with newline (map format_turn ts)"

definition compact_to_workspace ::
    "compactor \<Rightarrow> chat_thread \<Rightarrow> daily_log \<Rightarrow> compaction_partial \<times> chat_thread \<times> daily_log" where
  "compact_to_workspace cx th dlog =
     (case cpt_append cx of
        None \<Rightarrow> (let (r, th1) = compact_truncate 5 th in (r, th1, dlog))
      | Some app \<Rightarrow>
          if length (ct_turns th) \<le> 10 then (empty_partial, th, dlog)
          else let turns_to_remove = length (ct_turns th) - 10;
                   content = format_turns_for_storage (take turns_to_remove (ct_turns th))
               in case write_entry cx app (daily_entry cx ''Archived Context'' content) dlog of
                 (True, log1) \<Rightarrow>
                   (\<lparr>cp_turns_removed = turns_to_remove, cp_summary_written = True, cp_summary = None\<rparr>,
                    truncate_turns 10 th, log1)
               | (False, log1) \<Rightarrow>
                   (\<lparr>cp_turns_removed = 0, cp_summary_written = False, cp_summary = None\<rparr>, th, log1))"

record compaction_result =
  cr_turns_removed :: nat
  cr_tokens_before :: nat
  cr_tokens_after :: nat
  cr_summary_written :: bool
  cr_summary :: "string option"

definition compact_step ::
    "compactor \<Rightarrow> compaction_strategy \<Rightarrow> chat_thread \<Rightarrow> daily_log \<Rightarrow>
     (llm_error + compaction_partial) \<times> chat_thread \<times> daily_log" where
  "compact_step cx strategy th dlog =
     (case strategy of
        CsSummarize keep_recent \<Rightarrow> compact_with_summary cx keep_recent th dlog
      | CsTruncate keep_recent \<Rightarrow> (let (r, th1) = compact_truncate keep_recent th in (Inr r, th1, dlog))
      | CsMoveToWorkspace \<Rightarrow> (let (r, th1, log1) = compact_to_workspace cx th dlog in (Inr r, th1, log1)))"

definition compact_thread ::
    "compactor \<Rightarrow> compaction_strategy \<Rightarrow> chat_thread \<Rightarrow> daily_log \<Rightarrow>
     (llm_error + compaction_result) \<times> chat_thread \<times> daily_log" where
  "compact_thread cx strategy th dlog =
     (case compact_step cx strategy th dlog of
        (Inl e, th1, log1) \<Rightarrow> (Inl e, th1, log1)
      | (Inr p, th1, log1) \<Rightarrow>
          (Inr \<lparr>cr_turns_removed = cp_turns_removed p,
              cr_tokens_before = cb_total_tokens (analyze_context (thread_messages (cpt_to_str cx) th)),
              cr_tokens_after = cb_total_tokens (analyze_context (thread_messages (cpt_to_str cx) th1)),
              cr_summary_written = cp_summary_written p, cr_summary = cp_summary p\<rparr>,
           th1, log1))"

section \<open>The two callers\<close>

text \<open>Before a turn the thread is compacted when it should be; a failure is only logged.\<close>

definition auto_compact :: "context_monitor \<Rightarrow> compactor \<Rightarrow> chat_thread \<Rightarrow> daily_log \<Rightarrow> chat_thread \<times> daily_log" where
  "auto_compact mon cx th dlog =
     (case suggest_compaction mon (thread_messages (cpt_to_str cx) th) of
        Some strategy \<Rightarrow> snd (compact_thread cx strategy th dlog)
      | None \<Rightarrow> (th, dlog))"

text \<open>One decimal, rounded to the even digit at a tie; a control character stands for the arrow.\<close>

definition show_fixed1 :: "real \<Rightarrow> string" where
  "show_fixed1 r =
     (let t = r * 10; f = nat \<lfloor>t\<rfloor>; d = t - real f;
          n = (if d < 0.5 \<or> d = 0.5 \<and> even f then f else f + 1)
      in show_nat (n div 10) @ ''.'' @ show_nat (n mod 10))"

definition compacted_message :: "compaction_result \<Rightarrow> real \<Rightarrow> string" where
  "compacted_message r usage =
     ''Compacted: '' @ show_nat (cr_turns_removed r) @ '' turns removed, '' @ show_nat (cr_tokens_before r) @ '' ''
     @ [CHR 0x96] @ '' '' @ show_nat (cr_tokens_after r) @ '' tokens (was '' @ show_fixed1 usage @ ''% full)''
     @ (if cr_summary_written r then '', summary saved to workspace'' else [])"

definition process_compact ::
    "(llm_error \<Rightarrow> string) \<Rightarrow> context_monitor \<Rightarrow> compactor \<Rightarrow> uuid \<Rightarrow> uuid \<Rightarrow> session_manager \<Rightarrow> daily_log \<Rightarrow>
     (agent_error + submission_result) \<times> session_manager \<times> daily_log" where
  "process_compact show_error mon cx sid tid sm dlog =
     (case session_thread sid tid sm of
        None \<Rightarrow> (Inl (JobNotFound tid), sm, dlog)
      | Some th \<Rightarrow>
          let messages = thread_messages (cpt_to_str cx) th;
              strategy = (case suggest_compaction mon messages of Some s \<Rightarrow> s | None \<Rightarrow> default_strategy)
          in case compact_thread cx strategy th dlog of
            (Inr r, th1, log1) \<Rightarrow>
              (Inr (SrOk (Some (compacted_message r (usage_percent mon messages)))), modify_thread sid tid (\<lambda>_. th1) sm, log1)
          | (Inl e, th1, log1) \<Rightarrow>
              (Inr (SrError (''Compaction failed: '' @ show_error e)), modify_thread sid tid (\<lambda>_. th1) sm, log1))"

section \<open>Lemmas on sizes\<close>

lemma words_tokens: "to_usize (real n * TOKENS_PER_WORD) = 13 * n div 10"
proof -
  have eq: "real n * TOKENS_PER_WORD = real (13 * n) / real 10" by (simp add: TOKENS_PER_WORD_def)
  have fl: "\<lfloor>real (13 * n) / real 10\<rfloor> = int (13 * n div 10)" by (rule floor_divide_of_nat_eq)
  show ?thesis unfolding to_usize_def eq fl by simp
qed

lemma estimate_message_exact: "estimate_message_tokens m = 13 * length (split_whitespace (cm_content m)) div 10 + 4"
  by (simp add: estimate_message_tokens_def words_tokens)

lemma estimate_tokens_simps [simp]:
  "estimate_tokens [] = 0" "estimate_tokens (m # ms) = estimate_message_tokens m + estimate_tokens ms"
  "estimate_tokens (ms @ ms') = estimate_tokens ms + estimate_tokens ms'"
  by (simp_all add: estimate_tokens_def)

lemma breakdown_fold:
  "cb_total_tokens (fold breakdown_add ms cb) = cb_total_tokens cb + estimate_tokens ms"
  "cb_system_tokens (fold breakdown_add ms cb) + cb_user_tokens (fold breakdown_add ms cb)
      + cb_assistant_tokens (fold breakdown_add ms cb) + cb_tool_tokens (fold breakdown_add ms cb)
    = cb_system_tokens cb + cb_user_tokens cb + cb_assistant_tokens cb + cb_tool_tokens cb + estimate_tokens ms"
  "cb_message_count (fold breakdown_add ms cb) = cb_message_count cb"
  by (induction ms arbitrary: cb) (auto simp: breakdown_add_def Let_def split: chat_role.splits)

text \<open>The breakdown is a breakdown: the parts of the four roles add up to the estimate.\<close>

lemma analyze_context_total:
  "cb_total_tokens (analyze_context ms) = estimate_tokens ms"
  "cb_system_tokens (analyze_context ms) + cb_user_tokens (analyze_context ms)
     + cb_assistant_tokens (analyze_context ms) + cb_tool_tokens (analyze_context ms) = estimate_tokens ms"
  "cb_message_count (analyze_context ms) = length ms"
  by (simp_all add: analyze_context_def breakdown_fold)

text \<open>The size of a turn does not depend on its number.\<close>

definition turn_tokens :: "(json \<Rightarrow> string) \<Rightarrow> turn \<Rightarrow> nat" where
  "turn_tokens to_str t = estimate_tokens (turn_messages to_str 0 t)"

lemma estimate_tokens_contents:
  "estimate_tokens ms = sum_list (map (\<lambda>c. to_usize (real (length (split_whitespace c)) * TOKENS_PER_WORD) + 4) (map cm_content ms))"
  by (induction ms) (simp_all add: estimate_message_tokens_def)

lemma turn_tokens_any: "estimate_tokens (turn_messages to_str i t) = turn_tokens to_str t"
proof -
  have "map cm_content (turn_messages to_str i t) = map cm_content (turn_messages to_str 0 t)"
    by (auto simp: turn_messages_def Let_def call_result_message_def chat_tool_result_def chat_assistant_with_tool_calls_def
        split: prod.splits)
  then show ?thesis by (simp only: turn_tokens_def estimate_tokens_contents)
qed

lemma estimate_turns: "estimate_tokens (concat (map (\<lambda>(i, t). turn_messages to_str i t) (enumerate k ts))) = sum_list (map (turn_tokens to_str) ts)"
  by (induction ts arbitrary: k) (simp_all add: turn_tokens_any)

lemma estimate_thread: "estimate_tokens (thread_messages to_str th) = sum_list (map (turn_tokens to_str) (ct_turns th))"
  by (simp add: thread_messages_def estimate_turns)

section \<open>Lemmas on compaction\<close>

definition unnumbered :: "turn list \<Rightarrow> turn list" where
  "unnumbered ts = map (\<lambda>t. t\<lparr>tn_turn_number := 0\<rparr>) ts"

lemma turn_tokens_number: "turn_tokens to_str (t\<lparr>tn_turn_number := n\<rparr>) = turn_tokens to_str t"
  by (simp add: turn_tokens_def turn_messages_def)

lemma map_enumerate_snd: "map (\<lambda>p. f (snd p)) (enumerate k ts) = map f ts"
  by (induction ts arbitrary: k) simp_all

lemma truncate_turns_last:
  "unnumbered (ct_turns (truncate_turns keep th)) = drop (length (ct_turns th) - keep) (unnumbered (ct_turns th))"
  "map (turn_tokens to_str) (ct_turns (truncate_turns keep th))
     = drop (length (ct_turns th) - keep) (map (turn_tokens to_str) (ct_turns th))"
  by (auto simp: truncate_turns_def unnumbered_def comp_def case_prod_beta drop_map turn_tokens_number map_enumerate_snd)

lemma length_truncate_turns: "length (ct_turns (truncate_turns keep th)) = min keep (length (ct_turns th))"
  by (simp add: truncate_turns_def)

lemma truncate_turns_noop: "length (ct_turns th) \<le> keep \<Longrightarrow> truncate_turns keep th = th"
  by (simp add: truncate_turns_def)

lemma truncate_turns_other: "truncate_turns keep th = th\<lparr>ct_turns := ct_turns (truncate_turns keep th)\<rparr>"
  by (simp add: truncate_turns_def)

lemma write_entry_cases: "write_entry cx app entry dlog = (True, dlog @ [(daily_path cx, entry)]) \<or> write_entry cx app entry dlog = (False, dlog)"
  by (simp add: write_entry_def split: sum.splits)

text \<open>
  What a step of compaction does to the thread and to the log: nothing, or a truncation, which is preceded by an
  entry when turns may go only behind one.
\<close>

lemma compact_step_cases:
  assumes "compact_step cx strategy th dlog = (r, th1, dlog1)"
  shows "th1 = th \<and> dlog1 = dlog \<or>
    (\<exists>keep. th1 = truncate_turns keep th \<and> keep < length (ct_turns th) \<and>
       (strategy = CsTruncate keep \<and> dlog1 = dlog \<or>
        cpt_append cx = None \<and> (strategy = CsSummarize keep \<or> strategy = CsMoveToWorkspace \<and> keep = 5) \<and> dlog1 = dlog \<or>
        (\<exists>summary. strategy = CsSummarize keep \<and>
           generate_summary cx (turns_to_summarize (take (length (ct_turns th) - keep) (ct_turns th))) = Inr summary \<and>
           dlog1 = dlog @ [(daily_path cx, daily_entry cx ''Context Summary'' summary)]) \<or>
        strategy = CsMoveToWorkspace \<and> keep = 10 \<and>
          dlog1 = dlog @ [(daily_path cx, daily_entry cx ''Archived Context''
            (format_turns_for_storage (take (length (ct_turns th) - keep) (ct_turns th))))]))"
proof (cases strategy)
  case (CsSummarize keep)
  note run = assms [unfolded CsSummarize compact_step_def compaction_strategy.case compact_with_summary_def Let_def]
  show ?thesis
  proof (cases "length (ct_turns th) \<le> keep")
    case False
    show ?thesis
    proof (cases "generate_summary cx (turns_to_summarize (take (length (ct_turns th) - keep) (ct_turns th)))")
      case (Inr summary)
      show ?thesis
      proof (cases "cpt_append cx")
        case None
        with run False Inr CsSummarize show ?thesis by auto
      next
        case (Some app)
        with run False Inr CsSummarize write_entry_cases [of cx app "daily_entry cx ''Context Summary'' summary" dlog]
        show ?thesis by auto
      qed
    qed (use run False in auto)
  qed (use run in auto)
next
  case (CsTruncate keep)
  with assms truncate_turns_noop [of th keep] show ?thesis
    by (cases "length (ct_turns th) \<le> keep") (auto simp: compact_step_def compact_truncate_def Let_def)
next
  case CsMoveToWorkspace
  show ?thesis
  proof (cases "cpt_append cx")
    case None
    with assms CsMoveToWorkspace truncate_turns_noop [of th 5] show ?thesis
      by (cases "length (ct_turns th) \<le> 5") (auto simp: compact_step_def compact_to_workspace_def compact_truncate_def Let_def)
  next
    case (Some app)
    let ?entry = "daily_entry cx ''Archived Context'' (format_turns_for_storage (take (length (ct_turns th) - 10) (ct_turns th)))"
    from assms CsMoveToWorkspace Some write_entry_cases [of cx app ?entry dlog] show ?thesis
      by (cases "length (ct_turns th) \<le> 10") (auto simp: compact_step_def compact_to_workspace_def Let_def)
  qed
qed

lemma compact_step_failed: "compact_step cx strategy th dlog = (Inl e, th1, dlog1) \<Longrightarrow> th1 = th \<and> dlog1 = dlog"
  by (auto simp: compact_step_def compact_with_summary_def Let_def write_entry_def
      split: compaction_strategy.splits if_splits sum.splits option.splits prod.splits)

lemma compact_step_removed:
  assumes "compact_step cx strategy th dlog = (Inr p, th1, dlog1)"
  shows "cp_turns_removed p = length (ct_turns th) - length (ct_turns th1)"
proof (cases strategy)
  case (CsSummarize keep)
  with assms show ?thesis
    by (auto simp: compact_step_def compact_with_summary_def empty_partial_def Let_def length_truncate_turns
        split: if_splits sum.splits option.splits prod.splits bool.splits)
next
  case (CsTruncate keep)
  with assms show ?thesis by (auto simp: compact_step_def compact_truncate_def Let_def)
next
  case CsMoveToWorkspace
  with assms show ?thesis
    by (auto simp: compact_step_def compact_to_workspace_def compact_truncate_def empty_partial_def Let_def length_truncate_turns
        split: if_splits option.splits prod.splits bool.splits)
qed

lemma compact_step_turns:
  assumes "compact_step cx strategy th dlog = (r, th1, dlog1)"
  defines "d \<equiv> length (ct_turns th) - length (ct_turns th1)"
  shows "th1 = th\<lparr>ct_turns := ct_turns th1\<rparr>"
    "unnumbered (ct_turns th1) = drop d (unnumbered (ct_turns th))"
    "map (turn_tokens f) (ct_turns th1) = drop d (map (turn_tokens f) (ct_turns th))"
proof -
  from compact_step_cases [OF assms(1)] consider "th1 = th" | keep where "th1 = truncate_turns keep th" by blast
  then have "th1 = th\<lparr>ct_turns := ct_turns th1\<rparr> \<and> unnumbered (ct_turns th1) = drop d (unnumbered (ct_turns th)) \<and>
    map (turn_tokens f) (ct_turns th1) = drop d (map (turn_tokens f) (ct_turns th))"
  proof cases
    case 2
    then have "d = length (ct_turns th) - keep" by (auto simp: d_def length_truncate_turns)
    with 2 truncate_turns_last(1) [of keep th] truncate_turns_last(2) [of f keep th] truncate_turns_other [of keep th] show ?thesis by simp
  qed (simp add: d_def)
  then show "th1 = th\<lparr>ct_turns := ct_turns th1\<rparr>" "unnumbered (ct_turns th1) = drop d (unnumbered (ct_turns th))"
    "map (turn_tokens f) (ct_turns th1) = drop d (map (turn_tokens f) (ct_turns th))" by blast+
qed

text \<open>
  C34. Compaction takes turns from the front only and changes nothing else of the thread; a failure leaves the
  thread and the daily log alone; with a workspace, turns go, unless mere truncation was chosen, only when an entry
  was appended that holds their summary or their text; and the sizes it reports differ by just the
  size of the turns it took.
\<close>

theorem compaction_keeps_recent:
  assumes "compact_thread cx strategy th dlog = (r, th1, dlog1)"
  defines "d \<equiv> length (ct_turns th) - length (ct_turns th1)"
  shows "th1 = th\<lparr>ct_turns := ct_turns th1\<rparr> \<and>
    unnumbered (ct_turns th1) = drop d (unnumbered (ct_turns th)) \<and>
    (isl r \<longrightarrow> th1 = th \<and> dlog1 = dlog) \<and>
    (cpt_append cx \<noteq> None \<and> th1 \<noteq> th \<and> (\<forall>keep. strategy \<noteq> CsTruncate keep) \<longrightarrow>
       dlog1 = dlog @ [(daily_path cx, daily_entry cx ''Archived Context'' (format_turns_for_storage (take d (ct_turns th))))] \<or>
       (\<exists>summary. generate_summary cx (turns_to_summarize (take d (ct_turns th))) = Inr summary \<and>
          dlog1 = dlog @ [(daily_path cx, daily_entry cx ''Context Summary'' summary)])) \<and>
    (\<forall>res. r = Inr res \<longrightarrow> cr_turns_removed res = d \<and>
       cr_tokens_before res
         = cr_tokens_after res + sum_list (map (turn_tokens (cpt_to_str cx)) (take d (ct_turns th))))"
proof -
  obtain s where step: "compact_step cx strategy th dlog = (s, th1, dlog1)"
    using assms(1) by (auto simp: compact_thread_def split: prod.splits sum.splits)
  note turns = compact_step_turns [OF step, folded d_def]
  have failed: "isl r \<longrightarrow> th1 = th \<and> dlog1 = dlog"
    using assms(1) step compact_step_failed [of cx strategy th dlog] by (cases s) (auto simp: compact_thread_def)
  have sizes: "sum_list (map (turn_tokens (cpt_to_str cx)) (ct_turns th)) =
      sum_list (map (turn_tokens (cpt_to_str cx)) (ct_turns th1)) +
      sum_list (map (turn_tokens (cpt_to_str cx)) (take d (ct_turns th)))"
    unfolding turns(3) drop_map by (metis add.commute append_take_drop_id map_append sum_list_append)
  have result: "\<forall>res. r = Inr res \<longrightarrow> cr_turns_removed res = d \<and>
       cr_tokens_before res = cr_tokens_after res + sum_list (map (turn_tokens (cpt_to_str cx)) (take d (ct_turns th)))"
    using assms(1) step compact_step_removed [of cx strategy th dlog _ th1 dlog1] sizes
    by (cases s) (auto simp: compact_thread_def analyze_context_total estimate_thread d_def)
  have entry: "cpt_append cx \<noteq> None \<and> th1 \<noteq> th \<and> (\<forall>keep. strategy \<noteq> CsTruncate keep) \<longrightarrow>
       dlog1 = dlog @ [(daily_path cx, daily_entry cx ''Archived Context'' (format_turns_for_storage (take d (ct_turns th))))] \<or>
       (\<exists>summary. generate_summary cx (turns_to_summarize (take d (ct_turns th))) = Inr summary \<and>
          dlog1 = dlog @ [(daily_path cx, daily_entry cx ''Context Summary'' summary)])"
    using compact_step_cases [OF step] by (auto simp: d_def length_truncate_turns min_absorb1)
  from turns(1,2) failed entry result show ?thesis by blast
qed

definition silent_model :: reasoning where
  "silent_model = \<lparr>re_prompt = (\<lambda>_. []), re_parse = (\<lambda>_. None),
     re_model = (\<lambda>_ _. Inr \<lparr>mr_content = Some ''they met'', mr_tool_calls = [], mr_usage = no_usage\<rparr>)\<rparr>"

definition sample_compactor :: compactor where
  "sample_compactor = \<lparr>cpt_reasoning = silent_model, cpt_date = ''2025-01-02'', cpt_time = ''03:04 UTC'',
     cpt_append = Some (\<lambda>_ _. Inr ()), cpt_to_str = (\<lambda>_. [])\<rparr>"

definition long_thread :: "nat \<Rightarrow> chat_thread" where
  "long_thread n = (chat_thread_with_id 0 7 8)\<lparr>ct_turns := replicate n (turn_complete 1 ''yes'' (new_turn 0 0 ''ok''))\<rparr>"

theorem compaction_keeps_recent_witness:
  "\<exists>r th1 dlog1. compact_thread sample_compactor CsMoveToWorkspace (long_thread 12) [] = (Inr r, th1, dlog1) \<and>
     cr_turns_removed r = 2 \<and> length dlog1 = 1"
proof -
  obtain r th1 dlog1 where run: "compact_thread sample_compactor CsMoveToWorkspace (long_thread 12) [] = (r, th1, dlog1)"
    by (metis prod.collapse)
  have r: "\<exists>res. r = Inr res" "length (ct_turns th1) = 10" "length dlog1 = 1"
    using run by (auto simp: compact_thread_def compact_step_def compact_to_workspace_def write_entry_def sample_compactor_def
        long_thread_def Let_def length_truncate_turns)
  then obtain res where res: "r = Inr res" by blast
  with compaction_keeps_recent [OF run] have "cr_turns_removed res = length (ct_turns (long_thread 12)) - length (ct_turns th1)"
    by blast
  with r(2) have "cr_turns_removed res = 2" by (simp add: long_thread_def)
  with run res r(3) show ?thesis by blast
qed

text \<open>
  A conversation of at most three turns is never compacted, however long its turns are and however far the limit of
  the context is exceeded: every strategy that the monitor suggests keeps at least three turns.
\<close>

lemma long_turns_never_compacted:
  assumes "length (ct_turns th) \<le> 3"
  shows "auto_compact mon cx th dlog = (th, dlog)"
proof -
  have idle: "snd (compact_thread cx s th dlog) = (th, dlog)" if "s \<in> {CsTruncate 3, CsSummarize 5, CsMoveToWorkspace}" for s
    using that assms by (auto simp: compact_thread_def compact_step_def compact_with_summary_def compact_truncate_def
        compact_to_workspace_def truncate_turns_noop Let_def split: option.splits)
  show ?thesis
  proof (cases "suggest_compaction mon (thread_messages (cpt_to_str cx) th)")
    case (Some s)
    then have "s \<in> {CsTruncate 3, CsSummarize 5, CsMoveToWorkspace}"
      by (auto simp: suggest_compaction_def Let_def split: if_splits)
    with idle Some show ?thesis by (simp add: auto_compact_def)
  qed (simp add: auto_compact_def)
qed

lemma long_turns_never_compacted_witness:
  "needs_compaction (cxm_with_limit 8 new_context_monitor) (thread_messages (\<lambda>_. []) (long_thread 2)) \<and>
   auto_compact (cxm_with_limit 8 new_context_monitor) sample_compactor (long_thread 2) [] = (long_thread 2, [])"
proof -
  have "compaction_threshold (cxm_with_limit 8 new_context_monitor) = to_usize (32 / 5)"
    by (simp add: compaction_threshold_def cxm_with_limit_def new_context_monitor_def COMPACTION_THRESHOLD_def)
  also have "\<dots> = 6" by (simp add: to_usize_def)
  finally have threshold: "compaction_threshold (cxm_with_limit 8 new_context_monitor) = 6" .
  have turn: "8 \<le> turn_tokens f (turn_complete 1 ''yes'' (new_turn 0 0 ''ok''))" for f
    by (simp add: turn_tokens_def turn_messages_def turn_complete_def new_turn_def estimate_message_tokens_def)
  have "16 \<le> estimate_tokens (thread_messages (\<lambda>_. []) (long_thread 2))"
    using turn [of "\<lambda>_. []"] by (simp add: estimate_thread long_thread_def numeral_2_eq_2)
  with threshold have "needs_compaction (cxm_with_limit 8 new_context_monitor) (thread_messages (\<lambda>_. []) (long_thread 2))"
    by (simp add: needs_compaction_def)
  with long_turns_never_compacted [of "long_thread 2"] show ?thesis by (simp add: long_thread_def)
qed

text \<open>
  Without a workspace a summary is made and thrown away: the thread and the log are left as after a plain
  truncation, and the turns that were summarised are gone.
\<close>

lemma summary_without_workspace_lost:
  assumes "cpt_append cx = None" "generate_summary cx (turns_to_summarize (take (length (ct_turns th) - keep) (ct_turns th))) = Inr s"
  shows "snd (compact_thread cx (CsSummarize keep) th dlog) = snd (compact_thread cx (CsTruncate keep) th dlog) \<and>
    snd (compact_thread cx (CsTruncate keep) th dlog) = (truncate_turns keep th, dlog)"
  using assms by (simp add: compact_thread_def compact_step_def compact_with_summary_def compact_truncate_def truncate_turns_noop Let_def)

lemma summary_without_workspace_lost_witness:
  "snd (compact_thread (sample_compactor\<lparr>cpt_append := None\<rparr>) (CsSummarize 5) (long_thread 6) [])
     = (truncate_turns 5 (long_thread 6), [])"
proof -
  let ?cx = "sample_compactor\<lparr>cpt_append := None\<rparr>"
  have "\<exists>s. generate_summary ?cx ms = Inr s" for ms
    by (simp add: generate_summary_def reasoning_complete_def sample_compactor_def silent_model_def)
  then obtain s where "generate_summary ?cx (turns_to_summarize (take (length (ct_turns (long_thread 6)) - 5) (ct_turns (long_thread 6)))) = Inr s"
    by blast
  from summary_without_workspace_lost [OF _ this] show ?thesis by simp
qed

text \<open>When the monitor asks for what, in whole numbers, for the thresholds of a new monitor.\<close>

lemma suggest_compaction_exact:
  assumes "cxm_threshold_ratio mon = COMPACTION_THRESHOLD" "0 < cxm_context_limit mon"
  shows "suggest_compaction mon ms =
    (let tokens = estimate_tokens ms; limit = cxm_context_limit mon
     in if tokens < 80 * limit div 100 then None
        else if 95 * limit < 100 * tokens then Some (CsTruncate 3)
        else if 85 * limit < 100 * tokens then Some (CsSummarize 5)
        else Some CsMoveToWorkspace)"
proof -
  let ?t = "estimate_tokens ms" and ?l = "cxm_context_limit mon"
  have eq: "real ?l * COMPACTION_THRESHOLD = real (80 * ?l) / real 100" by (simp add: COMPACTION_THRESHOLD_def)
  have fl: "\<lfloor>real (80 * ?l) / real 100\<rfloor> = int (80 * ?l div 100)" by (rule floor_divide_of_nat_eq)
  have "compaction_threshold mon = 80 * ?l div 100"
    unfolding compaction_threshold_def assms(1) to_usize_def eq fl by simp
  moreover have "real ?t / real ?l > 0.95 \<longleftrightarrow> 95 * ?l < 100 * ?t" using assms(2) by (simp add: field_simps) linarith
  moreover have "real ?t / real ?l > 0.85 \<longleftrightarrow> 85 * ?l < 100 * ?t" using assms(2) by (simp add: field_simps) linarith
  ultimately show ?thesis using assms(2) by (auto simp: suggest_compaction_def needs_compaction_def Let_def)
qed

end
