(* ===== verification/Skill_Types.thy ===== *)
theory Skill_Types
  imports Text_Ops
begin

text \<open>
  Skills: their manifests with the limits on what activates them, the parser of \<open>SKILL.md\<close>, the requirements of a
  skill and the escaping of its text (\<open>src/skills/mod.rs\<close>, \<open>parser.rs\<close>, \<open>gating.rs\<close>). The parser of YAML, the
  digest and the compiler of regular expressions are libraries and are arguments.
\<close>

section \<open>Manifests\<close>

definition MAX_KEYWORDS_PER_SKILL :: nat where "MAX_KEYWORDS_PER_SKILL = 20"

definition MAX_PATTERNS_PER_SKILL :: nat where "MAX_PATTERNS_PER_SKILL = 5"

definition MAX_TAGS_PER_SKILL :: nat where "MAX_TAGS_PER_SKILL = 10"

definition MIN_KEYWORD_TAG_LENGTH :: nat where "MIN_KEYWORD_TAG_LENGTH = 3"

definition MAX_PROMPT_FILE_SIZE :: nat where "MAX_PROMPT_FILE_SIZE = 64 * 1024"

text \<open>The expression \<open>^[a-zA-Z0-9][a-zA-Z0-9._-]{0,63}$\<close>.\<close>

definition skill_name_char :: "char \<Rightarrow> bool" where
  "skill_name_char c \<longleftrightarrow> is_ascii_alphanumeric c \<or> c = CHR ''.'' \<or> c = CHR ''_'' \<or> c = CHR ''-''"

definition validate_skill_name :: "string \<Rightarrow> bool" where
  "validate_skill_name name =
     (case name of
        [] \<Rightarrow> False
      | c # r \<Rightarrow> is_ascii_alphanumeric c \<and> list_all skill_name_char r \<and> length r \<le> 63)"

datatype skill_trust = SkInstalled | SkTrusted

text \<open>The derived order of the trust levels: an installed skill is below a trusted one.\<close>

instantiation skill_trust :: linorder
begin

definition less_eq_skill_trust :: "skill_trust \<Rightarrow> skill_trust \<Rightarrow> bool" where
  "less_eq_skill_trust a b \<longleftrightarrow> a = SkInstalled \<or> b = SkTrusted"

definition less_skill_trust :: "skill_trust \<Rightarrow> skill_trust \<Rightarrow> bool" where
  "less_skill_trust a b \<longleftrightarrow> a = SkInstalled \<and> b = SkTrusted"

instance
  by standard (auto simp: less_eq_skill_trust_def less_skill_trust_def intro: skill_trust.exhaust)

end

type_synonym path = "string list"

datatype skill_source = SrcWorkspace path | SrcUser path | SrcBundled path

record activation_criteria =
  ac_keywords :: "string list"
  ac_exclude_keywords :: "string list"
  ac_patterns :: "string list"
  ac_tags :: "string list"
  ac_max_context_tokens :: nat

definition enforce_limits :: "activation_criteria \<Rightarrow> activation_criteria" where
  "enforce_limits ac =
     (let long = filter (\<lambda>k. byte_len k \<ge> MIN_KEYWORD_TAG_LENGTH)
      in ac\<lparr>ac_keywords := take MAX_KEYWORDS_PER_SKILL (long (ac_keywords ac)),
            ac_exclude_keywords := take MAX_KEYWORDS_PER_SKILL (long (ac_exclude_keywords ac)),
            ac_patterns := take MAX_PATTERNS_PER_SKILL (ac_patterns ac),
            ac_tags := take MAX_TAGS_PER_SKILL (long (ac_tags ac))\<rparr>)"

record gating_requirements =
  gr_bins :: "string list"
  gr_env :: "string list"
  gr_config :: "string list"

text \<open>The requirements stand in the optional metadata of the manifest.\<close>

record skill_manifest =
  smf_name :: string
  smf_version :: string
  smf_description :: string
  smf_activation :: activation_criteria
  smf_requires :: "gating_requirements option"

record loaded_skill =
  sk_manifest :: skill_manifest
  sk_prompt_content :: string
  sk_trust :: skill_trust
  sk_source :: skill_source
  sk_content_hash :: string
  sk_compiled_patterns :: "(string \<Rightarrow> bool) list"
  sk_lowercased_keywords :: "string list"
  sk_lowercased_exclude_keywords :: "string list"
  sk_lowercased_tags :: "string list"

abbreviation sk_name :: "loaded_skill \<Rightarrow> string" where
  "sk_name s \<equiv> smf_name (sk_manifest s)"

definition compile_patterns :: "(string \<Rightarrow> (string \<Rightarrow> bool) option) \<Rightarrow> string list \<Rightarrow> (string \<Rightarrow> bool) list" where
  "compile_patterns compile ps = concat (map (\<lambda>p. case compile p of Some re \<Rightarrow> [re] | None \<Rightarrow> []) ps)"

section \<open>Line endings and escapes\<close>

text \<open>First every pair of carriage return and newline becomes a newline, then every carriage return.\<close>

fun replace_crlf :: "string \<Rightarrow> string" where
  "replace_crlf (c # d # s) =
     (if c = CHR 0x0D \<and> d = CHR 0x0A then CHR 0x0A # replace_crlf s else c # replace_crlf (d # s))"
| "replace_crlf s = s"

definition normalize_line_endings :: "string \<Rightarrow> string" where
  "normalize_line_endings s = replace_char (CHR 0x0D) (CHR 0x0A) (replace_crlf s)"

text \<open>The replacements one after the other; no later one finds what an earlier one has written.\<close>

definition escape_xml_char :: "char \<Rightarrow> string" where
  "escape_xml_char c =
     (if c = CHR ''&'' then ''&amp;''
      else if c = CHR 0x22 then ''&quot;''
      else if c = CHR 0x27 then ''&apos;''
      else if c = CHR ''<'' then ''&lt;''
      else if c = CHR ''>'' then ''&gt;''
      else [c])"

definition escape_xml_attr :: "string \<Rightarrow> string" where
  "escape_xml_attr s = concat (map escape_xml_char s)"

text \<open>
  The expression \<open>(?i)</?[\s\x00]*skill\<close> at the start of a text. A match is written with an escaped bracket; what
  follows the bracket in a match has no bracket, so going on behind the match or behind the bracket is the same.
\<close>

definition skill_tag_at :: "string \<Rightarrow> bool" where
  "skill_tag_at s =
     (case s of
        [] \<Rightarrow> False
      | c # r \<Rightarrow>
          c = CHR ''<'' \<and>
          starts_with (to_lowercase (dropWhile (\<lambda>d. is_whitespace d \<or> d = CHR 0x00)
             (case r of d # q \<Rightarrow> if d = CHR ''/'' then q else r | [] \<Rightarrow> r))) ''skill'')"

fun escape_skill_content :: "string \<Rightarrow> string" where
  "escape_skill_content [] = []"
| "escape_skill_content (c # s) =
     (if skill_tag_at (c # s) then ''&lt;'' @ escape_skill_content s else c # escape_skill_content s)"

section \<open>The parser\<close>

datatype skill_parse_error = SpMissingFrontmatter | SpInvalidYaml string | SpEmptyPrompt | SpInvalidName string

definition show_parse_error :: "skill_parse_error \<Rightarrow> string" where
  "show_parse_error e =
     (case e of
        SpMissingFrontmatter \<Rightarrow> ''Missing YAML frontmatter delimiters (expected `---` at start of file)''
      | SpInvalidYaml m \<Rightarrow> ''Invalid YAML frontmatter: '' @ m
      | SpEmptyPrompt \<Rightarrow> ''Prompt body is empty (no content after frontmatter)''
      | SpInvalidName n \<Rightarrow>
          ''Invalid skill name '' @ [CHR 0x27] @ n @ [CHR 0x27] @ '': must match [a-zA-Z0-9][a-zA-Z0-9._-]{0,63}'')"

record parsed_skill =
  psk_manifest :: skill_manifest
  psk_prompt_content :: string

definition is_newline :: "char \<Rightarrow> bool" where
  "is_newline c \<longleftrightarrow> c = CHR 0x0A"

text \<open>
  \<open>lines()\<close> of a text without carriage returns: every caller normalises the line endings. Offsets count
  characters here and bytes in the code; they are only used to cut the same text.
\<close>

definition lines_of_file :: "string \<Rightarrow> string list" where
  "lines_of_file s = (let ls = split_at_chars is_newline s in if last ls = [] then butlast ls else ls)"

fun closing_offset :: "nat \<Rightarrow> string list \<Rightarrow> nat option" where
  "closing_offset pos [] = None"
| "closing_offset pos (line # ls) =
     (if str_trim line = ''---'' then Some pos else closing_offset (pos + (length line + 1)) ls)"

definition find_closing_delimiter :: "string \<Rightarrow> nat option" where
  "find_closing_delimiter content = closing_offset 0 (lines_of_file content)"

definition parse_skill_md :: "(string \<Rightarrow> string + skill_manifest) \<Rightarrow> string \<Rightarrow> skill_parse_error + parsed_skill" where
  "parse_skill_md yaml content =
     (let trimmed = dropWhile (\<lambda>c. c = CHR 0x0A \<or> c = CHR 0x0D) content
      in if \<not> starts_with trimmed ''---'' then Inl SpMissingFrontmatter
         else case after_first (drop 3 trimmed) newline of
           None \<Rightarrow> Inl SpMissingFrontmatter
         | Some after_first_line \<Rightarrow>
             (case find_closing_delimiter after_first_line of
                None \<Rightarrow> Inl SpMissingFrontmatter
              | Some yaml_end \<Rightarrow>
                  (case yaml (take yaml_end after_first_line) of
                     Inl e \<Rightarrow> Inl (SpInvalidYaml e)
                   | Inr manifest \<Rightarrow>
                       if \<not> validate_skill_name (smf_name manifest) then Inl (SpInvalidName (smf_name manifest))
                       else let m = manifest\<lparr>smf_activation := enforce_limits (smf_activation manifest)\<rparr>;
                                after_yaml = drop yaml_end after_first_line;
                                prompt_content = dropWhile is_newline
                                  (case after_first after_yaml newline of Some r \<Rightarrow> r | None \<Rightarrow> [])
                            in if str_trim prompt_content = [] then Inl SpEmptyPrompt
                               else Inr \<lparr>psk_manifest = m, psk_prompt_content = prompt_content\<rparr>)))"

section \<open>Requirements\<close>

text \<open>What the machine has: programs, environment variables and files.\<close>

record machine =
  mc_has_binary :: "string \<Rightarrow> bool"
  mc_has_env :: "string \<Rightarrow> bool"
  mc_has_file :: "string \<Rightarrow> bool"

definition gating_failures :: "machine \<Rightarrow> gating_requirements \<Rightarrow> string list" where
  "gating_failures mc gr =
     map (\<lambda>b. ''required binary not found: '' @ b) (filter (\<lambda>b. \<not> mc_has_binary mc b) (gr_bins gr))
     @ map (\<lambda>v. ''required env var not set: '' @ v) (filter (\<lambda>v. \<not> mc_has_env mc v) (gr_env gr))
     @ map (\<lambda>p. ''required config not found: '' @ p) (filter (\<lambda>p. \<not> mc_has_file mc p) (gr_config gr))"

definition gating_passed :: "machine \<Rightarrow> gating_requirements \<Rightarrow> bool" where
  "gating_passed mc gr \<longleftrightarrow> gating_failures mc gr = []"

section \<open>Lemmas\<close>

lemma enforce_limits_bounds:
  "length (ac_keywords (enforce_limits ac)) \<le> MAX_KEYWORDS_PER_SKILL"
  "length (ac_exclude_keywords (enforce_limits ac)) \<le> MAX_KEYWORDS_PER_SKILL"
  "length (ac_patterns (enforce_limits ac)) \<le> MAX_PATTERNS_PER_SKILL"
  "length (ac_tags (enforce_limits ac)) \<le> MAX_TAGS_PER_SKILL"
  by (simp_all add: enforce_limits_def Let_def)

lemma replace_crlf_chars: "set (replace_crlf s) \<subseteq> set s"
  by (induction s rule: replace_crlf.induct) auto

lemma normalize_no_cr: "CHR 0x0D \<notin> set (normalize_line_endings s)"
  by (auto simp: normalize_line_endings_def replace_char_def)

lemma replace_crlf_id: "CHR 0x0D \<notin> set s \<Longrightarrow> replace_crlf s = s"
  by (induction s rule: replace_crlf.induct) auto

lemma normalize_idem: "normalize_line_endings (normalize_line_endings s) = normalize_line_endings s"
proof -
  have "replace_char (CHR 0x0D) (CHR 0x0A) t = t" if "CHR 0x0D \<notin> set t" for t
    using that by (induction t) (auto simp: replace_char_def)
  with normalize_no_cr [of s] show ?thesis
    by (subst normalize_line_endings_def) (simp add: replace_crlf_id)
qed

lemma normalize_id: "CHR 0x0D \<notin> set s \<Longrightarrow> normalize_line_endings s = s"
  by (auto simp: normalize_line_endings_def replace_crlf_id replace_char_def intro: map_idI)

lemma after_first_newline: "after_first (s @ CHR 0x0A # r) newline = Some r" if "CHR 0x0A \<notin> set s"
  using that by (induction s) (auto simp: newline_def starts_with_simps)

lemma split_newline:
  "CHR 0x0A \<notin> set s \<Longrightarrow> split_at_chars is_newline (s @ CHR 0x0A # r) = s # split_at_chars is_newline r"
  by (induction s) (auto simp: is_newline_def)

lemma lines_of_file_Cons:
  assumes "CHR 0x0A \<notin> set l"
  shows "lines_of_file (l @ CHR 0x0A # r) = l # lines_of_file r"
  using split_at_chars_nonempty [of is_newline r] by (simp add: lines_of_file_def split_newline assms Let_def)

lemma closing_offset_found:
  assumes "\<forall>l \<in> set ls. str_trim l \<noteq> ''---'' \<and> CHR 0x0A \<notin> set l"
  shows "closing_offset pos (lines_of_file (concat (map (\<lambda>l. l @ newline) ls) @ ''---'' @ CHR 0x0A # r))
    = Some (pos + length (concat (map (\<lambda>l. l @ newline) ls)))"
  using assms
proof (induction ls arbitrary: pos)
  case Nil
  have "str_trim ''---'' = ''---''" by code_simp
  then show ?case using lines_of_file_Cons [of "''---''" r] by simp
next
  case (Cons l ls)
  then show ?case by (simp add: newline_def lines_of_file_Cons)
qed

text \<open>
  The parser takes a skill file apart as its format says: a line of three dashes, the lines of the manifest
  up to the next such line, and behind it the prompt, without the empty lines at its start; the manifest gets its limits.
\<close>

lemma parse_skill_file:
  assumes "\<forall>l \<in> set ls. str_trim l \<noteq> ''---'' \<and> CHR 0x0A \<notin> set l"
    "yaml (concat (map (\<lambda>l. l @ newline) ls)) = Inr m" "validate_skill_name (smf_name m)"
    "body \<noteq> [] \<and> hd body \<noteq> CHR 0x0A" "str_trim body \<noteq> []"
  shows "parse_skill_md yaml (''---'' @ newline @ concat (map (\<lambda>l. l @ newline) ls) @ ''---'' @ newline @ replicate n (CHR 0x0A) @ body)
    = Inr \<lparr>psk_manifest = m\<lparr>smf_activation := enforce_limits (smf_activation m)\<rparr>, psk_prompt_content = body\<rparr>"
proof -
  let ?y = "concat (map (\<lambda>l. l @ newline) ls)" and ?rest = "replicate n (CHR 0x0A) @ body"
  let ?tail = "?y @ ''---'' @ CHR 0x0A # ?rest"
  have "find_closing_delimiter ?tail = Some (length ?y)"
    using closing_offset_found [OF assms(1), of 0] by (simp only: find_closing_delimiter_def add_0)
  moreover have "after_first (drop 3 (''---'' @ CHR 0x0A # ?tail)) newline = Some ?tail"
    using after_first_newline [of "[]" ?tail] by simp
  moreover have "after_first (''---'' @ CHR 0x0A # ?rest) newline = Some ?rest"
    by (rule after_first_newline) simp
  moreover have "dropWhile is_newline ?rest = body"
    using assms(4) by (induction n) (cases body, auto simp: is_newline_def)+
  moreover have "dropWhile (\<lambda>c. c = CHR 0x0A \<or> c = CHR 0x0D) (''---'' @ CHR 0x0A # ?tail) = ''---'' @ CHR 0x0A # ?tail"
    by simp
  ultimately have "parse_skill_md yaml (''---'' @ CHR 0x0A # ?tail)
      = Inr \<lparr>psk_manifest = m\<lparr>smf_activation := enforce_limits (smf_activation m)\<rparr>, psk_prompt_content = body\<rparr>"
    using assms(2,3,5) by (simp add: parse_skill_md_def Let_def starts_with_simps)
  then show ?thesis by (simp add: newline_def)
qed

definition sample_manifest :: skill_manifest where
  "sample_manifest = \<lparr>smf_name = ''notes'', smf_version = ''1'', smf_description = '''',
     smf_activation = \<lparr>ac_keywords = [''note'', ''a''], ac_exclude_keywords = [], ac_patterns = [], ac_tags = [],
       ac_max_context_tokens = 50\<rparr>, smf_requires = None\<rparr>"

lemma parse_skill_file_witness:
  "parse_skill_md (\<lambda>_. Inr sample_manifest) (''---'' @ newline @ ''name: notes'' @ newline @ ''---'' @ newline @ newline @ ''Take notes.'')
     = Inr \<lparr>psk_manifest = sample_manifest\<lparr>smf_activation := enforce_limits (smf_activation sample_manifest)\<rparr>,
         psk_prompt_content = ''Take notes.''\<rparr>"
proof -
  have "str_trim ''name: notes'' \<noteq> ''---'' \<and> str_trim ''Take notes.'' \<noteq> [] \<and> validate_skill_name (smf_name sample_manifest)"
    by code_simp
  then show ?thesis
    using parse_skill_file [of "[''name: notes'']" "\<lambda>_. Inr sample_manifest" sample_manifest "''Take notes.''" 1]
    by (simp add: newline_def)
qed

section \<open>Escaped texts\<close>

lemma starts_with_append: "starts_with s p \<Longrightarrow> starts_with (s @ t) p"
  by (auto simp: starts_with_iff)

text \<open>Whether a tag begins depends on the characters before the next bracket only.\<close>

definition tag_rest :: "string \<Rightarrow> bool" where
  "tag_rest r \<longleftrightarrow>
     starts_with (to_lowercase (dropWhile (\<lambda>d. is_whitespace d \<or> d = CHR 0x00)
       (case r of d # q \<Rightarrow> if d = CHR ''/'' then q else r | [] \<Rightarrow> r))) ''skill''"

lemma skill_tag_at_Cons: "skill_tag_at (c # r) \<longleftrightarrow> c = CHR ''<'' \<and> tag_rest r"
  by (simp add: skill_tag_at_def tag_rest_def)

lemma not_white_lt: "\<not> is_whitespace (CHR ''<'')" "\<not> is_whitespace (CHR ''&'')"
  by (simp_all add: is_whitespace_def)

text \<open>Behind a run without bracket the text is the same, or an escaped bracket takes the place of a bracket.\<close>

fun same_run :: "string \<Rightarrow> string \<Rightarrow> bool" where
  "same_run [] t \<longleftrightarrow> t = []"
| "same_run (c # s) t \<longleftrightarrow> (if c = CHR ''<'' then t \<noteq> [] \<and> hd t \<in> {CHR ''<'', CHR ''&''} else t \<noteq> [] \<and> hd t = c \<and> same_run s (tl t))"

lemma same_run_starts:
  "same_run s t \<Longrightarrow> CHR ''<'' \<notin> set p \<Longrightarrow> CHR ''&'' \<notin> set p \<Longrightarrow>
   starts_with (to_lowercase s) p = starts_with (to_lowercase t) p"
proof (induction s t arbitrary: p rule: same_run.induct)
  case (2 c s t)
  show ?case
  proof (cases p)
    case (Cons d q)
    have low: "lower_char (CHR ''<'') = CHR ''<''" "lower_char (CHR ''&'') = CHR ''&''" by (simp_all add: lower_char_def)
    obtain e u where t: "t = e # u" using "2.prems"(1) by (cases t) (auto split: if_splits)
    show ?thesis
    proof (cases "c = CHR ''<''")
      case True
      with "2.prems" t Cons low show ?thesis by (auto simp: to_lowercase_def starts_with_simps)
    next
      case False
      with "2.prems" t have "e = c" "same_run s u" by auto
      with "2.IH" False "2.prems" t Cons show ?thesis by (auto simp: to_lowercase_def starts_with_simps)
    qed
  qed (simp add: starts_with_simps)
qed simp

lemma same_run_dropWhile:
  assumes "\<not> P (CHR ''<'')" "\<not> P (CHR ''&'')"
  shows "same_run s t \<Longrightarrow> same_run (dropWhile P s) (dropWhile P t)"
proof (induction s t rule: same_run.induct)
  case (2 c s t)
  then obtain e u where t: "t = e # u" by (cases t) (auto split: if_splits)
  with 2 assms show ?case by (auto split: if_splits)
qed simp

lemma same_run_tag: "same_run s t \<Longrightarrow> tag_rest s = tag_rest t"
proof -
  assume run: "same_run s t"
  let ?skip = "\<lambda>r. case r of d # q \<Rightarrow> if d = CHR ''/'' then q else r | [] \<Rightarrow> r"
  have "same_run (?skip s) (?skip t)"
  proof (cases s)
    case (Cons c r)
    with run obtain e u where t: "t = e # u" by (cases t) (auto split: if_splits)
    show ?thesis
    proof (cases "c = CHR ''<''")
      case True
      with run Cons t show ?thesis by auto
    next
      case False
      with run Cons t have "e = c" "same_run r u" by auto
      with False Cons t show ?thesis by simp
    qed
  qed (use run in simp)
  then have "same_run (dropWhile (\<lambda>d. is_whitespace d \<or> d = CHR 0x00) (?skip s)) (dropWhile (\<lambda>d. is_whitespace d \<or> d = CHR 0x00) (?skip t))"
    by (rule same_run_dropWhile [rotated 2]) (simp_all add: not_white_lt)
  then show ?thesis unfolding tag_rest_def by (rule same_run_starts) simp_all
qed

lemma escape_same_run: "same_run s (escape_skill_content s)"
  by (induction s) (auto simp: skill_tag_at_Cons)

text \<open>
  No text of a skill can close or open a block of skills: in the escaped text no tag of a skill begins anywhere,
  in whatever case and with whatever space or null characters it is written; and escaping it again changes nothing.
\<close>

lemma escaped_text_has_no_tag:
  "\<not> skill_tag_at (drop n (escape_skill_content s)) \<and>
   escape_skill_content (escape_skill_content s) = escape_skill_content s"
proof -
  have none: "\<not> skill_tag_at (drop n (escape_skill_content s))" for n
  proof (induction s arbitrary: n)
    case (Cons c s)
    show ?case
    proof (cases "skill_tag_at (c # s)")
      case True
      have amp: "\<not> skill_tag_at (CHR ''&'' # r)" "\<not> skill_tag_at (CHR ''l'' # r)" "\<not> skill_tag_at (CHR ''t'' # r)"
          "\<not> skill_tag_at (CHR '';'' # r)" for r
        by (simp_all add: skill_tag_at_Cons)
      consider "n = 0" | "n = Suc 0" | "n = Suc (Suc 0)" | "n = Suc (Suc (Suc 0))" | m where "n = Suc (Suc (Suc (Suc m)))"
        by (metis not0_implies_Suc)
      then show ?thesis
      proof cases
        case 5
        with True Cons.IH [of m] show ?thesis by simp
      qed (use True amp in simp_all)
    next
      case False
      then have "\<not> (c = CHR ''<'' \<and> tag_rest (escape_skill_content s))"
        using same_run_tag [OF escape_same_run [of s]] by (auto simp: skill_tag_at_Cons)
      with False Cons.IH show ?thesis by (cases n) (auto simp: skill_tag_at_Cons)
    qed
  qed (simp add: skill_tag_at_def)
  have keep: "(\<And>n. \<not> skill_tag_at (drop n t)) \<Longrightarrow> escape_skill_content t = t" for t
  proof (induction t)
    case (Cons c t)
    have "\<not> skill_tag_at (c # t)" using Cons.prems [of 0] by simp
    moreover have "\<not> skill_tag_at (drop n t)" for n using Cons.prems [of "Suc n"] by simp
    ultimately show ?case using Cons.IH by simp
  qed simp
  from none keep show ?thesis by blast
qed

end
