(* ===== verification/Skill_Selection.thy ===== *)
theory Skill_Selection
  imports Skill_Types Tool_Recovery "HOL-Library.Sublist"
begin

text \<open>
  Which skills a message activates and what an active skill may do: the scores and the budget of
  \<open>src/skills/selector.rs\<close>, the mentions and the confidence of \<open>crates/lunarwing_skills/src/selector.rs\<close>, and the
  ceiling of tools of \<open>src/skills/attenuation.rs\<close>. Scores are bounded by their caps, so they are kept as
  natural numbers.
\<close>

section \<open>Scores\<close>

definition MAX_SKILL_CONTEXT_TOKENS :: nat where "MAX_SKILL_CONTEXT_TOKENS = 4000"

definition MAX_KEYWORD_SCORE :: nat where "MAX_KEYWORD_SCORE = 30"

definition MAX_TAG_SCORE :: nat where "MAX_TAG_SCORE = 15"

definition MAX_REGEX_SCORE :: nat where "MAX_REGEX_SCORE = 40"

definition trim_non_alphanumeric :: "string \<Rightarrow> string" where
  "trim_non_alphanumeric w =
     rev (dropWhile (\<lambda>c. \<not> is_alphanumeric c) (rev (dropWhile (\<lambda>c. \<not> is_alphanumeric c) w)))"

definition skill_keyword_points :: "string \<Rightarrow> string \<Rightarrow> nat" where
  "skill_keyword_points message_lower kw =
     (if list_ex (\<lambda>w. trim_non_alphanumeric w = kw) (split_whitespace message_lower) then 10
      else if contains_str message_lower kw then 5 else 0)"

definition score_skill :: "loaded_skill \<Rightarrow> string \<Rightarrow> string \<Rightarrow> nat" where
  "score_skill sk message_lower message =
     (if list_ex (\<lambda>e. contains_str message_lower e) (sk_lowercased_exclude_keywords sk) then 0
      else min (sum_list (map (skill_keyword_points message_lower) (sk_lowercased_keywords sk))) MAX_KEYWORD_SCORE
         + min (sum_list (map (\<lambda>t. if contains_str message_lower t then 3 else 0) (sk_lowercased_tags sk))) MAX_TAG_SCORE
         + min (sum_list (map (\<lambda>re. if re message then 20 else 0) (sk_compiled_patterns sk))) MAX_REGEX_SCORE)"

text \<open>A quarter of the bytes of the prompt counts when it is more than twice what the skill declares.\<close>

definition approx_tokens :: "string \<Rightarrow> nat" where
  "approx_tokens prompt = nat \<lfloor>real (byte_len prompt) * 0.25\<rfloor>"

definition skill_token_cost :: "loaded_skill \<Rightarrow> nat" where
  "skill_token_cost sk =
     (let declared = ac_max_context_tokens (smf_activation (sk_manifest sk));
          approx = approx_tokens (sk_prompt_content sk)
      in max (if approx > declared * 2 then approx else declared) 1)"

fun pick_skills :: "nat \<Rightarrow> nat \<Rightarrow> loaded_skill list \<Rightarrow> loaded_skill list" where
  "pick_skills slots budget [] = []"
| "pick_skills slots budget (sk # sks) =
     (if slots = 0 then []
      else if skill_token_cost sk \<le> budget
      then sk # pick_skills (slots - 1) (budget - skill_token_cost sk) sks
      else pick_skills slots budget sks)"

definition prefilter_skills :: "string \<Rightarrow> loaded_skill list \<Rightarrow> nat \<Rightarrow> nat \<Rightarrow> loaded_skill list" where
  "prefilter_skills message available max_candidates max_context_tokens =
     (if available = [] \<or> message = [] then []
      else let score = (\<lambda>sk. score_skill sk (to_lowercase message) message)
           in pick_skills max_candidates max_context_tokens
                (sort_key (\<lambda>sk. - int (score sk)) (filter (\<lambda>sk. score sk > 0) available)))"

definition apply_confidence_factor :: "nat \<Rightarrow> real \<Rightarrow> bool \<Rightarrow> nat" where
  "apply_confidence_factor base_score confidence is_authored =
     (if is_authored then base_score
      else nat \<lfloor>real base_score * (0.5 + 0.5 * min (max confidence 0) 1)\<rfloor>)"

section \<open>Mentions\<close>

text \<open>
  A mention is a slash and a name at the start of the message or behind a blank, a tab, a newline, a quotation
  mark or an opening parenthesis. The code notes the places and replaces them from the end; here the text is
  rewritten in one pass, in which \<open>skip\<close> counts the characters of a mention that are still to be passed over.
\<close>

definition mention_boundary :: "char option \<Rightarrow> bool" where
  "mention_boundary prev =
     (case prev of None \<Rightarrow> True
      | Some c \<Rightarrow> c \<in> {CHR 0x20, CHR 0x0A, CHR 0x09, CHR 0x22, CHR ''(''})"

definition mention_text :: "string \<Rightarrow> loaded_skill \<Rightarrow> string" where
  "mention_text name sk =
     (if smf_description (sk_manifest sk) = [] then replace_char (CHR ''-'') (CHR 0x20) name
      else smf_description (sk_manifest sk))"

fun scan_mentions ::
    "(string \<Rightarrow> loaded_skill option) \<Rightarrow> char option \<Rightarrow> nat \<Rightarrow> string \<Rightarrow> loaded_skill list \<times> string" where
  "scan_mentions look prev skip [] = ([], [])"
| "scan_mentions look prev skip (c # s) =
     (if skip > 0 then scan_mentions look (Some c) (skip - 1) s
      else let name = takeWhile skill_name_char s;
               found = (if c = CHR ''/'' \<and> mention_boundary prev \<and> name \<noteq> [] then look (to_lowercase name) else None)
           in case found of
             Some sk \<Rightarrow> (let (sks, out) = scan_mentions look (Some c) (length name) s in (sk # sks, mention_text name sk @ out))
           | None \<Rightarrow> (let (sks, out) = scan_mentions look (Some c) 0 s in (sks, c # out)))"

fun unique_by_name :: "string list \<Rightarrow> loaded_skill list \<Rightarrow> loaded_skill list" where
  "unique_by_name seen [] = []"
| "unique_by_name seen (sk # sks) =
     (if List.member seen (sk_name sk) then unique_by_name seen sks
      else sk # unique_by_name (sk_name sk # seen) sks)"

text \<open>Of two skills whose names differ by case only, the later one is found.\<close>

definition skill_by_mention :: "loaded_skill list \<Rightarrow> string \<Rightarrow> loaded_skill option" where
  "skill_by_mention available name = find (\<lambda>sk. to_lowercase (sk_name sk) = name) (rev available)"

definition extract_skill_mentions :: "string \<Rightarrow> loaded_skill list \<Rightarrow> loaded_skill list \<times> string" where
  "extract_skill_mentions message available =
     (let (sks, rewritten) = scan_mentions (skill_by_mention available) None 0 message
      in (unique_by_name [] sks, rewritten))"

section \<open>Attenuation\<close>

definition READ_ONLY_TOOLS :: "string list" where
  "READ_ONLY_TOOLS = [''memory_search'', ''memory_read'', ''memory_tree'', ''time'', ''echo'', ''json'', ''skill_list'',
     ''skill_search'']"

record attenuation_result =
  at_tools :: "tool_definition list"
  at_min_trust :: skill_trust
  at_explanation :: string
  at_removed_tools :: "string list"

definition attenuate_tools :: "tool_definition list \<Rightarrow> loaded_skill list \<Rightarrow> attenuation_result" where
  "attenuate_tools tools active =
     (if active = []
      then \<lparr>at_tools = tools, at_min_trust = SkTrusted, at_explanation = ''No skills active, all tools available'',
            at_removed_tools = []\<rparr>
      else let min_trust = foldl min SkTrusted (map sk_trust active)
           in case min_trust of
             SkTrusted \<Rightarrow>
               \<lparr>at_tools = tools, at_min_trust = min_trust,
                at_explanation = ''All active skills are trusted (full trust), all tools available'', at_removed_tools = []\<rparr>
           | SkInstalled \<Rightarrow>
               (let kept = filter (\<lambda>t. List.member READ_ONLY_TOOLS (td_name t)) tools;
                    removed = map td_name (filter (\<lambda>t. \<not> List.member READ_ONLY_TOOLS (td_name t)) tools)
                in \<lparr>at_tools = kept, at_min_trust = min_trust,
                    at_explanation = ''Installed skill present: restricted to read-only tools, removed ''
                      @ show_nat (length removed) @ '' tool(s): '' @ join_with '', '' removed,
                    at_removed_tools = removed\<rparr>))"

section \<open>Lemmas on the selection\<close>

lemma approx_tokens_div [code]: "approx_tokens prompt = byte_len prompt div 4"
proof -
  have eq: "real (byte_len prompt) * 0.25 = real (byte_len prompt) / real 4" by simp
  show ?thesis unfolding approx_tokens_def eq floor_divide_of_nat_eq by simp
qed

lemma score_bounded: "score_skill sk ml m \<le> 85"
proof -
  have "min a MAX_KEYWORD_SCORE + min b MAX_TAG_SCORE + min c MAX_REGEX_SCORE \<le> 85" for a b c
    by (simp add: MAX_KEYWORD_SCORE_def MAX_TAG_SCORE_def MAX_REGEX_SCORE_def)
  then show ?thesis by (simp add: score_skill_def)
qed

lemma score_excluded: "e \<in> set (sk_lowercased_exclude_keywords sk) \<Longrightarrow> contains_str ml e \<Longrightarrow> score_skill sk ml m = 0"
  by (auto simp: score_skill_def list_ex_iff)

lemma token_cost_pos: "0 < skill_token_cost sk"
  by (simp add: skill_token_cost_def Let_def)

lemma pick_skills_subseq: "subseq (pick_skills slots budget sks) sks"
proof (induction slots budget sks rule: pick_skills.induct)
  case (2 slots budget sk sks)
  then show ?case by (auto intro: list_emb_Cons)
qed simp

lemma pick_skills_bounds:
  "length (pick_skills slots budget sks) \<le> slots \<and> sum_list (map skill_token_cost (pick_skills slots budget sks)) \<le> budget"
proof (induction slots budget sks rule: pick_skills.induct)
  case (2 slots budget sk sks)
  then show ?case by (cases slots) (auto simp: token_cost_pos)
qed simp

text \<open>A skill that is left out found no free place, or did not fit into what the chosen ones left.\<close>

lemma pick_skills_full:
  "sk \<in> set sks \<Longrightarrow> sk \<in> set (pick_skills slots budget sks) \<or> length (pick_skills slots budget sks) = slots \<or>
     budget < skill_token_cost sk + sum_list (map skill_token_cost (pick_skills slots budget sks))"
proof (induction slots budget sks rule: pick_skills.induct)
  case (2 slots budget s sks)
  show ?case
  proof (cases "slots = 0")
    case False
    show ?thesis
    proof (cases "skill_token_cost s \<le> budget")
      case True
      with 2 False show ?thesis by auto
    next
      case no: False
      with 2 False show ?thesis by auto
    qed
  qed simp
qed simp

lemma sorted_subseq: "subseq xs ys \<Longrightarrow> sorted ys \<Longrightarrow> sorted xs"
  by (metis subseq_conv_nths sorted_nths)

text \<open>
  C32. The skills that a message activates are known skills, in the order of their scores, at most as many as allowed
  and with at most the allowed tokens together; none of them is vetoed by a keyword, each scores; and a
  skill that scores is left out only when the places are taken or its tokens do not fit.
\<close>

theorem selected_skills_sound:
  fixes message available n budget
  defines "score \<equiv> \<lambda>sk. score_skill sk (to_lowercase message) message"
    and "chosen \<equiv> prefilter_skills message available n budget"
  shows "length chosen \<le> n \<and> sum_list (map skill_token_cost chosen) \<le> budget \<and>
    sorted (map (\<lambda>sk. - int (score sk)) chosen) \<and>
    list_all (\<lambda>sk. sk \<in> set available \<and> 0 < score sk \<and> score sk \<le> 85 \<and>
      \<not> list_ex (contains_str (to_lowercase message)) (sk_lowercased_exclude_keywords sk)) chosen \<and>
    list_all (\<lambda>sk. message = [] \<or> score sk = 0 \<or> sk \<in> set chosen \<or> length chosen = n \<or>
      budget < skill_token_cost sk + sum_list (map skill_token_cost chosen)) available"
proof (cases "available = [] \<or> message = []")
  case True
  then show ?thesis by (auto simp: chosen_def prefilter_skills_def list_all_iff)
next
  case False
  define cands where "cands = sort_key (\<lambda>sk. - int (score sk)) (filter (\<lambda>sk. score sk > 0) available)"
  have chosen: "chosen = pick_skills n budget cands"
    using False by (simp add: chosen_def prefilter_skills_def cands_def score_def Let_def)
  have sub: "subseq chosen cands" unfolding chosen by (rule pick_skills_subseq)
  have cands: "set cands = {sk \<in> set available. 0 < score sk}" "sorted (map (\<lambda>sk. - int (score sk)) cands)"
    by (auto simp: cands_def)
  have "sorted (map (\<lambda>sk. - int (score sk)) chosen)"
    using subseq_map [OF sub, of "\<lambda>sk. - int (score sk)"] cands(2) by (rule sorted_subseq)
  moreover have "list_all (\<lambda>sk. sk \<in> set available \<and> 0 < score sk \<and> score sk \<le> 85 \<and>
      \<not> list_ex (contains_str (to_lowercase message)) (sk_lowercased_exclude_keywords sk)) chosen"
  proof (unfold list_all_iff, rule ballI)
    fix sk
    assume "sk \<in> set chosen"
    with sub have "sk \<in> set cands" by (metis notin_set_nthsI subseq_conv_nths)
    with cands(1) have "sk \<in> set available" "0 < score sk" by auto
    moreover from this(2) have "\<not> list_ex (contains_str (to_lowercase message)) (sk_lowercased_exclude_keywords sk)"
      using score_excluded [of _ sk "to_lowercase message" message] by (auto simp: list_ex_iff score_def)
    ultimately show "sk \<in> set available \<and> 0 < score sk \<and> score sk \<le> 85 \<and>
        \<not> list_ex (contains_str (to_lowercase message)) (sk_lowercased_exclude_keywords sk)"
      by (simp add: score_def score_bounded)
  qed
  moreover have "list_all (\<lambda>sk. message = [] \<or> score sk = 0 \<or> sk \<in> set chosen \<or> length chosen = n \<or>
      budget < skill_token_cost sk + sum_list (map skill_token_cost chosen)) available"
  proof (unfold list_all_iff, rule ballI)
    fix sk
    assume "sk \<in> set available"
    then show "message = [] \<or> score sk = 0 \<or> sk \<in> set chosen \<or> length chosen = n \<or>
        budget < skill_token_cost sk + sum_list (map skill_token_cost chosen)"
      using cands(1) pick_skills_full [of sk cands n budget] unfolding chosen by auto
  qed
  moreover have "length chosen \<le> n \<and> sum_list (map skill_token_cost chosen) \<le> budget"
    unfolding chosen by (rule pick_skills_bounds)
  ultimately show ?thesis by blast
qed

section \<open>Lemmas on attenuation\<close>

lemma min_trust_iff: "foldl min SkTrusted ts = SkInstalled \<longleftrightarrow> SkInstalled \<in> set ts"
proof -
  have "foldl min a ts = SkInstalled \<longleftrightarrow> a = SkInstalled \<or> SkInstalled \<in> set ts" for a
    by (induction ts arbitrary: a) (auto simp: min_def less_eq_skill_trust_def)
  then show ?thesis by simp
qed

lemma attenuate_tools_iff:
  "t \<in> set (at_tools (attenuate_tools tools active)) \<longleftrightarrow>
     t \<in> set tools \<and> ((\<exists>s \<in> set active. sk_trust s = SkInstalled) \<longrightarrow> td_name t \<in> set READ_ONLY_TOOLS)"
proof (cases "foldl min SkTrusted (map sk_trust active)")
  case SkInstalled
  then have "SkInstalled \<in> set (map sk_trust active)" by (simp only: min_trust_iff)
  then have "\<exists>s \<in> set active. sk_trust s = SkInstalled" "active \<noteq> []" by (auto simp: image_iff eq_commute)
  with SkInstalled show ?thesis by (auto simp: attenuate_tools_def Let_def)
next
  case SkTrusted
  then have "\<not> (\<exists>s \<in> set active. sk_trust s = SkInstalled)"
    using min_trust_iff [of "map sk_trust active"] by (auto simp: image_iff eq_commute)
  with SkTrusted show ?thesis by (auto simp: attenuate_tools_def Let_def)
qed

text \<open>
  C31. One installed skill among the active ones is enough to take every tool away but the read-only ones, whatever
  the other skills are trusted with; what is taken away is reported; and activating more skills never gives
  a tool back.
\<close>

theorem installed_skill_lowers_ceiling:
  "(list_ex (\<lambda>s. sk_trust s = SkInstalled) active \<longrightarrow>
      list_all (\<lambda>t. td_name t \<in> set READ_ONLY_TOOLS) (at_tools (attenuate_tools tools active))) \<and>
   mset (map td_name tools)
     = mset (map td_name (at_tools (attenuate_tools tools active))) + mset (at_removed_tools (attenuate_tools tools active)) \<and>
   set (at_tools (attenuate_tools tools (active @ others))) \<subseteq> set (at_tools (attenuate_tools tools active))"
proof (intro conjI)
  show "list_ex (\<lambda>s. sk_trust s = SkInstalled) active \<longrightarrow>
      list_all (\<lambda>t. td_name t \<in> set READ_ONLY_TOOLS) (at_tools (attenuate_tools tools active))"
    using attenuate_tools_iff by (auto simp: list_ex_iff list_all_iff)
  show "mset (map td_name tools)
     = mset (map td_name (at_tools (attenuate_tools tools active))) + mset (at_removed_tools (attenuate_tools tools active))"
  proof -
    have "mset (map td_name ts) = mset (map td_name (filter P ts)) + mset (map td_name (filter (\<lambda>t. \<not> P t) ts))" for P ts
      by (induction ts) auto
    then show ?thesis by (auto simp: attenuate_tools_def Let_def split: skill_trust.splits)
  qed
  show "set (at_tools (attenuate_tools tools (active @ others))) \<subseteq> set (at_tools (attenuate_tools tools active))"
    using attenuate_tools_iff by auto
qed

definition plain_skill :: "skill_trust \<Rightarrow> loaded_skill" where
  "plain_skill trust = \<lparr>sk_manifest = sample_manifest, sk_prompt_content = ''x'', sk_trust = trust, sk_source = SrcUser [],
     sk_content_hash = [], sk_compiled_patterns = [], sk_lowercased_keywords = [''note''],
     sk_lowercased_exclude_keywords = [], sk_lowercased_tags = []\<rparr>"

theorem installed_skill_lowers_ceiling_witness:
  "list_all (\<lambda>t. td_name t \<in> set READ_ONLY_TOOLS)
     (at_tools (attenuate_tools [\<lparr>td_name = ''shell'', td_description = '''', td_parameters = JNull\<rparr>]
        [plain_skill SkTrusted, plain_skill SkInstalled]))"
proof -
  have "list_ex (\<lambda>s. sk_trust s = SkInstalled) [plain_skill SkTrusted, plain_skill SkInstalled]"
    by (simp add: plain_skill_def)
  with installed_skill_lowers_ceiling show ?thesis by blast
qed

text \<open>A name is rewritten to the description of its skill, and the skill is active.\<close>

lemma mention_example:
  "let sk = plain_skill SkTrusted\<lparr>sk_manifest := sample_manifest\<lparr>smf_description := ''my notes''\<rparr>\<rparr>
   in extract_skill_mentions ''see /Notes and a/notes'' [sk] = ([sk], ''see my notes and a/notes'')"
  by (simp add: extract_skill_mentions_def skill_by_mention_def plain_skill_def sample_manifest_def
      mention_boundary_def skill_name_char_def is_ascii_alphanumeric_def to_lowercase_def lower_char_def mention_text_def)
    code_simp

end
