(* ===== verification/Skill_Registry.thy ===== *)
theory Skill_Registry
  imports Skill_Selection
begin

text \<open>
  The registry of skills (\<open>src/skills/registry.rs\<close>): discovery from directories and from the bundled texts,
  installation and removal, over a model of the files below the skill directories. An installation and a
  removal are split, as in the code, into the part on the disk and the part on the registry, which other tasks may
  come between.
\<close>

section \<open>Files\<close>

text \<open>
  What a path names: a text, a file that is no UTF-8 with its size, a directory, or a symbolic link with whether
  its target exists. The order of the table is the order in which a directory is read.
\<close>

datatype fs_node = FnText string | FnBinary nat | FnDir | FnLink bool

type_synonym skill_fs = "(path, fs_node) hmap"

definition try_exists :: "path \<Rightarrow> skill_fs \<Rightarrow> bool" where
  "try_exists p fs = (case hm_get fs p of None \<Rightarrow> False | Some (FnLink e) \<Rightarrow> e | Some _ \<Rightarrow> True)"

definition read_dir :: "path \<Rightarrow> skill_fs \<Rightarrow> path list option" where
  "read_dir d fs =
     (case hm_get fs d of
        Some FnDir \<Rightarrow> Some (filter (\<lambda>p. p \<noteq> [] \<and> butlast p = d) (map fst fs))
      | Some (FnLink True) \<Rightarrow> Some (filter (\<lambda>p. p \<noteq> [] \<and> butlast p = d) (map fst fs))
      | _ \<Rightarrow> None)"

definition show_path :: "path \<Rightarrow> string" where
  "show_path p = concat (map (\<lambda>c. ''/'' @ c) p)"

text \<open>
  The surroundings: the parser of YAML, the digest, the compiler of regular expressions, the machine, which paths can
  be written, and the words of the system for a failed operation.
\<close>

record skill_env =
  se_yaml :: "string \<Rightarrow> string + skill_manifest"
  se_hash :: "string \<Rightarrow> string"
  se_compile :: "string \<Rightarrow> (string \<Rightarrow> bool) option"
  se_machine :: machine
  se_can_write :: "path \<Rightarrow> bool"
  se_io_error :: "path \<Rightarrow> string"

section \<open>Errors and the registry\<close>

datatype skill_registry_error =
    SrNotFound string
  | SrReadError string string
  | SrParseError string string
  | SrMissingFrontmatter
  | SrFileTooLarge string nat nat
  | SrSymlinkDetected string
  | SrGatingFailed string string
  | SrTokenBudgetExceeded string nat nat
  | SrAlreadyExists string
  | SrCannotRemove string string
  | SrWriteError string string

record skill_registry =
  rg_skills :: "loaded_skill list"
  rg_user_dir :: path
  rg_installed_dir :: "path option"
  rg_workspace_dir :: "path option"
  rg_bundled_content :: "(string \<times> string) list"

definition MAX_DISCOVERED_SKILLS :: nat where "MAX_DISCOVERED_SKILLS = 100"

definition new_registry :: "path \<Rightarrow> skill_registry" where
  "new_registry user_dir =
     \<lparr>rg_skills = [], rg_user_dir = user_dir, rg_installed_dir = None, rg_workspace_dir = None, rg_bundled_content = []\<rparr>"

definition registry_has :: "string \<Rightarrow> skill_registry \<Rightarrow> bool" where
  "registry_has name rg = list_ex (\<lambda>s. sk_name s = name) (rg_skills rg)"

definition find_skill_by_name :: "string \<Rightarrow> skill_registry \<Rightarrow> loaded_skill option" where
  "find_skill_by_name name rg = find (\<lambda>s. sk_name s = name) (rg_skills rg)"

definition registry_retain_only :: "string list \<Rightarrow> skill_registry \<Rightarrow> skill_registry" where
  "registry_retain_only names rg =
     (if names = [] then rg else rg\<lparr>rg_skills := filter (\<lambda>s. List.member names (sk_name s)) (rg_skills rg)\<rparr>)"

definition install_target_dir :: "skill_registry \<Rightarrow> path" where
  "install_target_dir rg = (case rg_installed_dir rg of Some d \<Rightarrow> d | None \<Rightarrow> rg_user_dir rg)"

section \<open>Loading a skill\<close>

definition load_content ::
    "skill_env \<Rightarrow> string \<Rightarrow> skill_trust \<Rightarrow> skill_source \<Rightarrow> string \<Rightarrow> skill_registry_error + string \<times> loaded_skill" where
  "load_content env label trust source content =
     (case parse_skill_md (se_yaml env) (normalize_line_endings content) of
        Inl SpMissingFrontmatter \<Rightarrow> Inl SrMissingFrontmatter
      | Inl (SpInvalidName n) \<Rightarrow> Inl (SrParseError n (show_parse_error (SpInvalidName n)))
      | Inl e \<Rightarrow> Inl (SrParseError label (show_parse_error e))
      | Inr parsed \<Rightarrow>
          let m = psk_manifest parsed; prompt = psk_prompt_content parsed; name = smf_name m;
              failures = (case smf_requires m of Some gr \<Rightarrow> gating_failures (se_machine env) gr | None \<Rightarrow> []);
              approx = approx_tokens prompt; declared = ac_max_context_tokens (smf_activation m)
          in if failures \<noteq> [] then Inl (SrGatingFailed name (join_with ''; '' failures))
             else if declared > 0 \<and> approx > declared * 2 then Inl (SrTokenBudgetExceeded name approx declared)
             else Inr (name,
               \<lparr>sk_manifest = m, sk_prompt_content = prompt, sk_trust = trust, sk_source = source,
                sk_content_hash = se_hash env prompt,
                sk_compiled_patterns = compile_patterns (se_compile env) (ac_patterns (smf_activation m)),
                sk_lowercased_keywords = map to_lowercase (ac_keywords (smf_activation m)),
                sk_lowercased_exclude_keywords = map to_lowercase (ac_exclude_keywords (smf_activation m)),
                sk_lowercased_tags = map to_lowercase (ac_tags (smf_activation m))\<rparr>))"

definition load_from_content ::
    "skill_env \<Rightarrow> skill_trust \<Rightarrow> skill_source \<Rightarrow> string \<Rightarrow> skill_registry_error + string \<times> loaded_skill" where
  "load_from_content env trust source content =
     (if byte_len content > MAX_PROMPT_FILE_SIZE
      then Inl (SrFileTooLarge ''<bundled>'' (byte_len content) MAX_PROMPT_FILE_SIZE)
      else load_content env ''<bundled>'' trust source content)"

definition load_and_validate_skill ::
    "skill_env \<Rightarrow> path \<Rightarrow> skill_trust \<Rightarrow> skill_source \<Rightarrow> skill_fs \<Rightarrow> skill_registry_error + string \<times> loaded_skill" where
  "load_and_validate_skill env p trust source fs =
     (case hm_get fs p of
        None \<Rightarrow> Inl (SrReadError (show_path p) (se_io_error env p))
      | Some (FnLink _) \<Rightarrow> Inl (SrSymlinkDetected (show_path p))
      | Some FnDir \<Rightarrow> Inl (SrReadError (show_path p) (se_io_error env p))
      | Some (FnBinary sz) \<Rightarrow>
          if sz > MAX_PROMPT_FILE_SIZE then Inl (SrFileTooLarge (show_path p) sz MAX_PROMPT_FILE_SIZE)
          else Inl (SrReadError (show_path p) (''Invalid UTF-8: '' @ se_io_error env p))
      | Some (FnText content) \<Rightarrow>
          if byte_len content > MAX_PROMPT_FILE_SIZE
          then Inl (SrFileTooLarge (show_path p) (byte_len content) MAX_PROMPT_FILE_SIZE)
          else load_content env (show_path p) trust source content)"

section \<open>Discovery\<close>

definition skill_md :: string where "skill_md = ''SKILL.md''"

text \<open>The loop over the entries of a directory; a skill that fails to load is only logged, but counted.\<close>

fun discover_entries ::
    "skill_env \<Rightarrow> skill_trust \<Rightarrow> (path \<Rightarrow> skill_source) \<Rightarrow> path \<Rightarrow> skill_fs \<Rightarrow> nat \<Rightarrow> path list \<Rightarrow>
     (string \<times> loaded_skill) list" where
  "discover_entries env trust source dir fs n [] = []"
| "discover_entries env trust source dir fs n (p # ps) =
     (if n \<ge> MAX_DISCOVERED_SKILLS then []
      else let load = (\<lambda>f d. (case load_and_validate_skill env f trust (source d) fs of Inr r \<Rightarrow> [r] | Inl _ \<Rightarrow> []))
           in case hm_get fs p of
             Some FnDir \<Rightarrow>
               if try_exists (p @ [skill_md]) fs
               then load (p @ [skill_md]) p @ discover_entries env trust source dir fs (n + 1) ps
               else discover_entries env trust source dir fs n ps
           | Some (FnLink _) \<Rightarrow> discover_entries env trust source dir fs n ps
           | None \<Rightarrow> discover_entries env trust source dir fs n ps
           | Some _ \<Rightarrow>
               if last p = skill_md
               then load p dir @ discover_entries env trust source dir fs (n + 1) ps
               else discover_entries env trust source dir fs n ps)"

definition discover_from_dir ::
    "skill_env \<Rightarrow> path \<Rightarrow> skill_trust \<Rightarrow> (path \<Rightarrow> skill_source) \<Rightarrow> skill_fs \<Rightarrow> (string \<times> loaded_skill) list" where
  "discover_from_dir env dir trust source fs =
     (if \<not> try_exists dir fs then []
      else case read_dir dir fs of None \<Rightarrow> [] | Some ps \<Rightarrow> discover_entries env trust source dir fs 0 ps)"

definition load_bundled_skills ::
    "skill_env \<Rightarrow> (string \<times> string) list \<Rightarrow> string list \<Rightarrow> (string \<times> loaded_skill) list" where
  "load_bundled_skills env bundled seen =
     concat (map (\<lambda>(name, content).
        if List.member seen name then []
        else case load_from_content env SkTrusted (SrcBundled [name]) content of Inr r \<Rightarrow> [r] | Inl _ \<Rightarrow> []) bundled)"

text \<open>What a source adds: the skills whose names have not been seen.\<close>

fun add_unseen :: "(string \<times> loaded_skill) list \<Rightarrow> string list \<times> loaded_skill list \<Rightarrow> string list \<times> loaded_skill list" where
  "add_unseen [] acc = acc"
| "add_unseen ((name, sk) # rest) (seen, sks) =
     (if List.member seen name then add_unseen rest (seen, sks) else add_unseen rest (seen @ [name], sks @ [sk]))"

text \<open>The names in the order in which they were loaded, and the registry.\<close>

definition discover_all :: "skill_env \<Rightarrow> skill_fs \<Rightarrow> skill_registry \<Rightarrow> string list \<times> skill_registry" where
  "discover_all env fs rg =
     (let ws = (case rg_workspace_dir rg of Some d \<Rightarrow> discover_from_dir env d SkTrusted SrcWorkspace fs | None \<Rightarrow> []);
          us = discover_from_dir env (rg_user_dir rg) SkTrusted SrcUser fs;
          is = (case rg_installed_dir rg of Some d \<Rightarrow> discover_from_dir env d SkInstalled SrcUser fs | None \<Rightarrow> []);
          (names, sks) = add_unseen is (add_unseen us (add_unseen ws ([], rg_skills rg)));
          bundled = load_bundled_skills env (rg_bundled_content rg) names
      in (names @ map fst bundled, rg\<lparr>rg_skills := sks @ map snd bundled\<rparr>))"

definition registry_reload :: "skill_env \<Rightarrow> skill_fs \<Rightarrow> skill_registry \<Rightarrow> string list \<times> skill_registry" where
  "registry_reload env fs rg = discover_all env fs (rg\<lparr>rg_skills := []\<rparr>)"

section \<open>Installation\<close>

definition prepare_install_to_disk ::
    "skill_env \<Rightarrow> path \<Rightarrow> string \<Rightarrow> string \<Rightarrow> skill_fs \<Rightarrow> (skill_registry_error + string \<times> loaded_skill) \<times> skill_fs" where
  "prepare_install_to_disk env dir skill_name content fs =
     (let skill_dir = dir @ [skill_name]; skill_path = skill_dir @ [skill_md]
      in if \<not> se_can_write env skill_dir \<or> hm_get fs skill_dir \<notin> {None, Some FnDir, Some (FnLink True)}
         then (Inl (SrWriteError (show_path skill_dir) (se_io_error env skill_dir)), fs)
         else let fs1 = (if hm_get fs skill_dir = None then hm_insert skill_dir FnDir fs else fs)
              in if \<not> se_can_write env skill_path \<or> hm_get fs1 skill_path = Some FnDir
                 then (Inl (SrWriteError (show_path skill_path) (se_io_error env skill_path)), fs1)
                 else let fs2 = (case hm_get fs1 skill_path of
                            Some (FnLink _) \<Rightarrow> fs1 | _ \<Rightarrow> hm_insert skill_path (FnText content) fs1)
                      in (load_and_validate_skill env skill_path SkInstalled (SrcUser skill_dir) fs2, fs2))"

definition commit_install :: "string \<Rightarrow> loaded_skill \<Rightarrow> skill_registry \<Rightarrow> (skill_registry_error + unit) \<times> skill_registry" where
  "commit_install name sk rg =
     (if registry_has name rg then (Inl (SrAlreadyExists name), rg)
      else (Inr (), rg\<lparr>rg_skills := rg_skills rg @ [sk]\<rparr>))"

text \<open>The checks before an installation, which the tools make under a brief lock.\<close>

definition install_name :: "skill_env \<Rightarrow> string \<Rightarrow> skill_registry \<Rightarrow> skill_registry_error + string" where
  "install_name env content rg =
     (case parse_skill_md (se_yaml env) (normalize_line_endings content) of
        Inl (SpInvalidName n) \<Rightarrow> Inl (SrParseError n (show_parse_error (SpInvalidName n)))
      | Inl e \<Rightarrow> Inl (SrParseError ''(install)'' (show_parse_error e))
      | Inr parsed \<Rightarrow>
          let name = smf_name (psk_manifest parsed)
          in if registry_has name rg then Inl (SrAlreadyExists name) else Inr name)"

definition install_skill ::
    "skill_env \<Rightarrow> string \<Rightarrow> skill_registry \<Rightarrow> skill_fs \<Rightarrow> (skill_registry_error + string) \<times> skill_registry \<times> skill_fs" where
  "install_skill env content rg fs =
     (case install_name env content rg of
        Inl e \<Rightarrow> (Inl e, rg, fs)
      | Inr skill_name \<Rightarrow>
          (case prepare_install_to_disk env (rg_user_dir rg) skill_name (normalize_line_endings content) fs of
             (Inl e, fs1) \<Rightarrow> (Inl e, rg, fs1)
           | (Inr (name, sk), fs1) \<Rightarrow>
               (case commit_install name sk rg of
                  (Inl e, rg1) \<Rightarrow> (Inl e, rg1, fs1)
                | (Inr _, rg1) \<Rightarrow> (Inr name, rg1, fs1))))"

section \<open>Removal\<close>

definition validate_remove :: "string \<Rightarrow> skill_registry \<Rightarrow> skill_registry_error + path" where
  "validate_remove name rg =
     (case find_skill_by_name name rg of
        None \<Rightarrow> Inl (SrNotFound name)
      | Some sk \<Rightarrow>
          (case sk_source sk of
             SrcUser p \<Rightarrow> Inr p
           | SrcWorkspace _ \<Rightarrow> Inl (SrCannotRemove name ''workspace skills cannot be removed via this interface'')
           | SrcBundled _ \<Rightarrow> Inl (SrCannotRemove name ''bundled skills cannot be removed'')))"

definition delete_skill_files :: "skill_env \<Rightarrow> path \<Rightarrow> skill_fs \<Rightarrow> (skill_registry_error + unit) \<times> skill_fs" where
  "delete_skill_files env p fs =
     (let f = p @ [skill_md]
      in if \<not> try_exists f fs then (Inr (), fs)
         else if \<not> se_can_write env f \<or> hm_get fs f = Some FnDir
         then (Inl (SrWriteError (show_path f) (se_io_error env f)), fs)
         else let fs1 = hm_remove f fs
              in (Inr (), if se_can_write env p \<and> read_dir p fs1 = Some [] \<and> hm_get fs1 p = Some FnDir
                          then hm_remove p fs1 else fs1))"

fun remove_first :: "('a \<Rightarrow> bool) \<Rightarrow> 'a list \<Rightarrow> 'a list" where
  "remove_first P [] = []"
| "remove_first P (x # xs) = (if P x then xs else x # remove_first P xs)"

definition commit_remove :: "string \<Rightarrow> skill_registry \<Rightarrow> (skill_registry_error + unit) \<times> skill_registry" where
  "commit_remove name rg =
     (if registry_has name rg
      then (Inr (), rg\<lparr>rg_skills := remove_first (\<lambda>s. sk_name s = name) (rg_skills rg)\<rparr>)
      else (Inl (SrNotFound name), rg))"

definition remove_skill ::
    "skill_env \<Rightarrow> string \<Rightarrow> skill_registry \<Rightarrow> skill_fs \<Rightarrow> (skill_registry_error + unit) \<times> skill_registry \<times> skill_fs" where
  "remove_skill env name rg fs =
     (case validate_remove name rg of
        Inl e \<Rightarrow> (Inl e, rg, fs)
      | Inr p \<Rightarrow>
          (case delete_skill_files env p fs of
             (Inl e, fs1) \<Rightarrow> (Inl e, rg, fs1)
           | (Inr _, fs1) \<Rightarrow> (let (r, rg1) = commit_remove name rg in (r, rg1, fs1))))"

section \<open>Loaded skills\<close>

text \<open>What holds of every loaded skill.\<close>

definition skill_ok :: "loaded_skill \<Rightarrow> bool" where
  "skill_ok sk \<longleftrightarrow>
     validate_skill_name (sk_name sk) \<and>
     length (sk_lowercased_keywords sk) \<le> MAX_KEYWORDS_PER_SKILL \<and>
     length (sk_compiled_patterns sk) \<le> MAX_PATTERNS_PER_SKILL \<and>
     length (sk_lowercased_tags sk) \<le> MAX_TAGS_PER_SKILL \<and>
     (sk_trust sk = SkInstalled \<longrightarrow> (\<exists>p. sk_source sk = SrcUser p))"

lemma parse_skill_md_Inr:
  assumes "parse_skill_md yaml content = Inr p"
  shows "validate_skill_name (smf_name (psk_manifest p)) \<and>
    (\<exists>ac. smf_activation (psk_manifest p) = enforce_limits ac)"
proof -
  let ?t = "dropWhile (\<lambda>c. c = CHR 0x0A \<or> c = CHR 0x0D) content"
  have d: "starts_with ?t ''---''" using assms by (auto simp: parse_skill_md_def Let_def split: if_splits)
  obtain r where r: "after_first (drop 3 ?t) newline = Some r"
    using assms d by (cases "after_first (drop 3 ?t) newline") (simp_all add: parse_skill_md_def Let_def)
  obtain n where n: "find_closing_delimiter r = Some n"
    using assms d r by (cases "find_closing_delimiter r") (simp_all add: parse_skill_md_def Let_def)
  obtain m where m: "yaml (take n r) = Inr m"
    using assms d r n by (cases "yaml (take n r)") (simp_all add: parse_skill_md_def Let_def)
  have v: "validate_skill_name (smf_name m)"
    using assms d r n m by (cases "validate_skill_name (smf_name m)") (simp_all add: parse_skill_md_def Let_def)
  have "psk_manifest p = m\<lparr>smf_activation := enforce_limits (smf_activation m)\<rparr>"
    using assms d r n m v by (auto simp: parse_skill_md_def Let_def split: if_splits)
  with v show ?thesis by auto
qed

lemma length_compile_patterns: "length (compile_patterns compile ps) \<le> length ps"
  by (induction ps) (auto simp: compile_patterns_def split: option.splits)

lemma load_content_Inr:
  assumes "load_content env label trust source content = Inr (name, sk)"
  shows "name = sk_name sk \<and> sk_trust sk = trust \<and> sk_source sk = source \<and>
    ((trust = SkInstalled \<longrightarrow> (\<exists>p. source = SrcUser p)) \<longrightarrow> skill_ok sk)"
proof -
  obtain p where p: "parse_skill_md (se_yaml env) (normalize_line_endings content) = Inr p"
    using assms by (auto simp: load_content_def split: sum.splits skill_parse_error.splits)
  obtain ac where ac: "validate_skill_name (smf_name (psk_manifest p))" "smf_activation (psk_manifest p) = enforce_limits ac"
    using parse_skill_md_Inr [OF p] by blast
  have "length (ac_patterns (enforce_limits ac)) \<le> MAX_PATTERNS_PER_SKILL" by (rule enforce_limits_bounds)
  with length_compile_patterns [of "se_compile env" "ac_patterns (enforce_limits ac)"]
  have "length (compile_patterns (se_compile env) (ac_patterns (enforce_limits ac))) \<le> MAX_PATTERNS_PER_SKILL"
    by (rule le_trans)
  with assms p ac show ?thesis
    by (auto simp: load_content_def Let_def skill_ok_def enforce_limits_bounds split: if_splits)
qed

lemma load_file_Inr:
  assumes "load_and_validate_skill env p trust source fs = Inr (name, sk)"
  shows "name = sk_name sk \<and> sk_trust sk = trust \<and> sk_source sk = source \<and>
    ((trust = SkInstalled \<longrightarrow> (\<exists>p. source = SrcUser p)) \<longrightarrow> skill_ok sk)"
proof -
  obtain content where "load_content env (show_path p) trust source content = Inr (name, sk)"
    using assms by (auto simp: load_and_validate_skill_def split: option.splits fs_node.splits if_splits)
  then show ?thesis by (rule load_content_Inr)
qed

definition loaded_from :: "skill_trust \<Rightarrow> (path \<Rightarrow> skill_source) \<Rightarrow> string \<times> loaded_skill \<Rightarrow> bool" where
  "loaded_from trust source r \<longleftrightarrow>
     fst r = sk_name (snd r) \<and> sk_trust (snd r) = trust \<and> (\<exists>d. sk_source (snd r) = source d) \<and>
     ((trust = SkInstalled \<longrightarrow> source = SrcUser) \<longrightarrow> skill_ok (snd r))"

lemma discover_entries_loaded:
  "r \<in> set (discover_entries env trust source dir fs n ps) \<Longrightarrow> loaded_from trust source r"
proof (induction ps arbitrary: n)
  case (Cons p ps)
  have load: "loaded_from trust source r"
    if "r \<in> set (case load_and_validate_skill env f trust (source d) fs of Inr r \<Rightarrow> [r] | Inl _ \<Rightarrow> [])" for f d
    using that load_file_Inr [of env f trust "source d" fs "fst r" "snd r"]
    by (auto simp: loaded_from_def split: sum.splits)
  from Cons.prems have "(\<exists>f d. r \<in> set (case load_and_validate_skill env f trust (source d) fs of Inr r \<Rightarrow> [r] | Inl _ \<Rightarrow> []))
      \<or> (\<exists>n. r \<in> set (discover_entries env trust source dir fs n ps))"
    unfolding discover_entries.simps Let_def
    by (cases "hm_get fs p"; cases "the (hm_get fs p)") (auto split: if_split_asm)
  with load Cons.IH show ?case by blast
qed simp

lemma discover_from_dir_loaded: "r \<in> set (discover_from_dir env dir trust source fs) \<Longrightarrow> loaded_from trust source r"
  by (auto simp: discover_from_dir_def intro: discover_entries_loaded split: if_splits option.splits)

lemma bundled_loaded:
  "r \<in> set (load_bundled_skills env bundled seen) \<Longrightarrow> fst r = sk_name (snd r) \<and> skill_ok (snd r) \<and> sk_trust (snd r) = SkTrusted"
  using load_content_Inr [of env _ SkTrusted _ _ "fst r" "snd r"]
  by (fastforce simp: load_bundled_skills_def load_from_content_def split: if_splits sum.splits)

section \<open>Names\<close>

lemma add_unseen_names:
  "\<forall>r \<in> set rs. fst r = sk_name (snd r) \<Longrightarrow> seen = map sk_name sks \<Longrightarrow> distinct seen \<Longrightarrow>
   fst (add_unseen rs (seen, sks)) = map sk_name (snd (add_unseen rs (seen, sks))) \<and> distinct (fst (add_unseen rs (seen, sks)))"
  by (induction rs "(seen, sks)" arbitrary: seen sks rule: add_unseen.induct) auto

lemma add_unseen_set: "sk \<in> set (snd (add_unseen rs (seen, sks))) \<Longrightarrow> sk \<in> set sks \<or> sk \<in> set (map snd rs)"
  by (induction rs "(seen, sks)" arbitrary: seen sks rule: add_unseen.induct) (auto split: if_splits)

lemma add_unseen_first: "x \<in> set sks \<Longrightarrow> x \<in> set (snd (add_unseen rs (seen, sks)))"
  by (induction rs "(seen, sks)" arbitrary: seen sks rule: add_unseen.induct) auto

text \<open>The bundled skills are listed under their own names.\<close>

definition bundle_named :: "skill_env \<Rightarrow> (string \<times> string) list \<Rightarrow> bool" where
  "bundle_named env bundled \<longleftrightarrow> distinct (map fst bundled) \<and>
     list_all (\<lambda>(k, c). case load_from_content env SkTrusted (SrcBundled [k]) c of Inr (n, _) \<Rightarrow> n = k | Inl _ \<Rightarrow> True) bundled"

lemma bundled_names:
  assumes "bundle_named env bundled"
  shows "distinct (map fst (load_bundled_skills env bundled seen)) \<and>
    set (map fst (load_bundled_skills env bundled seen)) \<subseteq> set (map fst bundled) - set seen"
  using assms
proof (induction bundled)
  case (Cons kc bundled)
  obtain k c where kc: "kc = (k, c)" by force
  have tail: "bundle_named env bundled" "k \<notin> set (map fst bundled)"
    using Cons.prems kc by (auto simp: bundle_named_def)
  have "load_bundled_skills env (kc # bundled) seen =
      (if k \<in> set seen then []
       else case load_from_content env SkTrusted (SrcBundled [k]) c of Inr r \<Rightarrow> [r] | Inl _ \<Rightarrow> []) @ load_bundled_skills env bundled seen"
    by (simp add: load_bundled_skills_def kc)
  moreover have "n = k" if "load_from_content env SkTrusted (SrcBundled [k]) c = Inr (n, s)" for n s
    using Cons.prems that by (auto simp: bundle_named_def kc)
  moreover have "k \<notin> set (map fst (load_bundled_skills env bundled seen))"
    using Cons.IH [OF tail(1)] tail(2) by blast
  ultimately show ?case using Cons.IH [OF tail(1)] kc by (auto split: sum.splits)
qed (simp add: load_bundled_skills_def)

definition registry_ok :: "skill_registry \<Rightarrow> bool" where
  "registry_ok rg \<longleftrightarrow> distinct (map sk_name (rg_skills rg)) \<and> list_all skill_ok (rg_skills rg)"

lemma reload_ok:
  assumes "bundle_named env (rg_bundled_content rg)" "registry_reload env fs rg = (names, rg')"
  shows "registry_ok rg' \<and> names = map sk_name (rg_skills rg')"
proof -
  define ws where "ws = (case rg_workspace_dir rg of Some d \<Rightarrow> discover_from_dir env d SkTrusted SrcWorkspace fs | None \<Rightarrow> [])"
  define us where "us = discover_from_dir env (rg_user_dir rg) SkTrusted SrcUser fs"
  define ins where "ins = (case rg_installed_dir rg of Some d \<Rightarrow> discover_from_dir env d SkInstalled SrcUser fs | None \<Rightarrow> [])"
  define a1 where "a1 = add_unseen ws ([], [])"
  define a2 where "a2 = add_unseen us a1"
  define a3 where "a3 = add_unseen ins a2"
  define b where "b = load_bundled_skills env (rg_bundled_content rg) (fst a3)"
  have out: "names = fst a3 @ map fst b" "rg_skills rg' = snd a3 @ map snd b"
    using assms(2) by (auto simp: registry_reload_def discover_all_def ws_def us_def ins_def a1_def a2_def a3_def b_def Let_def
        split: prod.splits)
  have loaded: "\<forall>r \<in> set ws. fst r = sk_name (snd r) \<and> skill_ok (snd r)" "\<forall>r \<in> set us. fst r = sk_name (snd r) \<and> skill_ok (snd r)"
      "\<forall>r \<in> set ins. fst r = sk_name (snd r) \<and> skill_ok (snd r)"
    by (auto simp: ws_def us_def ins_def loaded_from_def dest!: discover_from_dir_loaded split: option.splits)
  have n1: "fst a1 = map sk_name (snd a1) \<and> distinct (fst a1)"
    unfolding a1_def by (rule add_unseen_names) (use loaded(1) in auto)
  have n2: "fst a2 = map sk_name (snd a2) \<and> distinct (fst a2)"
    unfolding a2_def by (subst (1 2 3) prod.collapse [of a1, symmetric], rule add_unseen_names) (use loaded(2) n1 in auto)
  have n3: "fst a3 = map sk_name (snd a3) \<and> distinct (fst a3)"
    unfolding a3_def by (subst (1 2 3) prod.collapse [of a2, symmetric], rule add_unseen_names) (use loaded(3) n2 in auto)
  have ok3: "sk \<in> set (snd a3) \<Longrightarrow> skill_ok sk" for sk
    using add_unseen_set [of sk ins "fst a2" "snd a2"] add_unseen_set [of sk us "fst a1" "snd a1"] add_unseen_set [of sk ws "[]" "[]"] loaded
    by (auto simp: a1_def a2_def a3_def)
  have b: "\<forall>r \<in> set b. fst r = sk_name (snd r) \<and> skill_ok (snd r)"
    using bundled_loaded by (auto simp: b_def)
  have bn: "distinct (map fst b)" "set (map fst b) \<inter> set (fst a3) = {}"
    using bundled_names [OF assms(1), of "fst a3"] by (auto simp: b_def)
  have names_b: "map sk_name (map snd b) = map fst b" using b by auto
  show ?thesis
  proof
    show "registry_ok rg'"
      unfolding registry_ok_def out(2) map_append names_b using n3 bn ok3 b by (auto simp: list_all_iff)
    show "names = map sk_name (rg_skills rg')" unfolding out map_append names_b using n3 by simp
  qed
qed

text \<open>The registries that reloads, installations and removals lead to, whatever happens to the files in between.\<close>

inductive registry_reach :: "skill_env \<Rightarrow> skill_registry \<Rightarrow> bool" where
  rr_start: "rg_skills rg = [] \<Longrightarrow> bundle_named env (rg_bundled_content rg) \<Longrightarrow> registry_reach env rg"
| rr_reload: "registry_reach env rg \<Longrightarrow> registry_reach env (snd (registry_reload env fs rg))"
| rr_retain: "registry_reach env rg \<Longrightarrow> registry_reach env (registry_retain_only names rg)"
| rr_commit: "registry_reach env rg \<Longrightarrow> prepare_install_to_disk env dir n content fs = (Inr (name, sk), fs') \<Longrightarrow>
    registry_reach env (snd (commit_install name sk rg))"
| rr_remove: "registry_reach env rg \<Longrightarrow> registry_reach env (snd (commit_remove name rg))"

lemma prepare_loaded:
  assumes "prepare_install_to_disk env dir n content fs = (Inr (name, sk), fs')"
  shows "name = sk_name sk \<and> skill_ok sk \<and> sk_trust sk = SkInstalled"
proof -
  obtain fs2 where "load_and_validate_skill env (dir @ [n] @ [skill_md]) SkInstalled (SrcUser (dir @ [n])) fs2 = Inr (name, sk)"
    using assms by (auto simp: prepare_install_to_disk_def Let_def split: if_splits)
  from load_file_Inr [OF this] show ?thesis by auto
qed

lemma remove_first_subset: "set (remove_first P xs) \<subseteq> set xs"
  by (induction xs) auto

lemma remove_first_distinct: "distinct (map f xs) \<Longrightarrow> distinct (map f (remove_first P xs))"
  using remove_first_subset by (induction xs) fastforce+

lemma remove_first_gone: "distinct (map f xs) \<Longrightarrow> \<forall>x \<in> set (remove_first (\<lambda>x. f x = k) xs). f x \<noteq> k"
  by (induction xs) (auto simp: image_iff)

lemma registry_reach_ok: "registry_reach env rg \<Longrightarrow> registry_ok rg \<and> bundle_named env (rg_bundled_content rg)"
proof (induction rule: registry_reach.induct)
  case (rr_reload env rg fs)
  obtain names rg' where r: "registry_reload env fs rg = (names, rg')" by force
  moreover have "rg_bundled_content rg' = rg_bundled_content rg"
    using r by (auto simp: registry_reload_def discover_all_def Let_def split: prod.splits)
  ultimately show ?case using reload_ok [of env rg fs names rg'] rr_reload.IH by simp
next
  case (rr_retain env rg names)
  then show ?case by (auto simp: registry_retain_only_def registry_ok_def list_all_iff distinct_map inj_on_def)
next
  case (rr_commit env rg dir n content fs name sk fs')
  then show ?case using prepare_loaded [OF rr_commit.hyps(2)]
    by (auto simp: commit_install_def registry_has_def registry_ok_def list_ex_iff)
next
  case (rr_remove env rg name)
  then show ?case using remove_first_distinct [of sk_name "rg_skills rg"] remove_first_subset [of "\<lambda>s. sk_name s = name" "rg_skills rg"]
    by (auto simp: commit_remove_def registry_ok_def list_all_iff)
qed (simp add: registry_ok_def)

text \<open>
  C35. However skills are reloaded, installed and removed, and whatever happens to the files in between, no two
  loaded skills have one name, every name is well formed, every skill keeps the limits that bound its score, and
  only skills in a directory of the user can be merely installed. The bundled skills must be listed under their own
  names.
\<close>

theorem registry_sound:
  assumes "registry_reach env rg"
  shows "distinct (map sk_name (rg_skills rg)) \<and> list_all skill_ok (rg_skills rg) \<and>
    (\<forall>name sk. find_skill_by_name name rg = Some sk \<longrightarrow> sk_name sk = name \<and> sk \<in> set (rg_skills rg))"
  using registry_reach_ok [OF assms] by (auto simp: registry_ok_def find_skill_by_name_def dest: find_Some_iff2)

definition skill_sample_env :: skill_env where
  "skill_sample_env = \<lparr>se_yaml = (\<lambda>_. Inr sample_manifest), se_hash = (\<lambda>_. []), se_compile = (\<lambda>_. None),
     se_machine = \<lparr>mc_has_binary = (\<lambda>_. True), mc_has_env = (\<lambda>_. True), mc_has_file = (\<lambda>_. True)\<rparr>,
     se_can_write = (\<lambda>_. True), se_io_error = (\<lambda>_. [])\<rparr>"

theorem registry_sound_witness:
  "distinct (map sk_name (rg_skills (snd (registry_reload skill_sample_env [([''u''], FnDir)] (new_registry [''u''])))))"
proof -
  have "registry_reach skill_sample_env (new_registry [''u''])"
    by (rule rr_start) (simp_all add: new_registry_def bundle_named_def)
  from registry_sound [OF rr_reload [OF this]] show ?thesis by blast
qed

text \<open>
  A removed skill is gone: it is no longer loaded, and its file no longer exists, so a reload does not bring
  it back. Skills of the workspace and bundled skills are refused.
\<close>

lemma removed_skill_is_gone:
  assumes "registry_reach env rg" "remove_skill env name rg fs = (Inr u, rg', fs')"
  shows "\<not> registry_has name rg' \<and>
    (\<exists>sk p. find_skill_by_name name rg = Some sk \<and> sk_source sk = SrcUser p \<and> \<not> try_exists (p @ [skill_md]) fs')"
proof -
  obtain p where p: "validate_remove name rg = Inr p"
    using assms(2) by (cases "validate_remove name rg") (simp_all add: remove_skill_def)
  then obtain sk where sk: "find_skill_by_name name rg = Some sk" "sk_source sk = SrcUser p"
    by (auto simp: validate_remove_def split: option.splits skill_source.splits)
  obtain fs1 where d: "delete_skill_files env p fs = (Inr (), fs1)" "fs' = fs1" "rg' = snd (commit_remove name rg)"
    using assms(2) p by (auto simp: remove_skill_def split: sum.splits prod.splits)
  have "\<not> try_exists (p @ [skill_md]) fs1"
    using d(1) by (auto simp: delete_skill_files_def Let_def try_exists_def split: if_splits)
  moreover have "\<not> registry_has name (snd (commit_remove name rg))"
    using registry_reach_ok [OF assms(1)] remove_first_gone [of sk_name "rg_skills rg" name]
    by (auto simp: commit_remove_def registry_has_def registry_ok_def list_ex_iff)
  ultimately show ?thesis using sk d by blast
qed

definition notes_file :: string where
  "notes_file = ''---'' @ newline @ ''name: notes'' @ newline @ ''---'' @ newline @ newline @ ''Take notes.''"

definition notes_registry :: skill_registry where
  "notes_registry = new_registry [''u'']"

definition notes_fs :: skill_fs where
  "notes_fs = [([''u''], FnDir)]"

lemma load_notes:
  "load_content skill_sample_env label SkInstalled (SrcUser p) notes_file
    = Inr (''notes'', \<lparr>sk_manifest = sample_manifest\<lparr>smf_activation := enforce_limits (smf_activation sample_manifest)\<rparr>,
        sk_prompt_content = ''Take notes.'', sk_trust = SkInstalled, sk_source = SrcUser p, sk_content_hash = [],
        sk_compiled_patterns = [], sk_lowercased_keywords = [''note''], sk_lowercased_exclude_keywords = [],
        sk_lowercased_tags = []\<rparr>)"
proof -
  have norm: "normalize_line_endings notes_file = notes_file" by (rule normalize_id) (simp add: notes_file_def newline_def)
  have parsed: "parse_skill_md (se_yaml skill_sample_env) notes_file
      = Inr \<lparr>psk_manifest = sample_manifest\<lparr>smf_activation := enforce_limits (smf_activation sample_manifest)\<rparr>,
          psk_prompt_content = ''Take notes.''\<rparr>"
    using parse_skill_file_witness by (simp only: notes_file_def skill_sample_env_def skill_env.simps)
  have "approx_tokens ''Take notes.'' = 2" by (simp add: approx_tokens_div utf8_len_def)
  moreover have "ac_keywords (enforce_limits (smf_activation sample_manifest)) = [''note'']"
      "ac_patterns (enforce_limits (smf_activation sample_manifest)) = []"
      "ac_exclude_keywords (enforce_limits (smf_activation sample_manifest)) = []"
      "ac_tags (enforce_limits (smf_activation sample_manifest)) = []" "to_lowercase ''note'' = ''note''"
      "ac_max_context_tokens (enforce_limits (smf_activation sample_manifest)) = 50"
    by code_simp+
  ultimately show ?thesis unfolding load_content_def norm parsed
    by (simp add: Let_def skill_sample_env_def compile_patterns_def) (simp add: sample_manifest_def)
qed

lemma install_notes:
  "\<exists>sk. prepare_install_to_disk skill_sample_env [''u''] ''notes'' notes_file notes_fs
      = (Inr (''notes'', sk), notes_fs @ [([''u'', ''notes''], FnDir), ([''u'', ''notes'', skill_md], FnText notes_file)]) \<and>
    sk_name sk = ''notes'' \<and> sk_source sk = SrcUser [''u'', ''notes'']"
proof -
  have "byte_len notes_file \<le> MAX_PROMPT_FILE_SIZE"
    by (simp add: notes_file_def newline_def utf8_len_def MAX_PROMPT_FILE_SIZE_def)
  then show ?thesis
    by (simp add: prepare_install_to_disk_def notes_fs_def skill_sample_env_def [THEN arg_cong, of se_can_write] Let_def load_and_validate_skill_def
        load_notes) (simp add: sample_manifest_def)
qed

lemma removed_skill_is_gone_witness:
  "\<exists>rg1 fs1 rg2 fs2. registry_has ''notes'' rg1 \<and> remove_skill skill_sample_env ''notes'' rg1 fs1 = (Inr (), rg2, fs2) \<and>
     \<not> registry_has ''notes'' rg2"
proof -
  obtain sk fs1 where inst: "prepare_install_to_disk skill_sample_env [''u''] ''notes'' notes_file notes_fs = (Inr (''notes'', sk), fs1)"
    and fs1: "fs1 = notes_fs @ [([''u'', ''notes''], FnDir), ([''u'', ''notes'', skill_md], FnText notes_file)]"
    and sk: "sk_name sk = ''notes''" "sk_source sk = SrcUser [''u'', ''notes'']"
    using install_notes by blast
  let ?rg = "snd (commit_install ''notes'' sk notes_registry)"
  have rg: "rg_skills ?rg = [sk]" by (simp add: commit_install_def notes_registry_def new_registry_def registry_has_def)
  have "registry_reach skill_sample_env notes_registry"
    by (rule rr_start) (simp_all add: notes_registry_def new_registry_def bundle_named_def)
  then have reach: "registry_reach skill_sample_env ?rg" by (rule rr_commit) (rule inst)
  obtain q rg2 fs2 where d: "remove_skill skill_sample_env ''notes'' ?rg fs1 = (q, rg2, fs2)" by (metis prod.collapse)
  have "validate_remove ''notes'' ?rg = Inr [''u'', ''notes'']" by (simp add: validate_remove_def find_skill_by_name_def rg sk)
  moreover have "fst (delete_skill_files skill_sample_env [''u'', ''notes''] fs1) = Inr ()"
    by (simp add: delete_skill_files_def Let_def skill_sample_env_def [THEN arg_cong, of se_can_write] fs1 notes_fs_def try_exists_def)
  moreover have has: "registry_has ''notes'' ?rg" by (simp add: registry_has_def rg sk)
  ultimately have q: "q = Inr ()"
    using d by (auto simp: remove_skill_def commit_remove_def split: sum.splits prod.splits)
  from removed_skill_is_gone [OF reach d [unfolded q]] has d q show ?thesis by blast
qed

text \<open>
  Two installations of one name race: both write the file, the second is refused by the registry, and yet the file
  that a reload will find is the one of the refused installation.
\<close>

lemma refused_install_wins_disk:
  assumes "prepare_install_to_disk env dir n c1 fs = (Inr (name, sk1), fs1)"
    "prepare_install_to_disk env dir n c2 fs1 = (Inr (name, sk2), fs2)" "\<not> registry_has name rg"
  shows "\<exists>rg1. commit_install name sk1 rg = (Inr (), rg1) \<and> commit_install name sk2 rg1 = (Inl (SrAlreadyExists name), rg1) \<and>
    load_and_validate_skill env (dir @ [n, skill_md]) SkInstalled (SrcUser (dir @ [n])) fs2 = Inr (name, sk2)"
proof -
  have "name = sk_name sk1" using prepare_loaded [OF assms(1)] by blast
  moreover have "load_and_validate_skill env (dir @ [n, skill_md]) SkInstalled (SrcUser (dir @ [n])) fs2 = Inr (name, sk2)"
    using assms(2) by (auto simp: prepare_install_to_disk_def Let_def split: if_splits)
  ultimately show ?thesis using assms(3) by (auto simp: commit_install_def registry_has_def)
qed

text \<open>
  Skills are installed into the directory of installed skills when there is one, else into the directory of the
  user, as \<open>install_skill\<close> always does: there a reload trusts them.
\<close>

lemma installed_skill_trusted_after_reload:
  "\<exists>sk fs1 names rg. prepare_install_to_disk skill_sample_env (install_target_dir notes_registry) ''notes'' notes_file notes_fs = (Inr (''notes'', sk), fs1) \<and>
     sk_trust sk = SkInstalled \<and> registry_reload skill_sample_env fs1 notes_registry = (names, rg) \<and>
     (\<forall>s \<in> set (rg_skills rg). sk_trust s = SkTrusted)"
proof -
  obtain sk fs1 where inst: "prepare_install_to_disk skill_sample_env [''u''] ''notes'' notes_file notes_fs = (Inr (''notes'', sk), fs1)"
    using install_notes by blast
  have target: "install_target_dir notes_registry = [''u'']" by (simp add: install_target_dir_def notes_registry_def new_registry_def)
  obtain names rg where r: "registry_reload skill_sample_env fs1 notes_registry = (names, rg)" by force
  have "\<forall>s \<in> set (rg_skills rg). sk_trust s = SkTrusted"
  proof
    fix s
    assume "s \<in> set (rg_skills rg)"
    with r have "s \<in> set (snd (add_unseen (discover_from_dir skill_sample_env [''u''] SkTrusted SrcUser fs1) ([], [])))"
      by (auto simp: registry_reload_def discover_all_def notes_registry_def new_registry_def load_bundled_skills_def Let_def split: prod.splits)
    then have "s \<in> set (map snd (discover_from_dir skill_sample_env [''u''] SkTrusted SrcUser fs1))" by (auto dest: add_unseen_set)
    then show "sk_trust s = SkTrusted" by (auto dest!: discover_from_dir_loaded simp: loaded_from_def)
  qed
  with inst r target prepare_loaded [OF inst] show ?thesis by auto
qed

end
