(* ===== verification/Hook_Registry.thy ===== *)
theory Hook_Registry
  imports Prelude
begin

text \<open>
  The hooks of the host (\<open>src/hooks/hook.rs\<close>, \<open>src/hooks/registry.rs\<close>): the points at which they run, the
  events they see, and the registry that runs them in the order of their priorities. What a hook does with an event,
  and whether it does so in time, is an argument; so is the text form of JSON.
\<close>

section \<open>Events and outcomes\<close>

datatype hook_point =
    HpBeforeInbound
  | HpBeforeToolCall
  | HpBeforeOutbound
  | HpOnSessionStart
  | HpOnSessionEnd
  | HpTransformResponse

datatype hook_event =
    HevInbound string string string "string option"
  | HevToolCall string json string string
  | HevOutbound string string string "string option"
  | HevSessionStart string string
  | HevSessionEnd string string
  | HevResponseTransform string string string

definition hook_point_of :: "hook_event \<Rightarrow> hook_point" where
  "hook_point_of e =
     (case e of
        HevInbound _ _ _ _ \<Rightarrow> HpBeforeInbound
      | HevToolCall _ _ _ _ \<Rightarrow> HpBeforeToolCall
      | HevOutbound _ _ _ _ \<Rightarrow> HpBeforeOutbound
      | HevSessionStart _ _ \<Rightarrow> HpOnSessionStart
      | HevSessionEnd _ _ \<Rightarrow> HpOnSessionEnd
      | HevResponseTransform _ _ _ \<Rightarrow> HpTransformResponse)"

text \<open>Parameters of a tool are replaced when the new text is JSON; session events have no content.\<close>

definition apply_modification :: "(string \<Rightarrow> json option) \<Rightarrow> string \<Rightarrow> hook_event \<Rightarrow> hook_event" where
  "apply_modification parse modified e =
     (case e of
        HevInbound u ch content tid \<Rightarrow> HevInbound u ch modified tid
      | HevOutbound u ch content tid \<Rightarrow> HevOutbound u ch modified tid
      | HevToolCall name params u ctx \<Rightarrow>
          (case parse modified of Some p \<Rightarrow> HevToolCall name p u ctx | None \<Rightarrow> e)
      | HevResponseTransform u tid response \<Rightarrow> HevResponseTransform u tid modified
      | _ \<Rightarrow> e)"

definition extract_content :: "(json \<Rightarrow> string) \<Rightarrow> hook_event \<Rightarrow> string" where
  "extract_content to_str e =
     (case e of
        HevInbound _ _ content _ \<Rightarrow> content
      | HevOutbound _ _ content _ \<Rightarrow> content
      | HevToolCall _ params _ _ \<Rightarrow> to_str params
      | HevResponseTransform _ _ response \<Rightarrow> response
      | HevSessionStart _ sid \<Rightarrow> sid
      | HevSessionEnd _ sid \<Rightarrow> sid)"

datatype hook_outcome = HoContinue "string option" | HoReject string

datatype hook_failure_mode = HfOpen | HfClosed

datatype hook_error = HerExecutionFailed string | HerTimeout nat | HerRejected string

definition show_hook_error :: "hook_error \<Rightarrow> string" where
  "show_hook_error e =
     (case e of
        HerExecutionFailed r \<Rightarrow> ''Hook execution failed: '' @ r
      | HerTimeout t \<Rightarrow> ''Hook timed out after '' @ debug_duration t
      | HerRejected r \<Rightarrow> ''Hook rejected: '' @ r)"

section \<open>The registry\<close>

text \<open>\<open>None\<close> is a hook that does not answer within its time.\<close>

record hook =
  hk_name :: string
  hk_points :: "hook_point list"
  hk_failure_mode :: hook_failure_mode
  hk_timeout :: nat
  hk_execute :: "hook_event \<Rightarrow> (hook_error + hook_outcome) option"

record hook_entry =
  he_hook :: hook
  he_priority :: u32

type_synonym hook_registry = "hook_entry list"

fun replace_entry :: "hook_entry \<Rightarrow> hook_registry \<Rightarrow> hook_registry" where
  "replace_entry e [] = [e]"
| "replace_entry e (x # xs) = (if hk_name (he_hook x) = hk_name (he_hook e) then e # xs else x # replace_entry e xs)"

definition register_with_priority :: "hook \<Rightarrow> u32 \<Rightarrow> hook_registry \<Rightarrow> hook_registry" where
  "register_with_priority h priority hr =
     sort_key (\<lambda>e. unat (he_priority e)) (replace_entry \<lparr>he_hook = h, he_priority = priority\<rparr> hr)"

definition register_hook :: "hook \<Rightarrow> hook_registry \<Rightarrow> hook_registry" where
  "register_hook h hr = register_with_priority h 100 hr"

definition unregister_hook :: "string \<Rightarrow> hook_registry \<Rightarrow> bool \<times> hook_registry" where
  "unregister_hook name hr =
     (let hr1 = filter (\<lambda>e. hk_name (he_hook e) \<noteq> name) hr in (length hr1 < length hr, hr1))"

definition list_hooks :: "hook_registry \<Rightarrow> string list" where
  "list_hooks hr = map (\<lambda>e. hk_name (he_hook e)) hr"

fun run_chain :: "(string \<Rightarrow> json option) \<Rightarrow> hook list \<Rightarrow> hook_event \<Rightarrow> hook_error + hook_event" where
  "run_chain parse [] e = Inr e"
| "run_chain parse (h # hs) e =
     (case hk_execute h e of
        Some (Inr (HoReject reason)) \<Rightarrow> Inl (HerRejected reason)
      | Some (Inr (HoContinue (Some v))) \<Rightarrow> run_chain parse hs (apply_modification parse v e)
      | Some (Inr (HoContinue None)) \<Rightarrow> run_chain parse hs e
      | Some (Inl err) \<Rightarrow>
          (case hk_failure_mode h of
             HfOpen \<Rightarrow> run_chain parse hs e
           | HfClosed \<Rightarrow>
               Inl (HerExecutionFailed (''Hook '' @ [CHR 0x27] @ hk_name h @ [CHR 0x27] @ '' failed: '' @ show_hook_error err)))
      | None \<Rightarrow>
          (case hk_failure_mode h of
             HfOpen \<Rightarrow> run_chain parse hs e
           | HfClosed \<Rightarrow> Inl (HerTimeout (hk_timeout h))))"

definition run_hooks ::
    "(json \<Rightarrow> string) \<Rightarrow> (string \<Rightarrow> json option) \<Rightarrow> hook_event \<Rightarrow> hook_registry \<Rightarrow> hook_error + hook_outcome" where
  "run_hooks to_str parse event hr =
     (let matching = map he_hook (filter (\<lambda>e. List.member (hk_points (he_hook e)) (hook_point_of event)) hr)
      in if matching = [] then Inr (HoContinue None)
         else case run_chain parse matching event of
           Inl err \<Rightarrow> Inl err
         | Inr current \<Rightarrow>
             let modified = extract_content to_str current
             in Inr (HoContinue (if modified \<noteq> extract_content to_str event then Some modified else None)))"

section \<open>Lemmas\<close>

lemma hook_point_modified [simp]: "hook_point_of (apply_modification parse v e) = hook_point_of e"
  by (auto simp: hook_point_of_def apply_modification_def split: hook_event.splits option.splits)

text \<open>The registries that registrations lead to.\<close>

definition hooks_ok :: "hook_registry \<Rightarrow> bool" where
  "hooks_ok hr \<longleftrightarrow> distinct (list_hooks hr) \<and> sorted (map (\<lambda>e. unat (he_priority e)) hr)"

lemma replace_entry_names:
  "set (list_hooks (replace_entry e hr)) = insert (hk_name (he_hook e)) (set (list_hooks hr))"
  by (induction hr) (auto simp: list_hooks_def)

lemma replace_entry_distinct: "distinct (list_hooks hr) \<Longrightarrow> distinct (list_hooks (replace_entry e hr))"
proof (induction hr)
  case (Cons x hr)
  then show ?case using replace_entry_names [of e hr] by (auto simp: list_hooks_def)
qed (simp add: list_hooks_def)

lemma list_hooks_sorted: "mset (list_hooks (sort_key f hr)) = mset (list_hooks hr)"
  by (simp add: list_hooks_def)

lemma register_ok: "hooks_ok hr \<Longrightarrow> hooks_ok (register_with_priority h p hr)"
proof -
  assume ok: "hooks_ok hr"
  let ?r = "replace_entry \<lparr>he_hook = h, he_priority = p\<rparr> hr"
  have "distinct (list_hooks ?r)" using ok by (simp add: hooks_ok_def replace_entry_distinct)
  moreover have "mset (list_hooks (sort_key (\<lambda>e. unat (he_priority e)) ?r)) = mset (list_hooks ?r)" by (rule list_hooks_sorted)
  ultimately have "distinct (list_hooks (register_with_priority h p hr))"
    unfolding register_with_priority_def by (metis mset_eq_imp_distinct_iff)
  then show ?thesis by (simp add: hooks_ok_def register_with_priority_def)
qed

lemma unregister_ok: "hooks_ok hr \<Longrightarrow> hooks_ok (snd (unregister_hook name hr))"
  by (auto simp: hooks_ok_def unregister_hook_def list_hooks_def Let_def distinct_map inj_on_def sorted_filter)

lemma unregister_gone: "name \<notin> set (list_hooks (snd (unregister_hook name hr)))"
  by (auto simp: unregister_hook_def list_hooks_def Let_def)

inductive hooks_reach :: "hook_registry \<Rightarrow> bool" where
  hr_new: "hooks_reach []"
| hr_register: "hooks_reach hr \<Longrightarrow> hooks_reach (register_with_priority h p hr)"
| hr_unregister: "hooks_reach hr \<Longrightarrow> hooks_reach (snd (unregister_hook name hr))"

lemma hooks_reach_ok: "hooks_reach hr \<Longrightarrow> hooks_ok hr"
proof (induction rule: hooks_reach.induct)
  case hr_new
  then show ?case by (simp add: hooks_ok_def list_hooks_def)
qed (rule register_ok unregister_ok, assumption)+

text \<open>What a hook can do to the event of a chain: nothing, a modification, or an end.\<close>

definition lets_pass :: "hook \<Rightarrow> hook_event \<Rightarrow> bool" where
  "lets_pass h e \<longleftrightarrow>
     (case hk_execute h e of
        Some (Inr (HoReject _)) \<Rightarrow> False
      | Some (Inr (HoContinue _)) \<Rightarrow> True
      | _ \<Rightarrow> hk_failure_mode h = HfOpen)"

lemma run_chain_step:
  "run_chain parse (h # hs) e = Inr e' \<Longrightarrow>
   lets_pass h e \<and> (\<exists>e1. (e1 = e \<or> (\<exists>v. e1 = apply_modification parse v e)) \<and> run_chain parse hs e1 = Inr e')"
proof -
  assume run: "run_chain parse (h # hs) e = Inr e'"
  consider (late) "hk_execute h e = None" | (failed) err where "hk_execute h e = Some (Inl err)"
    | (same) "hk_execute h e = Some (Inr (HoContinue None))" | (changed) v where "hk_execute h e = Some (Inr (HoContinue (Some v)))"
    | (rejected) reason where "hk_execute h e = Some (Inr (HoReject reason))"
    by (metis hook_outcome.exhaust option.exhaust sum.exhaust)
  then show ?thesis
  proof cases
    case late
    with run show ?thesis by (cases "hk_failure_mode h") (auto simp: lets_pass_def)
  next
    case (failed err)
    with run show ?thesis by (cases "hk_failure_mode h") (auto simp: lets_pass_def)
  next
    case (changed v)
    with run have "run_chain parse hs (apply_modification parse v e) = Inr e'" by simp
    moreover from changed have "lets_pass h e" by (simp add: lets_pass_def)
    ultimately show ?thesis by blast
  qed (use run in \<open>auto simp: lets_pass_def\<close>)
qed

text \<open>An event gets through a chain only when each hook saw a form of it that the hook lets pass.\<close>

lemma run_chain_passed:
  "run_chain parse hs e = Inr e' \<Longrightarrow> hook_point_of e' = hook_point_of e \<and>
     list_all (\<lambda>h. \<exists>f. hook_point_of f = hook_point_of e \<and> lets_pass h f) hs"
proof (induction hs arbitrary: e)
  case (Cons h hs)
  from run_chain_step [OF Cons.prems] obtain e1 where e1: "lets_pass h e" "e1 = e \<or> (\<exists>v. e1 = apply_modification parse v e)"
    "run_chain parse hs e1 = Inr e'" by blast
  then have "hook_point_of e1 = hook_point_of e" by auto
  with Cons.IH [OF e1(3)] e1(1) show ?case by auto
qed simp

lemma chain_of_registry:
  assumes "run_hooks to_str parse event hr = Inr out"
  shows "\<exists>e'. run_chain parse (map he_hook (filter (\<lambda>e. List.member (hk_points (he_hook e)) (hook_point_of event)) hr)) event = Inr e' \<and>
    out = HoContinue (if extract_content to_str e' \<noteq> extract_content to_str event then Some (extract_content to_str e') else None)"
  using assms by (auto simp: run_hooks_def Let_def split: if_splits sum.splits)


definition shout_hook :: hook where
  "shout_hook = \<lparr>hk_name = ''shout'', hk_points = [HpBeforeInbound], hk_failure_mode = HfClosed, hk_timeout = 5,
     hk_execute = (\<lambda>_. Some (Inr (HoContinue (Some ''HI''))))\<rparr>"


text \<open>A hook that fails open is as if it were not there.\<close>

lemma open_failure_ignored:
  assumes "hk_failure_mode h = HfOpen" "hk_execute h e = None \<or> (\<exists>err. hk_execute h e = Some (Inl err))"
  shows "run_chain parse (h # hs) e = run_chain parse hs e"
  using assms by auto

text \<open>
  A modification that a later hook takes back is no modification: the result compares texts. And a hook that runs for a
  tool call and writes what is no JSON is ignored.
\<close>

lemma modification_taken_back:
  assumes "hk_execute h1 (HevInbound u ch c t) = Some (Inr (HoContinue (Some v)))"
    "hk_execute h2 (HevInbound u ch v t) = Some (Inr (HoContinue (Some c)))"
    "hk_points h1 = [HpBeforeInbound]" "hk_points h2 = [HpBeforeInbound]"
  shows "run_hooks to_str parse (HevInbound u ch c t) [\<lparr>he_hook = h1, he_priority = p\<rparr>, \<lparr>he_hook = h2, he_priority = q\<rparr>]
    = Inr (HoContinue None)"
  using assms by (simp add: run_hooks_def hook_point_of_def apply_modification_def extract_content_def)

end
