(* ===== verification/Spec2Isabelle.thy ===== *)
theory Spec2Isabelle
  imports Structured_Executor Conversation_Manager Job_Context Pending_Gates
    Llm_Retry Response_Cache Undo_Manager Cost_Guard Rate_Limiter
    Mission_Runs Chat_Recovery Chat_Loop Job_Scheduler Container_Worker
    Credential_Injection Context_Compaction Skill_Registry Hook_Registry
begin

text \<open>
  \<^bold>\<open>LunarWing: a verification library of the agent engine and of its guards\<close>

  LunarWing is an agent host in Rust. A message of a user reaches a conversation, which hands it to
  a thread; a thread runs a loop that asks a language model for actions and executes them. What an
  action may do is limited by capability leases, a policy, a pipeline of gates and, in the host, by
  rate limits and cost limits; an action that needs a person waits in a pending gate. Paths below
  are relative to \<open>src/ic\<close>; the engine is the crate \<open>crates/lunarwing_engine\<close>, the host is
  \<open>src\<close>.

  \<^bold>\<open>Parts and theories\<close>

  \<^item> \<open>Prelude\<close>: hash maps as association lists without duplicate keys (\<open>hmap\<close>), stable sorting,
    words, results as sums and the collections of simplification rules shared by all theories. Locale
    \<open>hash_map\<close> is the contract of a map; \<open>state_machine\<close> and \<open>logged_machine\<close> are those of a state
    machine and of one that records its moves, used by threads and by jobs.
  \<^item> \<open>Engine_Types\<close>: the data of the engine (\<open>crates/lunarwing_engine/src/types\<close>): owners, grants,
    leases, actions, messages, events, provenance, errors and thread outcomes, with their methods.
  \<^item> \<open>Thread_Model\<close>: \<open>types/thread.rs\<close>, the thread with its state machine. Every thread reached by
    its operations has a log of state changes that starts at \<open>Created\<close>, moves along the allowed
    edges and ends at the current state.
  \<^item> \<open>Lease_Manager\<close>: \<open>capability/lease.rs\<close>, every operation on the table of leases.
    Shown: the number of successful uses of a
    lease never exceeds its budget over any sequence of operations, derived leases cover no more
    than their parent, revoked leases stay unusable, lookup and consumption agree.
  \<^item> \<open>Policy_Gates\<close>: \<open>capability/registry.rs\<close>, \<open>planner.rs\<close>, \<open>policy.rs\<close> and \<open>gate\<close>: the lease plan of a
    thread, the tool tiers, the policy engine, which refines a specification by the most
    restrictive rule, and the pipeline of gates sorted by priority.
  \<^item> \<open>Structured_Executor\<close>: \<open>executor/structured.rs\<close>, a batch of calls: preflight, execution,
    order of the results, refunds and interruptions. No call runs unless a lease covers it and the
    policy allows it, and results come in the order of the calls.
  \<^item> \<open>Engine_Store\<close>: the tables of \<open>src/bridge/store_adapter.rs\<close>. Locale \<open>thread_store\<close> is the contract
    used by the managers; eviction of finished threads is invisible to lookups.
  \<^item> \<open>Thread_Manager\<close>: \<open>runtime/tree.rs\<close> and \<open>runtime/manager.rs\<close>: spawning, messages, stop, resume,
    approval, recovery after a restart. Operations of one user leave the threads of others
    untouched, and after recovery no thread of the project claims to be running.
  \<^item> \<open>Conversation_Manager\<close>: \<open>runtime/conversation.rs\<close>, routing of messages to threads.
  \<^item> \<open>Llm_Types\<close>, \<open>Circuit_Breaker\<close>, \<open>Llm_Retry\<close>, \<open>Response_Cache\<close>, \<open>Llm_Costs\<close>: the chain of decorators
    around a model (\<open>src/llm\<close>). Locale \<open>llm_layer\<close> is what every layer promises (an answer of the
    wrapped provider passes through while the layer is healthy); it is interpreted by the breaker,
    the retry loop and their composition. Shown: when the breaker opens, refuses and closes again,
    that the failover finds a working provider, how often the retry loop asks and how long it
    waits, and that a cache hit is the last response stored under the key.
  \<^item> \<open>Undo_Manager\<close>: \<open>src/agent/undo.rs\<close>, which refines a zipper of turn states.
  \<^item> \<open>Cost_Guard\<close>: \<open>src/agent/cost_guard.rs\<close>: budgets and the hourly window.
  \<^item> \<open>Rate_Limiter\<close>: \<open>src/tools/rate_limiter.rs\<close>: fixed windows per user and tool.
  \<^item> \<open>Job_Context\<close>: \<open>src/context\<close>: jobs, their memory and the bound on parallel jobs.
  \<^item> \<open>Pending_Gates\<close>: \<open>src/gate\<close>: the store of pending gates with its two indices and its file, and the
    approval gate. A gate is answered at most once, by its owner and on its channel.

  \<^item> \<open>Text_Ops\<close>: the operations on texts that the code uses: trimming, splitting, prefixes, bytes of
    UTF-8, cutting at a boundary of characters.
  \<^item> \<open>Memory_Retrieval\<close>: \<open>types/memory.rs\<close> and \<open>memory/retrieval.rs\<close>: the documents of the engine, their
    table and the ranking; a query gives the best documents of the user in the order of their scores.
  \<^item> \<open>Trace_Analysis\<close>: \<open>executor/trace.rs\<close>, the issues found in a finished thread.
  \<^item> \<open>Mission_Manager\<close>, \<open>Mission_Runs\<close>, \<open>Mission_Learning\<close>, \<open>Mission_Tools\<close>: \<open>types/mission.rs\<close> and
    \<open>runtime/mission.rs\<close>: the life of a mission, its firing by users, by events and by the ticker, the
    outcome of its threads, the learning missions, and the tools of \<open>src/bridge/effect_adapter.rs\<close>.
    Firing is split at the points where the code loads, spawns and saves. Shown: a mission of another user
    is untouched, firing spawns exactly when it should, and what the counters and the schedule miss.
  \<^item> \<open>Host_Tools\<close>: the interface of a tool of the host, the resolution of its name and the redaction of
    its parameters, shared by the gates and by the chat.
  \<^item> \<open>Agent_Session\<close>: \<open>src/agent/session.rs\<close>: turns, threads and sessions. A thread restored from its
    messages has the same messages.
  \<^item> \<open>Session_Manager\<close>: \<open>src/agent/session_manager.rs\<close>: the resolution of a conversation to a session and a
    thread. Sessions are shared, mutable objects in the code; they are kept in an explicit store.
  \<^item> \<open>Agent_Submission\<close>: \<open>src/agent/submission.rs\<close>, the parser of what a user types.
  \<^item> \<open>Chat_Tools\<close>: the batch of tool calls of \<open>src/agent/dispatcher.rs\<close> and the answer to a request for
    approval of \<open>src/agent/thread_ops.rs\<close>.
  \<^item> \<open>Thread_Ops\<close>: the other operations of \<open>src/agent/thread_ops.rs\<close> and the loop over queued messages of
    \<open>src/agent/agent_loop.rs\<close>.
  \<^item> \<open>Chat_Turns\<close>, \<open>Chat_Recovery\<close>: what holds of them together. Locale \<open>checkpointed\<close> is the contract of undo
    with a state that is kept as messages; undo takes a turn back, queued messages keep their order, a
    token never enters the history, a restored thread is found again.
  \<^item> \<open>Response_Text\<close>, \<open>Response_Cleaning\<close>, \<open>Tool_Recovery\<close>: \<open>src/llm/reasoning.rs\<close>: the regions of code in a
    text, the tags that are cut from it, the signs of an intent, the calls recovered from a text, and
    requests with their retries. Thinking is cut whatever surrounds it, answers with no text are retried
    a bounded number of times, recovered calls name known tools.
  \<^item> \<open>Agentic_Loop\<close>, \<open>Chat_Loop\<close>: \<open>src/agent/agentic_loop.rs\<close>, the loop of chats, jobs and containers, over
    a record of its client's operations (the trait \<open>LoopDelegate\<close>), and the client of a chat turn. Locale
    \<open>loop_invariant\<close> gives an invariant of the loop from those of the client's operations, locale
    \<open>text_forcing\<close> the end of a loop whose client forbids tools from some iteration on.
  \<^item> \<open>Job_Worker\<close>, \<open>Job_Runs\<close>: \<open>src/worker/job.rs\<close>, the run of a job with its plan and its loop. Locale
    \<open>worker_closed\<close> collects what must be kept by the operations of a worker, with \<open>loop_invariant\<close> as a
    sublocale. A worker touches its own job only; no tool runs unchecked.
  \<^item> \<open>Job_Scheduler\<close>: \<open>src/agent/scheduler.rs\<close>, the table of running jobs, with workers as arguments: its
    bound and the bound of the context manager hold over all sequences of operations.
  \<^item> \<open>Container_Worker\<close>: \<open>src/worker/container.rs\<close>, the same loop inside a container and its report.
  \<^item> \<open>Outbound_Hosts\<close>: where a tool may send requests: \<open>src/tools/wasm/allowlist.rs\<close>, \<open>capabilities.rs\<close> and
    \<open>src/sandbox/proxy/allowlist.rs\<close>. An allowed request goes where an entry of the list says; the four
    matchers of hosts are compared.
  \<^item> \<open>Credential_Injection\<close>: \<open>src/sandbox/proxy/policy.rs\<close> and \<open>http.rs\<close>, \<open>src/secrets\<close> and
    \<open>src/tools/wasm/credential_injector.rs\<close>: the secrets, and the requests they are added to.
  \<^item> \<open>Context_Compaction\<close>: \<open>src/agent/context_monitor.rs\<close> and \<open>compaction.rs\<close>: when a conversation is
    shortened, what is kept, what is archived and what is lost.
  \<^item> \<open>Skill_Types\<close>, \<open>Skill_Selection\<close>, \<open>Skill_Registry\<close>: \<open>src/skills\<close>: the files of skills and their escaping,
    the choice of skills for a message and the tools that remain with them, and the registry with its
    files, whose installations and removals other tasks may come between.
  \<^item> \<open>Hook_Registry\<close>: \<open>src/hooks\<close>: the chain of hooks that an event passes.

  \<^bold>\<open>Conventions\<close>

  A struct is a record whose fields carry a prefix, an enum a datatype. State is passed explicitly;
  an operation that fails returns a sum with the error on the left. A lock is an atomic step: where
  the code releases a lock between two phases, the phases are separate definitions and the theorems
  range over all interleavings. The clock and fresh identifiers are arguments. Machine integers are
  words where they can overflow, \<open>usize\<close> is a natural number, a \<open>Decimal\<close> a rational and an \<open>f64\<close> a real
  number. A \<open>HashMap\<close> is an association list; where the code iterates over one, the theorems hold for
  every order of the list. Characters are the first 256 Unicode scalars.

  Loops are structural recursions or functions with a measure, so no fuel is needed: trimming a memory
  and evicting cache entries shorten a list, the retry loop counts the attempts left. The walk to the
  ancestors of a thread has no bound in the code: it is a partial function, and it is shown to return
  on every tree that the manager builds. The agentic loop counts the iterations left, as the code does. The loop over queued messages goes on as long as other tasks
  queue messages, so it takes a bound on its rounds.

  Code outside the repository is a parameter: the effects of an action, the provider of a model, the
  digest of the cache key, the parser of dates, the file of pending gates with its failures.

  \<^bold>\<open>Not modelled\<close>

  The loop that runs model-written Python in an embedded interpreter (\<open>executor/orchestrator.rs\<close>,
  \<open>scripting.rs\<close>, \<open>loop_engine.rs\<close>), the assembly of prompts, the channels, the WASM runtime, the SQL of
  the databases, the set-up and the individual tools: these are input and output, bindings to
  third-party code or text. The serialisation of engine documents into the workspace is represented
  by the archive it writes.
\<close>

end
